(* ===== verification/Prelude.thy ===== *)
theory Prelude
  imports Main "HOL-Library.Word"
begin

text \<open>
  What the components share: the Go integer types at their widths, the clock, the byte
  codecs of Go's \<open>encoding/binary\<close>, Go's \<open>error\<close> values with the chain that
  \<open>errors.Is\<close> walks, and the generic lemmas on lists and maps the component proofs use.
\<close>

unbundle bit_operations_syntax

named_theorems codec_simps
  \<open>evaluation of the fixed-width byte codecs\<close>

section \<open>Go's types\<close>

type_synonym byte = "8 word"
type_synonym u16 = "16 word"
type_synonym u32 = "32 word"
type_synonym u64 = "64 word"
type_synonym bytes = "byte list"

text \<open>
  A \<open>time.Time\<close> is its distance in nanoseconds from the Unix epoch, a
  \<open>time.Duration\<close> a number of nanoseconds. \<open>time_zero\<close> is \<open>time.Time{}\<close>, the
  first instant of the year 1, which \<open>IsZero\<close> recognises. \<open>time_sub\<close> is
  \<open>Time.Sub\<close>, which saturates at the ends of \<open>int64\<close>.
\<close>

type_synonym time = int
type_synonym duration = int

definition time_zero :: time where
  "time_zero = - 62135596800 * 1000000000"

definition time_add :: "time \<Rightarrow> duration \<Rightarrow> time" where
  "time_add t d = t + d"

definition time_sub :: "time \<Rightarrow> time \<Rightarrow> duration" where
  "time_sub t u = max (- (2 ^ 63)) (min (2 ^ 63 - 1) (t - u))"

definition seconds :: "int \<Rightarrow> duration" where
  "seconds n = n * 1000000000"

definition milliseconds :: "int \<Rightarrow> duration" where
  "milliseconds n = n * 1000000"

lemma time_sub_ge_iff:
  "- (2 ^ 63) < d \<Longrightarrow> d < 2 ^ 63 \<Longrightarrow> d \<le> time_sub t u \<longleftrightarrow> d \<le> t - u"
  unfolding time_sub_def by linarith

section \<open>Errors\<close>

text \<open>
  The error variables of the packages, by their Go names, and the errors of the standard
  library the code tests for. \<open>Errorf m\<close> is an error made by \<open>errors.New\<close> or by
  \<open>fmt.Errorf\<close> without \<open>%w\<close>; \<open>Wrap m e\<close> is \<open>fmt.Errorf("m: %w", e)\<close>.
\<close>

datatype sentinel =
    ErrMalformedPacket | ErrWrongVersion | ErrWrongPayloadType | ErrEmptyPayload
  | ErrFrameTooLarge | ErrUnknownMessageType | ErrNotConnected
  | ErrStreamNotFound | ErrIllegalTransition
  | ErrDeviceNotFound | ErrAuthFailed | ErrDecode
  | IoEOF | IoUnexpectedEOF | NetErrClosed | CtxCanceled | CtxDeadlineExceeded

datatype goerr =
    Sentinel sentinel
  | Errorf string
  | Wrap string goerr
  | Joined goerr goerr

text \<open>\<open>errors.Is\<close>: the error itself or one it wraps; \<open>Joined\<close> is \<open>errors.Join\<close> of two.\<close>

fun errors_is :: "goerr \<Rightarrow> sentinel \<Rightarrow> bool" where
  "errors_is (Sentinel s) t \<longleftrightarrow> s = t"
| "errors_is (Errorf m) t \<longleftrightarrow> False"
| "errors_is (Wrap m e) t \<longleftrightarrow> errors_is e t"
| "errors_is (Joined e f) t \<longleftrightarrow> errors_is e t \<or> errors_is f t"

section \<open>Signed numbers\<close>

text \<open>Go's \<open>/\<close> on \<open>int64\<close> truncates towards zero.\<close>

definition quot :: "int \<Rightarrow> int \<Rightarrow> int" where
  "quot a b = sgn a * sgn b * (\<bar>a\<bar> div \<bar>b\<bar>)"

lemma sint_word_of_int64:
  assumes "- (2 ^ 63) \<le> k" "k < 2 ^ 63"
  shows "sint (word_of_int k :: 64 word) = k"
proof -
  have "signed_take_bit 63 k = k" using assms by (intro signed_take_bit_int_eq_self) simp_all
  then show ?thesis by (simp add: signed_of_int)
qed

section \<open>Byte codecs\<close>

text \<open>
  \<open>binary.LittleEndian.PutUint16/32/64\<close> store the bytes of a word from the least
  significant on; \<open>BigEndian\<close> stores them the other way round. \<open>le_bytes n w\<close> is the
  \<open>n\<close> bytes written.
\<close>

primrec le_bytes :: "nat \<Rightarrow> 'a::len word \<Rightarrow> bytes" where
  "le_bytes 0 w = []"
| "le_bytes (Suc n) w = ucast w # le_bytes n (drop_bit 8 w)"

definition be_bytes :: "nat \<Rightarrow> 'a::len word \<Rightarrow> bytes" where
  "be_bytes n w = rev (le_bytes n w)"

primrec le_nat :: "bytes \<Rightarrow> nat" where
  "le_nat [] = 0"
| "le_nat (b # bs) = unat b + 256 * le_nat bs"

definition le_word :: "bytes \<Rightarrow> 'a::len word" where
  "le_word bs = word_of_nat (le_nat bs)"

definition be_word :: "bytes \<Rightarrow> 'a::len word" where
  "be_word bs = le_word (rev bs)"

lemma length_le_bytes [simp, codec_simps]: "length (le_bytes n w) = n"
  by (induction n arbitrary: w) auto

lemma length_be_bytes [simp, codec_simps]: "length (be_bytes n w) = n"
  by (simp add: be_bytes_def)

lemma unat_low_byte: "unat (ucast (w :: 'a::len word) :: byte) = unat w mod 256"
  by (simp add: unsigned_ucast_eq take_bit_eq_mod)

lemma unat_drop_byte: "unat (drop_bit 8 (w :: 'a::len word)) = unat w div 256"
  unfolding unat_drop_bit_eq by (simp add: drop_bit_nat_def)

lemma le_nat_le_bytes: "le_nat (le_bytes n w) = unat w mod 256 ^ n"
proof (induction n arbitrary: w)
  case 0
  then show ?case by simp
next
  case (Suc n)
  have "le_nat (le_bytes (Suc n) w) = unat w mod 256 + 256 * (unat w div 256 mod 256 ^ n)"
    by (simp add: Suc.IH unat_low_byte unat_drop_byte)
  also have "\<dots> = unat w mod 256 ^ Suc n"
    by (simp add: mod_mult2_eq)
  finally show ?case .
qed

lemma unat_bound_bytes: "LENGTH('a) \<le> 8 * n \<Longrightarrow> unat (w :: 'a::len word) < 256 ^ n"
proof -
  assume "LENGTH('a) \<le> 8 * n"
  then have "(2::nat) ^ LENGTH('a) \<le> 2 ^ (8 * n)" by (rule power_increasing) simp
  moreover have "(2::nat) ^ (8 * n) = 256 ^ n" by (simp add: power_mult)
  ultimately show ?thesis using unsigned_less [of w] by (metis order_less_le_trans)
qed

lemma le_word_le_bytes [codec_simps]:
  "LENGTH('a) \<le> 8 * n \<Longrightarrow> le_word (le_bytes n (w :: 'a::len word)) = w"
  by (simp add: le_word_def le_nat_le_bytes unat_bound_bytes)

lemma be_word_be_bytes [codec_simps]:
  "LENGTH('a) \<le> 8 * n \<Longrightarrow> be_word (be_bytes n (w :: 'a::len word)) = w"
  by (simp add: be_word_def be_bytes_def le_word_le_bytes)

text \<open>A Go string's bytes: \<open>string\<close> is a list of \<open>char\<close>, each one byte.\<close>

definition byte_of_char :: "char \<Rightarrow> byte" where
  "byte_of_char c = word_of_nat (of_char c)"

definition str_bytes :: "string \<Rightarrow> bytes" where
  "str_bytes s = map byte_of_char s"

lemma length_str_bytes [simp]: "length (str_bytes s) = length s"
  by (simp add: str_bytes_def)

section \<open>Shared contracts\<close>

text \<open>
  A self-delimiting wire format: \<open>dec\<close> peels the encoding of one value off the front of
  a stream and hands the rest back. Control frames and Ogg pages are both of this kind, and
  both get the whole-stream round trip from here.
\<close>

locale self_delimiting =
  fixes enc :: "'a \<Rightarrow> bytes"
    and dec :: "bytes \<Rightarrow> ('a \<times> bytes) option"
    and ok :: "'a \<Rightarrow> bool"
  assumes dec_enc: "ok a \<Longrightarrow> dec (enc a @ rest) = Some (a, rest)"
    and dec_nil: "dec [] = None"
    and dec_shorter: "dec bs = Some (a, rest) \<Longrightarrow> length rest < length bs"
begin

fun dec_all :: "nat \<Rightarrow> bytes \<Rightarrow> 'a list \<times> bytes" where
  "dec_all 0 bs = ([], bs)"
| "dec_all (Suc n) bs =
     (case dec bs of None \<Rightarrow> ([], bs)
      | Some (a, rest) \<Rightarrow> (case dec_all n rest of (as, r) \<Rightarrow> (a # as, r)))"

lemma dec_all_enc:
  "(\<forall>a\<in>set as. ok a) \<Longrightarrow> length as \<le> n \<Longrightarrow> dec_all n (concat (map enc as)) = (as, [])"
proof (induction as arbitrary: n)
  case Nil
  then show ?case by (cases n) (simp_all add: dec_nil)
next
  case (Cons a as)
  then show ?case by (cases n) (simp_all add: dec_enc)
qed

end

text \<open>
  A component driven by events: every event keeps the invariant, so every run does.
\<close>

locale event_machine =
  fixes step :: "'s \<Rightarrow> 'e \<Rightarrow> 's"
    and inv :: "'s \<Rightarrow> bool"
  assumes step_inv: "inv s \<Longrightarrow> inv (step s e)"
begin

lemma run_inv: "inv s \<Longrightarrow> inv (foldl step s es)"
  by (induction es arbitrary: s) (simp_all add: step_inv)

end

text \<open>
  A registry keyed by an identifier: what a lookup returns after an insertion or a deletion.
  The device registry, the stream registry and the RTP receiver are used through this
  contract.
\<close>

locale keyed_store =
  fixes lookup :: "'s \<Rightarrow> 'k \<Rightarrow> 'v option"
    and insert_at :: "'k \<Rightarrow> 'v \<Rightarrow> 's \<Rightarrow> 's"
    and delete_at :: "'k \<Rightarrow> 's \<Rightarrow> 's"
  assumes lookup_insert: "lookup (insert_at k v s) = (lookup s)(k \<mapsto> v)"
    and lookup_delete: "lookup (delete_at k s) = (lookup s)(k := None)"
begin

lemma lookup_insert_all:
  "lookup (foldl (\<lambda>s (k, v). insert_at k v s) s kvs) = lookup s ++ map_of (rev kvs)"
  by (induction kvs arbitrary: s) (auto simp: lookup_insert map_add_def fun_eq_iff split: option.splits)

lemma lookup_delete_all:
  "lookup (foldl (\<lambda>s k. delete_at k s) s ks) = lookup s |` (- set ks)"
  by (induction ks arbitrary: s) (auto simp: lookup_delete restrict_map_def fun_eq_iff)

end

section \<open>Generic lemmas\<close>

lemma take_append_exact: "length xs = n \<Longrightarrow> take n (xs @ ys) = xs"
  by simp

lemma drop_append_exact: "length xs = n \<Longrightarrow> drop n (xs @ ys) = ys"
  by simp

lemma sorted_wrt_pair:
  "sorted_wrt R xs \<Longrightarrow> x \<in> set xs \<Longrightarrow> y \<in> set xs \<Longrightarrow> x = y \<or> R x y \<or> R y x"
  by (induction xs) auto

lemma map_upd_ran: "ran (m(k \<mapsto> v)) \<subseteq> insert v (ran m)"
  by (auto simp: ran_def)

lemma map_del_ran: "ran (m(k := None)) \<subseteq> ran m"
  by (auto simp: ran_def split: if_splits)

lemma finite_dom_upd [simp]: "finite (dom m) \<Longrightarrow> finite (dom (m(k \<mapsto> v)))"
  by simp

end
