(* ===== verification/Pcm_Bus.thy ===== *)
theory Pcm_Bus
  imports Prelude "HOL-Library.Sublist"
begin

text \<open>
  The decoded-audio contract of \<open>internal/audio\<close>: the frame of \<open>frame.go\<close>, the
  distribution bus of \<open>bus.go\<close> and the WebSocket output of \<open>live.go\<close>. The bus keeps its
  listeners in a Go slice whose backing array \<open>Publish\<close> and \<open>Unsubscribe\<close> share, so the
  arrays live in a heap.
\<close>

section \<open>Frames\<close>

type_synonym i16 = "16 word"

definition SampleRate :: int where
  "SampleRate = 48000"

definition Channels :: nat where
  "Channels = 2"

record decoded_audio_frame =
  af_StreamID :: string
  af_Timestamp48k :: u32
  af_SampleCountPerChannel :: u32
  af_SampleRate :: int
  af_Channels :: nat
  af_PCM :: "i16 list"
  af_Discontinuity :: bool
  af_SourceRTPSequenceStart :: u16
  af_SourceRTPSequenceEnd :: u16

definition NewFrame :: "string \<Rightarrow> u32 \<Rightarrow> decoded_audio_frame" where
  "NewFrame streamID timestamp48k =
     \<lparr>af_StreamID = streamID, af_Timestamp48k = timestamp48k, af_SampleCountPerChannel = 0,
      af_SampleRate = SampleRate, af_Channels = Channels, af_PCM = [], af_Discontinuity = False,
      af_SourceRTPSequenceStart = 0, af_SourceRTPSequenceEnd = 0\<rparr>"

definition af_Valid :: "decoded_audio_frame \<Rightarrow> bool" where
  "af_Valid f \<longleftrightarrow>
     \<not> (af_StreamID f = '''' \<or> af_SampleRate f \<noteq> SampleRate \<or> af_Channels f \<noteq> Channels) \<and>
     length (af_PCM f) = unat (af_SampleCountPerChannel f) * af_Channels f"

section \<open>The bus\<close>

type_synonym listener = nat
type_synonym array_ref = nat

text \<open>\<open>b.listeners\<close> is the slice of the first \<open>bus_len\<close> elements of the array
  \<open>bus_arr\<close>, whose length is the slice's capacity. \<open>None\<close> is a nil interface.\<close>

record pcm_bus =
  bus_heap :: "array_ref \<Rightarrow> listener option list"
  bus_next :: array_ref
  bus_arr :: array_ref
  bus_len :: nat

definition NewPCMBus :: pcm_bus where
  "NewPCMBus = \<lparr>bus_heap = (\<lambda>_. []), bus_next = 1, bus_arr = 0, bus_len = 0\<rparr>"

definition bus_elems :: "pcm_bus \<Rightarrow> listener option list" where
  "bus_elems b = take (bus_len b) (bus_heap b (bus_arr b))"

text \<open>\<open>append\<close> writes in place while the capacity lasts and otherwise copies to a new array,
  whose capacity \<open>grow n\<close> for \<open>n\<close> elements the runtime chooses.\<close>

definition bus_append :: "(nat \<Rightarrow> nat) \<Rightarrow> listener \<Rightarrow> pcm_bus \<Rightarrow> pcm_bus" where
  "bus_append grow l b =
     (let xs = bus_heap b (bus_arr b); n = bus_len b
      in if n < length xs
         then b\<lparr>bus_heap := (bus_heap b)(bus_arr b := xs[n := Some l]), bus_len := Suc n\<rparr>
         else b\<lparr>bus_heap := (bus_heap b)
                  (bus_next b := take n xs @ Some l # replicate (grow (Suc n) - Suc n) None),
                bus_arr := bus_next b, bus_next := Suc (bus_next b), bus_len := Suc n\<rparr>)"

definition bus_Subscribe :: "(nat \<Rightarrow> nat) \<Rightarrow> listener \<Rightarrow> pcm_bus \<Rightarrow> pcm_bus" where
  "bus_Subscribe grow l b = (if Some l \<in> set (bus_elems b) then b else bus_append grow l b)"

text \<open>The loop of \<open>Unsubscribe\<close>: \<open>out\<close> is \<open>b.listeners[:0]\<close>, the same array; \<open>i\<close> is
  the position read, \<open>j\<close> the length of \<open>out\<close>.\<close>

fun compact :: "listener \<Rightarrow> nat \<Rightarrow> nat \<Rightarrow> nat \<Rightarrow> listener option list \<Rightarrow> listener option list \<times> nat" where
  "compact l 0 i j xs = (xs, j)"
| "compact l (Suc n) i j xs =
     (let cur = xs ! i
      in if cur \<noteq> Some l then compact l n (Suc i) (Suc j) (xs[j := cur])
         else compact l n (Suc i) j xs)"

definition bus_Unsubscribe :: "listener \<Rightarrow> pcm_bus \<Rightarrow> pcm_bus" where
  "bus_Unsubscribe l b =
     (case compact l (bus_len b) 0 0 (bus_heap b (bus_arr b)) of
        (xs, n) \<Rightarrow> b\<lparr>bus_heap := (bus_heap b)(bus_arr b := xs), bus_len := n\<rparr>)"

text \<open>
  \<open>Publish\<close> copies the slice under the lock and then calls the listeners without it.
  \<open>between i\<close> is what the other goroutines do to the bus during the call of the listener at
  index \<open>i\<close>. The result lists the listeners called.
\<close>

fun publish_loop ::
  "(nat \<Rightarrow> pcm_bus \<Rightarrow> pcm_bus) \<Rightarrow> nat \<Rightarrow> nat \<Rightarrow> array_ref \<Rightarrow> pcm_bus \<Rightarrow> listener option list \<times> pcm_bus" where
  "publish_loop between 0 i arr b = ([], b)"
| "publish_loop between (Suc n) i arr b =
     (let l = bus_heap b arr ! i
      in case publish_loop between n (Suc i) arr (between i b) of (ls, b') \<Rightarrow> (l # ls, b'))"

definition bus_Publish ::
  "(nat \<Rightarrow> pcm_bus \<Rightarrow> pcm_bus) \<Rightarrow> decoded_audio_frame option \<Rightarrow> pcm_bus \<Rightarrow> listener option list \<times> pcm_bus" where
  "bus_Publish between frame b =
     (if frame = None then ([], b) else publish_loop between (bus_len b) 0 (bus_arr b) b)"

definition bus_ListenerCount :: "pcm_bus \<Rightarrow> nat" where
  "bus_ListenerCount b = bus_len b"

section \<open>Lemmas\<close>

text \<open>The slice lies within its array, the array is allocated, and no listener is nil or twice
  there.\<close>

definition bus_inv :: "pcm_bus \<Rightarrow> bool" where
  "bus_inv b \<longleftrightarrow> bus_len b \<le> length (bus_heap b (bus_arr b)) \<and> bus_arr b < bus_next b \<and>
     None \<notin> set (bus_elems b) \<and> distinct (bus_elems b)"

definition listeners :: "pcm_bus \<Rightarrow> listener list" where
  "listeners b = map the (bus_elems b)"

lemma bus_elems_listeners: "bus_inv b \<Longrightarrow> bus_elems b = map Some (listeners b)"
  by (auto simp: bus_inv_def listeners_def intro!: map_idI [symmetric]) (metis option.collapse)

lemma compact_spec:
  assumes "j \<le> i" and "i + n \<le> length xs"
  shows "case compact l n i j xs of (ys, m) \<Rightarrow>
    length ys = length xs \<and> j \<le> m \<and> m \<le> i + n \<and>
    take m ys = take j xs @ filter (\<lambda>x. x \<noteq> Some l) (take n (drop i xs)) \<and>
    drop m ys = drop m xs"
  using assms
proof (induction l n i j xs rule: compact.induct)
  case (1 l i j xs)
  then show ?case by simp
next
  case (2 l n i j xs)
  let ?cur = "xs ! i"
  have tk: "take (Suc n) (drop i xs) = ?cur # take n (drop (Suc i) xs)"
    using 2(4) by (simp add: Cons_nth_drop_Suc [symmetric])
  show ?case
  proof (cases "?cur = Some l")
    case True
    with 2 tk show ?thesis by (auto split: prod.splits)
  next
    case False
    have dr: "drop (Suc i) (xs[j := ?cur]) = drop (Suc i) xs"
      using 2(3) by (simp add: drop_update_cancel)
    have tj: "take (Suc j) (xs[j := ?cur]) = take j xs @ [?cur]"
      using 2(3,4) by (simp add: take_Suc_conv_app_nth)
    have dn: "Suc j \<le> m \<Longrightarrow> drop m (xs[j := ?cur]) = drop m xs" for m
      by (simp add: drop_update_cancel)
    show ?thesis
      using 2(1) [OF refl False] 2(3,4) False tk dr tj dn by (auto split: prod.splits)
  qed
qed

lemma Unsubscribe_elems:
  assumes "bus_inv b"
  shows "bus_elems (bus_Unsubscribe l b) = filter (\<lambda>x. x \<noteq> Some l) (bus_elems b) \<and>
    bus_arr (bus_Unsubscribe l b) = bus_arr b \<and> bus_next (bus_Unsubscribe l b) = bus_next b \<and>
    bus_len (bus_Unsubscribe l b) \<le> length (bus_heap (bus_Unsubscribe l b) (bus_arr b))"
  using assms compact_spec [of 0 0 "bus_len b" "bus_heap b (bus_arr b)" l]
  by (auto simp: bus_Unsubscribe_def bus_elems_def bus_inv_def split: prod.splits)

lemma bus_append_elems:
  assumes "bus_inv b"
  shows "bus_elems (bus_append grow l b) = bus_elems b @ [Some l] \<and>
    bus_arr (bus_append grow l b) < bus_next (bus_append grow l b) \<and>
    bus_len (bus_append grow l b) \<le> length (bus_heap (bus_append grow l b) (bus_arr (bus_append grow l b)))"
  using assms by (auto simp: bus_append_def bus_elems_def bus_inv_def Let_def take_Suc_conv_app_nth)

lemma Subscribe_inv: "bus_inv b \<Longrightarrow> bus_inv (bus_Subscribe grow l b)"
  using bus_append_elems [of b grow l] by (auto simp: bus_Subscribe_def bus_inv_def)

lemma Unsubscribe_inv: "bus_inv b \<Longrightarrow> bus_inv (bus_Unsubscribe l b)"
  using Unsubscribe_elems [of b l] by (auto simp: bus_inv_def)

text \<open>Reading the array while an invariant protects the part of it the snapshot covers.\<close>

lemma publish_undisturbed:
  assumes step: "\<And>k c. P c \<Longrightarrow> P (between k c)" and arr: "\<And>c. P c \<Longrightarrow> take m (bus_heap c arr) = xs"
    and "P b" and len: "length xs = m" and "i + n = m"
  shows "fst (publish_loop between n i arr b) = drop i xs"
  using assms(3,5)
proof (induction n arbitrary: i b)
  case 0
  then show ?case using len by simp
next
  case (Suc n)
  have lt: "i < m" using Suc.prems(2) by simp
  have "bus_heap b arr ! i = take m (bus_heap b arr) ! i" using lt by simp
  then have hd: "bus_heap b arr ! i = xs ! i" using arr [OF Suc.prems(1)] by simp
  have "fst (publish_loop between n (Suc i) arr (between i b)) = drop (Suc i) xs"
    using Suc.IH [OF step [OF Suc.prems(1)]] Suc.prems(2) by simp
  then show ?case using hd lt len by (auto simp: Cons_nth_drop_Suc split: prod.splits)
qed

lemma publish_loop_cong:
  "(\<And>k. i \<le> k \<Longrightarrow> f k = g k) \<Longrightarrow> publish_loop f n i arr b = publish_loop g n i arr b"
  by (induction n arbitrary: i b) simp_all

definition snapshot_safe :: "array_ref \<Rightarrow> nat \<Rightarrow> listener option list \<Rightarrow> pcm_bus \<Rightarrow> bool" where
  "snapshot_safe arr m xs c \<longleftrightarrow> take m (bus_heap c arr) = xs \<and> bus_arr c < bus_next c \<and>
     arr < bus_next c \<and> (bus_arr c = arr \<longrightarrow> m \<le> bus_len c)"

lemma Subscribe_snapshot_safe:
  "snapshot_safe arr m xs c \<Longrightarrow> snapshot_safe arr m xs (bus_Subscribe grow l c)"
  by (auto simp: snapshot_safe_def bus_Subscribe_def bus_append_def Let_def)

lemma Subscribe_all_snapshot_safe:
  "snapshot_safe arr m xs c \<Longrightarrow> snapshot_safe arr m xs (foldl (\<lambda>c l. bus_Subscribe grow l c) c ls)"
  by (induction ls arbitrary: c) (auto intro: Subscribe_snapshot_safe)

datatype bus_event = EvSubscribe listener | EvUnsubscribe listener

fun bus_step :: "(nat \<Rightarrow> nat) \<Rightarrow> pcm_bus \<Rightarrow> bus_event \<Rightarrow> pcm_bus" where
  "bus_step grow b (EvSubscribe l) = bus_Subscribe grow l b"
| "bus_step grow b (EvUnsubscribe l) = bus_Unsubscribe l b"

interpretation bus_runs: event_machine "bus_step grow" bus_inv
proof
  show "bus_inv s \<Longrightarrow> bus_inv (bus_step grow s e)" for s e
    by (cases e) (simp_all add: Subscribe_inv Unsubscribe_inv)
qed

lemma NewPCMBus_inv: "bus_inv NewPCMBus"
  by (simp add: bus_inv_def NewPCMBus_def bus_elems_def)

text \<open>The specification: a list of listeners without duplicates.\<close>

fun spec_step :: "listener list \<Rightarrow> bus_event \<Rightarrow> listener list" where
  "spec_step ls (EvSubscribe l) = (if l \<in> set ls then ls else ls @ [l])"
| "spec_step ls (EvUnsubscribe l) = filter (\<lambda>x. x \<noteq> l) ls"

lemma listeners_Subscribe:
  assumes "bus_inv b"
  shows "listeners (bus_Subscribe grow l b) = spec_step (listeners b) (EvSubscribe l)"
proof -
  have "Some l \<in> set (bus_elems b) \<longleftrightarrow> l \<in> set (listeners b)"
    using bus_elems_listeners [OF assms] by auto
  then show ?thesis
    using bus_append_elems [OF assms, of grow l] by (simp add: bus_Subscribe_def listeners_def)
qed

lemma listeners_Unsubscribe:
  assumes "bus_inv b"
  shows "listeners (bus_Unsubscribe l b) = spec_step (listeners b) (EvUnsubscribe l)"
proof -
  have "bus_elems (bus_Unsubscribe l b) = map Some (filter (\<lambda>x. x \<noteq> l) (listeners b))"
    using Unsubscribe_elems [OF assms, of l] bus_elems_listeners [OF assms]
    by (simp add: filter_map comp_def)
  then show ?thesis by (simp add: listeners_def comp_def)
qed

lemma listeners_run:
  "bus_inv b \<Longrightarrow> listeners (foldl (bus_step grow) b es) = foldl spec_step (listeners b) es"
proof (induction es arbitrary: b)
  case Nil
  then show ?case by simp
next
  case (Cons e es)
  then show ?case
    using bus_runs.step_inv [of b grow e]
    by (cases e) (simp_all add: listeners_Subscribe listeners_Unsubscribe)
qed

lemma publish_safe:
  assumes "bus_inv b" and "\<And>k c. snapshot_safe (bus_arr b) (bus_len b) (bus_elems b) c \<Longrightarrow>
      snapshot_safe (bus_arr b) (bus_len b) (bus_elems b) (between k c)"
  shows "fst (bus_Publish between (Some f) b) = map Some (listeners b)"
proof -
  have "snapshot_safe (bus_arr b) (bus_len b) (bus_elems b) b"
    using assms(1) by (simp add: snapshot_safe_def bus_inv_def bus_elems_def)
  moreover have "length (bus_elems b) = bus_len b" using assms(1) by (simp add: bus_inv_def bus_elems_def)
  ultimately have "fst (publish_loop between (bus_len b) 0 (bus_arr b) b) = drop 0 (bus_elems b)"
    by (intro publish_undisturbed [where P = "snapshot_safe (bus_arr b) (bus_len b) (bus_elems b)"])
      (use assms(2) in \<open>auto simp: snapshot_safe_def\<close>)
  then show ?thesis using bus_elems_listeners [OF assms(1)] by (simp add: bus_Publish_def)
qed

section \<open>Properties of the bus\<close>

text \<open>The bus implements a duplicate-free list of listeners: after any history of
  subscriptions and unsubscriptions, whatever capacities the runtime chose, a published frame
  reaches exactly the current subscribers, each once and in subscription order, even when other
  goroutines subscribe meanwhile; the count is theirs and a nil frame reaches nobody.\<close>

theorem publish_reaches_subscribers:
  assumes "b = foldl (bus_step grow) NewPCMBus es"
  shows "fst (bus_Publish (\<lambda>k c. foldl (\<lambda>c l. bus_Subscribe grow' l c) c (subs k)) (Some f) b) =
      map Some (foldl spec_step [] es) \<and>
    distinct (foldl spec_step [] es) \<and>
    bus_ListenerCount b = length (foldl spec_step [] es) \<and>
    bus_Publish between None b = ([], b)"
proof -
  have inv: "bus_inv b" unfolding assms by (rule bus_runs.run_inv) (rule NewPCMBus_inv)
  have ls: "listeners b = foldl spec_step [] es"
    using listeners_run [OF NewPCMBus_inv, of grow es] assms
    by (simp add: listeners_def bus_elems_def NewPCMBus_def)
  have "distinct (map Some (listeners b))"
    using inv bus_elems_listeners [OF inv] by (simp add: bus_inv_def)
  then have "distinct (listeners b)" by (metis distinct_map)
  moreover have "bus_len b = length (listeners b)"
    using inv by (simp add: bus_inv_def listeners_def bus_elems_def)
  ultimately have "distinct (listeners b)" "bus_len b = length (listeners b)" by simp_all
  with publish_safe [OF inv Subscribe_all_snapshot_safe] ls show ?thesis
    by (simp add: bus_ListenerCount_def bus_Publish_def)
qed

text \<open>Unsubscribing while a frame is being published disturbs the others: when the first of
  at least two listeners unsubscribes after its call, the second never gets the frame and the last
  one gets it twice (once in the case of two), because \<open>Unsubscribe\<close> compacts the array the
  publisher is reading.\<close>

theorem unsubscribe_during_publish_skips:
  assumes "b = foldl (bus_step grow) NewPCMBus es" and "listeners b = x # y # ls"
  shows "fst (bus_Publish (\<lambda>k. if k = 0 then bus_Unsubscribe x else (\<lambda>c. c)) (Some f) b) =
    map Some (x # ls @ [last (y # ls)])"
proof -
  let ?btw = "\<lambda>k. if k = 0 then bus_Unsubscribe x else (\<lambda>c. c)"
  have inv: "bus_inv b" unfolding assms(1) by (rule bus_runs.run_inv) (rule NewPCMBus_inv)
  let ?arr = "bus_arr b" and ?m = "bus_len b" and ?c = "bus_Unsubscribe x b"
  have el: "bus_elems b = map Some (x # y # ls)" using bus_elems_listeners [OF inv] assms(2) by simp
  then have m: "?m = Suc (Suc (length ls))" "?m \<le> length (bus_heap b ?arr)"
    using inv by (auto simp: bus_elems_def bus_inv_def dest: arg_cong [where f = length])
  have dist: "x \<notin> set (y # ls)" using inv el by (auto simp: bus_inv_def)
  have flt: "filter (\<lambda>v. v \<noteq> Some x) (bus_elems b) = map Some (y # ls)"
    using el dist by (auto simp: filter_map comp_def intro!: filter_True)
  obtain zs k where co: "compact x ?m 0 0 (bus_heap b ?arr) = (zs, k)" by force
  then have hc: "bus_heap ?c ?arr = zs" by (simp add: bus_Unsubscribe_def)
  from compact_spec [of 0 0 ?m "bus_heap b ?arr" x] co m flt
  have zs: "length zs = length (bus_heap b ?arr)" "take k zs = map Some (y # ls)"
      "drop k zs = drop k (bus_heap b ?arr)"
    by (auto simp: bus_elems_def)
  have k: "k = Suc (length ls)"
    using zs(1,2) m by (auto dest: arg_cong [where f = length])
  have "zs ! k = bus_heap b ?arr ! k"
    using zs(1,3) k m by (metis Suc_le_eq add.right_neutral nth_drop order_less_imp_le order_refl)
  also have "\<dots> = bus_elems b ! k" using m k by (simp add: bus_elems_def)
  also have "\<dots> = Some (last (y # ls))" using el k by (simp add: last_conv_nth nth_Cons')
  finally have c: "take ?m zs = map Some (y # ls @ [last (y # ls)])"
    using zs(1,2) k m by (simp add: take_Suc_conv_app_nth)
  have "fst (publish_loop (\<lambda>_ c. c) (Suc (length ls)) 1 ?arr ?c) =
      drop 1 (map Some (y # ls @ [last (y # ls)]))"
    by (rule publish_undisturbed [where m = ?m and
          P = "\<lambda>d. take ?m (bus_heap d ?arr) = map Some (y # ls @ [last (y # ls)])"])
      (use c hc m in simp_all)
  moreover have "publish_loop ?btw (Suc (length ls)) 1 ?arr ?c =
      publish_loop (\<lambda>_ c. c) (Suc (length ls)) 1 ?arr ?c"
    by (rule publish_loop_cong) simp
  moreover have "bus_heap b ?arr ! 0 = Some x"
    using el m by (cases "bus_heap b ?arr") (auto simp: bus_elems_def)
  ultimately show ?thesis
    using m by (auto simp: bus_Publish_def split: prod.splits)
qed

section \<open>The live output\<close>

text \<open>\<open>LiveOutput\<close>: a queue of 32 frames between the bus and a WebSocket. \<open>lo_cancelled\<close>:
  its context is done; \<open>lo_done\<close>: the write loop has returned (and unsubscribed from the bus).
  \<open>lo_sent\<close>: the binary messages written so far.\<close>

definition sendCh_cap :: nat where
  "sendCh_cap = 32"

record live_output =
  lo_sendCh :: "decoded_audio_frame list"
  lo_cancelled :: bool
  lo_done :: bool
  lo_sent :: "bytes list"

definition NewLiveOutput :: live_output where
  "NewLiveOutput = \<lparr>lo_sendCh = [], lo_cancelled = False, lo_done = False, lo_sent = []\<rparr>"

definition live_OnPCM :: "decoded_audio_frame \<Rightarrow> live_output \<Rightarrow> live_output" where
  "live_OnPCM f l =
     (if length (lo_sendCh l) < sendCh_cap then l\<lparr>lo_sendCh := lo_sendCh l @ [f]\<rparr> else l)"

definition live_readPump_error :: "live_output \<Rightarrow> live_output" where
  "live_readPump_error l = l\<lparr>lo_cancelled := True\<rparr>"

text \<open>\<open>pcmBytes\<close> stores \<open>byte(s)\<close> and \<open>byte(s >> 8)\<close>; the shift of an \<open>int16\<close> is
  arithmetic.\<close>

definition pcmBytes :: "i16 list \<Rightarrow> bytes" where
  "pcmBytes pcm = concat (map (\<lambda>s. [ucast s, ucast (signed_drop_bit 8 s)]) pcm)"

text \<open>One pass of \<open>writeLoop\<close>: \<open>done\<close> is the branch \<open>select\<close> takes when both are ready,
  \<open>writable\<close> the outcome of \<open>WriteMessage\<close>. With nothing ready the loop waits.\<close>

definition live_writeLoop :: "bool \<Rightarrow> bool \<Rightarrow> live_output \<Rightarrow> live_output" where
  "live_writeLoop ctxFirst writable l =
     (if lo_done l then l
      else if lo_cancelled l \<and> (ctxFirst \<or> lo_sendCh l = []) then l\<lparr>lo_done := True\<rparr>
      else case lo_sendCh l of
          [] \<Rightarrow> l
        | f # fs \<Rightarrow>
            if writable then l\<lparr>lo_sendCh := fs, lo_sent := lo_sent l @ [pcmBytes (af_PCM f)]\<rparr>
            else l\<lparr>lo_sendCh := fs, lo_done := True\<rparr>)"

datatype live_event = EvPCM decoded_audio_frame | EvSocketError | EvWrite bool bool

fun live_step :: "live_output \<Rightarrow> live_event \<Rightarrow> live_output" where
  "live_step l (EvPCM f) = live_OnPCM f l"
| "live_step l EvSocketError = live_readPump_error l"
| "live_step l (EvWrite c w) = live_writeLoop c w l"

fun published :: "live_event list \<Rightarrow> bytes list" where
  "published [] = []"
| "published (EvPCM f # es) = pcmBytes (af_PCM f) # published es"
| "published (e # es) = published es"

definition live_pending :: "live_output \<Rightarrow> bytes list" where
  "live_pending l = lo_sent l @ map (\<lambda>f. pcmBytes (af_PCM f)) (lo_sendCh l)"

lemma pcmBytes_le: "pcmBytes pcm = concat (map (le_bytes 2) pcm)"
proof -
  have "[ucast s, ucast (signed_drop_bit 8 s)] = le_bytes 2 s" for s :: i16
  proof -
    have "(ucast (signed_drop_bit 8 s) :: byte) = ucast (drop_bit 8 s)"
      by (rule bit_word_eqI) (auto simp: bit_simps bit_signed_drop_bit_iff min_def)
    then show ?thesis by (simp add: numeral_2_eq_2)
  qed
  then show ?thesis by (simp add: pcmBytes_def)
qed

lemma published_append: "published (es @ es') = published es @ published es'"
  by (induction es rule: published.induct) auto

lemma live_step_pending:
  "subseq (live_pending l) ps \<Longrightarrow> subseq (live_pending (live_step l e)) (ps @ published [e])"
proof (cases e)
  case (EvPCM f)
  assume ps: "subseq (live_pending l) ps"
  show ?thesis
  proof (cases "length (lo_sendCh l) < sendCh_cap")
    case True
    then have "live_pending (live_step l e) = live_pending l @ published [e]"
      using EvPCM by (simp add: live_OnPCM_def live_pending_def)
    then show ?thesis using ps by (simp add: list_emb_append_mono)
  next
    case False
    then have "live_pending (live_step l e) = live_pending l"
      using EvPCM by (simp add: live_OnPCM_def live_pending_def)
    then show ?thesis using ps by (simp add: subseq_rev_drop_many)
  qed
next
  case EvSocketError
  then show "subseq (live_pending l) ps \<Longrightarrow> ?thesis" by (simp add: live_readPump_error_def live_pending_def)
next
  case (EvWrite c w)
  have "subseq (live_pending (live_writeLoop c w l)) (live_pending l)"
    by (auto simp: live_writeLoop_def live_pending_def intro: list_emb_append_mono split: list.splits)
  with EvWrite show "subseq (live_pending l) ps \<Longrightarrow> ?thesis"
    by simp
qed

lemma live_run_pending:
  "subseq (live_pending l) ps \<Longrightarrow> subseq (live_pending (foldl live_step l es)) (ps @ published es)"
proof (induction es arbitrary: l ps)
  case Nil
  then show ?case by simp
next
  case (Cons e es)
  have "published (e # es) = published [e] @ published es"
    using published_append [of "[e]" es] by simp
  then show ?case using Cons.IH [OF live_step_pending [OF Cons.prems]] by simp
qed

lemma live_bounded:
  "length (lo_sendCh l) \<le> sendCh_cap \<Longrightarrow> length (lo_sendCh (live_step l e)) \<le> sendCh_cap"
  by (cases e) (auto simp: live_OnPCM_def live_readPump_error_def live_writeLoop_def split: list.splits)

interpretation live_runs: event_machine live_step "\<lambda>l. length (lo_sendCh l) \<le> sendCh_cap"
  by unfold_locales (rule live_bounded)

text \<open>A live client receives a subsequence of the published frames, each as its samples in
  little-endian order: frames may be dropped, never reordered, duplicated or altered; at most 32
  wait for it, so a slow client holds back nobody.\<close>

theorem live_drops_only:
  "subseq (lo_sent (foldl live_step NewLiveOutput es)) (published es) \<and>
   length (lo_sendCh (foldl live_step NewLiveOutput es)) \<le> 32 \<and>
   pcmBytes pcm = concat (map (le_bytes 2) pcm)"
proof -
  have "subseq (live_pending (foldl live_step NewLiveOutput es)) ([] @ published es)"
    by (rule live_run_pending) (simp add: live_pending_def NewLiveOutput_def)
  then have "subseq (lo_sent (foldl live_step NewLiveOutput es)) (published es)"
    unfolding live_pending_def
    by simp (rule subseq_order.trans [OF subseq_rev_drop_many [OF subseq_order.refl]])
  moreover have "length (lo_sendCh (foldl live_step NewLiveOutput es)) \<le> sendCh_cap"
    by (rule live_runs.run_inv) (simp add: NewLiveOutput_def)
  ultimately show ?thesis by (simp add: sendCh_cap_def pcmBytes_le)
qed

section \<open>Witnesses\<close>

theorem publish_reaches_subscribers_witness:
  "fst (bus_Publish (\<lambda>k c. c) (Some (NewFrame ''s'' 0))
     (foldl (bus_step (\<lambda>n. 2 * n)) NewPCMBus [EvSubscribe 1, EvSubscribe 2, EvSubscribe 1, EvUnsubscribe 1])) =
   [Some 2]"
  using publish_reaches_subscribers [OF refl, of "\<lambda>n. n" "\<lambda>_. []" "NewFrame ''s'' 0" "\<lambda>n. 2 * n"
      "[EvSubscribe 1, EvSubscribe 2, EvSubscribe 1, EvUnsubscribe 1]" "\<lambda>k c. c"]
  by simp

theorem unsubscribe_during_publish_skips_witness:
  "fst (bus_Publish (\<lambda>k. if k = 0 then bus_Unsubscribe 1 else (\<lambda>c. c)) (Some (NewFrame ''s'' 0))
     (foldl (bus_step (\<lambda>n. 2 * n)) NewPCMBus [EvSubscribe 1, EvSubscribe 2, EvSubscribe 3])) =
   [Some 1, Some 3, Some 3]"
  using unsubscribe_during_publish_skips [OF refl, of "\<lambda>n. 2 * n"
      "[EvSubscribe 1, EvSubscribe 2, EvSubscribe 3]" 1 2 "[3]" "NewFrame ''s'' 0"]
    listeners_run [OF NewPCMBus_inv, of "\<lambda>n. 2 * n" "[EvSubscribe 1, EvSubscribe 2, EvSubscribe 3]"]
  by (simp add: listeners_def bus_elems_def NewPCMBus_def)

end
