(* ===== verification/Rtp_Packet.thy ===== *)
theory Rtp_Packet
  imports Prelude
begin

text \<open>
  \<open>internal/rtp/packet.go\<close> and \<open>rtp.go\<close>: the validated RTP/Opus packet and its
  parser. The wire decoding itself is \<open>pion/rtp\<close>'s \<open>Packet.Unmarshal\<close>, a third-party
  function: it is the parameter \<open>pion\<close>, which returns \<open>None\<close> for its error.
\<close>

definition ClockRate :: int where
  "ClockRate = 48000"

definition DefaultPayloadType :: byte where
  "DefaultPayloadType = 111"

text \<open>The fields of \<open>pionrtp.Packet\<close> that the code reads.\<close>

record pion_packet =
  pion_Version :: byte
  pion_PayloadType :: byte
  pion_SequenceNumber :: u16
  pion_Timestamp :: u32
  pion_SSRC :: u32
  pion_Payload :: bytes

record packet =
  Version :: byte
  PayloadType :: byte
  SequenceNumber :: u16
  Timestamp :: u32
  SSRC :: u32
  Payload :: bytes

definition ParseFor ::
  "(bytes \<Rightarrow> pion_packet option) \<Rightarrow> bytes \<Rightarrow> byte \<Rightarrow> goerr + packet" where
  "ParseFor pion raw expectedPT =
     (case pion raw of
        None \<Rightarrow> Inl (Sentinel ErrMalformedPacket)
      | Some p \<Rightarrow>
          if pion_Version p \<noteq> 2 then Inl (Sentinel ErrWrongVersion)
          else if pion_PayloadType p \<noteq> expectedPT then Inl (Sentinel ErrWrongPayloadType)
          else if length (pion_Payload p) = 0 then Inl (Sentinel ErrEmptyPayload)
          else Inr \<lparr>Version = pion_Version p, PayloadType = pion_PayloadType p,
                    SequenceNumber = pion_SequenceNumber p, Timestamp = pion_Timestamp p,
                    SSRC = pion_SSRC p, Payload = pion_Payload p\<rparr>)"

definition Parse :: "(bytes \<Rightarrow> pion_packet option) \<Rightarrow> bytes \<Rightarrow> goerr + packet" where
  "Parse pion raw = ParseFor pion raw DefaultPayloadType"

text \<open>What every accepted packet satisfies (spec section 10).\<close>

definition valid_packet :: "byte \<Rightarrow> packet \<Rightarrow> bool" where
  "valid_packet pt p \<longleftrightarrow> Version p = 2 \<and> PayloadType p = pt \<and> Payload p \<noteq> []"

lemma ParseFor_valid: "ParseFor pion raw pt = Inr p \<Longrightarrow> valid_packet pt p"
  by (auto simp: ParseFor_def valid_packet_def split: option.splits if_splits)

text \<open>\<open>ParseFor\<close> accepts a datagram exactly when it decodes to an RTP packet of version
  2 with the expected payload type and a payload, and then hands on every field unchanged.\<close>

theorem ParseFor_accepts_iff:
  "ParseFor pion raw pt = Inr p \<longleftrightarrow>
     (\<exists>q. pion raw = Some q \<and> pion_Version q = 2 \<and> pion_PayloadType q = pt \<and> pion_Payload q \<noteq> [] \<and>
        p = \<lparr>Version = 2, PayloadType = pt, SequenceNumber = pion_SequenceNumber q,
             Timestamp = pion_Timestamp q, SSRC = pion_SSRC q, Payload = pion_Payload q\<rparr>)"
  by (auto simp: ParseFor_def split: option.splits)

end
