(* ===== verification/Jitter.thy ===== *)
theory Jitter
  imports Rtp_Packet Float64
begin

text \<open>
  \<open>internal/rtp/jitter.go\<close>: the reordering buffer between the RTP receiver and the
  decoder. The packets wait in a map from sequence number to packet and deadline. Go visits
  a map in an unspecified order; \<open>iter\<close> gives the order in which \<open>range\<close> visits a map,
  and every result is proved for every such order.
\<close>

section \<open>State\<close>

record stats =
  Received :: u64
  Lost :: u64
  Duplicate :: u64
  Reordered :: u64
  Late :: u64
  JitterMS :: rat

definition stats_zero :: stats where
  "stats_zero = \<lparr>Received = 0, Lost = 0, Duplicate = 0, Reordered = 0, Late = 0, JitterMS = 0\<rparr>"

definition maxLossHookCalls :: nat where
  "maxLossHookCalls = 1024"

record buffered =
  b_p :: packet
  b_due :: time

text \<open>\<open>jb_hook\<close>: whether an \<open>onLoss\<close> hook is installed; its calls are recorded in
  the result of \<open>Emit\<close>.\<close>

record jitter_buffer =
  jb_target :: duration
  jb_hook :: bool
  jb_buf :: "u16 \<rightharpoonup> buffered"
  jb_expected :: u16
  jb_haveSeq :: bool
  jb_maxSeen :: u16
  jb_stats :: stats
  jb_prevTransit :: int
  jb_havePrev :: bool
  jb_jitter :: rat

definition jb_New :: "duration \<Rightarrow> bool \<Rightarrow> jitter_buffer" where
  "jb_New target hook =
     \<lparr>jb_target = target, jb_hook = hook, jb_buf = Map.empty, jb_expected = 0,
      jb_haveSeq = False, jb_maxSeen = 0, jb_stats = stats_zero,
      jb_prevTransit = 0, jb_havePrev = False, jb_jitter = 0\<rparr>"

section \<open>Sequence numbers\<close>

definition seqBefore :: "u16 \<Rightarrow> u16 \<Rightarrow> bool" where
  "seqBefore a b \<longleftrightarrow> a \<noteq> b \<and> sint (a - b) < 0"

definition seqDistance :: "u16 \<Rightarrow> u16 \<Rightarrow> nat" where
  "seqDistance a b = nat ((uint b - uint a + 65536) mod 65536)"

definition seqNext :: "u16 \<Rightarrow> u16" where
  "seqNext s = s + 1"

section \<open>Operations\<close>

definition updateJitter :: "packet \<Rightarrow> time \<Rightarrow> jitter_buffer \<Rightarrow> jitter_buffer" where
  "updateJitter p recv jb =
     (let arrival = f64_to_int (f64_div (f64_mul (f64_of_int recv) (f64_of_int ClockRate)) 1000000000);
          transit = arrival - uint (Timestamp p);
          jb1 =
            (if jb_havePrev jb then
               let d0 = transit - jb_prevTransit jb;
                   d = (if d0 < 0 then - d0 else d0);
                   j = f64_add (jb_jitter jb) (f64_div (f64_sub (f64_of_int d) (jb_jitter jb)) 16)
               in jb\<lparr>jb_jitter := j,
                     jb_stats := (jb_stats jb)\<lparr>JitterMS := f64_mul (f64_div j (f64_of_int ClockRate)) 1000\<rparr>\<rparr>
             else jb)
      in jb1\<lparr>jb_prevTransit := transit, jb_havePrev := True\<rparr>)"

definition jb_store :: "packet \<Rightarrow> time \<Rightarrow> jitter_buffer \<Rightarrow> jitter_buffer" where
  "jb_store p recv jb =
     (let jb1 = updateJitter p recv jb
      in jb1\<lparr>jb_buf := (jb_buf jb1)(SequenceNumber p \<mapsto> \<lparr>b_p = p, b_due = time_add recv (jb_target jb)\<rparr>)\<rparr>)"

definition jb_Push :: "packet \<Rightarrow> time \<Rightarrow> jitter_buffer \<Rightarrow> jitter_buffer" where
  "jb_Push p recv jb0 =
     (let seq = SequenceNumber p;
          jb = jb0\<lparr>jb_stats := (jb_stats jb0)\<lparr>Received := Received (jb_stats jb0) + 1\<rparr>\<rparr>;
          st = jb_stats jb
      in
      if \<not> jb_haveSeq jb then
        jb_store p recv (jb\<lparr>jb_expected := seq, jb_maxSeen := seq, jb_haveSeq := True\<rparr>)
      else if jb_buf jb seq \<noteq> None then
        jb\<lparr>jb_stats := st\<lparr>Duplicate := Duplicate st + 1\<rparr>\<rparr>
      else if seqBefore seq (jb_expected jb) then
        jb\<lparr>jb_stats := st\<lparr>Late := Late st + 1\<rparr>\<rparr>
      else if seqBefore seq (jb_maxSeen jb) then
        jb_store p recv (jb\<lparr>jb_stats := st\<lparr>Reordered := Reordered st + 1\<rparr>\<rparr>)
      else jb_store p recv (jb\<lparr>jb_maxSeen := seq\<rparr>))"

text \<open>\<open>nextPresentDue\<close>: the loop over the buffered packets in the order \<open>range\<close> gives.\<close>

fun npd_loop :: "time \<Rightarrow> buffered list \<Rightarrow> buffered option \<Rightarrow> buffered option" where
  "npd_loop now [] best = best"
| "npd_loop now (b # bs) best =
     (if now < b_due b then npd_loop now bs best
      else case best of
          None \<Rightarrow> npd_loop now bs (Some b)
        | Some c \<Rightarrow>
            if seqBefore (SequenceNumber (b_p b)) (SequenceNumber (b_p c))
            then npd_loop now bs (Some b) else npd_loop now bs best)"

type_synonym map_order = "(u16 \<rightharpoonup> buffered) \<Rightarrow> u16 list"

definition nextPresentDue :: "map_order \<Rightarrow> time \<Rightarrow> (u16 \<rightharpoonup> buffered) \<Rightarrow> buffered option" where
  "nextPresentDue iter now m = npd_loop now (List.map_filter m (iter m)) None"

text \<open>The hook calls for one gap: \<open>onLoss(cur)\<close>, \<open>cur = seqNext(cur)\<close>, \<open>calls\<close> times.\<close>

fun loss_calls :: "nat \<Rightarrow> u16 \<Rightarrow> u16 list" where
  "loss_calls 0 cur = []"
| "loss_calls (Suc n) cur = cur # loss_calls n (seqNext cur)"

text \<open>
  The loop of \<open>Emit\<close>: the buffer, the packets so far, the hook calls so far. \<open>None\<close>
  would be a loop that never ends.
\<close>

partial_function (option) emit_loop ::
  "map_order \<Rightarrow> time \<Rightarrow> jitter_buffer \<Rightarrow> packet list \<Rightarrow> u16 list \<Rightarrow>
     (jitter_buffer \<times> packet list \<times> u16 list) option" where
  "emit_loop iter now jb out calls =
     (let cur = jb_expected jb in
      case jb_buf jb cur of
        Some pkt \<Rightarrow>
          if now < b_due pkt then Some (jb, out, calls)
          else emit_loop iter now
                 (jb\<lparr>jb_buf := (jb_buf jb)(cur := None), jb_expected := seqNext cur\<rparr>)
                 (out @ [b_p pkt]) calls
      | None \<Rightarrow>
          (case nextPresentDue iter now (jb_buf jb) of
             None \<Rightarrow> Some (jb, out, calls)
           | Some nxt \<Rightarrow>
               let missing = seqDistance cur (SequenceNumber (b_p nxt));
                   st = jb_stats jb;
                   n = (if maxLossHookCalls < missing then maxLossHookCalls else missing)
               in emit_loop iter now
                    (jb\<lparr>jb_stats := st\<lparr>Lost := Lost st + word_of_nat missing\<rparr>,
                        jb_expected := SequenceNumber (b_p nxt)\<rparr>)
                    out (if jb_hook jb then calls @ loss_calls n cur else calls)))"

declare emit_loop.simps [code]

definition jb_Emit ::
  "map_order \<Rightarrow> time \<Rightarrow> jitter_buffer \<Rightarrow> (jitter_buffer \<times> packet list \<times> u16 list) option" where
  "jb_Emit iter now jb = emit_loop iter now jb [] []"

definition jb_Statistics :: "jitter_buffer \<Rightarrow> stats" where
  "jb_Statistics jb = jb_stats jb"

definition jb_Len :: "jitter_buffer \<Rightarrow> nat" where
  "jb_Len jb = card (dom (jb_buf jb))"

section \<open>The search for the next packet\<close>

text \<open>\<open>range\<close> visits every entry of the map, and of the maps left after deletions, once.\<close>

definition iter_ok :: "map_order \<Rightarrow> (u16 \<rightharpoonup> buffered) \<Rightarrow> bool" where
  "iter_ok iter m \<longleftrightarrow> (\<forall>m'. m' \<subseteq>\<^sub>m m \<longrightarrow> distinct (iter m') \<and> set (iter m') = dom m')"

lemma iter_ok_del: "iter_ok iter m \<Longrightarrow> iter_ok iter (m(k := None))"
  unfolding iter_ok_def by (metis map_le_trans upd_None_map_le)

lemma set_map_filter_Some: "set (List.map_filter f xs) = {y. \<exists>x\<in>set xs. f x = Some y}"
  by (induction xs) (auto simp: List.map_filter_simps split: option.splits)

lemma npd_loop_mem:
  "npd_loop now bs best = Some b \<Longrightarrow> b \<in> set bs \<and> b_due b \<le> now \<or> best = Some b"
proof (induction bs arbitrary: best)
  case Nil
  then show ?case by simp
next
  case (Cons x bs)
  then show ?case by (fastforce split: if_splits option.splits)
qed

lemma npd_loop_None:
  "npd_loop now bs best = None \<longleftrightarrow> best = None \<and> (\<forall>b\<in>set bs. now < b_due b)"
  by (induction bs arbitrary: best) (auto split: option.splits)

lemma nextPresentDue_Some:
  "nextPresentDue iter now m = Some b \<Longrightarrow> \<exists>s. m s = Some b \<and> b_due b \<le> now"
  unfolding nextPresentDue_def by (auto dest!: npd_loop_mem simp: set_map_filter_Some)

lemma nextPresentDue_None:
  "iter_ok iter m \<Longrightarrow>
     nextPresentDue iter now m = None \<longleftrightarrow> (\<forall>s b. m s = Some b \<longrightarrow> now < b_due b)"
  unfolding nextPresentDue_def iter_ok_def
  by (simp add: npd_loop_None set_map_filter_Some) (metis domI map_le_refl)

section \<open>Emit, one packet at a time\<close>

definition jb_inv :: "jitter_buffer \<Rightarrow> bool" where
  "jb_inv jb \<longleftrightarrow>
     (\<forall>s b. jb_buf jb s = Some b \<longrightarrow> SequenceNumber (b_p b) = s) \<and>
     (\<not> jb_haveSeq jb \<longrightarrow> jb_buf jb = Map.empty)"

definition gap_calls :: "jitter_buffer \<Rightarrow> u16 \<Rightarrow> u16 list" where
  "gap_calls jb s =
     (if jb_hook jb
      then loss_calls (min maxLossHookCalls (seqDistance (jb_expected jb) s)) (jb_expected jb) else [])"

text \<open>What \<open>Emit\<close> does up to the next packet it appends: skip a gap if there is one, then
  take the packet out.\<close>

definition emit_next ::
  "map_order \<Rightarrow> time \<Rightarrow> jitter_buffer \<Rightarrow> (jitter_buffer \<times> packet \<times> u16 list) option" where
  "emit_next iter now jb =
     (case jb_buf jb (jb_expected jb) of
        Some pkt \<Rightarrow>
          if now < b_due pkt then None
          else Some (jb\<lparr>jb_buf := (jb_buf jb)(jb_expected jb := None),
                        jb_expected := seqNext (jb_expected jb)\<rparr>, b_p pkt, [])
      | None \<Rightarrow>
          (case nextPresentDue iter now (jb_buf jb) of
             None \<Rightarrow> None
           | Some nxt \<Rightarrow>
               let s = SequenceNumber (b_p nxt); st = jb_stats jb
               in Some (jb\<lparr>jb_stats := st\<lparr>Lost := Lost st + word_of_nat (seqDistance (jb_expected jb) s)\<rparr>,
                           jb_buf := (jb_buf jb)(s := None), jb_expected := seqNext s\<rparr>,
                        b_p nxt, gap_calls jb s)))"

lemma emit_loop_present:
  "jb_buf jb (jb_expected jb) = Some pkt \<Longrightarrow> b_due pkt \<le> now \<Longrightarrow>
     emit_loop iter now jb out calls =
     emit_loop iter now
       (jb\<lparr>jb_buf := (jb_buf jb)(jb_expected jb := None), jb_expected := seqNext (jb_expected jb)\<rparr>)
       (out @ [b_p pkt]) calls"
  by (subst emit_loop.simps) (simp add: Let_def)

lemma emit_loop_next:
  assumes "jb_inv jb"
  shows "emit_loop iter now jb out calls =
    (case emit_next iter now jb of
       None \<Rightarrow> Some (jb, out, calls)
     | Some (jb', p, cs) \<Rightarrow> emit_loop iter now jb' (out @ [p]) (calls @ cs))"
proof (cases "jb_buf jb (jb_expected jb)")
  case (Some pkt)
  then show ?thesis
    by (subst emit_loop.simps) (simp add: emit_next_def Let_def)
next
  case None
  show ?thesis
  proof (cases "nextPresentDue iter now (jb_buf jb)")
    case None
    with \<open>jb_buf jb (jb_expected jb) = None\<close> show ?thesis
      by (subst emit_loop.simps) (simp add: emit_next_def Let_def)
  next
    case (Some nxt)
    let ?s = "SequenceNumber (b_p nxt)"
    from Some assms have at: "jb_buf jb ?s = Some nxt" "b_due nxt \<le> now"
      by (auto simp: jb_inv_def dest!: nextPresentDue_Some)
    show ?thesis
      using None Some at
      by (subst emit_loop.simps)
        (auto simp: emit_next_def gap_calls_def Let_def min_def not_le emit_loop_present)
  qed
qed

lemma seqDistance_self [simp]: "seqDistance a a = 0"
  by (simp add: seqDistance_def)

lemma gap_calls_self [simp]: "gap_calls jb (jb_expected jb) = []"
  by (simp add: gap_calls_def)

text \<open>One packet taken out: which one, and every field of the buffer afterwards.\<close>

lemma emit_next_Some:
  assumes "emit_next iter now jb = Some (jb', p, cs)" and "jb_inv jb"
  shows "(\<exists>b. jb_buf jb (SequenceNumber p) = Some b \<and> b_p b = p \<and> b_due b \<le> now)"
    and "cs = gap_calls jb (SequenceNumber p)"
    and "jb' = jb\<lparr>jb_stats := (jb_stats jb)\<lparr>Lost := Lost (jb_stats jb)
                      + word_of_nat (seqDistance (jb_expected jb) (SequenceNumber p))\<rparr>,
              jb_buf := (jb_buf jb)(SequenceNumber p := None),
              jb_expected := seqNext (SequenceNumber p)\<rparr>"
proof -
  have eqs: "jb_buf jb s = Some b \<Longrightarrow> SequenceNumber (b_p b) = s" for s b
    using assms(2) by (simp add: jb_inv_def)
  consider (head) b where "jb_buf jb (jb_expected jb) = Some b" "b_due b \<le> now" "p = b_p b"
      "jb' = jb\<lparr>jb_buf := (jb_buf jb)(jb_expected jb := None), jb_expected := seqNext (jb_expected jb)\<rparr>"
      "cs = []" "SequenceNumber (b_p b) = jb_expected jb"
    | (gap) b s where "jb_buf jb s = Some b" "b_due b \<le> now" "p = b_p b" "SequenceNumber (b_p b) = s"
      "jb' = jb\<lparr>jb_stats := (jb_stats jb)\<lparr>Lost := Lost (jb_stats jb)
                      + word_of_nat (seqDistance (jb_expected jb) (SequenceNumber p))\<rparr>,
              jb_buf := (jb_buf jb)(SequenceNumber p := None),
              jb_expected := seqNext (SequenceNumber p)\<rparr>"
      "cs = gap_calls jb (SequenceNumber p)"
    using assms(1) eqs nextPresentDue_Some [of iter now "jb_buf jb"]
    by (fastforce simp: emit_next_def Let_def split: option.splits if_splits)
  note two = this
  show "\<exists>b. jb_buf jb (SequenceNumber p) = Some b \<and> b_p b = p \<and> b_due b \<le> now"
    by (rule two) simp_all
  show "cs = gap_calls jb (SequenceNumber p)"
    by (rule two) simp_all
  show "jb' = jb\<lparr>jb_stats := (jb_stats jb)\<lparr>Lost := Lost (jb_stats jb)
                      + word_of_nat (seqDistance (jb_expected jb) (SequenceNumber p))\<rparr>,
              jb_buf := (jb_buf jb)(SequenceNumber p := None),
              jb_expected := seqNext (SequenceNumber p)\<rparr>"
    by (rule two) simp_all
qed

lemma emit_next_jb_inv:
  "emit_next iter now jb = Some (jb', p, cs) \<Longrightarrow> jb_inv jb \<Longrightarrow> jb_inv jb'"
  using emit_next_Some(3) [of iter now jb jb' p cs] by (auto simp: jb_inv_def split: if_splits)

lemma emit_next_None:
  "iter_ok iter (jb_buf jb) \<Longrightarrow> emit_next iter now jb = None \<longleftrightarrow>
     (case jb_buf jb (jb_expected jb) of
        Some b \<Rightarrow> now < b_due b
      | None \<Rightarrow> (\<forall>s b. jb_buf jb s = Some b \<longrightarrow> now < b_due b))"
  using nextPresentDue_None [of iter "jb_buf jb" now]
  by (cases "nextPresentDue iter now (jb_buf jb)") (auto simp: emit_next_def Let_def split: option.splits)

text \<open>A whole \<open>Emit\<close>: the packets, the hook calls and the buffer it leaves.\<close>

inductive emits ::
  "map_order \<Rightarrow> time \<Rightarrow> jitter_buffer \<Rightarrow> packet list \<Rightarrow> u16 list \<Rightarrow> jitter_buffer \<Rightarrow> bool"
  for iter :: map_order and now :: time where
  emits_stop: "emit_next iter now jb = None \<Longrightarrow> emits iter now jb [] [] jb"
| emits_step: "emit_next iter now jb = Some (jb1, p, cs) \<Longrightarrow> emits iter now jb1 ps cs' jb' \<Longrightarrow>
     emits iter now jb (p # ps) (cs @ cs') jb'"

lemma emit_next_card:
  "emit_next iter now jb = Some (jb', p, cs) \<Longrightarrow> jb_inv jb \<Longrightarrow>
     Suc (card (dom (jb_buf jb'))) = card (dom (jb_buf jb))"
proof -
  assume next1: "emit_next iter now jb = Some (jb', p, cs)" and inv: "jb_inv jb"
  have "SequenceNumber p \<in> dom (jb_buf jb)"
    using emit_next_Some(1) [OF next1 inv] by auto
  moreover have "dom (jb_buf jb') = dom (jb_buf jb) - {SequenceNumber p}"
    using emit_next_Some(3) [OF next1 inv] by simp
  ultimately show ?thesis by (simp only: card_Suc_Diff1 [OF finite])
qed

lemma emit_loop_emits:
  "jb_inv jb \<Longrightarrow> \<exists>ps cs jb'. emits iter now jb ps cs jb' \<and>
     emit_loop iter now jb out calls = Some (jb', out @ ps, calls @ cs)"
proof (induction "card (dom (jb_buf jb))" arbitrary: jb out calls rule: less_induct)
  case less
  show ?case
  proof (cases "emit_next iter now jb")
    case None
    then have "emits iter now jb [] [] jb" by (rule emits_stop)
    with None less.prems show ?thesis by (fastforce simp: emit_loop_next)
  next
    case (Some x)
    obtain jb1 p cs where x: "x = (jb1, p, cs)" by (cases x)
    with Some have next1: "emit_next iter now jb = Some (jb1, p, cs)" by simp
    have "card (dom (jb_buf jb1)) < card (dom (jb_buf jb))"
      using emit_next_card [OF next1 less.prems] by simp
    from less.hyps [OF this emit_next_jb_inv [OF next1 less.prems], of "out @ [p]" "calls @ cs"]
    obtain ps cs' jb' where "emits iter now jb1 ps cs' jb'"
      and "emit_loop iter now jb1 (out @ [p]) (calls @ cs) = Some (jb', out @ p # ps, calls @ cs @ cs')"
      by auto
    with emits_step [OF next1] next1 less.prems show ?thesis
      by (fastforce simp: emit_loop_next)
  qed
qed

lemma jb_Emit_emits:
  "jb_inv jb \<Longrightarrow> \<exists>ps cs jb'. emits iter now jb ps cs jb' \<and> jb_Emit iter now jb = Some (jb', ps, cs)"
  using emit_loop_emits [of jb iter now "[]" "[]"] by (simp add: jb_Emit_def)

section \<open>What a run of Emit does\<close>

text \<open>Facts about one \<open>Emit\<close>, each by rule induction on \<open>emits\<close>.\<close>

lemma emits_inv:
  "emits iter now jb ps cs jb' \<Longrightarrow> jb_inv jb \<Longrightarrow> jb_inv jb'"
  by (induction rule: emits.induct) (auto dest: emit_next_jb_inv)

lemma emits_frame:
  "emits iter now jb ps cs jb' \<Longrightarrow> jb_inv jb \<Longrightarrow>
     \<exists>l m e. jb' = jb\<lparr>jb_stats := (jb_stats jb)\<lparr>Lost := l\<rparr>, jb_buf := m, jb_expected := e\<rparr>"
proof (induction rule: emits.induct)
  case (emits_stop jb)
  have "jb = jb\<lparr>jb_stats := (jb_stats jb)\<lparr>Lost := Lost (jb_stats jb)\<rparr>, jb_buf := jb_buf jb,
      jb_expected := jb_expected jb\<rparr>" by simp
  then show ?case by blast
next
  case (emits_step jb jb1 p cs ps cs' jb')
  then show ?case
    using emit_next_Some(3) [OF emits_step.hyps(1) emits_step.prems]
      emits_step.IH [OF emit_next_jb_inv [OF emits_step.hyps(1) emits_step.prems]]
    by auto
qed

lemma emits_card:
  "emits iter now jb ps cs jb' \<Longrightarrow> jb_inv jb \<Longrightarrow>
     length ps + card (dom (jb_buf jb')) = card (dom (jb_buf jb))"
proof (induction rule: emits.induct)
  case (emits_step jb jb1 p cs ps cs' jb')
  then show ?case
    using emit_next_card [OF emits_step.hyps(1) emits_step.prems] by (auto dest: emit_next_jb_inv)
qed simp

lemma emits_packets:
  "emits iter now jb ps cs jb' \<Longrightarrow> jb_inv jb \<Longrightarrow>
     distinct (map SequenceNumber ps) \<and>
     jb_buf jb' = jb_buf jb |` (- SequenceNumber ` set ps) \<and>
     (\<forall>p\<in>set ps. \<exists>b. jb_buf jb (SequenceNumber p) = Some b \<and> b_p b = p \<and> b_due b \<le> now)"
proof (induction rule: emits.induct)
  case (emits_step jb jb1 p cs ps cs' jb')
  from emits_step.hyps(1) emits_step.prems have inv1: "jb_inv jb1" by (rule emit_next_jb_inv)
  have buf1: "jb_buf jb1 = (jb_buf jb)(SequenceNumber p := None)"
    using emit_next_Some(3) [OF emits_step.hyps(1) emits_step.prems] by simp
  have "p \<noteq> q" and "SequenceNumber p \<noteq> SequenceNumber q" if "q \<in> set ps" for q
    using emits_step.IH [OF inv1] that buf1 by (auto split: if_splits)
  then show ?case
    using emits_step.IH [OF inv1] buf1 emit_next_Some(1) [OF emits_step.hyps(1) emits_step.prems]
    by (auto simp: restrict_map_def fun_eq_iff split: if_splits)
qed (simp add: restrict_map_def)

lemma emits_stopped:
  "emits iter now jb ps cs jb' \<Longrightarrow> emit_next iter now jb' = None"
  by (induction rule: emits.induct) auto

section \<open>Push\<close>

lemma updateJitter_frame [simp]:
  "jb_buf (updateJitter p r jb) = jb_buf jb"
  "jb_expected (updateJitter p r jb) = jb_expected jb"
  "jb_haveSeq (updateJitter p r jb) = jb_haveSeq jb"
  "jb_maxSeen (updateJitter p r jb) = jb_maxSeen jb"
  "jb_target (updateJitter p r jb) = jb_target jb"
  "jb_hook (updateJitter p r jb) = jb_hook jb"
  "Received (jb_stats (updateJitter p r jb)) = Received (jb_stats jb)"
  "Lost (jb_stats (updateJitter p r jb)) = Lost (jb_stats jb)"
  "Duplicate (jb_stats (updateJitter p r jb)) = Duplicate (jb_stats jb)"
  "Reordered (jb_stats (updateJitter p r jb)) = Reordered (jb_stats jb)"
  "Late (jb_stats (updateJitter p r jb)) = Late (jb_stats jb)"
  by (simp_all add: updateJitter_def Let_def)

lemma jb_store_frame [simp]:
  "jb_buf (jb_store p r jb) =
     (jb_buf jb)(SequenceNumber p \<mapsto> \<lparr>b_p = p, b_due = time_add r (jb_target jb)\<rparr>)"
  "jb_expected (jb_store p r jb) = jb_expected jb"
  "jb_haveSeq (jb_store p r jb) = jb_haveSeq jb"
  "jb_maxSeen (jb_store p r jb) = jb_maxSeen jb"
  "jb_target (jb_store p r jb) = jb_target jb"
  "jb_hook (jb_store p r jb) = jb_hook jb"
  "Received (jb_stats (jb_store p r jb)) = Received (jb_stats jb)"
  "Lost (jb_stats (jb_store p r jb)) = Lost (jb_stats jb)"
  "Duplicate (jb_stats (jb_store p r jb)) = Duplicate (jb_stats jb)"
  "Reordered (jb_stats (jb_store p r jb)) = Reordered (jb_stats jb)"
  "Late (jb_stats (jb_store p r jb)) = Late (jb_stats jb)"
  by (simp_all add: jb_store_def Let_def)

lemma jb_Push_inv: "jb_inv jb \<Longrightarrow> jb_inv (jb_Push p t jb)"
  by (auto simp: jb_inv_def jb_Push_def Let_def split: if_splits)

text \<open>The three fates of a pushed packet: buffered, duplicate, late.\<close>

lemma jb_Push_cases:
  assumes "jb_inv jb"
  obtains (stored) "jb_buf jb (SequenceNumber p) = None"
      "jb_buf (jb_Push p t jb) = (jb_buf jb)(SequenceNumber p \<mapsto> \<lparr>b_p = p, b_due = time_add t (jb_target jb)\<rparr>)"
      "Duplicate (jb_stats (jb_Push p t jb)) = Duplicate (jb_stats jb)"
      "Late (jb_stats (jb_Push p t jb)) = Late (jb_stats jb)"
      "jb_haveSeq jb \<Longrightarrow> \<not> seqBefore (SequenceNumber p) (jb_expected jb)"
      "jb_expected (jb_Push p t jb) = (if jb_haveSeq jb then jb_expected jb else SequenceNumber p)"
  | (duplicate) "jb_buf jb (SequenceNumber p) \<noteq> None" "jb_haveSeq jb"
      "jb_buf (jb_Push p t jb) = jb_buf jb"
      "Duplicate (jb_stats (jb_Push p t jb)) = Duplicate (jb_stats jb) + 1"
      "Late (jb_stats (jb_Push p t jb)) = Late (jb_stats jb)"
      "jb_expected (jb_Push p t jb) = jb_expected jb"
  | (late) "jb_buf jb (SequenceNumber p) = None" "jb_haveSeq jb"
      "seqBefore (SequenceNumber p) (jb_expected jb)"
      "jb_buf (jb_Push p t jb) = jb_buf jb"
      "Duplicate (jb_stats (jb_Push p t jb)) = Duplicate (jb_stats jb)"
      "Late (jb_stats (jb_Push p t jb)) = Late (jb_stats jb) + 1"
      "jb_expected (jb_Push p t jb) = jb_expected jb"
proof (cases "jb_haveSeq jb")
  case False
  with assms have "jb_buf jb = Map.empty" by (simp add: jb_inv_def)
  with False show ?thesis by (intro stored) (simp_all add: jb_Push_def Let_def)
next
  case True
  show ?thesis
  proof (cases "jb_buf jb (SequenceNumber p)")
    case (Some b)
    with True show ?thesis by (intro duplicate) (simp_all add: jb_Push_def Let_def)
  next
    case None
    with True stored late show ?thesis
      by (cases "seqBefore (SequenceNumber p) (jb_expected jb)") (simp_all add: jb_Push_def Let_def)
  qed
qed

lemma jb_Push_Received: "Received (jb_stats (jb_Push p t jb)) = Received (jb_stats jb) + 1"
  by (simp add: jb_Push_def Let_def)

section \<open>Runs of Push and Emit\<close>

text \<open>A run of the buffer, with the packets delivered so far. A diverging \<open>Emit\<close> would
  leave the state as it is; \<open>Emit_terminates\<close> below shows there is none.\<close>

datatype jb_event = JPush packet time | JEmit map_order time

fun jb_step :: "jitter_buffer \<times> packet list \<Rightarrow> jb_event \<Rightarrow> jitter_buffer \<times> packet list" where
  "jb_step (jb, out) (JPush p t) = (jb_Push p t jb, out)"
| "jb_step (jb, out) (JEmit iter now) =
     (case jb_Emit iter now jb of
        None \<Rightarrow> (jb, out)
      | Some (jb', ps, cs) \<Rightarrow> (jb', out @ ps))"

definition accounted :: "jitter_buffer \<times> packet list \<Rightarrow> bool" where
  "accounted s \<longleftrightarrow>
     (case s of (jb, out) \<Rightarrow> jb_inv jb \<and>
        Received (jb_stats jb) = Duplicate (jb_stats jb) + Late (jb_stats jb)
          + word_of_nat (length out + jb_Len jb))"

lemma accounted_Push:
  assumes "accounted (jb, out)"
  shows "accounted (jb_Push p t jb, out)"
proof -
  from assms have inv: "jb_inv jb" by (simp add: accounted_def)
  then show ?thesis
    by (cases rule: jb_Push_cases [of jb p t])
      (use assms in \<open>auto simp: accounted_def jb_Len_def jb_Push_inv jb_Push_Received domIff\<close>)
qed

lemma accounted_Emit:
  assumes "accounted (jb, out)" and "jb_Emit iter now jb = Some (jb', ps, cs)"
  shows "accounted (jb', out @ ps)"
proof -
  from assms(1) have inv: "jb_inv jb" by (simp add: accounted_def)
  from jb_Emit_emits [OF inv, of iter now] assms(2) have em: "emits iter now jb ps cs jb'" by auto
  have "length out + card (dom (jb_buf jb)) = length (out @ ps) + card (dom (jb_buf jb'))"
    using emits_card [OF em inv] by simp
  with emits_inv [OF em inv] emits_frame [OF em inv] assms(1)
  show ?thesis by (auto simp: accounted_def jb_Len_def simp del: of_nat_add length_append)
qed

interpretation jitter_runs: event_machine jb_step accounted
proof
  fix s e
  assume "accounted s"
  then show "accounted (jb_step s e)"
    by (cases s; cases e) (auto intro: accounted_Push accounted_Emit split: option.splits)
qed

section \<open>In-order buffers\<close>

text \<open>
  \<open>ahead e s\<close> is how far \<open>s\<close> lies ahead of the playout position \<open>e\<close>. A buffer is in
  order when everything in it is ahead by less than half the sequence space and deadlines
  do not decrease along the sequence, which is the case as long as packets arrive in
  sequence order.
\<close>

definition ahead :: "u16 \<Rightarrow> u16 \<Rightarrow> nat" where
  "ahead e s = unat (s - e)"

definition in_order :: "jitter_buffer \<Rightarrow> bool" where
  "in_order jb \<longleftrightarrow>
     (\<forall>s b. jb_buf jb s = Some b \<longrightarrow> ahead (jb_expected jb) s < 32768) \<and>
     (\<forall>s t b c. jb_buf jb s = Some b \<longrightarrow> jb_buf jb t = Some c \<longrightarrow>
        ahead (jb_expected jb) s < ahead (jb_expected jb) t \<longrightarrow> b_due b \<le> b_due c)"

lemma sint_neg_iff: "sint (w :: u16) < 0 \<longleftrightarrow> 32768 \<le> unat w"
proof -
  have "unat w < 65536" using unsigned_less [of w] by simp
  then have "32768 \<le> unat w \<Longrightarrow> unat w div 2 ^ 15 = 1" by (intro div_nat_eqI) simp_all
  then have "32768 \<le> unat w \<longleftrightarrow> odd (unat w div 2 ^ 15)" by (cases "32768 \<le> unat w") simp_all
  also have "\<dots> \<longleftrightarrow> bit w 15" by (simp only: bit_iff_odd [symmetric] bit_unsigned_iff) simp
  also have "\<dots> \<longleftrightarrow> sint w < 0" using bit_last_iff [of w] by simp
  finally show ?thesis by simp
qed

lemma seqDistance_ahead: "seqDistance e s = ahead e s"
  by (simp add: seqDistance_def ahead_def uint_word_ariths unat_eq_nat_uint)

lemma unat_sub_less: "unat (x :: u16) < unat y \<Longrightarrow> unat (x - y) = unat x + 65536 - unat y"
  by (simp add: unat_sub_if')

lemma seqBefore_ahead:
  assumes "ahead e a < 32768" and "ahead e b < 32768"
  shows "seqBefore a b \<longleftrightarrow> ahead e a < ahead e b"
proof -
  have diff: "a - b = (a - e) - (b - e)" by simp
  show ?thesis
  proof (cases "unat (a - e) < unat (b - e)")
    case True
    with assms have "32768 \<le> unat (a - b)"
      unfolding diff by (simp only: unat_sub_less ahead_def)
    with True show ?thesis by (auto simp: seqBefore_def sint_neg_iff ahead_def)
  next
    case False
    then have "unat (a - b) = unat (a - e) - unat (b - e)"
      unfolding diff by (subst unat_sub) (simp_all add: word_le_nat_alt)
    with False assms show ?thesis by (auto simp: seqBefore_def sint_neg_iff ahead_def)
  qed
qed

lemma ahead_seqNext:
  assumes "ahead e q < ahead e s"
  shows "ahead (seqNext q) s = ahead e s - ahead e q - 1"
proof -
  have split: "s - seqNext q = (s - e) - (q - e) - 1" by (simp add: seqNext_def)
  have diff: "unat ((s - e) - (q - e)) = unat (s - e) - unat (q - e)"
    using assms by (subst unat_sub) (auto simp: ahead_def word_le_nat_alt)
  have "(s - e) - (q - e) \<noteq> 0"
    using diff assms unfolding ahead_def by (metis unsigned_0 zero_less_diff less_irrefl)
  from unat_minus_one [OF this] show ?thesis
    unfolding ahead_def split diff by simp
qed

lemma ahead_seqNext_self: "ahead e q < 65535 \<Longrightarrow> ahead e (seqNext q) = Suc (ahead e q)"
proof -
  assume "ahead e q < 65535"
  then have "unat (q - e) + unat (1 :: u16) < 2 ^ LENGTH(16)" by (simp add: ahead_def)
  then have "unat ((q - e) + 1) = unat (q - e) + 1" by (subst unat_plus_simple [THEN iffD1]) (simp_all add: no_olen_add_nat)
  then show ?thesis by (simp add: ahead_def seqNext_def algebra_simps)
qed

lemma ahead_eq_iff: "ahead e s = ahead e t \<longleftrightarrow> s = t"
  using word_unat_eq_iff [of "s - e" "t - e"] by (simp add: ahead_def)

lemma ahead_self [simp]: "ahead e e = 0"
  by (simp add: ahead_def)

text \<open>Inside the half-window the search finds the due packet closest ahead.\<close>

lemma npd_loop_least:
  assumes "npd_loop now bs best = Some r"
    and "\<forall>b\<in>set bs. ahead e (SequenceNumber (b_p b)) < 32768"
    and "\<forall>b. best = Some b \<longrightarrow> ahead e (SequenceNumber (b_p b)) < 32768"
  shows "(\<forall>b\<in>set bs. b_due b \<le> now \<longrightarrow>
        ahead e (SequenceNumber (b_p r)) \<le> ahead e (SequenceNumber (b_p b))) \<and>
    (\<forall>b. best = Some b \<longrightarrow> ahead e (SequenceNumber (b_p r)) \<le> ahead e (SequenceNumber (b_p b)))"
  using assms
proof (induction bs arbitrary: best)
  case Nil
  then show ?case by simp
next
  case (Cons x bs)
  show ?case
  proof (cases "now < b_due x")
    case True
    with Cons.prems Cons.IH [of best] show ?thesis by simp
  next
    case False
    show ?thesis
    proof (cases best)
      case None
      with False Cons.prems Cons.IH [of "Some x"] show ?thesis by simp
    next
      case (Some c)
      with False Cons.prems Cons.IH [of "Some x"] Cons.IH [of best] show ?thesis
        by (cases "seqBefore (SequenceNumber (b_p x)) (SequenceNumber (b_p c))")
          (auto simp: seqBefore_ahead [where e = e])
    qed
  qed
qed

lemma emit_next_least:
  assumes next1: "emit_next iter now jb = Some (jb', p, cs)"
    and inv: "jb_inv jb" and ord: "in_order jb" and iter: "iter_ok iter (jb_buf jb)"
    and at: "jb_buf jb s = Some b"
  shows "ahead (jb_expected jb) (SequenceNumber p) \<le> ahead (jb_expected jb) s"
proof (cases "jb_buf jb (jb_expected jb)")
  case (Some c)
  with next1 inv show ?thesis
    by (auto simp: emit_next_def jb_inv_def split: if_splits)
next
  case None
  let ?e = "jb_expected jb"
  from None next1 obtain r where r: "nextPresentDue iter now (jb_buf jb) = Some r" and p: "p = b_p r"
    by (auto simp: emit_next_def Let_def split: option.splits)
  from nextPresentDue_Some [OF r] inv
  have r_at: "jb_buf jb (SequenceNumber p) = Some r" and r_due: "b_due r \<le> now"
    by (auto simp: jb_inv_def p)
  show ?thesis
  proof (cases "b_due b \<le> now")
    case True
    have "set (List.map_filter (jb_buf jb) (iter (jb_buf jb))) = ran (jb_buf jb)"
      using iter by (auto simp: set_map_filter_Some ran_def iter_ok_def)
    moreover have "\<forall>c\<in>ran (jb_buf jb). ahead ?e (SequenceNumber (b_p c)) < 32768"
      using ord inv by (auto simp: in_order_def jb_inv_def ran_def)
    moreover from at have "b \<in> ran (jb_buf jb)" by (rule ranI)
    ultimately have "ahead ?e (SequenceNumber p) \<le> ahead ?e (SequenceNumber (b_p b))"
      using npd_loop_least [OF r [unfolded nextPresentDue_def], of ?e] True p by simp
    with inv at show ?thesis by (auto simp: jb_inv_def)
  next
    case False
    then show ?thesis
      using ord at r_at r_due unfolding in_order_def by (meson dual_order.trans not_le)
  qed
qed

lemma emit_next_in_order:
  assumes next1: "emit_next iter now jb = Some (jb', p, cs)"
    and inv: "jb_inv jb" and ord: "in_order jb" and iter: "iter_ok iter (jb_buf jb)"
  shows "in_order jb'"
    and "jb_buf jb' s = Some b \<Longrightarrow>
      ahead (jb_expected jb) s = ahead (jb_expected jb) (SequenceNumber p) + 1 + ahead (jb_expected jb') s"
proof -
  let ?e = "jb_expected jb"
  have step: "ahead ?e t = ahead ?e (SequenceNumber p) + 1 + ahead (jb_expected jb') t"
    if "jb_buf jb' t = Some c" for t c
  proof -
    from that emit_next_Some(3) [OF next1 inv] have "jb_buf jb t = Some c" and "t \<noteq> SequenceNumber p"
      by (auto split: if_splits)
    with emit_next_least [OF next1 inv ord iter] have "ahead ?e (SequenceNumber p) < ahead ?e t"
      by (metis ahead_eq_iff order_le_less)
    with ahead_seqNext [OF this] emit_next_Some(3) [OF next1 inv] show ?thesis by simp
  qed
  then show "jb_buf jb' s = Some b \<Longrightarrow>
      ahead ?e s = ahead ?e (SequenceNumber p) + 1 + ahead (jb_expected jb') s" .
  have sub: "jb_buf jb t = Some c" if "jb_buf jb' t = Some c" for t c
    using that emit_next_Some(3) [OF next1 inv] by (auto split: if_splits)
  show "in_order jb'"
    unfolding in_order_def
  proof (intro conjI allI impI)
    fix t c
    assume "jb_buf jb' t = Some c"
    with step sub ord show "ahead (jb_expected jb') t < 32768"
      unfolding in_order_def by (metis add_lessD1 add.commute)
  next
    fix t u c d
    assume "jb_buf jb' t = Some c" "jb_buf jb' u = Some d"
      "ahead (jb_expected jb') t < ahead (jb_expected jb') u"
    with step sub ord show "b_due c \<le> b_due d"
      unfolding in_order_def by (metis add_less_cancel_left)
  qed
qed

text \<open>\<open>Emit\<close> on a buffer in order: the due packets, all of them, in sequence order, and the
  loss counter goes up by exactly the sequence numbers passed over without a packet.\<close>

lemma emits_in_order:
  assumes "emits iter now jb ps cs jb'" and "jb_inv jb" and "in_order jb"
    and "iter_ok iter (jb_buf jb)"
  shows "in_order jb' \<and>
    sorted_wrt (\<lambda>p q. ahead (jb_expected jb) (SequenceNumber p) < ahead (jb_expected jb) (SequenceNumber q)) ps \<and>
    (\<forall>s b. jb_buf jb s = Some b \<longrightarrow> b_due b \<le> now \<longrightarrow> b_p b \<in> set ps) \<and>
    jb_expected jb' = (if ps = [] then jb_expected jb else seqNext (SequenceNumber (last ps))) \<and>
    Lost (jb_stats jb') + word_of_nat (length ps)
      = Lost (jb_stats jb) + word_of_nat (ahead (jb_expected jb) (jb_expected jb'))"
  using assms
proof (induction rule: emits.induct)
  case (emits_stop jb)
  have "\<not> b_due b \<le> now" if "jb_buf jb s = Some b" for s b
  proof (cases "jb_buf jb (jb_expected jb)")
    case None
    with emits_stop that have "now < b_due b" by (simp add: emit_next_None)
    then show ?thesis by simp
  next
    case (Some c)
    then have "now < b_due c" using emits_stop by (simp add: emit_next_None)
    moreover have "b_due c \<le> b_due b" if "s \<noteq> jb_expected jb"
      using emits_stop.prems(2) Some \<open>jb_buf jb s = Some b\<close> that
      unfolding in_order_def by (metis ahead_eq_iff ahead_self gr0I)
    ultimately show ?thesis using Some that by (cases "s = jb_expected jb") auto
  qed
  then show ?case using emits_stop by auto
next
  case (emits_step jb jb1 p cs ps cs' jb')
  note next1 = emits_step.hyps(1)
  let ?e = "jb_expected jb"
  have jb1: "jb_buf jb1 = (jb_buf jb)(SequenceNumber p := None)"
      "jb_expected jb1 = seqNext (SequenceNumber p)"
      "Lost (jb_stats jb1) = Lost (jb_stats jb) + word_of_nat (ahead ?e (SequenceNumber p))"
    using emit_next_Some(3) [OF next1 emits_step.prems(1)] by (simp_all add: seqDistance_ahead)
  have inv1: "jb_inv jb1" using next1 emits_step.prems(1) by (rule emit_next_jb_inv)
  have ord1: "in_order jb1" using next1 emits_step.prems by (rule emit_next_in_order(1))
  have iter1: "iter_ok iter (jb_buf jb1)" using emits_step.prems(3) jb1(1) by (simp add: iter_ok_del)
  note IH = emits_step.IH [OF inv1 ord1 iter1]
  have shift: "ahead ?e (SequenceNumber q) =
      ahead ?e (SequenceNumber p) + 1 + ahead (jb_expected jb1) (SequenceNumber q)"
    if "q \<in> set ps" for q
    using emits_packets [OF emits_step.hyps(2) inv1] that
      emit_next_in_order(2) [OF next1 emits_step.prems] by blast
  have near: "ahead ?e (SequenceNumber q) < 32768" if "q \<in> set (p # ps)" for q
    using emits_packets [OF emits.emits_step [OF next1 emits_step.hyps(2)] emits_step.prems(1)] that
      emits_step.prems(2) unfolding in_order_def by blast
  have e': "ahead ?e (jb_expected jb') = ahead ?e (SequenceNumber p) + 1 + ahead (jb_expected jb1) (jb_expected jb')"
  proof (cases "ps = []")
    case True
    with IH jb1 near [of p] show ?thesis by (simp add: ahead_seqNext_self)
  next
    case False
    then have last: "last ps \<in> set ps" by simp
    with IH False shift [OF last] near [of "last ps"] show ?thesis
      by (simp add: ahead_seqNext_self)
  qed
  have "sorted_wrt (\<lambda>p q. ahead (jb_expected jb1) (SequenceNumber p)
      < ahead (jb_expected jb1) (SequenceNumber q)) ps"
    using IH by (elim conjE)
  then have "sorted_wrt (\<lambda>p q. ahead ?e (SequenceNumber p) < ahead ?e (SequenceNumber q)) ps"
    by (rule sorted_wrt_mono_rel [rotated]) (simp add: shift)
  moreover have "b_p b \<in> set (p # ps)" if at: "jb_buf jb s = Some b" "b_due b \<le> now" for s b
  proof (cases "s = SequenceNumber p")
    case True
    with at emit_next_Some(1) [OF next1 emits_step.prems(1)] show ?thesis by auto
  next
    case False
    with at jb1(1) have "jb_buf jb1 s = Some b" by simp
    with at IH have "b_p b \<in> set ps" by blast
    then show ?thesis by simp
  qed
  moreover have "Lost (jb_stats jb') + word_of_nat (length (p # ps))
      = Lost (jb_stats jb) + word_of_nat (ahead ?e (jb_expected jb'))"
    using IH jb1(3) e' by (simp add: algebra_simps)
  moreover have "\<forall>q\<in>set ps. ahead ?e (SequenceNumber p) < ahead ?e (SequenceNumber q)"
    using shift by (metis less_add_one trans_less_add1)
  moreover have "in_order jb'" and "jb_expected jb' =
      (if p # ps = [] then ?e else seqNext (SequenceNumber (last (p # ps))))"
    using IH jb1(2) by simp_all
  ultimately show ?case
    unfolding sorted_wrt.simps by (intro conjI allI impI) assumption+
qed

section \<open>Arrivals in sequence order\<close>

definition push_all :: "jitter_buffer \<Rightarrow> (packet \<times> time) list \<Rightarrow> jitter_buffer" where
  "push_all jb xs = foldl (\<lambda>jb (p, t). jb_Push p t jb) jb xs"

text \<open>Packets arriving in sequence order over less than half the sequence space, with
  gaps allowed; \<open>s0\<close> is the first sequence number.\<close>

definition arrivals_ok :: "u16 \<Rightarrow> (packet \<times> time) list \<Rightarrow> bool" where
  "arrivals_ok s0 xs \<longleftrightarrow>
     sorted_wrt (\<lambda>(p, t) (q, u). ahead s0 (SequenceNumber p) < ahead s0 (SequenceNumber q) \<and> t \<le> u) xs \<and>
     (\<forall>(p, t)\<in>set xs. ahead s0 (SequenceNumber p) < 32768) \<and>
     (xs \<noteq> [] \<longrightarrow> SequenceNumber (fst (hd xs)) = s0)"

lemma arrivals_ok_snoc:
  "arrivals_ok s0 (xs @ [(p, t)]) \<Longrightarrow>
     arrivals_ok s0 xs \<and> ahead s0 (SequenceNumber p) < 32768 \<and>
     (xs = [] \<longrightarrow> SequenceNumber p = s0) \<and>
     (\<forall>(q, u)\<in>set xs. ahead s0 (SequenceNumber q) < ahead s0 (SequenceNumber p) \<and> u \<le> t)"
  by (auto simp: arrivals_ok_def sorted_wrt_append hd_append split: if_splits)

lemma push_all_state:
  "arrivals_ok s0 xs \<Longrightarrow> xs \<noteq> [] \<Longrightarrow>
   (let jb = push_all (jb_New target hook) xs in
     jb_inv jb \<and> jb_haveSeq jb \<and> jb_expected jb = s0 \<and> jb_target jb = target \<and> Lost (jb_stats jb) = 0 \<and>
     (\<forall>s b. jb_buf jb s = Some b \<longleftrightarrow>
       (\<exists>p t. (p, t) \<in> set xs \<and> s = SequenceNumber p \<and> b = \<lparr>b_p = p, b_due = t + target\<rparr>)))"
proof (induction xs rule: rev_induct)
  case Nil
  then show ?case by simp
next
  case (snoc x xs)
  obtain p t where x: "x = (p, t)" by (cases x)
  note ok = arrivals_ok_snoc [OF snoc.prems(1) [unfolded x]]
  let ?jb = "push_all (jb_New target hook) xs"
  have last: "push_all (jb_New target hook) (xs @ [x]) = jb_Push p t ?jb"
    by (simp add: push_all_def x)
  show ?case
  proof (cases "xs = []")
    case True
    then have "?jb = jb_New target hook" by (simp add: push_all_def)
    with last True ok x show ?thesis
      by (auto simp: Let_def jb_Push_def jb_New_def jb_inv_def time_add_def stats_zero_def)
  next
    case False
    with ok snoc.IH have IH: "jb_inv ?jb" "jb_haveSeq ?jb" "jb_expected ?jb = s0" "jb_target ?jb = target"
        "Lost (jb_stats ?jb) = 0"
        "\<forall>s b. jb_buf ?jb s = Some b \<longleftrightarrow>
          (\<exists>p t. (p, t) \<in> set xs \<and> s = SequenceNumber p \<and> b = \<lparr>b_p = p, b_due = t + target\<rparr>)"
      by (simp_all add: Let_def)
    have fresh: "jb_buf ?jb (SequenceNumber p) = None"
    proof (rule ccontr)
      assume "jb_buf ?jb (SequenceNumber p) \<noteq> None"
      then obtain q u where "(q, u) \<in> set xs" "SequenceNumber p = SequenceNumber q"
        using IH(6) by auto
      with ok show False by auto
    qed
    moreover have "\<not> seqBefore (SequenceNumber p) s0"
      using ok seqBefore_ahead [of s0 "SequenceNumber p" s0] by simp
    ultimately have "jb_buf (jb_Push p t ?jb) =
        (jb_buf ?jb)(SequenceNumber p \<mapsto> \<lparr>b_p = p, b_due = t + target\<rparr>)"
      and "jb_haveSeq (jb_Push p t ?jb)" "jb_expected (jb_Push p t ?jb) = s0"
      "jb_target (jb_Push p t ?jb) = target" "Lost (jb_stats (jb_Push p t ?jb)) = 0"
      using IH(1-5) by (simp_all add: jb_Push_def Let_def time_add_def)
    note push = this
    have "jb_buf (jb_Push p t ?jb) s = Some b \<longleftrightarrow>
        (\<exists>q u. (q, u) \<in> set (xs @ [x]) \<and> s = SequenceNumber q \<and> b = \<lparr>b_p = q, b_due = u + target\<rparr>)" for s b
    proof (cases "s = SequenceNumber p")
      case True
      with ok have "\<not> (\<exists>q u. (q, u) \<in> set xs \<and> s = SequenceNumber q)" by fastforce
      with True push(1) show ?thesis by (auto simp: x)
    next
      case False
      with push(1) IH(6) show ?thesis by (simp add: x) blast
    qed
    with last push(2-5) jb_Push_inv [OF IH(1), of p t] show ?thesis
      by (simp only: Let_def) simp
  qed
qed

lemma push_all_in_order:
  assumes ok: "arrivals_ok s0 xs" and "xs \<noteq> []"
  shows "in_order (push_all (jb_New target hook) xs)"
proof -
  let ?jb = "push_all (jb_New target hook) xs"
  have e: "jb_expected ?jb = s0"
    and at: "\<exists>p t. (p, t) \<in> set xs \<and> s = SequenceNumber p \<and> b = \<lparr>b_p = p, b_due = t + target\<rparr>"
    if "jb_buf ?jb s = Some b" for s b
    using push_all_state [OF assms, of target hook] that by (simp_all add: Let_def)
  have mono: "t \<le> u" if "(p, t) \<in> set xs" "(q, u) \<in> set xs"
      "ahead s0 (SequenceNumber p) < ahead s0 (SequenceNumber q)" for p t q u
    using sorted_wrt_pair [OF ok [unfolded arrivals_ok_def, THEN conjunct1] that(1,2)] that(3) by auto
  show ?thesis
    unfolding in_order_def
  proof (intro conjI allI impI)
    fix s b
    assume sb: "jb_buf ?jb s = Some b"
    from at [OF sb] obtain p t where "(p, t) \<in> set xs" "s = SequenceNumber p" by blast
    then show "ahead (jb_expected ?jb) s < 32768"
      using ok e [OF sb] unfolding arrivals_ok_def by auto
  next
    fix s1 s2 b c
    assume sb: "jb_buf ?jb s1 = Some b" and sc: "jb_buf ?jb s2 = Some c"
      and less: "ahead (jb_expected ?jb) s1 < ahead (jb_expected ?jb) s2"
    from at [OF sb] obtain p t where p: "(p, t) \<in> set xs" "s1 = SequenceNumber p" "b_due b = t + target"
      by auto
    from at [OF sc] obtain q u where q: "(q, u) \<in> set xs" "s2 = SequenceNumber q" "b_due c = u + target"
      by auto
    from mono [OF p(1) q(1)] less e [OF sb] p q show "b_due b \<le> b_due c" by simp
  qed
qed

lemma sorted_key_unique:
  assumes "sorted_wrt (\<lambda>p q. f p < (f q :: nat)) xs" and "sorted_wrt (\<lambda>p q. f p < f q) ys"
    and "set xs = set ys"
  shows "xs = ys"
proof -
  have "sorted_wrt (<) (map f xs)" and "sorted_wrt (<) (map f ys)"
    using assms(1,2) by (simp_all add: sorted_wrt_map)
  with assms(3) have eq: "map f xs = map f ys"
    by (intro strict_sorted_equal) simp_all
  have "inj_on f (set xs)"
    using sorted_wrt_pair [OF assms(1)] by (intro inj_onI) force
  with eq assms(3) show ?thesis by (simp add: inj_on_map_eq_map)
qed

section \<open>Properties\<close>

text \<open>C33. \<open>Emit\<close> returns, whatever order Go visits the map in: from every consistent buffer
  its loop ends.\<close>

theorem Emit_terminates:
  assumes "jb_inv jb"
  shows "\<exists>jb' ps cs. jb_Emit iter now jb = Some (jb', ps, cs) \<and> jb_inv jb'"
  using jb_Emit_emits [OF assms, of iter now] emits_inv assms by blast

text \<open>Every packet \<open>Emit\<close> hands out was waiting in the buffer with its deadline reached, is
  handed out once, and is gone from the buffer afterwards; everything else stays.\<close>

theorem Emit_delivers_due_packets:
  assumes "jb_inv jb" and "jb_Emit iter now jb = Some (jb', ps, cs)"
  shows "distinct (map SequenceNumber ps) \<and>
    jb_buf jb' = jb_buf jb |` (- SequenceNumber ` set ps) \<and>
    (\<forall>p\<in>set ps. \<exists>b. jb_buf jb (SequenceNumber p) = Some b \<and> b_p b = p \<and> b_due b \<le> now)"
  using jb_Emit_emits [OF assms(1), of iter now] assms emits_packets by auto

text \<open>C32. Over any sequence of \<open>Push\<close> and \<open>Emit\<close> calls the counters account for every packet:
  received = duplicates + late + delivered + still buffered (as 64-bit counters).\<close>

theorem counters_account_for_packets:
  assumes "foldl jb_step (jb_New target hook, []) es = (jb, out)"
  shows "Received (jb_stats jb) =
    Duplicate (jb_stats jb) + Late (jb_stats jb) + word_of_nat (length out + jb_Len jb)"
proof -
  have "accounted (jb_New target hook, [])"
    by (simp add: accounted_def jb_inv_def jb_New_def stats_zero_def jb_Len_def)
  from jitter_runs.run_inv [OF this, of es] assms show ?thesis
    by (simp add: accounted_def)
qed

text \<open>C10. On a buffer in order \<open>Emit\<close> plays back correctly: it hands out all due packets and
  no others, in sequence order, and moves the playout position behind the last of them; the
  loss counter grows by the sequence numbers skipped, neither more nor less.\<close>

theorem Emit_in_order:
  assumes "jb_inv jb" and "in_order jb" and "iter_ok iter (jb_buf jb)"
    and "jb_Emit iter now jb = Some (jb', ps, cs)"
  shows "sorted_wrt (\<lambda>p q. ahead (jb_expected jb) (SequenceNumber p)
        < ahead (jb_expected jb) (SequenceNumber q)) ps \<and>
    set ps = {p. \<exists>s b. jb_buf jb s = Some b \<and> b_p b = p \<and> b_due b \<le> now} \<and>
    Lost (jb_stats jb') + word_of_nat (length ps)
      = Lost (jb_stats jb) + word_of_nat (ahead (jb_expected jb) (jb_expected jb')) \<and>
    in_order jb'"
proof -
  from jb_Emit_emits [OF assms(1), of iter now] assms(4) have em: "emits iter now jb ps cs jb'" by auto
  note io = emits_in_order [OF em assms(1-3)]
  note pk = emits_packets [OF em assms(1)]
  have "set ps = {p. \<exists>s b. jb_buf jb s = Some b \<and> b_p b = p \<and> b_due b \<le> now}"
    using io pk by (intro subset_antisym subsetI) (blast, auto)
  with io show ?thesis by (intro conjI) (elim conjE; assumption)+
qed

text \<open>C17. End to end: packets that arrive in sequence order (gaps allowed, over less than half
  the sequence space) all come out of one \<open>Emit\<close> after the last deadline, in order, and the
  loss counter is exactly the number of sequence numbers that never arrived.\<close>

theorem in_order_arrivals_played_back:
  assumes ok: "arrivals_ok s0 xs" and ne: "xs \<noteq> []"
    and iter: "iter_ok iter (jb_buf (push_all (jb_New target hook) xs))"
    and now: "\<forall>(p, t)\<in>set xs. t + target \<le> now"
  shows "\<exists>jb' cs. jb_Emit iter now (push_all (jb_New target hook) xs) = Some (jb', map fst xs, cs) \<and>
    Lost (jb_stats jb') + word_of_nat (length xs)
      = word_of_nat (Suc (ahead s0 (SequenceNumber (fst (last xs)))))"
proof -
  let ?jb = "push_all (jb_New target hook) xs"
  have st: "jb_inv ?jb" "jb_expected ?jb = s0" "Lost (jb_stats ?jb) = 0"
    and buf: "jb_buf ?jb s = Some b \<longleftrightarrow>
      (\<exists>p t. (p, t) \<in> set xs \<and> s = SequenceNumber p \<and> b = \<lparr>b_p = p, b_due = t + target\<rparr>)" for s b
    using push_all_state [OF ok ne, of target hook] by (simp_all add: Let_def)
  obtain ps cs jb' where em: "emits iter now ?jb ps cs jb'" and Emit: "jb_Emit iter now ?jb = Some (jb', ps, cs)"
    using jb_Emit_emits [OF st(1)] by blast
  note io = emits_in_order [OF em st(1) push_all_in_order [OF ok ne] iter]
  have "fst x \<in> set ps" if "x \<in> set xs" for x
  proof -
    from that have "jb_buf ?jb (SequenceNumber (fst x)) = Some \<lparr>b_p = fst x, b_due = snd x + target\<rparr>"
      by (auto simp: buf)
    with io now that show ?thesis by fastforce
  qed
  moreover have "p \<in> fst ` set xs" if "p \<in> set ps" for p
    using emits_packets [OF em st(1)] that buf by force
  ultimately have "set ps = set (map fst xs)" by auto
  moreover have "sorted_wrt (\<lambda>p q. ahead s0 (SequenceNumber p) < ahead s0 (SequenceNumber q)) (map fst xs)"
    using ok unfolding arrivals_ok_def sorted_wrt_map by (auto elim: sorted_wrt_mono_rel [rotated])
  ultimately have ps: "ps = map fst xs"
    using io st(2) by (intro sorted_key_unique [where f = "\<lambda>p. ahead s0 (SequenceNumber p)"]) auto
  have "ahead s0 (SequenceNumber (fst (last xs))) < 32768"
    using ok ne last_in_set [OF ne] unfolding arrivals_ok_def by (metis (mono_tags, lifting) case_prod_beta)
  with io st(2,3) ps ne Emit show ?thesis
    by (auto simp: ahead_seqNext_self last_map)
qed

text \<open>Calling \<open>Emit\<close> again at the same instant hands out nothing and changes nothing.\<close>

theorem Emit_idempotent:
  assumes "jb_inv jb" and "jb_Emit iter now jb = Some (jb', ps, cs)"
  shows "jb_Emit iter now jb' = Some (jb', [], [])"
proof -
  from jb_Emit_emits [OF assms(1), of iter now] assms(2) have em: "emits iter now jb ps cs jb'" by auto
  from emits_inv [OF em assms(1)] emits_stopped [OF em] show ?thesis
    by (simp add: jb_Emit_def emit_loop_next)
qed

text \<open>A packet that was overtaken while it waited (its slot was passed over because a later
  packet fell due first) is still handed out when its own deadline comes: out of order, the
  playout position moves backwards to just behind it, and the loss counter jumps by at least
  32768 although no packet is missing.\<close>

theorem overtaken_packet_jumps_back:
  assumes "jb_inv jb" and "iter_ok iter (jb_buf jb)"
    and "jb_buf jb = [s \<mapsto> b]" and "b_due b \<le> now" and "seqBefore s (jb_expected jb)"
  shows "\<exists>jb' cs. jb_Emit iter now jb = Some (jb', [b_p b], cs) \<and>
    Lost (jb_stats jb') = Lost (jb_stats jb) + word_of_nat (seqDistance (jb_expected jb) s) \<and>
    32768 \<le> seqDistance (jb_expected jb) s \<and> jb_expected jb' = seqNext s"
proof -
  from assms(1,3) have seq: "SequenceNumber (b_p b) = s" by (simp add: jb_inv_def split: if_splits)
  from assms(5) have away: "s \<noteq> jb_expected jb" by (simp add: seqBefore_def)
  have "emit_next iter now jb \<noteq> None"
    using assms(3,4) away by (simp add: emit_next_None [OF assms(2)])
  then obtain jb1 p cs where next1: "emit_next iter now jb = Some (jb1, p, cs)" by auto
  from emit_next_Some(1) [OF next1 assms(1)] assms(3) have p: "p = b_p b" by (auto split: if_splits)
  from emit_next_Some(3) [OF next1 assms(1)] assms(3) p seq
  have jb1: "jb_buf jb1 = Map.empty" "jb_expected jb1 = seqNext s"
      "Lost (jb_stats jb1) = Lost (jb_stats jb) + word_of_nat (seqDistance (jb_expected jb) s)"
    by auto
  have "emit_next iter now jb1 = None"
    using iter_ok_del [OF assms(2), of s] assms(3) jb1(1) by (simp add: emit_next_None)
  then have "jb_Emit iter now jb = Some (jb1, [b_p b], cs)"
    using next1 p assms(1) emit_next_jb_inv [OF next1 assms(1)]
    by (simp add: jb_Emit_def emit_loop_next)
  moreover have "32768 \<le> seqDistance (jb_expected jb) s"
    using assms(5) by (simp add: seqDistance_ahead ahead_def seqBefore_def sint_neg_iff)
  ultimately show ?thesis using jb1 by blast
qed

text \<open>One \<open>Emit\<close> makes at most 1024 loss-hook calls per packet it hands out, however far
  ahead a packet's sequence number is.\<close>

theorem loss_hook_calls_bounded:
  assumes "jb_inv jb" and "jb_Emit iter now jb = Some (jb', ps, cs)"
  shows "length cs \<le> maxLossHookCalls * length ps \<and> (\<not> jb_hook jb \<longrightarrow> cs = [])"
proof -
  have len: "length (loss_calls n c) = n" for n c
    by (induction n arbitrary: c) simp_all
  from jb_Emit_emits [OF assms(1), of iter now] assms(2) have "emits iter now jb ps cs jb'" by auto
  from this assms(1) show ?thesis
  proof (induction rule: emits.induct)
    case (emits_step jb jb1 p cs ps cs' jb')
    note after = emit_next_Some [OF emits_step.hyps(1) emits_step.prems]
    from emits_step.IH [OF emit_next_jb_inv [OF emits_step.hyps(1) emits_step.prems]] after(2,3)
    show ?case by (auto simp: gap_calls_def len intro: add_mono)
  qed simp
qed

section \<open>Witnesses\<close>

definition rtp_pkt :: "u16 \<Rightarrow> packet" where
  "rtp_pkt s = \<lparr>Version = 2, PayloadType = 111, SequenceNumber = s, Timestamp = 0, SSRC = 7, Payload = [1]\<rparr>"

definition scan :: "u16 list \<Rightarrow> map_order" where
  "scan ks m = filter (\<lambda>k. m k \<noteq> None) ks"

lemma scan_ok: "distinct ks \<Longrightarrow> dom m \<subseteq> set ks \<Longrightarrow> iter_ok (scan ks) m"
  unfolding iter_ok_def scan_def by (fastforce dest!: map_le_implies_dom_le)

text \<open>A buffer with the playout position at 7 in which packet 5 still waits.\<close>

definition overtaken_state :: jitter_buffer where
  "overtaken_state = (jb_New 60 False)\<lparr>jb_haveSeq := True, jb_expected := 7, jb_maxSeen := 6,
     jb_buf := [5 \<mapsto> \<lparr>b_p = rtp_pkt 5, b_due = 130\<rparr>]\<rparr>"

lemmas overtaken_simps = overtaken_state_def rtp_pkt_def jb_New_def stats_zero_def

lemma overtaken_inv: "jb_inv overtaken_state"
  by (simp add: overtaken_simps jb_inv_def)

definition overtaken_after :: jitter_buffer where
  "overtaken_after = overtaken_state\<lparr>jb_stats := stats_zero\<lparr>Lost := 65534\<rparr>,
     jb_buf := Map.empty, jb_expected := 6\<rparr>"

lemmas jb_eval = jb_Push_def jb_New_def Let_def jb_Emit_def emit_loop.simps stats_zero_def rtp_pkt_def
  nextPresentDue_def scan_def List.map_filter_simps time_add_def seqNext_def seqBefore_def seqDistance_def

lemma overtaken_Emit:
  "jb_Emit (scan [5]) 131 overtaken_state = Some (overtaken_after, [rtp_pkt 5], [])"
  by (simp add: jb_eval overtaken_after_def overtaken_state_def)

text \<open>Two arrivals across the wrap-around, with sequence number 0 missing.\<close>

definition wrap_arrivals :: "(packet \<times> time) list" where
  "wrap_arrivals = [(rtp_pkt 65535, 0), (rtp_pkt 1, 10)]"

lemma wrap_arrivals_ok: "arrivals_ok 65535 wrap_arrivals" "wrap_arrivals \<noteq> []"
  by (simp_all add: arrivals_ok_def wrap_arrivals_def rtp_pkt_def ahead_def)

lemma wrap_iter: "iter_ok (scan [1, 65535]) (jb_buf (push_all (jb_New 60 False) wrap_arrivals))"
  by (rule scan_ok) (auto simp: push_all_def wrap_arrivals_def jb_eval split: if_splits)

theorem Emit_terminates_witness:
  "\<exists>jb' ps cs. jb_Emit (scan [5]) 131 overtaken_state = Some (jb', ps, cs) \<and> jb_inv jb'"
  by (rule Emit_terminates [OF overtaken_inv])

theorem Emit_delivers_due_packets_witness:
  "jb_buf overtaken_after = jb_buf overtaken_state |` (- SequenceNumber ` set [rtp_pkt 5])"
  using Emit_delivers_due_packets [OF overtaken_inv overtaken_Emit] by blast

theorem counters_account_for_packets_witness:
  "\<exists>jb out. foldl jb_step (jb_New 60 False, []) [JPush (rtp_pkt 3) 0, JPush (rtp_pkt 3) 1, JEmit (scan [3]) 60]
      = (jb, out) \<and>
    Received (jb_stats jb) = Duplicate (jb_stats jb) + Late (jb_stats jb) + word_of_nat (length out + jb_Len jb)"
proof -
  obtain jb out where run: "foldl jb_step (jb_New 60 False, [])
      [JPush (rtp_pkt 3) 0, JPush (rtp_pkt 3) 1, JEmit (scan [3]) 60] = (jb, out)"
    by fastforce
  with counters_account_for_packets [OF run] show ?thesis by blast
qed

theorem Emit_in_order_witness:
  "\<exists>jb' ps cs. jb_Emit (scan [1, 65535]) 60 (push_all (jb_New 60 False) wrap_arrivals) = Some (jb', ps, cs) \<and>
    in_order jb' \<and> map SequenceNumber ps = [65535]"
proof -
  let ?jb = "push_all (jb_New 60 False) wrap_arrivals"
  have inv: "jb_inv ?jb"
    using push_all_state [OF wrap_arrivals_ok, of 60 False] by (simp add: Let_def)
  obtain jb' cs where run: "jb_Emit (scan [1, 65535]) 60 ?jb = Some (jb', [rtp_pkt 65535], cs)"
    by (simp add: push_all_def wrap_arrivals_def jb_eval)
  from Emit_in_order [OF inv push_all_in_order [OF wrap_arrivals_ok] wrap_iter run] run
  show ?thesis by (intro exI conjI) (assumption | simp add: rtp_pkt_def)+
qed

theorem in_order_arrivals_played_back_witness:
  "\<exists>jb' cs. jb_Emit (scan [1, 65535]) 70 (push_all (jb_New 60 False) wrap_arrivals)
      = Some (jb', [rtp_pkt 65535, rtp_pkt 1], cs) \<and> Lost (jb_stats jb') + 2 = 3"
  using in_order_arrivals_played_back [OF wrap_arrivals_ok wrap_iter, of 70]
  by (simp add: wrap_arrivals_def) (simp add: rtp_pkt_def ahead_def)

theorem Emit_idempotent_witness:
  "jb_Emit (scan [5]) 131 overtaken_after = Some (overtaken_after, [], [])"
  by (rule Emit_idempotent [OF overtaken_inv overtaken_Emit])

text \<open>The state of the overtaken packet is reached by ordinary calls: packet 4 is lost, packet
  6 arrives 5 ticks before packet 5.\<close>

theorem overtaken_packet_jumps_back_witness:
  "(case foldl jb_step (jb_New 60 False, [])
      [JPush (rtp_pkt 3) 0, JEmit (scan [3, 4, 5, 6]) 60, JPush (rtp_pkt 6) 65, JPush (rtp_pkt 5) 70,
       JEmit (scan [3, 4, 5, 6]) 126, JEmit (scan [3, 4, 5, 6]) 131] of
    (jb, out) \<Rightarrow> (map SequenceNumber out, Lost (jb_stats jb), Received (jb_stats jb))) = ([3, 6, 5], 65536, 3) \<and>
   (\<exists>jb' cs. jb_Emit (scan [5]) 131 overtaken_state = Some (jb', [rtp_pkt 5], cs) \<and>
     jb_expected jb' = seqNext 5)"
proof
  show "(case foldl jb_step (jb_New 60 False, [])
      [JPush (rtp_pkt 3) 0, JEmit (scan [3, 4, 5, 6]) 60, JPush (rtp_pkt 6) 65, JPush (rtp_pkt 5) 70,
       JEmit (scan [3, 4, 5, 6]) 126, JEmit (scan [3, 4, 5, 6]) 131] of
    (jb, out) \<Rightarrow> (map SequenceNumber out, Lost (jb_stats jb), Received (jb_stats jb))) = ([3, 6, 5], 65536, 3)"
    by (simp add: jb_eval)
  have "iter_ok (scan [5]) (jb_buf overtaken_state)"
    by (rule scan_ok) (simp_all add: overtaken_state_def)
  from overtaken_packet_jumps_back [OF overtaken_inv this, of 5 "\<lparr>b_p = rtp_pkt 5, b_due = 130\<rparr>" 131]
  show "\<exists>jb' cs. jb_Emit (scan [5]) 131 overtaken_state = Some (jb', [rtp_pkt 5], cs) \<and>
     jb_expected jb' = seqNext 5"
    by (auto simp: overtaken_state_def seqBefore_def)
qed

theorem loss_hook_calls_bounded_witness:
  "length ([] :: u16 list) \<le> maxLossHookCalls * length [rtp_pkt 5] \<and> \<not> jb_hook overtaken_state"
  using loss_hook_calls_bounded [OF overtaken_inv overtaken_Emit] by (simp add: overtaken_simps)

end
