(* ===== verification/Metrics.thy ===== *)
theory Metrics
  imports Float64
begin

text \<open>
  \<open>internal/metrics/metrics.go\<close>: the statistics of spec section 18. Each field is an
  \<open>atomic.Int64\<close>, so every operation is one atomic step and additions wrap at 64 bits.
\<close>

type_synonym i64 = "64 word"

datatype label =
    LabelRTPPacketsReceived
  | LabelRTPPacketsLost
  | LabelRTPPacketsDuplicate
  | LabelRTPPacketsReordered
  | LabelRTPPacketsLate
  | LabelRTPJitterMS
  | LabelRTPBitrateBPS
  | LabelOpusDecodeErrors
  | LabelPCMFramesDecoded
  | LabelStreamDiscontinuity
  | LabelRecordingBytes
  | LabelControlReconnects

fun label_string :: "label \<Rightarrow> string" where
  "label_string LabelRTPPacketsReceived = ''rtp_packets_received''"
| "label_string LabelRTPPacketsLost = ''rtp_packets_lost''"
| "label_string LabelRTPPacketsDuplicate = ''rtp_packets_duplicate''"
| "label_string LabelRTPPacketsReordered = ''rtp_packets_reordered''"
| "label_string LabelRTPPacketsLate = ''rtp_packets_late''"
| "label_string LabelRTPJitterMS = ''rtp_jitter_ms''"
| "label_string LabelRTPBitrateBPS = ''rtp_bitrate_bps''"
| "label_string LabelOpusDecodeErrors = ''opus_decode_errors''"
| "label_string LabelPCMFramesDecoded = ''pcm_frames_decoded''"
| "label_string LabelStreamDiscontinuity = ''stream_discontinuities''"
| "label_string LabelRecordingBytes = ''recording_bytes''"
| "label_string LabelControlReconnects = ''control_reconnects''"

record metrics =
  rtpPacketsReceived :: i64
  rtpPacketsLost :: i64
  rtpPacketsDuplicate :: i64
  rtpPacketsReordered :: i64
  rtpPacketsLate :: i64
  rtpJitterMS :: i64
  rtpBitrateBPS :: i64
  opusDecodeErrors :: i64
  pcmFramesDecoded :: i64
  streamDiscontinuity :: i64
  recordingBytes :: i64
  controlReconnects :: i64

definition m_New :: metrics where
  "m_New = \<lparr>rtpPacketsReceived = 0, rtpPacketsLost = 0, rtpPacketsDuplicate = 0,
     rtpPacketsReordered = 0, rtpPacketsLate = 0, rtpJitterMS = 0, rtpBitrateBPS = 0,
     opusDecodeErrors = 0, pcmFramesDecoded = 0, streamDiscontinuity = 0, recordingBytes = 0,
     controlReconnects = 0\<rparr>"

definition IncRTPPacketsReceived :: "metrics \<Rightarrow> metrics" where
  "IncRTPPacketsReceived m = m\<lparr>rtpPacketsReceived := rtpPacketsReceived m + 1\<rparr>"

definition AddRTPPacketsLost :: "int \<Rightarrow> metrics \<Rightarrow> metrics" where
  "AddRTPPacketsLost n m = m\<lparr>rtpPacketsLost := rtpPacketsLost m + word_of_int n\<rparr>"

definition IncRTPPacketsDuplicate :: "metrics \<Rightarrow> metrics" where
  "IncRTPPacketsDuplicate m = m\<lparr>rtpPacketsDuplicate := rtpPacketsDuplicate m + 1\<rparr>"

definition IncRTPPacketsReordered :: "metrics \<Rightarrow> metrics" where
  "IncRTPPacketsReordered m = m\<lparr>rtpPacketsReordered := rtpPacketsReordered m + 1\<rparr>"

definition IncRTPPacketsLate :: "metrics \<Rightarrow> metrics" where
  "IncRTPPacketsLate m = m\<lparr>rtpPacketsLate := rtpPacketsLate m + 1\<rparr>"

definition IncOpusDecodeErrors :: "metrics \<Rightarrow> metrics" where
  "IncOpusDecodeErrors m = m\<lparr>opusDecodeErrors := opusDecodeErrors m + 1\<rparr>"

definition IncPCMFramesDecoded :: "metrics \<Rightarrow> metrics" where
  "IncPCMFramesDecoded m = m\<lparr>pcmFramesDecoded := pcmFramesDecoded m + 1\<rparr>"

definition IncStreamDiscontinuity :: "metrics \<Rightarrow> metrics" where
  "IncStreamDiscontinuity m = m\<lparr>streamDiscontinuity := streamDiscontinuity m + 1\<rparr>"

definition AddRecordingBytes :: "int \<Rightarrow> metrics \<Rightarrow> metrics" where
  "AddRecordingBytes n m = m\<lparr>recordingBytes := recordingBytes m + word_of_int n\<rparr>"

definition IncControlReconnects :: "metrics \<Rightarrow> metrics" where
  "IncControlReconnects m = m\<lparr>controlReconnects := controlReconnects m + 1\<rparr>"

definition SetRTPJitterMS :: "rat \<Rightarrow> metrics \<Rightarrow> metrics" where
  "SetRTPJitterMS v m = m\<lparr>rtpJitterMS := word_of_int (f64_to_int (f64_mul v 1000))\<rparr>"

definition SetRTPBitrateBPS :: "i64 \<Rightarrow> metrics \<Rightarrow> metrics" where
  "SetRTPBitrateBPS v m = m\<lparr>rtpBitrateBPS := v\<rparr>"

definition Snapshot :: "metrics \<Rightarrow> (string \<times> int) list" where
  "Snapshot m =
     [(label_string LabelRTPPacketsReceived, sint (rtpPacketsReceived m)),
      (label_string LabelRTPPacketsLost, sint (rtpPacketsLost m)),
      (label_string LabelRTPPacketsDuplicate, sint (rtpPacketsDuplicate m)),
      (label_string LabelRTPPacketsReordered, sint (rtpPacketsReordered m)),
      (label_string LabelRTPPacketsLate, sint (rtpPacketsLate m)),
      (label_string LabelRTPJitterMS, quot (sint (rtpJitterMS m)) 1000),
      (label_string LabelRTPBitrateBPS, sint (rtpBitrateBPS m)),
      (label_string LabelOpusDecodeErrors, sint (opusDecodeErrors m)),
      (label_string LabelPCMFramesDecoded, sint (pcmFramesDecoded m)),
      (label_string LabelStreamDiscontinuity, sint (streamDiscontinuity m)),
      (label_string LabelRecordingBytes, sint (recordingBytes m)),
      (label_string LabelControlReconnects, sint (controlReconnects m))]"

text \<open>The operations as events, and what a history of them should add up to.\<close>

datatype metric_event =
    EvReceived | EvLost int | EvDuplicate | EvReordered | EvLate | EvDecodeError | EvFrame
  | EvDiscontinuity | EvRecorded int | EvReconnect | EvJitter rat | EvBitrate i64

fun m_step :: "metrics \<Rightarrow> metric_event \<Rightarrow> metrics" where
  "m_step m EvReceived = IncRTPPacketsReceived m"
| "m_step m (EvLost n) = AddRTPPacketsLost n m"
| "m_step m EvDuplicate = IncRTPPacketsDuplicate m"
| "m_step m EvReordered = IncRTPPacketsReordered m"
| "m_step m EvLate = IncRTPPacketsLate m"
| "m_step m EvDecodeError = IncOpusDecodeErrors m"
| "m_step m EvFrame = IncPCMFramesDecoded m"
| "m_step m EvDiscontinuity = IncStreamDiscontinuity m"
| "m_step m (EvRecorded n) = AddRecordingBytes n m"
| "m_step m EvReconnect = IncControlReconnects m"
| "m_step m (EvJitter v) = SetRTPJitterMS v m"
| "m_step m (EvBitrate v) = SetRTPBitrateBPS v m"

fun counts :: "label \<Rightarrow> metric_event \<Rightarrow> int" where
  "counts l EvReceived = of_bool (l = LabelRTPPacketsReceived)"
| "counts l (EvLost n) = (if l = LabelRTPPacketsLost then n else 0)"
| "counts l EvDuplicate = of_bool (l = LabelRTPPacketsDuplicate)"
| "counts l EvReordered = of_bool (l = LabelRTPPacketsReordered)"
| "counts l EvLate = of_bool (l = LabelRTPPacketsLate)"
| "counts l EvDecodeError = of_bool (l = LabelOpusDecodeErrors)"
| "counts l EvFrame = of_bool (l = LabelPCMFramesDecoded)"
| "counts l EvDiscontinuity = of_bool (l = LabelStreamDiscontinuity)"
| "counts l (EvRecorded n) = (if l = LabelRecordingBytes then n else 0)"
| "counts l EvReconnect = of_bool (l = LabelControlReconnects)"
| "counts l (EvJitter v) = 0"
| "counts l (EvBitrate v) = 0"

definition total :: "label \<Rightarrow> metric_event list \<Rightarrow> int" where
  "total l es = (\<Sum>e\<leftarrow>es. counts l e)"

definition counter_labels :: "(label \<times> (metrics \<Rightarrow> i64)) list" where
  "counter_labels =
     [(LabelRTPPacketsReceived, rtpPacketsReceived), (LabelRTPPacketsLost, rtpPacketsLost),
      (LabelRTPPacketsDuplicate, rtpPacketsDuplicate), (LabelRTPPacketsReordered, rtpPacketsReordered),
      (LabelRTPPacketsLate, rtpPacketsLate), (LabelOpusDecodeErrors, opusDecodeErrors),
      (LabelPCMFramesDecoded, pcmFramesDecoded), (LabelStreamDiscontinuity, streamDiscontinuity),
      (LabelRecordingBytes, recordingBytes), (LabelControlReconnects, controlReconnects)]"

lemmas metric_ops =
  IncRTPPacketsReceived_def AddRTPPacketsLost_def IncRTPPacketsDuplicate_def
  IncRTPPacketsReordered_def IncRTPPacketsLate_def IncOpusDecodeErrors_def
  IncPCMFramesDecoded_def IncStreamDiscontinuity_def AddRecordingBytes_def
  IncControlReconnects_def SetRTPJitterMS_def SetRTPBitrateBPS_def

lemma m_step_counts:
  "(l, f) \<in> set counter_labels \<Longrightarrow> f (m_step m e) = f m + word_of_int (counts l e)"
  by (cases e) (auto simp: counter_labels_def metric_ops)

lemma run_counts:
  "(l, f) \<in> set counter_labels \<Longrightarrow> f (foldl m_step m es) = f m + word_of_int (total l es)"
  by (induction es arbitrary: m) (simp_all add: total_def m_step_counts)

lemma label_string_inj: "label_string a = label_string b \<Longrightarrow> a = b"
  by (cases a; cases b) simp_all

lemma Snapshot_distinct: "distinct (map fst (Snapshot m))"
proof -
  have "map fst (Snapshot m) = map label_string
      [LabelRTPPacketsReceived, LabelRTPPacketsLost, LabelRTPPacketsDuplicate,
       LabelRTPPacketsReordered, LabelRTPPacketsLate, LabelRTPJitterMS, LabelRTPBitrateBPS,
       LabelOpusDecodeErrors, LabelPCMFramesDecoded, LabelStreamDiscontinuity,
       LabelRecordingBytes, LabelControlReconnects]"
    by (simp add: Snapshot_def del: label_string.simps)
  moreover have "distinct (map label_string xs)" if "distinct xs" for xs
    using that by (simp add: distinct_map inj_on_def label_string_inj)
  ultimately show ?thesis by simp
qed

lemma Snapshot_counter:
  assumes "(l, f) \<in> set counter_labels"
  shows "map_of (Snapshot m) (label_string l) = Some (sint (f m))"
proof (rule map_of_is_SomeI [OF Snapshot_distinct])
  from assms show "(label_string l, sint (f m)) \<in> set (Snapshot m)"
    by (auto simp: counter_labels_def Snapshot_def simp del: label_string.simps)
qed

text \<open>After any history of updates a counter's entry in the snapshot is the exact sum of what
  was counted under its label, as long as that sum fits an \<open>int64\<close>; gauge updates and the
  other counters do not disturb it.\<close>

theorem Snapshot_counts_events:
  assumes "(l, f) \<in> set counter_labels" and "- (2 ^ 63) \<le> total l es" and "total l es < 2 ^ 63"
  shows "map_of (Snapshot (foldl m_step m_New es)) (label_string l) = Some (total l es)"
proof -
  have "f m_New = 0" using assms(1) by (auto simp: counter_labels_def m_New_def)
  moreover have "sint (word_of_int (total l es) :: i64) = total l es"
    using assms(2,3) by (simp add: sint_word_of_int64)
  ultimately show ?thesis using assms(1) by (simp add: Snapshot_counter run_counts)
qed

theorem Snapshot_counts_events_witness:
  "map_of (Snapshot (foldl m_step m_New [EvReceived, EvLost 3, EvJitter 2, EvReceived, EvLost 4]))
     ''rtp_packets_lost'' = Some 7"
  using Snapshot_counts_events [of LabelRTPPacketsLost rtpPacketsLost
      "[EvReceived, EvLost 3, EvJitter 2, EvReceived, EvLost 4]"]
  by (simp add: counter_labels_def total_def)

end
