(* ===== verification/Worker.thy ===== *)
theory Worker
  imports Pcm_Bus Jitter Metrics
begin

text \<open>
  The decoders of \<open>internal/audio/decoder.go\<close> and \<open>pion.go\<close> and the playout worker of
  \<open>worker.go\<close>, which drains the jitter buffer, decodes each packet and publishes the frame.
  The Opus codec itself is third-party: the decoder is a parameter, a function from its state,
  the packet and the output buffer.
\<close>

section \<open>Decoders\<close>

type_synonym 'd decode_fn = "'d \<Rightarrow> bytes \<Rightarrow> i16 list \<Rightarrow> (goerr + nat) \<times> i16 list \<times> 'd"

definition MaxFrameSamples :: nat where
  "MaxFrameSamples = 5760"

record stub_decoder =
  sd_samples :: nat
  sd_channels :: nat
  sd_calls :: nat

definition NewStubDecoder :: "nat \<Rightarrow> nat \<Rightarrow> stub_decoder" where
  "NewStubDecoder samplesPerChannel channels =
     \<lparr>sd_samples = samplesPerChannel, sd_channels = channels, sd_calls = 0\<rparr>"

definition stub_Decode :: "stub_decoder decode_fn" where
  "stub_Decode d0 opus out =
     (let d = d0\<lparr>sd_calls := Suc (sd_calls d0)\<rparr>;
          want = sd_samples d * sd_channels d
      in if length out < want then (Inl (Sentinel ErrDecode), out, d)
         else (Inr (sd_samples d), replicate want 0 @ drop want out, d))"

definition stub_Reset :: "stub_decoder \<Rightarrow> stub_decoder" where
  "stub_Reset d = d\<lparr>sd_calls := 0\<rparr>"

definition stub_Calls :: "stub_decoder \<Rightarrow> nat" where
  "stub_Calls d = sd_calls d"

text \<open>\<open>PionDecoder.Decode\<close> over \<open>DecodeToInt16\<close> of the library, whose error it joins to
  \<open>ErrDecode\<close>.\<close>

definition pion_Decode :: "'d decode_fn \<Rightarrow> 'd decode_fn" where
  "pion_Decode decodeToInt16 d opus out =
     (case decodeToInt16 d opus out of
        (Inl e, out', d') \<Rightarrow> (Inl (Joined (Sentinel ErrDecode) e), out', d')
      | (Inr n, out', d') \<Rightarrow> (Inr n, out', d'))"

text \<open>\<open>NewPionDecoder\<close> holds the zero value of the library's decoder; \<open>Reset\<close> replaces it by a
  new one for 48 kHz stereo and panics (\<open>None\<close>) when the library refuses.\<close>

record 'd pion_decoder =
  pd_decoder :: 'd

definition NewPionDecoder :: "'d \<Rightarrow> 'd pion_decoder" where
  "NewPionDecoder zero = \<lparr>pd_decoder = zero\<rparr>"

definition pion_Reset :: "(int \<Rightarrow> nat \<Rightarrow> goerr + 'd) \<Rightarrow> 'd pion_decoder \<Rightarrow> 'd pion_decoder option" where
  "pion_Reset newDecoderWithOutput d =
     (case newDecoderWithOutput SampleRate Channels of
        Inl e \<Rightarrow> None
      | Inr p \<Rightarrow> Some (d\<lparr>pd_decoder := p\<rparr>))"

text \<open>The decoder interface: the output buffer keeps its length and has room for the samples
  reported, for the decoder states it can reach.\<close>

locale pcm_decoder =
  fixes decode :: "'d decode_fn" and good :: "'d \<Rightarrow> bool"
  assumes decode_keeps_good: "good d \<Longrightarrow> good (snd (snd (decode d opus out)))"
    and decode_length: "good d \<Longrightarrow> length (fst (snd (decode d opus out))) = length out"
    and decode_room: "good d \<Longrightarrow> fst (decode d opus out) = Inr n \<Longrightarrow>
      n * Channels \<le> length out \<and> n < 2 ^ 32"

section \<open>The worker\<close>

record 'd worker =
  w_streamID :: string
  w_decoder :: 'd
  w_outBuf :: "i16 list"
  w_metrics :: "metrics option"
  w_onPacket :: bool
  w_firstPacketSent :: bool

definition NewWorker :: "string \<Rightarrow> 'd \<Rightarrow> metrics option \<Rightarrow> bool \<Rightarrow> 'd worker" where
  "NewWorker streamID dec m onPacket =
     \<lparr>w_streamID = streamID, w_decoder = dec, w_outBuf = replicate (MaxFrameSamples * Channels) 0,
      w_metrics = m, w_onPacket = onPacket, w_firstPacketSent = False\<rparr>"

datatype worker_event = WOnPacket bool | WPublish decoded_audio_frame

text \<open>One packet of a tick. \<open>None\<close> is the panic of slicing \<open>outBuf\<close> beyond its capacity.\<close>

definition worker_packet :: "'d decode_fn \<Rightarrow> packet \<Rightarrow> 'd worker \<Rightarrow> (worker_event list \<times> 'd worker) option" where
  "worker_packet decode p w0 =
     (let cb = (if w_onPacket w0 then [WOnPacket (\<not> w_firstPacketSent w0)] else []);
          w = (if w_onPacket w0 then w0\<lparr>w_firstPacketSent := True\<rparr> else w0)
      in case decode (w_decoder w) (Payload p) (w_outBuf w) of
           (Inl e, out, d) \<Rightarrow>
             Some (cb, w\<lparr>w_decoder := d, w_outBuf := out,
                         w_metrics := map_option IncOpusDecodeErrors (w_metrics w)\<rparr>)
         | (Inr spc, out, d) \<Rightarrow>
             if length out < spc * Channels then None
             else
               (let frame = (NewFrame (w_streamID w) (Timestamp p))
                      \<lparr>af_SampleCountPerChannel := word_of_nat spc,
                       af_PCM := take (spc * Channels) out,
                       af_SourceRTPSequenceStart := SequenceNumber p,
                       af_SourceRTPSequenceEnd := SequenceNumber p\<rparr>
                in Some (cb @ [WPublish frame],
                     w\<lparr>w_decoder := d, w_outBuf := out,
                       w_metrics := map_option IncPCMFramesDecoded (w_metrics w)\<rparr>)))"

fun worker_packets ::
  "'d decode_fn \<Rightarrow> packet list \<Rightarrow> 'd worker \<Rightarrow> (worker_event list \<times> 'd worker) option" where
  "worker_packets decode [] w = Some ([], w)"
| "worker_packets decode (p # ps) w =
     (case worker_packet decode p w of
        None \<Rightarrow> None
      | Some (evs, w1) \<Rightarrow>
          (case worker_packets decode ps w1 of
             None \<Rightarrow> None
           | Some (evs', w2) \<Rightarrow> Some (evs @ evs', w2)))"

text \<open>One tick of \<open>Start\<close>: drain the jitter buffer and handle what it emits. \<open>None\<close> also
  stands for an \<open>Emit\<close> that never returns.\<close>

definition worker_tick ::
  "map_order \<Rightarrow> 'd decode_fn \<Rightarrow> time \<Rightarrow> jitter_buffer \<Rightarrow> 'd worker \<Rightarrow>
     (worker_event list \<times> jitter_buffer \<times> 'd worker) option" where
  "worker_tick iter decode now jb w =
     (case jb_Emit iter now jb of
        None \<Rightarrow> None
      | Some (jb', ps, calls) \<Rightarrow>
          (case worker_packets decode ps w of
             None \<Rightarrow> None
           | Some (evs, w') \<Rightarrow> Some (evs, jb', w')))"

text \<open>The goroutine. It ends with the context it was started under or with the one \<open>Start\<close> derives
  from it, whose cancel function \<open>Stop\<close> calls (\<open>None\<close> while it is nil: a \<open>Stop\<close> before \<open>Start\<close> is
  lost).\<close>

record worker_ctx =
  wc_parentDone :: bool
  wc_cancel :: "bool option"

definition worker_ctx_New :: worker_ctx where
  "worker_ctx_New = \<lparr>wc_parentDone = False, wc_cancel = None\<rparr>"

definition worker_derive :: "worker_ctx \<Rightarrow> worker_ctx" where
  "worker_derive c = c\<lparr>wc_cancel := Some False\<rparr>"

definition worker_Stop :: "worker_ctx \<Rightarrow> worker_ctx" where
  "worker_Stop c = c\<lparr>wc_cancel := map_option (\<lambda>_. True) (wc_cancel c)\<rparr>"

definition worker_done :: "worker_ctx \<Rightarrow> bool" where
  "worker_done c \<longleftrightarrow> wc_parentDone c \<or> wc_cancel c = Some True"

text \<open>One pass of its loop: whether it returns, and what it does. When the context is done and the
  ticker has fired as well, \<open>select\<close> takes either: \<open>takeDone\<close>.\<close>

definition worker_pass ::
  "map_order \<Rightarrow> 'd decode_fn \<Rightarrow> worker_ctx \<Rightarrow> bool \<Rightarrow> time \<Rightarrow> jitter_buffer \<Rightarrow> 'd worker \<Rightarrow>
     (bool \<times> worker_event list \<times> jitter_buffer \<times> 'd worker) option" where
  "worker_pass iter decode c takeDone now jb w =
     (if worker_done c \<and> takeDone then Some (True, [], jb, w)
      else map_option (Pair False) (worker_tick iter decode now jb w))"

text \<open>All of it, one wake-up after the other, with the packets the read loop pushed in between.\<close>

record wake =
  wa_pushed :: "(packet \<times> time) list"
  wa_ctx :: worker_ctx
  wa_takeDone :: bool
  wa_now :: time

definition push_all :: "(packet \<times> time) list \<Rightarrow> jitter_buffer \<Rightarrow> jitter_buffer" where
  "push_all ps jb = foldl (\<lambda>jb (p, t). jb_Push p t jb) jb ps"

fun worker_Start ::
  "map_order \<Rightarrow> 'd decode_fn \<Rightarrow> wake list \<Rightarrow> jitter_buffer \<Rightarrow> 'd worker \<Rightarrow>
     (bool \<times> worker_event list \<times> jitter_buffer \<times> 'd worker) option" where
  "worker_Start iter decode [] jb w = Some (False, [], jb, w)"
| "worker_Start iter decode (a # wakes) jb w =
     (case worker_pass iter decode (wa_ctx a) (wa_takeDone a) (wa_now a) (push_all (wa_pushed a) jb) w of
        None \<Rightarrow> None
      | Some (True, evs, jb', w') \<Rightarrow> Some (True, evs, jb', w')
      | Some (False, evs, jb', w') \<Rightarrow>
          (case worker_Start iter decode wakes jb' w' of
             None \<Rightarrow> None
           | Some (r, evs', res) \<Rightarrow> Some (r, evs @ evs', res)))"

section \<open>Lemmas\<close>

definition frames_of_events :: "worker_event list \<Rightarrow> decoded_audio_frame list" where
  "frames_of_events evs = List.map_filter (\<lambda>e. case e of WPublish f \<Rightarrow> Some f | _ \<Rightarrow> None) evs"

definition marks_of_events :: "worker_event list \<Rightarrow> bool list" where
  "marks_of_events evs = List.map_filter (\<lambda>e. case e of WOnPacket b \<Rightarrow> Some b | _ \<Rightarrow> None) evs"

lemma events_simps [simp]:
  "frames_of_events [] = []" "frames_of_events (WPublish f # es) = f # frames_of_events es"
  "frames_of_events (WOnPacket b # es) = frames_of_events es"
  "marks_of_events [] = []" "marks_of_events (WPublish f # es) = marks_of_events es"
  "marks_of_events (WOnPacket b # es) = b # marks_of_events es"
  "frames_of_events (es @ es') = frames_of_events es @ frames_of_events es'"
  "marks_of_events (es @ es') = marks_of_events es @ marks_of_events es'"
  by (simp_all add: frames_of_events_def marks_of_events_def map_filter_def)

text \<open>What one packet contributes: nothing when its decoding fails, otherwise a valid frame that
  carries its sequence number, timestamp and stream.\<close>

definition frame_for :: "string \<Rightarrow> packet \<Rightarrow> decoded_audio_frame \<Rightarrow> bool" where
  "frame_for sid p f \<longleftrightarrow> af_Valid f \<and> af_StreamID f = sid \<and> af_Timestamp48k f = Timestamp p \<and>
     af_SourceRTPSequenceStart f = SequenceNumber p \<and> af_SourceRTPSequenceEnd f = SequenceNumber p"

lemma packets_flags:
  "worker_packets decode ps w = Some (evs, w') \<Longrightarrow>
     w_onPacket w' = w_onPacket w \<and> w_firstPacketSent w' = (w_firstPacketSent w \<or> w_onPacket w \<and> ps \<noteq> [])"
proof (induction ps arbitrary: w evs)
  case (Cons p ps)
  obtain e1 w1 e2 where "worker_packet decode p w = Some (e1, w1)" "worker_packets decode ps w1 = Some (e2, w')"
    using Cons.prems by (auto split: option.splits)
  moreover from this(1) have "w_onPacket w1 = w_onPacket w \<and> w_firstPacketSent w1 = (w_firstPacketSent w \<or> w_onPacket w)"
    by (auto simp: worker_packet_def Let_def split: prod.splits sum.splits if_splits)
  ultimately show ?case using Cons.IH by auto
qed simp

lemma push_all_inv: "jb_inv jb \<Longrightarrow> jb_inv (push_all ps jb)"
proof -
  have "jb_inv jb \<Longrightarrow> jb_inv (foldl (\<lambda>jb (p, t). jb_Push p t jb) jb ps)" for jb
    by (induction ps arbitrary: jb) (auto intro: jb_Push_inv)
  then show "jb_inv jb \<Longrightarrow> ?thesis" by (simp add: push_all_def)
qed

context pcm_decoder
begin

lemma packet_ok:
  assumes "good (w_decoder w)" and "w_streamID w \<noteq> ''''"
  shows "\<exists>evs w'. worker_packet decode p w = Some (evs, w') \<and> good (w_decoder w') \<and>
    w_streamID w' = w_streamID w \<and> w_onPacket w' = w_onPacket w \<and>
    w_firstPacketSent w' = (w_onPacket w \<or> w_firstPacketSent w) \<and>
    marks_of_events evs = (if w_onPacket w then [\<not> w_firstPacketSent w] else []) \<and>
    (frames_of_events evs = [] \<or> (\<exists>f. frames_of_events evs = [f] \<and> frame_for (w_streamID w) p f))"
proof -
  obtain res out d where dec: "decode (w_decoder w) (Payload p) (w_outBuf w) = (res, out, d)"
    by (metis prod_cases3)
  have g: "good d" "length out = length (w_outBuf w)"
    using decode_keeps_good [OF assms(1)] decode_length [OF assms(1)] dec by (metis fst_conv snd_conv)+
  show ?thesis
  proof (cases res)
    case (Inl e)
    with dec g show ?thesis by (auto simp: worker_packet_def Let_def)
  next
    case (Inr n)
    have n: "n * Channels \<le> length out" "n < 2 ^ 32"
      using decode_room [OF assms(1), of "Payload p" "w_outBuf w" n] dec Inr g by simp_all
    then have "unat (word_of_nat n :: u32) = n" by (simp add: unsigned_of_nat take_bit_nat_eq_self)
    with dec g Inr n assms(2) show ?thesis
      by (auto simp: worker_packet_def Let_def frame_for_def af_Valid_def NewFrame_def)
  qed
qed

lemma packets_ok:
  assumes "good (w_decoder w)" and "w_streamID w \<noteq> ''''"
  shows "\<exists>evs w' qs. worker_packets decode ps w = Some (evs, w') \<and> good (w_decoder w') \<and>
    w_streamID w' = w_streamID w \<and> subseq qs ps \<and>
    list_all2 (frame_for (w_streamID w)) qs (frames_of_events evs) \<and>
    marks_of_events evs =
      (if w_onPacket w then (case ps of [] \<Rightarrow> [] | _ # ps' \<Rightarrow> (\<not> w_firstPacketSent w) # map (\<lambda>_. False) ps')
       else [])"
  using assms
proof (induction ps arbitrary: w)
  case Nil
  then show ?case by simp
next
  case (Cons p ps)
  from packet_ok [OF Cons.prems, of p] obtain e1 w1 where P: "worker_packet decode p w = Some (e1, w1)"
      "good (w_decoder w1)" "w_streamID w1 = w_streamID w" "w_onPacket w1 = w_onPacket w"
      "w_firstPacketSent w1 = (w_onPacket w \<or> w_firstPacketSent w)"
      "marks_of_events e1 = (if w_onPacket w then [\<not> w_firstPacketSent w] else [])"
      "frames_of_events e1 = [] \<or> (\<exists>f. frames_of_events e1 = [f] \<and> frame_for (w_streamID w) p f)"
    by blast
  have "w_streamID w1 \<noteq> ''''" using P(3) Cons.prems(2) by simp
  from Cons.IH [OF P(2) this] obtain e2 w2 qs where Q: "worker_packets decode ps w1 = Some (e2, w2)"
      "good (w_decoder w2)" "w_streamID w2 = w_streamID w1" "subseq qs ps"
      "list_all2 (frame_for (w_streamID w1)) qs (frames_of_events e2)"
      "marks_of_events e2 = (if w_onPacket w1 then
         (case ps of [] \<Rightarrow> [] | _ # ps' \<Rightarrow> (\<not> w_firstPacketSent w1) # map (\<lambda>_. False) ps') else [])"
    by blast
  have m: "marks_of_events (e1 @ e2) =
      (if w_onPacket w then (\<not> w_firstPacketSent w) # map (\<lambda>_. False) ps else [])"
    using P(4-6) Q(6) by (cases ps) auto
  from P(7) obtain rs where rs: "subseq rs (p # ps)"
      "list_all2 (frame_for (w_streamID w)) rs (frames_of_events (e1 @ e2))"
  proof
    assume "frames_of_events e1 = []"
    then show ?thesis using that [of qs] Q(4,5) P(3) by auto
  next
    assume "\<exists>f. frames_of_events e1 = [f] \<and> frame_for (w_streamID w) p f"
    then show ?thesis using that [of "p # qs"] Q(4,5) P(3) by auto
  qed
  from P(1,3) Q(1-3) m rs show ?case by auto
qed

text \<open>One pass: the frames of the packets \<open>Emit\<close> hands out, or nothing when it returns.\<close>

lemma pass_ok:
  assumes "good (w_decoder w)" and "w_streamID w \<noteq> ''''" and "jb_inv jb"
  shows "\<exists>ret evs jb' w' ps qs. worker_pass iter decode c takeDone now jb w = Some (ret, evs, jb', w') \<and>
    jb_inv jb' \<and> good (w_decoder w') \<and> w_streamID w' = w_streamID w \<and> w_onPacket w' = w_onPacket w \<and>
    w_firstPacketSent w' = (w_firstPacketSent w \<or> w_onPacket w \<and> ps \<noteq> []) \<and>
    (ret \<longleftrightarrow> worker_done c \<and> takeDone) \<and> subseq qs ps \<and>
    list_all2 (frame_for (w_streamID w)) qs (frames_of_events evs) \<and>
    marks_of_events evs =
      (if w_onPacket w then (case ps of [] \<Rightarrow> [] | _ # ps' \<Rightarrow> (\<not> w_firstPacketSent w) # map (\<lambda>_. False) ps')
       else [])"
proof (cases "worker_done c \<and> takeDone")
  case True
  then have "worker_pass iter decode c takeDone now jb w = Some (True, [], jb, w)" by (simp add: worker_pass_def)
  with True assms show ?thesis
    by (intro exI [of _ True] exI [of _ "[]"] exI [of _ jb] exI [of _ w] exI [of _ "[]"] exI [of _ "[]"]) simp
next
  case False
  obtain ps cs jb' where emit: "jb_Emit iter now jb = Some (jb', ps, cs)" "jb_inv jb'"
    using jb_Emit_emits [OF assms(3), of iter now] emits_inv [OF _ assms(3)] by blast
  from packets_ok [OF assms(1,2), of ps] obtain evs w' qs where run: "worker_packets decode ps w = Some (evs, w')"
      "good (w_decoder w')" "w_streamID w' = w_streamID w" "subseq qs ps"
      "list_all2 (frame_for (w_streamID w)) qs (frames_of_events evs)"
      "marks_of_events evs = (if w_onPacket w then
         (case ps of [] \<Rightarrow> [] | _ # ps' \<Rightarrow> (\<not> w_firstPacketSent w) # map (\<lambda>_. False) ps') else [])"
    by blast
  have flags: "w_onPacket w' = w_onPacket w" "w_firstPacketSent w' = (w_firstPacketSent w \<or> w_onPacket w \<and> ps \<noteq> [])"
    using packets_flags [OF run(1)] by blast+
  have "worker_pass iter decode c takeDone now jb w = Some (False, evs, jb', w')"
    using False emit(1) run(1) by (simp add: worker_pass_def worker_tick_def)
  with emit(2) run(2-6) flags False show ?thesis
    by (intro exI [of _ False] exI [of _ evs] exI [of _ jb'] exI [of _ w'] exI [of _ ps] exI [of _ qs]) simp
qed

end

interpretation stub: pcm_decoder stub_Decode "\<lambda>d. sd_channels d = Channels \<and> sd_samples d < 2 ^ 32"
  by unfold_locales (auto simp: stub_Decode_def Let_def split: if_splits)

lemma pion_contract: "pcm_decoder decodeToInt16 good \<Longrightarrow> pcm_decoder (pion_Decode decodeToInt16) good"
  unfolding pcm_decoder_def pion_Decode_def
  by (auto split: prod.splits sum.splits) (metis fst_conv snd_conv)+

section \<open>Properties\<close>

text \<open>One tick of the worker over the pion decoder, whose library promises to fill at most the
  buffer it is given: it never panics, publishes valid frames only, at most one per packet and in
  playout order, each with the packet's own sequence number and timestamp, and calls the liveness
  hook once per packet, with "first" for the very first packet of the stream alone.\<close>

theorem worker_publishes_in_order:
  assumes "pcm_decoder decodeToInt16 good" and "good (w_decoder w)" and "w_streamID w \<noteq> ''''"
    and "jb_Emit iter now jb = Some (jb', ps, calls)"
  shows "\<exists>evs w' qs. worker_tick iter (pion_Decode decodeToInt16) now jb w = Some (evs, jb', w') \<and>
    subseq qs ps \<and> list_all2 (frame_for (w_streamID w)) qs (frames_of_events evs) \<and>
    (w_onPacket w \<longrightarrow> marks_of_events evs =
       (case ps of [] \<Rightarrow> [] | _ # ps' \<Rightarrow> (\<not> w_firstPacketSent w) # map (\<lambda>_. False) ps'))"
proof -
  from pcm_decoder.packets_ok [OF pion_contract [OF assms(1)] assms(2,3), of ps]
  show ?thesis by (auto simp: worker_tick_def assms(4))
qed

theorem worker_publishes_in_order_witness:
  "\<exists>evs w' qs. worker_tick (scan [5]) (pion_Decode stub_Decode) 131 overtaken_state
      (NewWorker ''strm-1'' (NewStubDecoder 960 2) None True) = Some (evs, overtaken_after, w') \<and>
    subseq qs [rtp_pkt 5] \<and> list_all2 (frame_for ''strm-1'') qs (frames_of_events evs) \<and>
    marks_of_events evs = [True]"
  using worker_publishes_in_order [OF stub.pcm_decoder_axioms _ _ overtaken_Emit,
      of "NewWorker ''strm-1'' (NewStubDecoder 960 2) None True"]
  by (simp add: NewWorker_def NewStubDecoder_def Channels_def)

section \<open>The whole run\<close>

context pcm_decoder
begin

lemma run_ok:
  assumes "good (w_decoder w)" and "w_streamID w \<noteq> ''''" and "jb_inv jb" and "w_onPacket w"
  shows "\<exists>ret evs jb' w'. worker_Start iter decode wakes jb w = Some (ret, evs, jb', w') \<and>
    (ret \<longleftrightarrow> (\<exists>a\<in>set wakes. worker_done (wa_ctx a) \<and> wa_takeDone a)) \<and>
    (\<forall>f\<in>set (frames_of_events evs). af_Valid f \<and> af_StreamID f = w_streamID w) \<and>
    length (frames_of_events evs) \<le> length (marks_of_events evs) \<and>
    (\<forall>m\<in>set (tl (marks_of_events evs)). \<not> m) \<and>
    (marks_of_events evs = [] \<or> hd (marks_of_events evs) = (\<not> w_firstPacketSent w))"
  using assms
proof (induction wakes arbitrary: jb w)
  case Nil
  then show ?case by (intro exI [of _ False]) simp
next
  case (Cons a wakes)
  from pass_ok [OF Cons.prems(1,2) push_all_inv [OF Cons.prems(3)], of iter "wa_ctx a" "wa_takeDone a" "wa_now a" "wa_pushed a"]
  obtain ret e1 j1 w1 ps qs where P: "worker_pass iter decode (wa_ctx a) (wa_takeDone a) (wa_now a) (push_all (wa_pushed a) jb) w =
        Some (ret, e1, j1, w1)" "jb_inv j1" "good (w_decoder w1)" "w_streamID w1 = w_streamID w" "w_onPacket w1 = w_onPacket w"
      "w_firstPacketSent w1 = (w_firstPacketSent w \<or> w_onPacket w \<and> ps \<noteq> [])"
      "ret \<longleftrightarrow> worker_done (wa_ctx a) \<and> wa_takeDone a" "subseq qs ps"
      "list_all2 (frame_for (w_streamID w)) qs (frames_of_events e1)"
      "marks_of_events e1 = (if w_onPacket w then
         (case ps of [] \<Rightarrow> [] | _ # ps' \<Rightarrow> (\<not> w_firstPacketSent w) # map (\<lambda>_. False) ps') else [])"
    by blast
  have marks: "marks_of_events e1 = (case ps of [] \<Rightarrow> [] | _ # ps' \<Rightarrow> (\<not> w_firstPacketSent w) # map (\<lambda>_. False) ps')"
    "length (marks_of_events e1) = length ps"
    using P(10) Cons.prems(4) by (simp_all split: list.split)
  have "length (frames_of_events e1) \<le> length ps"
    using list_all2_lengthD [OF P(9)] list_emb_length [OF P(8)] by simp
  then have few: "length (frames_of_events e1) \<le> length (marks_of_events e1)" using marks(2) by simp
  have valid: "\<forall>f\<in>set (frames_of_events e1). af_Valid f \<and> af_StreamID f = w_streamID w"
    using P(9) by (induction rule: list_all2_induct) (auto simp: frame_for_def)
  have first: "\<forall>m\<in>set (tl (marks_of_events e1)). \<not> m"
    "marks_of_events e1 = [] \<or> hd (marks_of_events e1) = (\<not> w_firstPacketSent w)"
    by (simp_all add: marks(1) split: list.split)
  show ?case
  proof (cases ret)
    case True
    with P(1,7) few valid first show ?thesis by auto
  next
    case False
    have "w_streamID w1 \<noteq> ''''" "w_onPacket w1" using P(4,5) Cons.prems(2,4) by simp_all
    from Cons.IH [OF P(3) this(1) P(2) this(2)] obtain r2 e2 j2 w2 where Q: "worker_Start iter decode wakes j1 w1 = Some (r2, e2, j2, w2)"
        "r2 \<longleftrightarrow> (\<exists>a\<in>set wakes. worker_done (wa_ctx a) \<and> wa_takeDone a)"
        "\<forall>f\<in>set (frames_of_events e2). af_Valid f \<and> af_StreamID f = w_streamID w1"
        "length (frames_of_events e2) \<le> length (marks_of_events e2)" "\<forall>m\<in>set (tl (marks_of_events e2)). \<not> m"
        "marks_of_events e2 = [] \<or> hd (marks_of_events e2) = (\<not> w_firstPacketSent w1)"
      by blast
    have m: "(\<forall>m\<in>set (tl (marks_of_events (e1 @ e2))). \<not> m) \<and>
        (marks_of_events (e1 @ e2) = [] \<or> hd (marks_of_events (e1 @ e2)) = (\<not> w_firstPacketSent w))"
    proof (cases ps)
      case Nil
      then show ?thesis using marks(1) P(6) Q(5,6) by simp
    next
      case (Cons p ps')
      then have "w_firstPacketSent w1" using P(6) \<open>w_onPacket w1\<close> P(5) by simp
      then have "\<forall>m\<in>set (marks_of_events e2). \<not> m"
        using Q(5,6) by (cases "marks_of_events e2") auto
      then show ?thesis using marks(1) Cons by auto
    qed
    have "worker_Start iter decode (a # wakes) jb w = Some (r2, e1 @ e2, j2, w2)"
      using P(1) Q(1) False by simp
    moreover have "r2 \<longleftrightarrow> (\<exists>b\<in>set (a # wakes). worker_done (wa_ctx b) \<and> wa_takeDone b)"
      using Q(2) P(7) False by auto
    moreover have "\<forall>f\<in>set (frames_of_events (e1 @ e2)). af_Valid f \<and> af_StreamID f = w_streamID w"
      using valid Q(3) P(4) by auto
    moreover have "length (frames_of_events (e1 @ e2)) \<le> length (marks_of_events (e1 @ e2))" using few Q(4) by simp
    ultimately show ?thesis using m by blast
  qed
qed

end

text \<open>C34. The playout goroutine of a stream, over its whole life. However the read loop fills the jitter
  buffer between its wake-ups, it never panics or hangs; it returns at the first wake-up that takes
  the end of its context; all it publishes are valid frames of its stream, at most one per packet it
  took from the buffer; and the liveness hook is told "first" for the first packet only. (The library
  fills at most the buffer it is given.)\<close>

theorem worker_goroutine_publishes_valid_frames:
  assumes "pcm_decoder decodeToInt16 good" and "good dec" and "sid \<noteq> ''''"
  shows "\<exists>ret evs jb' w'. worker_Start iter (pion_Decode decodeToInt16) wakes (jb_New target hook) (NewWorker sid dec m True) =
      Some (ret, evs, jb', w') \<and>
    (ret \<longleftrightarrow> (\<exists>a\<in>set wakes. worker_done (wa_ctx a) \<and> wa_takeDone a)) \<and>
    (\<forall>f\<in>set (frames_of_events evs). af_Valid f \<and> af_StreamID f = sid) \<and>
    length (frames_of_events evs) \<le> length (marks_of_events evs) \<and>
    (marks_of_events evs = [] \<or> (\<exists>n. marks_of_events evs = True # replicate n False))"
proof -
  have "jb_inv (jb_New target hook)" by (simp add: jb_New_def jb_inv_def)
  from pcm_decoder.run_ok [OF pion_contract [OF assms(1)] _ _ this, of "NewWorker sid dec m True" iter wakes] assms(2,3)
  obtain ret evs jb' w' where R: "worker_Start iter (pion_Decode decodeToInt16) wakes (jb_New target hook) (NewWorker sid dec m True) =
        Some (ret, evs, jb', w')" "ret \<longleftrightarrow> (\<exists>a\<in>set wakes. worker_done (wa_ctx a) \<and> wa_takeDone a)"
      "\<forall>f\<in>set (frames_of_events evs). af_Valid f \<and> af_StreamID f = sid"
      "length (frames_of_events evs) \<le> length (marks_of_events evs)"
      "\<forall>m\<in>set (tl (marks_of_events evs)). \<not> m" "marks_of_events evs = [] \<or> hd (marks_of_events evs)"
    by (auto simp: NewWorker_def)
  have "marks_of_events evs = [] \<or> (\<exists>n. marks_of_events evs = True # replicate n False)"
  proof (cases "marks_of_events evs")
    case (Cons x xs)
    then have "x = True" "\<And>m. m \<in> set xs \<Longrightarrow> m = False" using R(5,6) by auto
    then have "xs = replicate (length xs) False" by (intro replicate_eqI) simp_all
    with Cons \<open>x = True\<close> show ?thesis by metis
  qed simp
  with R(1-4) show ?thesis by blast
qed

definition demo_wakes :: "wake list" where
  "demo_wakes =
     [\<lparr>wa_pushed = [(rtp_pkt 5, 0)], wa_ctx = worker_derive worker_ctx_New, wa_takeDone = False, wa_now = 131\<rparr>,
      \<lparr>wa_pushed = [], wa_ctx = worker_Stop (worker_derive worker_ctx_New), wa_takeDone = True, wa_now = 136\<rparr>]"

theorem worker_goroutine_publishes_valid_frames_witness:
  "\<exists>evs jb' w'. worker_Start (scan [5]) (pion_Decode stub_Decode) demo_wakes (jb_New 60 False)
      (NewWorker ''strm-1'' (NewStubDecoder 960 2) None True) = Some (True, evs, jb', w')"
proof -
  have stop: "\<exists>a\<in>set demo_wakes. worker_done (wa_ctx a) \<and> wa_takeDone a"
    by (simp add: demo_wakes_def worker_done_def worker_Stop_def worker_derive_def worker_ctx_New_def)
  have "sd_channels (NewStubDecoder 960 2) = Channels \<and> sd_samples (NewStubDecoder 960 2) < 2 ^ 32" "''strm-1'' \<noteq> ''''"
    by (simp_all add: NewStubDecoder_def Channels_def)
  note run = worker_goroutine_publishes_valid_frames [where iter = "scan [5]" and wakes = demo_wakes and target = 60 and
      hook = False and m = None, OF stub.pcm_decoder_axioms this]
  obtain ret evs jb' w' where "worker_Start (scan [5]) (pion_Decode stub_Decode) demo_wakes (jb_New 60 False)
      (NewWorker ''strm-1'' (NewStubDecoder 960 2) None True) = Some (ret, evs, jb', w')"
      "ret \<longleftrightarrow> (\<exists>a\<in>set demo_wakes. worker_done (wa_ctx a) \<and> wa_takeDone a)"
    using run by blast
  with stop show ?thesis by simp
qed

end
