(* ===== verification/Strconv.thy ===== *)
theory Strconv
  imports Prelude
begin

text \<open>
  The two functions of Go's \<open>strconv\<close> the server uses: \<open>Itoa\<close> (decimal rendering) and
  \<open>Atoi\<close> (an optional sign and at least one decimal digit, refused when the value does not
  fit a 64-bit \<open>int\<close>), with their round trip.
\<close>

definition digit_char :: "nat \<Rightarrow> char" where
  "digit_char d = char_of (48 + d)"

fun itoa_nat :: "nat \<Rightarrow> string" where
  "itoa_nat n = (if n < 10 then [digit_char n] else itoa_nat (n div 10) @ [digit_char (n mod 10)])"

declare itoa_nat.simps [simp del]

definition Itoa :: "int \<Rightarrow> string" where
  "Itoa i = (if i < 0 then CHR ''-'' # itoa_nat (nat (- i)) else itoa_nat (nat i))"

definition digit_value :: "char \<Rightarrow> nat option" where
  "digit_value c = (let k = (of_char c :: nat) in if 48 \<le> k \<and> k \<le> 57 then Some (k - 48) else None)"

fun atoi_digits :: "nat \<Rightarrow> string \<Rightarrow> nat option" where
  "atoi_digits acc [] = Some acc"
| "atoi_digits acc (c # cs) =
     (case digit_value c of None \<Rightarrow> None | Some d \<Rightarrow> atoi_digits (10 * acc + d) cs)"

definition parse_nat :: "string \<Rightarrow> nat option" where
  "parse_nat s = (if s = [] then None else atoi_digits 0 s)"

definition in_int64 :: "int \<Rightarrow> bool" where
  "in_int64 i \<longleftrightarrow> - (2 ^ 63) \<le> i \<and> i < 2 ^ 63"

definition Atoi :: "string \<Rightarrow> int option" where
  "Atoi s =
     (case (case s of
              c # cs \<Rightarrow>
                if c = CHR ''-'' then map_option (\<lambda>n. - int n) (parse_nat cs)
                else if c = CHR ''+'' then map_option int (parse_nat cs)
                else map_option int (parse_nat s)
            | [] \<Rightarrow> None) of
        None \<Rightarrow> None
      | Some i \<Rightarrow> if in_int64 i then Some i else None)"

lemma digit_value_char [simp]: "d < 10 \<Longrightarrow> digit_value (digit_char d) = Some d"
  by (simp add: digit_value_def digit_char_def Let_def)

lemma digit_char_no_sign [simp]:
  "d < 10 \<Longrightarrow> digit_char d \<noteq> CHR ''-''" "d < 10 \<Longrightarrow> digit_char d \<noteq> CHR ''+''"
  using digit_value_char [of d] by (auto simp: digit_value_def)

lemma atoi_digits_append:
  "atoi_digits acc (xs @ ys) =
     (case atoi_digits acc xs of None \<Rightarrow> None | Some a \<Rightarrow> atoi_digits a ys)"
  by (induction xs arbitrary: acc) (auto split: option.splits)

lemma itoa_nat_not_Nil [simp]: "itoa_nat n \<noteq> []"
  by (subst itoa_nat.simps) simp

lemma hd_itoa_nat: "\<exists>d cs. d < 10 \<and> itoa_nat n = digit_char d # cs"
proof (induction n rule: itoa_nat.induct)
  case (1 n)
  then show ?case
    by (cases "n < 10"; subst itoa_nat.simps) auto
qed

lemma atoi_itoa_nat: "atoi_digits 0 (itoa_nat n) = Some n"
proof (induction n rule: itoa_nat.induct)
  case (1 n)
  then show ?case
    by (cases "n < 10"; subst itoa_nat.simps) (simp_all add: atoi_digits_append)
qed

lemma parse_itoa_nat [simp]: "parse_nat (itoa_nat n) = Some n"
  by (simp add: parse_nat_def atoi_itoa_nat)

lemma Itoa_not_Nil [simp]: "Itoa i \<noteq> []"
  by (simp add: Itoa_def)

lemma Atoi_Itoa: "in_int64 i \<Longrightarrow> Atoi (Itoa i) = Some i"
proof (cases "i < 0")
  case True
  then show "in_int64 i \<Longrightarrow> Atoi (Itoa i) = Some i" by (simp add: Atoi_def Itoa_def)
next
  case False
  obtain d cs where d: "d < 10" "itoa_nat (nat i) = digit_char d # cs" using hd_itoa_nat by blast
  have "parse_nat (digit_char d # cs) = Some (nat i)" using parse_itoa_nat [of "nat i"] d by simp
  with False d show "in_int64 i \<Longrightarrow> Atoi (Itoa i) = Some i" by (simp add: Atoi_def Itoa_def)
qed

lemma Atoi_range: "Atoi s = Some i \<Longrightarrow> in_int64 i"
  by (auto simp: Atoi_def split: option.splits if_splits)

end
