(* ===== verification/Receiver.thy ===== *)
theory Receiver
  imports Jitter Metrics Strconv
begin

text \<open>
  \<open>internal/rtp/receiver.go\<close>: one UDP socket and one read goroutine per stream. A binding is
  reached through a pointer by the map, by its read goroutine and by the caller, so bindings
  live in a heap \<open>rc_heap\<close> and the map holds references. The socket calls are inputs:
  \<open>listen\<close> is the outcome of \<open>net.ListenPacket\<close> at an address, a \<open>read_outcome\<close> that of
  one \<open>ReadFrom\<close>. One pass of the read loop is one step.
\<close>

section \<open>State\<close>

type_synonym binding_ref = nat
type_synonym worker_handle = nat

record stream_binding =
  sb_streamID :: string
  sb_ssrc :: u32
  sb_ssrcLearned :: bool
  sb_firstSeen :: bool
  sb_pt :: u16
  sb_port :: u16
  sb_jb :: jitter_buffer
  sb_cancelled :: bool
  sb_closed :: bool
  sb_workerCancel :: "worker_handle option"

text \<open>\<open>sb_cancelled\<close>: the context of the read loop is done; \<open>sb_closed\<close>: its socket is
  closed. \<open>rc_onPacket\<close> and \<open>rc_onCompressed\<close>: whether the callback is set.\<close>

record receiver =
  rc_streams :: "string \<rightharpoonup> binding_ref"
  rc_heap :: "binding_ref \<rightharpoonup> stream_binding"
  rc_next :: binding_ref
  rc_metrics :: "metrics option"
  rc_onPacket :: bool
  rc_onCompressed :: bool

definition NewReceiver :: "metrics option \<Rightarrow> receiver" where
  "NewReceiver m = \<lparr>rc_streams = Map.empty, rc_heap = Map.empty, rc_next = 0, rc_metrics = m,
     rc_onPacket = False, rc_onCompressed = False\<rparr>"

section \<open>Operations\<close>

definition JoinHostPort :: "string \<Rightarrow> string \<Rightarrow> string" where
  "JoinHostPort host port =
     (if CHR '':'' \<in> set host then ''['' @ host @ '']:'' @ port
      else host @ '':'' @ port)"

definition bind_addr :: "int \<Rightarrow> string" where
  "bind_addr bindPort = (if bindPort > 0 then JoinHostPort '''' (Itoa bindPort) else '':0'')"

definition rc_Bind ::
  "(string \<Rightarrow> goerr + int) \<Rightarrow> string \<Rightarrow> byte \<Rightarrow> duration \<Rightarrow> int \<Rightarrow> receiver \<Rightarrow>
     (goerr + u16) \<times> receiver" where
  "rc_Bind listen streamID pt jitterTarget bindPort r =
     (case rc_streams r streamID of
        Some b \<Rightarrow> (Inl (Errorf ''rtp: stream already bound''), r)
      | None \<Rightarrow>
        (case listen (bind_addr bindPort) of
           Inl e \<Rightarrow> (Inl e, r)
         | Inr p \<Rightarrow>
             (let port = word_of_int p;
                  target = (if jitterTarget \<le> 0 then milliseconds 60 else jitterTarget);
                  b = \<lparr>sb_streamID = streamID, sb_ssrc = 0, sb_ssrcLearned = False,
                       sb_firstSeen = False, sb_pt = ucast pt, sb_port = port,
                       sb_jb = jb_New target False, sb_cancelled = False, sb_closed = False,
                       sb_workerCancel = None\<rparr>
              in (Inr port,
                  r\<lparr>rc_streams := (rc_streams r)(streamID \<mapsto> rc_next r),
                    rc_heap := (rc_heap r)(rc_next r \<mapsto> b), rc_next := Suc (rc_next r)\<rparr>))))"

definition rc_GetStreamBinding :: "receiver \<Rightarrow> string \<Rightarrow> binding_ref option" where
  "rc_GetStreamBinding r streamID = rc_streams r streamID"

definition rc_binding :: "receiver \<Rightarrow> string \<Rightarrow> stream_binding option" where
  "rc_binding r streamID = Option.bind (rc_streams r streamID) (rc_heap r)"

definition rc_JitterBuffer :: "receiver \<Rightarrow> string \<Rightarrow> jitter_buffer option" where
  "rc_JitterBuffer r streamID = map_option sb_jb (rc_binding r streamID)"

definition rc_StreamStats :: "receiver \<Rightarrow> string \<Rightarrow> stats \<times> bool" where
  "rc_StreamStats r streamID =
     (case rc_binding r streamID of
        None \<Rightarrow> (stats_zero, False)
      | Some b \<Rightarrow> (jb_Statistics (sb_jb b), True))"

definition rc_StreamPort :: "receiver \<Rightarrow> string \<Rightarrow> u16 \<times> bool" where
  "rc_StreamPort r streamID =
     (case rc_binding r streamID of None \<Rightarrow> (0, False) | Some b \<Rightarrow> (sb_port b, True))"

definition rc_update :: "binding_ref \<Rightarrow> (stream_binding \<Rightarrow> stream_binding) \<Rightarrow> receiver \<Rightarrow> receiver" where
  "rc_update ref f r =
     (case rc_heap r ref of
        None \<Rightarrow> r
      | Some b \<Rightarrow> r\<lparr>rc_heap := (rc_heap r)(ref \<mapsto> f b)\<rparr>)"

definition rc_SetWorkerCancel :: "string \<Rightarrow> worker_handle option \<Rightarrow> receiver \<Rightarrow> receiver" where
  "rc_SetWorkerCancel streamID c r =
     (case rc_streams r streamID of
        None \<Rightarrow> r
      | Some ref \<Rightarrow> rc_update ref (\<lambda>b. b\<lparr>sb_workerCancel := c\<rparr>) r)"

definition rc_SetOnPacket :: "bool \<Rightarrow> receiver \<Rightarrow> receiver" where
  "rc_SetOnPacket cb r = r\<lparr>rc_onPacket := cb\<rparr>"

definition rc_SetOnCompressed :: "bool \<Rightarrow> receiver \<Rightarrow> receiver" where
  "rc_SetOnCompressed cb r = r\<lparr>rc_onCompressed := cb\<rparr>"

text \<open>\<open>CloseStream\<close> returns the worker it cancels, if there is one.\<close>

definition rc_CloseStream :: "string \<Rightarrow> receiver \<Rightarrow> worker_handle option \<times> receiver" where
  "rc_CloseStream streamID r =
     (let r1 = r\<lparr>rc_streams := (rc_streams r)(streamID := None)\<rparr>
      in case rc_streams r streamID of
           None \<Rightarrow> (None, r1)
         | Some ref \<Rightarrow>
             (Option.bind (rc_heap r ref) sb_workerCancel,
              rc_update ref (\<lambda>b. b\<lparr>sb_cancelled := True, sb_closed := True\<rparr>) r1))"

definition rc_streamCount :: "receiver \<Rightarrow> nat" where
  "rc_streamCount r = card (dom (rc_streams r))"

section \<open>The read loop\<close>

datatype read_outcome = Datagram bytes | ReadFailed goerr

datatype rtp_callback =
    OnPacket string bool
  | OnCompressed string u32 bytes

datatype loop_control = LoopReturn | LoopContinue

text \<open>\<open>ReadFrom\<close> fills a buffer of 2048 bytes; a longer datagram is cut.\<close>

definition read_buffer :: nat where
  "read_buffer = 2048"

definition learn_ssrc :: "packet \<Rightarrow> bool \<Rightarrow> stream_binding \<Rightarrow> stream_binding" where
  "learn_ssrc p hasCb b =
     (let b1 = (if \<not> sb_ssrcLearned b then b\<lparr>sb_ssrc := SSRC p, sb_ssrcLearned := True\<rparr> else b)
      in if hasCb then b1\<lparr>sb_firstSeen := True\<rparr> else b1)"

definition read_step ::
  "(bytes \<Rightarrow> pion_packet option) \<Rightarrow> time \<Rightarrow> read_outcome \<Rightarrow> binding_ref \<Rightarrow> receiver \<Rightarrow>
     loop_control \<times> rtp_callback list \<times> receiver" where
  "read_step pion now rd ref r =
     (case rc_heap r ref of
        None \<Rightarrow> (LoopReturn, [], r)
      | Some b \<Rightarrow>
        if sb_cancelled b then (LoopReturn, [], r)
        else case rd of
          ReadFailed e \<Rightarrow>
            if errors_is e NetErrClosed then (LoopReturn, [], r) else (LoopContinue, [], r)
        | Datagram raw \<Rightarrow>
          (case ParseFor pion (take read_buffer raw) (ucast (sb_pt b)) of
             Inl e \<Rightarrow> (LoopContinue, [], r\<lparr>rc_metrics := map_option IncOpusDecodeErrors (rc_metrics r)\<rparr>)
           | Inr p \<Rightarrow>
             (let first = rc_onPacket r \<and> \<not> sb_firstSeen b;
                  b1 = learn_ssrc p (rc_onPacket r) b;
                  r1 = r\<lparr>rc_heap := (rc_heap r)(ref \<mapsto> b1)\<rparr>
              in if SSRC p \<noteq> sb_ssrc b1 then (LoopContinue, [], r1)
                 else (LoopContinue,
                       (if rc_onPacket r then [OnPacket (sb_streamID b) first] else []) @
                       (if rc_onCompressed r
                        then [OnCompressed (sb_streamID b) (Timestamp p) (Payload p)] else []),
                       r1\<lparr>rc_heap := (rc_heap r1)(ref \<mapsto> b1\<lparr>sb_jb := jb_Push p now (sb_jb b1)\<rparr>),
                          rc_metrics := map_option IncRTPPacketsReceived (rc_metrics r1)\<rparr>))))"

text \<open>The goroutine: its passes in turn, until one returns. Other calls may come in between;
  the lemmas about \<open>read_step\<close> hold for each pass on whatever they leave.\<close>

fun readLoop ::
  "(bytes \<Rightarrow> pion_packet option) \<Rightarrow> (time \<times> read_outcome) list \<Rightarrow> binding_ref \<Rightarrow> receiver \<Rightarrow>
     rtp_callback list \<times> receiver" where
  "readLoop pion [] ref r = ([], r)"
| "readLoop pion ((now, rd) # rds) ref r =
     (case read_step pion now rd ref r of
        (LoopReturn, evs, r') \<Rightarrow> (evs, r')
      | (LoopContinue, evs, r') \<Rightarrow>
          (case readLoop pion rds ref r' of (evs', r'') \<Rightarrow> (evs @ evs', r'')))"

section \<open>What the read loop lets through\<close>

text \<open>The packets that parse, with their receipt times, and of those the ones of the first
  packet's SSRC.\<close>

fun parsed :: "(bytes \<Rightarrow> pion_packet option) \<Rightarrow> byte \<Rightarrow> (time \<times> read_outcome) list \<Rightarrow> (time \<times> packet) list" where
  "parsed pion pt [] = []"
| "parsed pion pt ((now, Datagram raw) # rds) =
     (case ParseFor pion (take read_buffer raw) pt of
        Inl e \<Rightarrow> parsed pion pt rds
      | Inr p \<Rightarrow> (now, p) # parsed pion pt rds)"
| "parsed pion pt ((now, ReadFailed e) # rds) = parsed pion pt rds"

definition accepted :: "u32 option \<Rightarrow> (time \<times> packet) list \<Rightarrow> (time \<times> packet) list" where
  "accepted known tps =
     (case known of
        Some s \<Rightarrow> filter (\<lambda>(t, p). SSRC p = s) tps
      | None \<Rightarrow> (case tps of [] \<Rightarrow> [] | (t, p) # _ \<Rightarrow> filter (\<lambda>(t', q). SSRC q = SSRC p) tps))"

definition push_received :: "(time \<times> packet) list \<Rightarrow> jitter_buffer \<Rightarrow> jitter_buffer" where
  "push_received tps jb = foldl (\<lambda>jb (t, p). jb_Push p t jb) jb tps"

text \<open>The callbacks for a list of accepted packets; \<open>first\<close> marks the head only.\<close>

fun callbacks :: "string \<Rightarrow> bool \<Rightarrow> (time \<times> packet) list \<Rightarrow> rtp_callback list" where
  "callbacks sid first [] = []"
| "callbacks sid first ((t, p) # tps) =
     OnPacket sid first # OnCompressed sid (Timestamp p) (Payload p) # callbacks sid False tps"

definition known_ssrc :: "stream_binding \<Rightarrow> u32 option" where
  "known_ssrc b = (if sb_ssrcLearned b then Some (sb_ssrc b) else None)"

definition not_closed :: "read_outcome \<Rightarrow> bool" where
  "not_closed rd \<longleftrightarrow> (case rd of ReadFailed e \<Rightarrow> \<not> errors_is e NetErrClosed | Datagram raw \<Rightarrow> True)"

text \<open>A live binding whose first-packet flag agrees with the learned SSRC.\<close>

definition reading :: "receiver \<Rightarrow> binding_ref \<Rightarrow> stream_binding \<Rightarrow> bool" where
  "reading r ref b \<longleftrightarrow> rc_heap r ref = Some b \<and> \<not> sb_cancelled b \<and> rc_onPacket r \<and>
     rc_onCompressed r \<and> sb_firstSeen b = sb_ssrcLearned b"

lemma ucast_pt [simp]: "(ucast (ucast (pt :: byte) :: u16) :: byte) = pt"
  by (simp add: unsigned_ucast_eq take_bit_word_eq_self)

lemma accepted_Nil [simp]: "accepted k [] = []"
  by (simp add: accepted_def split: option.split)

lemma accepted_Some_Cons [simp]:
  "accepted (Some s) ((t, p) # tps) =
     (if SSRC p = s then (t, p) # accepted (Some s) tps else accepted (Some s) tps)"
  by (simp add: accepted_def)

lemma accepted_None_Cons [simp]:
  "accepted None ((t, p) # tps) = (t, p) # accepted (Some (SSRC p)) tps"
  by (simp add: accepted_def)

lemma push_received_Nil [simp]: "push_received [] jb = jb"
  by (simp add: push_received_def)

lemma push_received_Cons [simp]: "push_received ((t, p) # tps) jb = push_received tps (jb_Push p t jb)"
  by (simp add: push_received_def)

lemma parsed_valid: "(t, p) \<in> set (parsed pion pt rds) \<Longrightarrow> valid_packet pt p"
  by (induction pion pt rds rule: parsed.induct) (auto split: sum.splits dest: ParseFor_valid)

lemma accepted_subset: "set (accepted k tps) \<subseteq> set tps"
  by (auto simp: accepted_def split: option.splits list.splits)

lemma accepted_one_ssrc:
  "(t, p) \<in> set (accepted k tps) \<Longrightarrow> (u, q) \<in> set (accepted k tps) \<Longrightarrow> SSRC p = SSRC q"
  by (auto simp: accepted_def split: option.splits list.splits)

text \<open>One pass that does not end the loop, on a live binding.\<close>

lemma read_step_failed:
  assumes "reading r ref b" and "not_closed (ReadFailed e)"
  shows "read_step pion now (ReadFailed e) ref r = (LoopContinue, [], r)"
  using assms by (simp add: read_step_def reading_def not_closed_def)

lemma read_step_dropped:
  assumes "reading r ref b" and "ParseFor pion (take read_buffer raw) (ucast (sb_pt b)) = Inl e"
  shows "read_step pion now (Datagram raw) ref r =
    (LoopContinue, [], r\<lparr>rc_metrics := map_option IncOpusDecodeErrors (rc_metrics r)\<rparr>)"
  using assms by (simp add: read_step_def reading_def)

lemma read_step_packet:
  assumes "reading r ref b" and "ParseFor pion (take read_buffer raw) (ucast (sb_pt b)) = Inr p"
    and "read_step pion now (Datagram raw) ref r = (c, evs, r')"
    and "tps = accepted (known_ssrc b) [(now, p)]"
  shows "c = LoopContinue \<and> evs = callbacks (sb_streamID b) (\<not> sb_firstSeen b) tps \<and>
    map_option rtpPacketsReceived (rc_metrics r') =
      map_option (\<lambda>m. rtpPacketsReceived m + of_nat (length tps)) (rc_metrics r) \<and>
    (\<exists>b'. reading r' ref b' \<and> sb_streamID b' = sb_streamID b \<and> sb_pt b' = sb_pt b \<and>
      sb_ssrcLearned b' \<and> sb_jb b' = push_received tps (sb_jb b) \<and>
      sb_ssrc b' = (if sb_ssrcLearned b then sb_ssrc b else SSRC p))"
  using assms
  by (auto simp: read_step_def reading_def learn_ssrc_def known_ssrc_def Let_def
      IncRTPPacketsReceived_def option.map_comp comp_def split: if_splits)

lemma readLoop_accepts:
  assumes "reading r ref b" and "\<forall>x\<in>set rds. not_closed (snd x)"
    and "tps = accepted (known_ssrc b) (parsed pion (ucast (sb_pt b)) rds)"
    and "readLoop pion rds ref r = (evs, r')"
  shows "evs = callbacks (sb_streamID b) (\<not> sb_firstSeen b) tps \<and>
    map_option rtpPacketsReceived (rc_metrics r') =
      map_option (\<lambda>m. rtpPacketsReceived m + of_nat (length tps)) (rc_metrics r) \<and>
    map_option sb_jb (rc_heap r' ref) = Some (push_received tps (sb_jb b))"
  using assms
proof (induction rds arbitrary: r b tps evs r')
  case Nil
  then show ?case by (cases "rc_metrics r") (auto simp: reading_def)
next
  case (Cons x rds)
  obtain now rd where x: "x = (now, rd)" by force
  show ?case
  proof (cases rd)
    case (ReadFailed e)
    with Cons.prems x have "read_step pion now rd ref r = (LoopContinue, [], r)"
      using read_step_failed by (metis list.set_intros(1) snd_conv)
    with Cons.prems x ReadFailed have "readLoop pion rds ref r = (evs, r')"
      by (auto split: prod.splits)
    with Cons.IH [OF Cons.prems(1) _ _ this] Cons.prems x ReadFailed show ?thesis by simp
  next
    case (Datagram raw)
    show ?thesis
    proof (cases "ParseFor pion (take read_buffer raw) (ucast (sb_pt b))")
      case (Inl e)
      let ?r = "r\<lparr>rc_metrics := map_option IncOpusDecodeErrors (rc_metrics r)\<rparr>"
      have st: "read_step pion now rd ref r = (LoopContinue, [], ?r)"
        using read_step_dropped [OF Cons.prems(1) Inl] Datagram by simp
      have rd': "reading ?r ref b" using Cons.prems(1) by (simp add: reading_def)
      have "readLoop pion rds ref ?r = (evs, r')"
        using Cons.prems(4) x st by (auto split: prod.splits)
      moreover have "map_option (\<lambda>m. rtpPacketsReceived m + n) (map_option IncOpusDecodeErrors mm) =
          map_option (\<lambda>m. rtpPacketsReceived m + n) mm" for n mm
        by (cases mm) (simp_all add: IncOpusDecodeErrors_def)
      ultimately show ?thesis
        using Cons.IH [OF rd', of tps evs r'] Cons.prems x Datagram Inl by simp
    next
      case (Inr p)
      obtain c evs1 r1 where st: "read_step pion now (Datagram raw) ref r = (c, evs1, r1)"
        by (metis prod_cases3)
      note P = read_step_packet [OF Cons.prems(1) Inr st refl]
      then obtain b1 where b1: "reading r1 ref b1" "sb_streamID b1 = sb_streamID b"
          "sb_pt b1 = sb_pt b" "sb_ssrcLearned b1"
          "sb_jb b1 = push_received (accepted (known_ssrc b) [(now, p)]) (sb_jb b)"
          "sb_ssrc b1 = (if sb_ssrcLearned b then sb_ssrc b else SSRC p)"
        by blast
      have fs: "sb_firstSeen b1" "sb_firstSeen b = sb_ssrcLearned b"
        using b1(1,4) Cons.prems(1) by (simp_all add: reading_def)
      obtain evs2 where ev: "readLoop pion rds ref r1 = (evs2, r')" "evs = evs1 @ evs2"
        using Cons.prems(4) x Datagram st P by (auto split: prod.splits)
      let ?tps2 = "accepted (known_ssrc b1) (parsed pion (ucast (sb_pt b1)) rds)"
      have "\<forall>x\<in>set rds. not_closed (snd x)" using Cons.prems(2) by simp
      note IH = Cons.IH [OF b1(1) this refl ev(1)]
      have split: "tps = accepted (known_ssrc b) [(now, p)] @ ?tps2"
        using Cons.prems(3) x Datagram Inr b1 by (simp add: known_ssrc_def)
      have one: "accepted (known_ssrc b) [(now, p)] =
          (if sb_ssrcLearned b \<and> SSRC p \<noteq> sb_ssrc b then [] else [(now, p)])"
        by (simp add: known_ssrc_def)
      have "evs = callbacks (sb_streamID b) (\<not> sb_firstSeen b) tps"
        using IH P ev(2) split one b1(2) fs by (auto split: if_splits)
      moreover have "map_option rtpPacketsReceived (rc_metrics r') =
          map_option (\<lambda>m. rtpPacketsReceived m + of_nat (length tps)) (rc_metrics r)"
        using IH P split by (cases "rc_metrics r"; cases "rc_metrics r1") (auto simp: algebra_simps)
      moreover have "push_received tps (sb_jb b) = push_received ?tps2 (sb_jb b1)"
        unfolding split b1(5) by (simp add: push_received_def)
      ultimately show ?thesis using IH by simp
    qed
  qed
qed

section \<open>Properties\<close>

interpretation bindings_by_id: keyed_store rc_streams
  "\<lambda>k v r. r\<lparr>rc_streams := (rc_streams r)(k \<mapsto> v)\<rparr>" "\<lambda>k r. snd (rc_CloseStream k r)"
  by unfold_locales
    (auto simp: rc_CloseStream_def rc_update_def Let_def split: option.splits)

text \<open>C28. A stream hears one source only: of all the datagrams read on a freshly bound socket the
  read loop hands on exactly the valid packets with the SSRC of the first valid one, in arrival
  order, each to the jitter buffer, the liveness callback (which is told "first" exactly once, for
  the first) and the recorder callback, and counts them as received.\<close>

theorem one_source_per_stream:
  assumes "rc_Bind listen sid pt target port r = (Inr bound, r0)"
    and "rc_onPacket r" and "rc_onCompressed r" and "\<forall>x\<in>set rds. not_closed (snd x)"
    and "rc_streams r0 sid = Some ref"
    and "tps = accepted None (parsed pion pt rds)"
    and "readLoop pion rds ref r0 = (evs, r')"
  shows "evs = callbacks sid True tps \<and>
    map_option sb_jb (rc_heap r' ref) = map_option (\<lambda>b. push_received tps (sb_jb b)) (rc_heap r0 ref) \<and>
    map_option rtpPacketsReceived (rc_metrics r') =
      map_option (\<lambda>m. rtpPacketsReceived m + of_nat (length tps)) (rc_metrics r) \<and>
    (\<forall>(t, p)\<in>set tps. valid_packet pt p \<and> SSRC p = SSRC (snd (hd tps)))"
proof -
  obtain b where b: "reading r0 ref b" "sb_streamID b = sid" "sb_pt b = ucast pt"
      "known_ssrc b = None" "\<not> sb_firstSeen b" "rc_metrics r0 = rc_metrics r"
    using assms(1-3,5)
    by (auto simp: rc_Bind_def reading_def known_ssrc_def Let_def split: option.splits sum.splits)
  have heap: "rc_heap r0 ref = Some b" using b(1) by (simp add: reading_def)
  from readLoop_accepts [OF b(1) assms(4) refl assms(7)] b assms(6) heap
  have "evs = callbacks sid True tps \<and>
    map_option sb_jb (rc_heap r' ref) = map_option (\<lambda>b. push_received tps (sb_jb b)) (rc_heap r0 ref) \<and>
    map_option rtpPacketsReceived (rc_metrics r') =
      map_option (\<lambda>m. rtpPacketsReceived m + of_nat (length tps)) (rc_metrics r)"
    by simp
  moreover have "valid_packet pt p \<and> SSRC p = SSRC (snd (hd tps))" if "(t, p) \<in> set tps" for t p
  proof -
    from that obtain u q where "hd tps = (u, q)" "(u, q) \<in> set tps"
      by (metis hd_in_set length_greater_0_conv length_pos_if_in_set surj_pair)
    with that accepted_one_ssrc accepted_subset parsed_valid assms(6) show ?thesis
      by (metis snd_conv subsetD)
  qed
  ultimately show ?thesis by auto
qed

text \<open>The life of a binding: a second \<open>Bind\<close> of a bound stream is refused without effect;
  \<open>CloseStream\<close> frees exactly that identifier, cancels its worker, and its read loop returns at
  the next pass whatever the socket says, without another callback.\<close>

theorem CloseStream_ends_read_loop:
  assumes "rc_streams r sid = Some ref" and "rc_heap r ref = Some b"
    and "rc_CloseStream sid r = (w, r')"
  shows "rc_Bind listen sid pt target port r = (Inl (Errorf ''rtp: stream already bound''), r) \<and>
    rc_streams r' = (rc_streams r)(sid := None) \<and> w = sb_workerCancel b \<and>
    read_step pion now rd ref r' = (LoopReturn, [], r')"
  using assms
  by (auto simp: rc_Bind_def rc_CloseStream_def rc_update_def read_step_def Let_def)

section \<open>Witnesses\<close>

definition demo_pion :: "bytes \<Rightarrow> pion_packet option" where
  "demo_pion raw =
     (case raw of
        [sq, sr, x] \<Rightarrow> Some \<lparr>pion_Version = 2, pion_PayloadType = 111,
          pion_SequenceNumber = ucast sq, pion_Timestamp = 0, pion_SSRC = ucast sr,
          pion_Payload = [x]\<rparr>
      | _ \<Rightarrow> None)"

definition demo_receiver :: receiver where
  "demo_receiver = snd (rc_Bind (\<lambda>a. Inr 40000) ''strm-1'' 111 0 0
     (rc_SetOnPacket True (rc_SetOnCompressed True (NewReceiver None))))"

theorem one_source_per_stream_witness:
  "fst (readLoop demo_pion
      [(0, Datagram [1, 7, 42]), (1, Datagram [2, 9, 43]), (2, Datagram [9]), (3, Datagram [2, 7, 44])]
      0 demo_receiver) =
    [OnPacket ''strm-1'' True, OnCompressed ''strm-1'' 0 [42],
     OnPacket ''strm-1'' False, OnCompressed ''strm-1'' 0 [44]]"
proof -
  let ?r = "rc_SetOnPacket True (rc_SetOnCompressed True (NewReceiver None))"
  let ?rds = "[(0, Datagram [1, 7, 42]), (1, Datagram [2, 9, 43]), (2, Datagram [9]), (3, Datagram [2, 7, 44])]"
  have bind: "rc_Bind (\<lambda>a. Inr 40000) ''strm-1'' 111 0 0 ?r = (Inr 40000, demo_receiver)"
    by (simp add: demo_receiver_def rc_Bind_def NewReceiver_def rc_SetOnPacket_def
        rc_SetOnCompressed_def Let_def)
  have st: "rc_streams demo_receiver ''strm-1'' = Some 0"
    by (simp add: demo_receiver_def rc_Bind_def NewReceiver_def rc_SetOnPacket_def
        rc_SetOnCompressed_def Let_def)
  have cb: "rc_onPacket ?r" "rc_onCompressed ?r" "\<forall>x\<in>set ?rds. not_closed (snd x)"
    by (simp_all add: rc_SetOnPacket_def rc_SetOnCompressed_def not_closed_def)
  from one_source_per_stream [OF bind cb st refl surjective_pairing, of demo_pion]
  show ?thesis
    by (simp add: read_buffer_def demo_pion_def ParseFor_def)
qed

theorem CloseStream_ends_read_loop_witness:
  "read_step demo_pion 0 (Datagram [1, 7, 42]) 0 (snd (rc_CloseStream ''strm-1'' demo_receiver)) =
     (LoopReturn, [], snd (rc_CloseStream ''strm-1'' demo_receiver))"
proof -
  have "rc_streams demo_receiver ''strm-1'' = Some 0" "rc_heap demo_receiver 0 \<noteq> None"
    by (simp_all add: demo_receiver_def rc_Bind_def NewReceiver_def rc_SetOnPacket_def
        rc_SetOnCompressed_def Let_def)
  then show ?thesis using CloseStream_ends_read_loop [OF _ _ surjective_pairing] by blast
qed

end
