(* ===== verification/Stream_Lifecycle.thy ===== *)
theory Stream_Lifecycle
  imports Prelude
begin

text \<open>
  \<open>internal/stream/stream.go\<close>: the lifecycle of one stream and the registry of streams.
  Every method of \<open>Stream\<close> is a function from the stream to an optional error and the
  stream afterwards. Streams are shared by pointer in the Go code; \<open>stream_heap\<close> is the
  memory they live in and the registry maps identifiers to its addresses.
\<close>

section \<open>State\<close>

datatype stream_state =
    StateCreated | StateWaitingForDevice | StateStarting | StateRTPWait | StateActive
  | StateStopping | StateComplete | StateFailed

fun state_string :: "stream_state \<Rightarrow> string" where
  "state_string StateCreated = ''CREATED''"
| "state_string StateWaitingForDevice = ''WAITING_FOR_DEVICE''"
| "state_string StateStarting = ''STARTING''"
| "state_string StateRTPWait = ''RTP_WAIT''"
| "state_string StateActive = ''ACTIVE''"
| "state_string StateStopping = ''STOPPING''"
| "state_string StateComplete = ''COMPLETE''"
| "state_string StateFailed = ''FAILED''"

datatype failure_reason =
    FailureNone | FailureStartRejected | FailureRTPWaitTimeout | FailureRTPTimeout
  | FailureDeviceDisc | FailureDecodeError | FailureServerRestart | FailureReplaced

fun reason_string :: "failure_reason \<Rightarrow> string" where
  "reason_string FailureNone = ''''"
| "reason_string FailureStartRejected = ''STARTING->FAILED''"
| "reason_string FailureRTPWaitTimeout = ''RTP_WAIT->TIMEOUT''"
| "reason_string FailureRTPTimeout = ''ACTIVE->RTP_TIMEOUT''"
| "reason_string FailureDeviceDisc = ''ACTIVE->DEVICE_DISCONNECTED''"
| "reason_string FailureDecodeError = ''ACTIVE->DECODE_ERROR''"
| "reason_string FailureServerRestart = ''FAILED->SERVER_RESTART''"
| "reason_string FailureReplaced = ''COMPLETE->REPLACED''"

definition DefaultRTPWaitTimeout :: duration where
  "DefaultRTPWaitTimeout = seconds 5"

definition DefaultRTPDisappearTimeout :: duration where
  "DefaultRTPDisappearTimeout = seconds 1"

record timeout_config =
  RTPWait :: duration
  RTPDisappear :: duration

definition cfg_wait :: "timeout_config \<Rightarrow> duration" where
  "cfg_wait c = (if 0 < RTPWait c then RTPWait c else DefaultRTPWaitTimeout)"

definition cfg_disappear :: "timeout_config \<Rightarrow> duration" where
  "cfg_disappear c = (if 0 < RTPDisappear c then RTPDisappear c else DefaultRTPDisappearTimeout)"

record stream =
  sm_StreamID :: string
  sm_DeviceID :: string
  sm_SSRC :: u32
  sm_state :: stream_state
  sm_StartedAt :: time
  sm_Reason :: failure_reason
  sm_streamStartedAt :: time
  sm_lastPacketAt :: time
  sm_cfg :: timeout_config

definition stream_New :: "string \<Rightarrow> string \<Rightarrow> u32 \<Rightarrow> time \<Rightarrow> stream" where
  "stream_New sid deviceID ssrc startedAt =
     \<lparr>sm_StreamID = sid, sm_DeviceID = deviceID, sm_SSRC = ssrc, sm_state = StateCreated,
      sm_StartedAt = startedAt, sm_Reason = FailureNone, sm_streamStartedAt = time_zero,
      sm_lastPacketAt = time_zero, sm_cfg = \<lparr>RTPWait = 0, RTPDisappear = 0\<rparr>\<rparr>"

definition WithTimeoutConfig :: "timeout_config \<Rightarrow> stream \<Rightarrow> stream" where
  "WithTimeoutConfig c s = s\<lparr>sm_cfg := c\<rparr>"

section \<open>Transitions\<close>

type_synonym transition = "stream \<Rightarrow> goerr option \<times> stream"

abbreviation illegal :: transition where
  "illegal s \<equiv> (Some (Sentinel ErrIllegalTransition), s)"

definition sm_Start :: "time \<Rightarrow> transition" where
  "sm_Start now s =
     (if sm_state s \<noteq> StateCreated then illegal s
      else (None, s\<lparr>sm_state := StateWaitingForDevice, sm_StartedAt := now\<rparr>))"

definition sm_DeviceCommandSent :: transition where
  "sm_DeviceCommandSent s =
     (if sm_state s \<noteq> StateCreated \<and> sm_state s \<noteq> StateWaitingForDevice then illegal s
      else (None, s\<lparr>sm_state := StateStarting\<rparr>))"

definition sm_DeviceRejected :: "failure_reason \<Rightarrow> transition" where
  "sm_DeviceRejected reason s =
     (if sm_state s \<noteq> StateStarting then illegal s
      else
        let r = (if reason = FailureNone then FailureStartRejected else reason)
        in (None, s\<lparr>sm_state := StateFailed, sm_Reason := r\<rparr>))"

definition sm_MarkServerRestartFailed :: transition where
  "sm_MarkServerRestartFailed s =
     (if sm_state s \<in> {StateCreated, StateStarting, StateRTPWait, StateActive}
      then (None, s\<lparr>sm_state := StateFailed, sm_Reason := FailureServerRestart\<rparr>)
      else illegal s)"

definition sm_StreamStarted :: "time \<Rightarrow> transition" where
  "sm_StreamStarted now s =
     (if sm_state s \<noteq> StateStarting then illegal s
      else (None, s\<lparr>sm_state := StateRTPWait, sm_streamStartedAt := now\<rparr>))"

definition sm_FirstPacket :: "time \<Rightarrow> transition" where
  "sm_FirstPacket now s =
     (if sm_state s \<noteq> StateRTPWait then illegal s
      else (None, s\<lparr>sm_state := StateActive, sm_lastPacketAt := now\<rparr>))"

definition sm_Packet :: "time \<Rightarrow> stream \<Rightarrow> stream" where
  "sm_Packet now s = (if sm_state s \<noteq> StateActive then s else s\<lparr>sm_lastPacketAt := now\<rparr>)"

definition sm_RTPWaitTimedOut :: "time \<Rightarrow> stream \<Rightarrow> bool" where
  "sm_RTPWaitTimedOut now s =
     (if sm_state s \<noteq> StateRTPWait then False
      else cfg_wait (sm_cfg s) \<le> time_sub now (sm_streamStartedAt s))"

definition sm_RTPDisappeared :: "time \<Rightarrow> stream \<Rightarrow> bool" where
  "sm_RTPDisappeared now s =
     (if sm_state s \<noteq> StateActive then False
      else cfg_disappear (sm_cfg s) \<le> time_sub now (sm_lastPacketAt s))"

definition sm_StopRequested :: transition where
  "sm_StopRequested s =
     (if sm_state s \<noteq> StateActive then illegal s else (None, s\<lparr>sm_state := StateStopping\<rparr>))"

definition sm_Stopped :: transition where
  "sm_Stopped s =
     (if sm_state s \<noteq> StateStopping then illegal s else (None, s\<lparr>sm_state := StateComplete\<rparr>))"

definition sm_ForceComplete :: transition where
  "sm_ForceComplete s =
     (if sm_state s = StateComplete \<or> sm_state s = StateFailed then (None, s)
      else (None, s\<lparr>sm_state := StateComplete, sm_Reason := FailureReplaced\<rparr>))"

definition sm_DeviceDisconnected :: transition where
  "sm_DeviceDisconnected s =
     (if sm_state s \<noteq> StateActive then illegal s
      else (None, s\<lparr>sm_state := StateFailed, sm_Reason := FailureDeviceDisc\<rparr>))"

definition sm_RTPWaitTimeout :: "time \<Rightarrow> transition" where
  "sm_RTPWaitTimeout now s =
     (if sm_state s \<noteq> StateRTPWait then illegal s
      else (None, s\<lparr>sm_state := StateFailed, sm_Reason := FailureRTPWaitTimeout\<rparr>))"

definition sm_RTPTimeout :: "time \<Rightarrow> transition" where
  "sm_RTPTimeout now s =
     (if sm_state s \<noteq> StateActive then illegal s
      else (None, s\<lparr>sm_state := StateFailed, sm_Reason := FailureRTPTimeout\<rparr>))"

definition sm_DecodeError :: transition where
  "sm_DecodeError s =
     (if sm_state s \<noteq> StateActive then illegal s
      else (None, s\<lparr>sm_state := StateFailed, sm_Reason := FailureDecodeError\<rparr>))"

section \<open>Registry\<close>

type_synonym stream_ref = nat
type_synonym stream_heap = "stream_ref \<rightharpoonup> stream"

record stream_registry =
  reg_streams :: "string \<rightharpoonup> stream_ref"

definition reg_New :: stream_registry where
  "reg_New = \<lparr>reg_streams = Map.empty\<rparr>"

text \<open>\<open>Add(s)\<close> files the pointer under the stream's own identifier.\<close>

definition reg_Add :: "string \<Rightarrow> stream_ref \<Rightarrow> stream_registry \<Rightarrow> stream_registry" where
  "reg_Add sid p r = r\<lparr>reg_streams := (reg_streams r)(sid \<mapsto> p)\<rparr>"

definition reg_Get :: "stream_registry \<Rightarrow> string \<Rightarrow> goerr + stream_ref" where
  "reg_Get r sid =
     (case reg_streams r sid of None \<Rightarrow> Inl (Sentinel ErrStreamNotFound) | Some p \<Rightarrow> Inr p)"

definition reg_Remove :: "string \<Rightarrow> stream_registry \<Rightarrow> stream_registry" where
  "reg_Remove sid r = r\<lparr>reg_streams := (reg_streams r)(sid := None)\<rparr>"

text \<open>\<open>range\<close> visits the identifiers in an order \<open>ids\<close> the runtime chooses.\<close>

definition reg_List :: "string list \<Rightarrow> stream_registry \<Rightarrow> stream_ref list" where
  "reg_List ids r = List.map_filter (reg_streams r) ids"

fun first_live :: "stream_heap \<Rightarrow> string \<Rightarrow> stream_ref list \<Rightarrow> stream_ref option" where
  "first_live h deviceID [] = None"
| "first_live h deviceID (p # ps) =
     (case h p of
        None \<Rightarrow> first_live h deviceID ps
      | Some s \<Rightarrow>
          if sm_DeviceID s = deviceID \<and>
             sm_state s \<in> {StateActive, StateRTPWait, StateStarting, StateCreated, StateStopping}
          then Some p else first_live h deviceID ps)"

definition reg_GetByDevice ::
  "string list \<Rightarrow> stream_heap \<Rightarrow> string \<Rightarrow> stream_registry \<Rightarrow> stream_ref option" where
  "reg_GetByDevice ids h deviceID r = first_live h deviceID (reg_List ids r)"

definition reg_ForEach ::
  "string list \<Rightarrow> (stream_ref \<Rightarrow> 's \<Rightarrow> 's) \<Rightarrow> stream_registry \<Rightarrow> 's \<Rightarrow> 's" where
  "reg_ForEach ids fn r s = foldl (\<lambda>s p. fn p s) s (reg_List ids r)"

definition reg_Count :: "stream_registry \<Rightarrow> nat" where
  "reg_Count r = card (dom (reg_streams r))"

section \<open>The lifecycle as a machine\<close>

text \<open>The methods as events, and the documented lifecycle as a relation on states.\<close>

datatype lifecycle_op =
    OpStart time | OpDeviceCommandSent | OpDeviceRejected failure_reason
  | OpMarkServerRestartFailed | OpStreamStarted time | OpFirstPacket time | OpPacket time
  | OpStopRequested | OpStopped | OpForceComplete | OpDeviceDisconnected
  | OpRTPWaitTimeout time | OpRTPTimeout time | OpDecodeError

fun apply_op :: "lifecycle_op \<Rightarrow> transition" where
  "apply_op (OpStart t) s = sm_Start t s"
| "apply_op OpDeviceCommandSent s = sm_DeviceCommandSent s"
| "apply_op (OpDeviceRejected r) s = sm_DeviceRejected r s"
| "apply_op OpMarkServerRestartFailed s = sm_MarkServerRestartFailed s"
| "apply_op (OpStreamStarted t) s = sm_StreamStarted t s"
| "apply_op (OpFirstPacket t) s = sm_FirstPacket t s"
| "apply_op (OpPacket t) s = (None, sm_Packet t s)"
| "apply_op OpStopRequested s = sm_StopRequested s"
| "apply_op OpStopped s = sm_Stopped s"
| "apply_op OpForceComplete s = sm_ForceComplete s"
| "apply_op OpDeviceDisconnected s = sm_DeviceDisconnected s"
| "apply_op (OpRTPWaitTimeout t) s = sm_RTPWaitTimeout t s"
| "apply_op (OpRTPTimeout t) s = sm_RTPTimeout t s"
| "apply_op OpDecodeError s = sm_DecodeError s"

definition op_step :: "stream \<Rightarrow> lifecycle_op \<Rightarrow> stream" where
  "op_step s opn = snd (apply_op opn s)"

lemmas transition_defs =
  sm_Start_def sm_DeviceCommandSent_def sm_DeviceRejected_def sm_MarkServerRestartFailed_def
  sm_StreamStarted_def sm_FirstPacket_def sm_Packet_def sm_StopRequested_def sm_Stopped_def
  sm_ForceComplete_def sm_DeviceDisconnected_def sm_RTPWaitTimeout_def sm_RTPTimeout_def
  sm_DecodeError_def

inductive lifecycle :: "stream_state \<Rightarrow> stream_state \<Rightarrow> bool" where
  start: "lifecycle StateCreated StateWaitingForDevice"
| command_direct: "lifecycle StateCreated StateStarting"
| command: "lifecycle StateWaitingForDevice StateStarting"
| rejected: "lifecycle StateStarting StateFailed"
| started: "lifecycle StateStarting StateRTPWait"
| wait_timeout: "lifecycle StateRTPWait StateFailed"
| first_packet: "lifecycle StateRTPWait StateActive"
| active_failed: "lifecycle StateActive StateFailed"
| stop: "lifecycle StateActive StateStopping"
| stopped: "lifecycle StateStopping StateComplete"
| replaced: "s \<noteq> StateComplete \<Longrightarrow> s \<noteq> StateFailed \<Longrightarrow> lifecycle s StateComplete"
| restart: "lifecycle StateCreated StateFailed"

inductive_cases lifecycle_from_terminal: "lifecycle StateComplete s" "lifecycle StateFailed s"

fun rank :: "stream_state \<Rightarrow> nat" where
  "rank StateCreated = 0"
| "rank StateWaitingForDevice = 1"
| "rank StateStarting = 2"
| "rank StateRTPWait = 3"
| "rank StateActive = 4"
| "rank StateStopping = 5"
| "rank StateComplete = 6"
| "rank StateFailed = 6"

lemma lifecycle_rank: "lifecycle s t \<Longrightarrow> rank s < rank t"
proof (induction rule: lifecycle.induct)
  case (replaced s)
  then show ?case by (cases s) simp_all
qed simp_all

text \<open>What one method call does to the state: an error changes nothing, a success takes an
  edge of the lifecycle or leaves the state alone.\<close>

lemma apply_op_alternatives:
  "apply_op opn s = (Some (Sentinel ErrIllegalTransition), s) \<or>
   fst (apply_op opn s) = None \<and> sm_state (op_step s opn) = sm_state s \<and>
     sm_Reason (op_step s opn) = sm_Reason s \<or>
   fst (apply_op opn s) = None \<and> lifecycle (sm_state s) (sm_state (op_step s opn))"
  by (cases opn; cases "sm_state s"; simp add: op_step_def transition_defs Let_def lifecycle.simps)

lemma apply_op_cases:
  obtains (refused) "apply_op opn s = (Some (Sentinel ErrIllegalTransition), s)"
  | (kept) "fst (apply_op opn s) = None" "sm_state (op_step s opn) = sm_state s"
      "sm_Reason (op_step s opn) = sm_Reason s"
  | (moved) "fst (apply_op opn s) = None" "lifecycle (sm_state s) (sm_state (op_step s opn))"
  using apply_op_alternatives [of opn s] refused kept moved by meson

lemma op_step_fixed [simp]:
  "sm_StreamID (op_step s opn) = sm_StreamID s" "sm_DeviceID (op_step s opn) = sm_DeviceID s"
  "sm_SSRC (op_step s opn) = sm_SSRC s" "sm_cfg (op_step s opn) = sm_cfg s"
  by (cases opn; simp add: op_step_def transition_defs Let_def)+

lemma op_step_to_wait:
  "sm_state (op_step s opn) = StateRTPWait \<Longrightarrow>
     sm_state s = StateRTPWait \<or> (\<exists>t. opn = OpStreamStarted t)"
  by (cases opn) (auto simp: op_step_def transition_defs Let_def split: if_splits)

lemma op_step_to_active:
  "sm_state (op_step s opn) = StateActive \<Longrightarrow>
     sm_state s = StateActive \<or> (sm_state s = StateRTPWait \<and> (\<exists>t. opn = OpFirstPacket t))"
  by (cases opn) (auto simp: op_step_def transition_defs Let_def split: if_splits)

definition terminal :: "stream_state \<Rightarrow> bool" where
  "terminal st \<longleftrightarrow> st = StateComplete \<or> st = StateFailed"

text \<open>A failed stream has a reason, a live one has none, a completed one none or
  \<open>FailureReplaced\<close>.\<close>

definition reason_inv :: "stream \<Rightarrow> bool" where
  "reason_inv s \<longleftrightarrow>
     (case sm_state s of
        StateFailed \<Rightarrow> sm_Reason s \<noteq> FailureNone
      | StateComplete \<Rightarrow> sm_Reason s = FailureNone \<or> sm_Reason s = FailureReplaced
      | _ \<Rightarrow> sm_Reason s = FailureNone)"

interpretation stream_reason: event_machine op_step reason_inv
proof
  fix s opn
  assume "reason_inv s"
  then show "reason_inv (op_step s opn)"
    by (cases opn; cases "sm_state s") (auto simp: reason_inv_def op_step_def transition_defs Let_def)
qed

text \<open>The number of calls in a run that changed the state.\<close>

fun state_changes :: "stream \<Rightarrow> lifecycle_op list \<Rightarrow> nat" where
  "state_changes s [] = 0"
| "state_changes s (opn # ops) =
     (if sm_state (op_step s opn) = sm_state s then 0 else 1) + state_changes (op_step s opn) ops"

lemma op_step_rank:
  "sm_state (op_step s opn) = sm_state s \<or> rank (sm_state s) < rank (sm_state (op_step s opn))"
  by (cases rule: apply_op_cases [of opn s]) (auto simp: op_step_def dest: lifecycle_rank)

lemma rank_le: "rank st \<le> 6"
  by (cases st) simp_all

lemma state_changes_rank: "state_changes s ops + rank (sm_state s) \<le> 6"
proof (induction ops arbitrary: s)
  case Nil
  then show ?case by (simp add: rank_le)
next
  case (Cons opn ops)
  from op_step_rank [of s opn] Cons.IH [of "op_step s opn"] show ?case by auto
qed

section \<open>The registry as a keyed store\<close>

interpretation streams_by_id: keyed_store reg_streams reg_Add reg_Remove
  by unfold_locales (simp_all add: reg_Add_def reg_Remove_def)

lemma reg_Get_iff: "reg_Get r sid = Inr p \<longleftrightarrow> reg_streams r sid = Some p"
  by (simp add: reg_Get_def split: option.splits)

text \<open>\<open>range\<close> visits each identifier of the registry once.\<close>

definition visits :: "string list \<Rightarrow> stream_registry \<Rightarrow> bool" where
  "visits ids r \<longleftrightarrow> distinct ids \<and> set ids = dom (reg_streams r)"

lemma set_map_filter: "set (List.map_filter f xs) = {y. \<exists>x\<in>set xs. f x = Some y}"
  by (induction xs) (auto simp: List.map_filter_simps split: option.splits)

lemma reg_List_refs: "visits ids r \<Longrightarrow> set (reg_List ids r) = ran (reg_streams r)"
  by (auto simp: reg_List_def visits_def set_map_filter ran_def)

definition live_for_device :: "stream_state \<Rightarrow> bool" where
  "live_for_device st \<longleftrightarrow> \<not> terminal st \<and> st \<noteq> StateWaitingForDevice"

lemma live_for_device_set:
  "st \<in> {StateActive, StateRTPWait, StateStarting, StateCreated, StateStopping} \<longleftrightarrow> live_for_device st"
  by (cases st) (simp_all add: live_for_device_def terminal_def)

lemma first_live_Some:
  "first_live h d ps = Some p \<Longrightarrow>
     p \<in> set ps \<and> (\<exists>s. h p = Some s \<and> sm_DeviceID s = d \<and> live_for_device (sm_state s))"
  by (induction ps) (auto simp: live_for_device_def terminal_def split: option.splits if_splits)

lemma first_live_None:
  "first_live h d ps = None \<longleftrightarrow>
     (\<forall>p\<in>set ps. \<forall>s. h p = Some s \<longrightarrow> sm_DeviceID s = d \<longrightarrow> \<not> live_for_device (sm_state s))"
  by (induction ps) (simp_all only: first_live.simps live_for_device_set, auto split: option.splits)

section \<open>Properties\<close>

text \<open>The methods implement the documented lifecycle: each call either is refused with
  \<open>ErrIllegalTransition\<close> and leaves the stream as it was, or succeeds and takes an edge of the
  lifecycle or keeps the state.\<close>

theorem stream_refines_lifecycle:
  "(fst (apply_op opn s) = None \<and>
      (sm_state (op_step s opn) = sm_state s \<or> lifecycle (sm_state s) (sm_state (op_step s opn)))) \<or>
   (fst (apply_op opn s) = Some (Sentinel ErrIllegalTransition) \<and> op_step s opn = s)"
  by (cases rule: apply_op_cases [of opn s]) (auto simp: op_step_def)

text \<open>A stream that is COMPLETE or FAILED stays so, with the same reason, whatever is called
  on it afterwards.\<close>

theorem terminal_is_final:
  assumes "terminal (sm_state s)"
  shows "sm_state (foldl op_step s ops) = sm_state s \<and> sm_Reason (foldl op_step s ops) = sm_Reason s"
  using assms
proof (induction ops arbitrary: s)
  case Nil
  then show ?case by simp
next
  case (Cons opn ops)
  have "sm_state (op_step s opn) = sm_state s \<and> sm_Reason (op_step s opn) = sm_Reason s"
    using Cons.prems
    by (cases rule: apply_op_cases [of opn s])
      (auto simp: op_step_def terminal_def elim: lifecycle_from_terminal)
  with Cons.IH [of "op_step s opn"] Cons.prems show ?case by simp
qed

text \<open>Any run of calls changes the state of a stream at most six times: the lifecycle cannot
  loop.\<close>

theorem lifecycle_runs_are_short: "state_changes s ops \<le> 6"
  using state_changes_rank [of s ops] by simp

text \<open>Along every run from a new stream the failure reason agrees with the state: FAILED has a
  reason, COMPLETE none or "replaced", a live stream none.\<close>

theorem reason_matches_state:
  "reason_inv (foldl op_step (stream_New sid deviceID ssrc t) ops)"
  by (rule stream_reason.run_inv) (simp add: reason_inv_def stream_New_def)

text \<open>A new stream becomes ACTIVE only through the handshake: the device's
  \<open>stream_started\<close> and, after it, a first RTP packet.\<close>

theorem active_needs_handshake:
  assumes "sm_state (foldl op_step (stream_New sid deviceID ssrc t) ops) = StateActive"
  shows "\<exists>a b c t1 t2. ops = a @ OpStreamStarted t1 # b @ OpFirstPacket t2 # c"
proof -
  let ?s = "stream_New sid deviceID ssrc t"
  have wait: "\<exists>a b t1. ops = a @ OpStreamStarted t1 # b"
    if "sm_state (foldl op_step ?s ops) = StateRTPWait" for ops
    using that
  proof (induction ops rule: rev_induct)
    case (snoc opn ops)
    from op_step_to_wait [of "foldl op_step ?s ops" opn] snoc.prems
    consider "sm_state (foldl op_step ?s ops) = StateRTPWait" | t1 where "opn = OpStreamStarted t1"
      by auto
    then show ?case
      by cases (use snoc.IH in \<open>fastforce+\<close>)
  qed (simp add: stream_New_def)
  from assms show ?thesis
  proof (induction ops rule: rev_induct)
    case (snoc opn ops)
    from op_step_to_active [of "foldl op_step ?s ops" opn] snoc.prems
    consider "sm_state (foldl op_step ?s ops) = StateActive"
      | t2 where "sm_state (foldl op_step ?s ops) = StateRTPWait" "opn = OpFirstPacket t2"
      by auto
    then show ?case
    proof cases
      case 1
      with snoc.IH obtain a b c t1 t2 where "ops = a @ OpStreamStarted t1 # b @ OpFirstPacket t2 # c"
        by blast
      then have "ops @ [opn] = a @ OpStreamStarted t1 # b @ OpFirstPacket t2 # (c @ [opn])" by simp
      then show ?thesis by blast
    next
      case 2
      with wait obtain a b t1 where "ops = a @ OpStreamStarted t1 # b" by blast
      with 2 have "ops @ [opn] = a @ OpStreamStarted t1 # b @ OpFirstPacket t2 # []" by simp
      then show ?thesis by blast
    qed
  qed (simp add: stream_New_def)
qed

text \<open>The two deadlines: a stream waiting for RTP is reported timed out exactly from its wait
  timeout on, an ACTIVE one exactly when its last packet lies the disappearance timeout back, and
  no other stream ever is (for durations of less than 292 years, where \<open>Time.Sub\<close> does not
  saturate).\<close>

theorem timeouts_exact:
  assumes "cfg_wait (sm_cfg s) < 2 ^ 63" and "cfg_disappear (sm_cfg s) < 2 ^ 63"
  shows "(sm_RTPWaitTimedOut now s \<longleftrightarrow>
      sm_state s = StateRTPWait \<and> sm_streamStartedAt s + cfg_wait (sm_cfg s) \<le> now) \<and>
    (sm_RTPDisappeared now s \<longleftrightarrow>
      sm_state s = StateActive \<and> sm_lastPacketAt s + cfg_disappear (sm_cfg s) \<le> now)"
proof -
  have pos: "0 < cfg_wait (sm_cfg s)" "0 < cfg_disappear (sm_cfg s)"
    by (simp_all add: cfg_wait_def cfg_disappear_def DefaultRTPWaitTimeout_def
        DefaultRTPDisappearTimeout_def seconds_def)
  then have "cfg_wait (sm_cfg s) \<le> time_sub now (sm_streamStartedAt s) \<longleftrightarrow>
      cfg_wait (sm_cfg s) \<le> now - sm_streamStartedAt s"
    and "cfg_disappear (sm_cfg s) \<le> time_sub now (sm_lastPacketAt s) \<longleftrightarrow>
      cfg_disappear (sm_cfg s) \<le> now - sm_lastPacketAt s"
    using assms by (intro time_sub_ge_iff; linarith)+
  then show ?thesis
    by (auto simp: sm_RTPWaitTimedOut_def sm_RTPDisappeared_def)
qed

text \<open>\<open>GetByDevice\<close> finds a registered stream of the device that is CREATED, STARTING,
  RTP_WAIT, ACTIVE or STOPPING exactly when there is one, for every order in which Go visits the
  map; a stream WAITING_FOR_DEVICE, although not terminal, is not found.\<close>

theorem GetByDevice_finds_live:
  assumes "visits ids r"
  shows "(reg_GetByDevice ids h d r = None \<longleftrightarrow>
      \<not> (\<exists>p\<in>ran (reg_streams r). \<exists>s. h p = Some s \<and> sm_DeviceID s = d \<and>
          \<not> terminal (sm_state s) \<and> sm_state s \<noteq> StateWaitingForDevice)) \<and>
    (\<forall>p. reg_GetByDevice ids h d r = Some p \<longrightarrow>
      p \<in> ran (reg_streams r) \<and> (\<exists>s. h p = Some s \<and> sm_DeviceID s = d \<and> \<not> terminal (sm_state s)))"
  using reg_List_refs [OF assms] first_live_Some [of h d "reg_List ids r"] first_live_None [of h d "reg_List ids r"]
  by (auto simp: reg_GetByDevice_def live_for_device_def)

section \<open>Witnesses\<close>

definition demo_stream :: stream where
  "demo_stream = stream_New ''strm-1'' ''dev-1'' 0 0"

theorem terminal_is_final_witness:
  "sm_state (foldl op_step (op_step demo_stream OpForceComplete) [OpStart 1, OpDecodeError]) = StateComplete"
  using terminal_is_final [of "op_step demo_stream OpForceComplete" "[OpStart 1, OpDecodeError]"]
  by (simp add: terminal_def op_step_def sm_ForceComplete_def demo_stream_def stream_New_def)

theorem active_needs_handshake_witness:
  "\<exists>a b c t1 t2. [OpDeviceCommandSent, OpStreamStarted 1, OpFirstPacket 2]
      = a @ OpStreamStarted t1 # b @ OpFirstPacket t2 # c"
  by (rule active_needs_handshake [of "''strm-1''" "''dev-1''" 0 0])
    (simp add: op_step_def transition_defs stream_New_def)

theorem timeouts_exact_witness:
  "sm_RTPWaitTimedOut (seconds 5) (demo_stream\<lparr>sm_state := StateRTPWait, sm_streamStartedAt := 0\<rparr>)"
  using timeouts_exact [of "demo_stream\<lparr>sm_state := StateRTPWait, sm_streamStartedAt := 0\<rparr>" "seconds 5"]
  by (simp add: demo_stream_def stream_New_def cfg_wait_def cfg_disappear_def DefaultRTPWaitTimeout_def
      DefaultRTPDisappearTimeout_def seconds_def)

theorem GetByDevice_finds_live_witness:
  "reg_GetByDevice [''strm-1''] [0 \<mapsto> demo_stream\<lparr>sm_state := StateWaitingForDevice\<rparr>] ''dev-1''
     (reg_Add ''strm-1'' 0 reg_New) = None"
proof -
  have v: "visits [''strm-1''] (reg_Add ''strm-1'' 0 reg_New)"
    by (simp add: visits_def reg_Add_def reg_New_def)
  from GetByDevice_finds_live [OF v, of "[0 \<mapsto> demo_stream\<lparr>sm_state := StateWaitingForDevice\<rparr>]" "''dev-1''"]
  show ?thesis by (simp add: demo_stream_def stream_New_def reg_Add_def reg_New_def)
qed

end
