(* ===== verification/Device_Registry.thy ===== *)
theory Device_Registry
  imports Prelude
begin

text \<open>
  \<open>internal/device\<close>: the registry of devices with their credential hashes and their
  presence. A missing key of Go's \<open>online\<close> map reads as the zero time.
\<close>

section \<open>State\<close>

record device =
  dv_DeviceID :: string
  dv_DisplayName :: string
  dv_Firmware :: string
  dv_Capabilities :: "string list"
  dv_Status :: string
  dv_LastSeen :: time
  dv_Online :: bool

record device_registry =
  dr_devices :: "string \<rightharpoonup> device"
  dr_creds :: "string \<rightharpoonup> bytes"
  dr_online :: "string \<rightharpoonup> time"

definition dr_New :: device_registry where
  "dr_New = \<lparr>dr_devices = Map.empty, dr_creds = Map.empty, dr_online = Map.empty\<rparr>"

section \<open>Operations\<close>

definition dr_Register :: "device \<Rightarrow> bytes \<Rightarrow> device_registry \<Rightarrow> device_registry" where
  "dr_Register d credHash r =
     r\<lparr>dr_devices := (dr_devices r)(dv_DeviceID d \<mapsto> d),
       dr_creds := (dr_creds r)(dv_DeviceID d \<mapsto> credHash)\<rparr>"

definition statusFromOnline :: "bool \<Rightarrow> string" where
  "statusFromOnline online = (if online then ''online'' else ''offline'')"

definition online_at :: "device_registry \<Rightarrow> string \<Rightarrow> time" where
  "online_at r k = (case dr_online r k of None \<Rightarrow> time_zero | Some t \<Rightarrow> t)"

definition with_presence :: "device_registry \<Rightarrow> device \<Rightarrow> device" where
  "with_presence r d =
     (let on = (online_at r (dv_DeviceID d) \<noteq> time_zero)
      in d\<lparr>dv_Online := on, dv_Status := statusFromOnline on\<rparr>)"

definition dr_Get :: "device_registry \<Rightarrow> string \<Rightarrow> goerr + device" where
  "dr_Get r k =
     (case dr_devices r k of
        None \<Rightarrow> Inl (Sentinel ErrDeviceNotFound)
      | Some d \<Rightarrow> Inr (with_presence r d))"

text \<open>\<open>subtle.ConstantTimeCompare\<close> returns 1 exactly for equal byte slices.\<close>

definition ConstantTimeCompare :: "bytes \<Rightarrow> bytes \<Rightarrow> int" where
  "ConstantTimeCompare x y = (if x = y then 1 else 0)"

definition dr_Authenticate :: "device_registry \<Rightarrow> string \<Rightarrow> bytes \<Rightarrow> goerr + device" where
  "dr_Authenticate r k credHash =
     (case dr_devices r k of
        None \<Rightarrow> Inl (Sentinel ErrDeviceNotFound)
      | Some d \<Rightarrow>
          (case dr_creds r k of
             None \<Rightarrow> Inl (Sentinel ErrAuthFailed)
           | Some want \<Rightarrow>
               if ConstantTimeCompare want credHash \<noteq> 1 then Inl (Sentinel ErrAuthFailed)
               else Inr (with_presence r d)))"

definition dr_List :: "string list \<Rightarrow> device_registry \<Rightarrow> device list" where
  "dr_List ids r = map (with_presence r) (List.map_filter (dr_devices r) ids)"

definition dr_SetOnline :: "string \<Rightarrow> time \<Rightarrow> device_registry \<Rightarrow> device_registry" where
  "dr_SetOnline k t r = r\<lparr>dr_online := (dr_online r)(k \<mapsto> t)\<rparr>"

definition dr_SetOffline :: "string \<Rightarrow> device_registry \<Rightarrow> device_registry" where
  "dr_SetOffline k r = r\<lparr>dr_online := (dr_online r)(k := None)\<rparr>"

definition dr_Online :: "device_registry \<Rightarrow> string \<Rightarrow> bool" where
  "dr_Online r k \<longleftrightarrow> dr_online r k \<noteq> None"

definition dr_SetDisplayName :: "string \<Rightarrow> string \<Rightarrow> device_registry \<Rightarrow> goerr option \<times> device_registry" where
  "dr_SetDisplayName k name r =
     (case dr_devices r k of
        None \<Rightarrow> (Some (Sentinel ErrDeviceNotFound), r)
      | Some d \<Rightarrow> (None, r\<lparr>dr_devices := (dr_devices r)(k \<mapsto> d\<lparr>dv_DisplayName := name\<rparr>)\<rparr>))"

definition dr_LastSeen :: "device_registry \<Rightarrow> string \<Rightarrow> time \<times> bool" where
  "dr_LastSeen r k = (online_at r k, dr_online r k \<noteq> None)"

section \<open>Lemmas\<close>

text \<open>Presence is a keyed store of its own.\<close>

interpretation presence: keyed_store dr_online dr_SetOnline dr_SetOffline
  by unfold_locales (simp_all add: dr_SetOnline_def dr_SetOffline_def)

text \<open>Every device is filed under its own identifier and has a credential entry.\<close>

definition dr_inv :: "device_registry \<Rightarrow> bool" where
  "dr_inv r \<longleftrightarrow> (\<forall>k d. dr_devices r k = Some d \<longrightarrow> dv_DeviceID d = k) \<and>
     dom (dr_devices r) = dom (dr_creds r)"

datatype dr_event =
    EvRegister device bytes | EvOnline string time | EvOffline string | EvRename string string

fun dr_step :: "device_registry \<Rightarrow> dr_event \<Rightarrow> device_registry" where
  "dr_step r (EvRegister d h) = dr_Register d h r"
| "dr_step r (EvOnline k t) = dr_SetOnline k t r"
| "dr_step r (EvOffline k) = dr_SetOffline k r"
| "dr_step r (EvRename k n) = snd (dr_SetDisplayName k n r)"

lemma dr_step_inv: "dr_inv r \<Longrightarrow> dr_inv (dr_step r e)"
  by (cases e) (auto simp: dr_inv_def dr_Register_def dr_SetOnline_def dr_SetOffline_def
      dr_SetDisplayName_def split: option.splits if_splits)

interpretation device_runs: event_machine dr_step dr_inv
  by unfold_locales (rule dr_step_inv)

text \<open>The last presence event of a device in a history.\<close>

fun last_presence :: "string \<Rightarrow> dr_event list \<Rightarrow> time option \<Rightarrow> time option" where
  "last_presence k [] acc = acc"
| "last_presence k (EvOnline j t # es) acc = last_presence k es (if j = k then Some t else acc)"
| "last_presence k (EvOffline j # es) acc = last_presence k es (if j = k then None else acc)"
| "last_presence k (e # es) acc = last_presence k es acc"

lemma online_history: "dr_online (foldl dr_step r es) k = last_presence k es (dr_online r k)"
proof (induction es arbitrary: r)
  case Nil
  then show ?case by simp
next
  case (Cons e es)
  then show ?case
    by (cases e) (auto simp: dr_Register_def dr_SetOnline_def dr_SetOffline_def
        dr_SetDisplayName_def split: option.splits)
qed

section \<open>Properties\<close>

text \<open>A registered device is reported online exactly when the last presence event of its
  history was \<open>SetOnline\<close> with a non-zero time; registering or renaming it in between does not
  disturb its presence.\<close>

theorem presence_follows_history:
  assumes "dr_devices (foldl dr_step dr_New es) k \<noteq> None"
  shows "\<exists>d. dr_Get (foldl dr_step dr_New es) k = Inr d \<and> dv_DeviceID d = k \<and>
    dv_Online d = (case last_presence k es None of None \<Rightarrow> False | Some t \<Rightarrow> t \<noteq> time_zero) \<and>
    dv_Status d = (if dv_Online d then ''online'' else ''offline'')"
proof -
  let ?r = "foldl dr_step dr_New es"
  have "dr_inv ?r" by (rule device_runs.run_inv) (simp add: dr_inv_def dr_New_def)
  moreover from assms obtain d where "dr_devices ?r k = Some d" by auto
  moreover have "dr_online ?r k = last_presence k es None"
    using online_history [of dr_New es k] by (simp add: dr_New_def)
  ultimately show ?thesis
    by (auto simp: dr_Get_def with_presence_def online_at_def statusFromOnline_def dr_inv_def Let_def
        split: option.splits)
qed

text \<open>\<open>Authenticate\<close> accepts exactly the registered devices that present the stored
  credential hash; an unknown device and a wrong hash are told apart by the error.\<close>

theorem Authenticate_iff:
  assumes "dr_inv r"
  shows "((\<exists>d. dr_Authenticate r k h = Inr d) \<longleftrightarrow> dr_devices r k \<noteq> None \<and> dr_creds r k = Some h) \<and>
    (dr_Authenticate r k h = Inl (Sentinel ErrDeviceNotFound) \<longleftrightarrow> dr_devices r k = None) \<and>
    (dr_Authenticate r k h = Inl (Sentinel ErrAuthFailed) \<longleftrightarrow>
      dr_devices r k \<noteq> None \<and> dr_creds r k \<noteq> Some h)"
proof -
  have "dr_devices r k = None \<longleftrightarrow> dr_creds r k = None"
    using assms unfolding dr_inv_def by (metis domIff)
  then show ?thesis
    by (cases "dr_devices r k"; cases "dr_creds r k")
      (auto simp: dr_Authenticate_def ConstantTimeCompare_def)
qed

text \<open>Renaming a device changes its alias and nothing else: identity, credentials and presence
  of every device stay, and an unknown device is refused without effect.\<close>

theorem rename_changes_alias_only:
  assumes "dr_SetDisplayName k name r = (e, r')"
  shows "dr_creds r' = dr_creds r \<and> dr_online r' = dr_online r \<and>
    (case dr_devices r k of
       None \<Rightarrow> e = Some (Sentinel ErrDeviceNotFound) \<and> r' = r
     | Some d \<Rightarrow> e = None \<and> dr_devices r' = (dr_devices r)(k \<mapsto> d\<lparr>dv_DisplayName := name\<rparr>))"
  using assms by (auto simp: dr_SetDisplayName_def split: option.splits)

section \<open>Witnesses\<close>

definition demo_device :: device where
  "demo_device = \<lparr>dv_DeviceID = ''dev-1'', dv_DisplayName = ''dev-1'', dv_Firmware = [],
     dv_Capabilities = [], dv_Status = ''online'', dv_LastSeen = time_zero, dv_Online = False\<rparr>"

theorem presence_follows_history_witness:
  "\<exists>d. dr_Get (foldl dr_step dr_New [EvRegister demo_device [], EvOnline ''dev-1'' 5,
      EvRename ''dev-1'' ''mic'']) ''dev-1'' = Inr d \<and> dv_Online d"
  using presence_follows_history [of "[EvRegister demo_device [], EvOnline ''dev-1'' 5,
      EvRename ''dev-1'' ''mic'']" "''dev-1''"]
  by (auto simp: dr_Register_def demo_device_def dr_SetOnline_def dr_SetDisplayName_def dr_New_def
      time_zero_def)

theorem Authenticate_iff_witness:
  "\<exists>d. dr_Authenticate (dr_Register demo_device [1] dr_New) ''dev-1'' [1] = Inr d"
  using Authenticate_iff [of "dr_Register demo_device [1] dr_New" "''dev-1''" "[1]"]
  by (simp add: dr_inv_def dr_Register_def dr_New_def demo_device_def)

theorem rename_changes_alias_only_witness:
  "dr_creds (snd (dr_SetDisplayName ''dev-1'' ''mic'' (dr_Register demo_device [1] dr_New)))
     = [''dev-1'' \<mapsto> [1]]"
  using rename_changes_alias_only [OF surjective_pairing,
      of "''dev-1''" "''mic''" "dr_Register demo_device [1] dr_New"]
  by (simp add: dr_Register_def dr_New_def demo_device_def)

end
