(* ===== verification/Config.thy ===== *)
theory Config
  imports Strconv
begin

text \<open>
  \<open>internal/config/config.go\<close>: the settings, their defaults and their override by
  environment variables. The process environment is a map \<open>env\<close>: \<open>os.LookupEnv\<close> is its
  lookup.
\<close>

record config =
  cf_HTTPAddr :: string
  cf_ControlAddr :: string
  cf_TLSCertFile :: string
  cf_TLSKeyFile :: string
  cf_DeviceCredential :: string
  cf_LogLevel :: string
  cf_JitterTargetMS :: int
  cf_RTPWaitTimeoutS :: int
  cf_DBPath :: string
  cf_RecordingsDir :: string
  cf_RTPBindPort :: int
  cf_AdvertiseHost :: string
  cf_AdvertiseRTPPort :: int
  cf_RTPDisappearTimeoutS :: int

type_synonym environ = "string \<rightharpoonup> string"

definition envStr :: "environ \<Rightarrow> string \<Rightarrow> string \<Rightarrow> string" where
  "envStr env key dflt = (case env key of Some v \<Rightarrow> if v \<noteq> '''' then v else dflt | None \<Rightarrow> dflt)"

definition envInt :: "environ \<Rightarrow> string \<Rightarrow> int \<Rightarrow> int" where
  "envInt env key dflt =
     (case env key of
        Some v \<Rightarrow>
          if v \<noteq> '''' then (case Atoi v of Some i \<Rightarrow> i | None \<Rightarrow> dflt) else dflt
      | None \<Rightarrow> dflt)"

definition Load :: "environ \<Rightarrow> config" where
  "Load env =
     \<lparr>cf_HTTPAddr = envStr env ''ESPMIC_HTTP_ADDR'' '':8080'',
      cf_ControlAddr = envStr env ''ESPMIC_CONTROL_ADDR'' '':9000'',
      cf_TLSCertFile = envStr env ''ESPMIC_TLS_CERT'' '''',
      cf_TLSKeyFile = envStr env ''ESPMIC_TLS_KEY'' '''',
      cf_DeviceCredential = envStr env ''ESPMIC_DEVICE_CREDENTIAL'' '''',
      cf_LogLevel = envStr env ''ESPMIC_LOG_LEVEL'' ''info'',
      cf_JitterTargetMS = envInt env ''ESPMIC_JITTER_TARGET_MS'' 60,
      cf_RTPWaitTimeoutS = envInt env ''ESPMIC_RTP_WAIT_TIMEOUT_S'' 5,
      cf_DBPath = envStr env ''ESPMIC_DB_PATH'' ''espmic.db'',
      cf_RecordingsDir = envStr env ''ESPMIC_RECORDINGS_DIR'' ''/data/recordings'',
      cf_RTPBindPort = envInt env ''ESPMIC_RTP_BIND_PORT'' 0,
      cf_AdvertiseHost = envStr env ''ESPMIC_ADVERTISE_HOST'' '''',
      cf_AdvertiseRTPPort = envInt env ''ESPMIC_ADVERTISE_RTP_PORT'' 0,
      cf_RTPDisappearTimeoutS = envInt env ''ESPMIC_RTP_DISAPPEAR_TIMEOUT_S'' 3\<rparr>"

lemma envInt_range: "in_int64 dflt \<Longrightarrow> in_int64 (envInt env key dflt)"
  by (auto simp: envInt_def split: option.splits dest: Atoi_range)

lemma Atoi_Nil [simp]: "Atoi '''' = None"
  by (simp add: Atoi_def)

lemma envInt_Itoa: "in_int64 i \<Longrightarrow> envInt (env(key \<mapsto> Itoa i)) key dflt = i"
  by (simp add: envInt_def Atoi_Itoa)

lemma envInt_cases:
  "case env key of
     None \<Rightarrow> envInt env key dflt = dflt
   | Some v \<Rightarrow> Atoi v = None \<and> envInt env key dflt = dflt \<or> Atoi v = Some (envInt env key dflt)"
  by (auto simp: envInt_def split: option.splits)

text \<open>An integer setting is read back from its decimal rendering, falls back to its default
  when the variable is absent, empty or no number, and always fits a 64-bit \<open>int\<close>; in
  particular a jitter target written to the environment is the one \<open>Load\<close> returns.\<close>

theorem Load_reads_back:
  assumes "in_int64 i"
  shows "cf_JitterTargetMS (Load (env(''ESPMIC_JITTER_TARGET_MS'' \<mapsto> Itoa i))) = i \<and>
    in_int64 (cf_JitterTargetMS (Load env)) \<and>
    (case env ''ESPMIC_JITTER_TARGET_MS'' of
       None \<Rightarrow> cf_JitterTargetMS (Load env) = 60
     | Some v \<Rightarrow> Atoi v = None \<and> cf_JitterTargetMS (Load env) = 60 \<or>
                Atoi v = Some (cf_JitterTargetMS (Load env)))"
proof -
  have jt: "cf_JitterTargetMS (Load e) = envInt e ''ESPMIC_JITTER_TARGET_MS'' 60" for e
    by (simp only: Load_def config.simps)
  show ?thesis
    unfolding jt using envInt_Itoa [OF assms] envInt_range [of 60] envInt_cases by (simp add: in_int64_def)
qed

theorem Load_reads_back_witness:
  "cf_JitterTargetMS (Load (Map.empty(''ESPMIC_JITTER_TARGET_MS'' \<mapsto> Itoa (- 25)))) = - 25"
  using Load_reads_back [of "- 25" Map.empty] by (simp add: in_int64_def)

end
