(* ===== verification/Recording_File.thy ===== *)
theory Recording_File
  imports Prelude
begin

text \<open>
  The part of \<open>os.File\<close> the recorders use: sequential \<open>Write\<close>, \<open>WriteAt\<close>,
  \<open>Close\<close> and \<open>Name\<close>. A file is its bytes and the room the device still has for more; a
  \<open>Write\<close> stores what fits and fails when that is not everything.
\<close>

record os_file =
  f_name :: string
  f_data :: bytes
  f_room :: nat
  f_closed :: bool

definition file_create :: "string \<Rightarrow> nat \<Rightarrow> os_file" where
  "file_create name room = \<lparr>f_name = name, f_data = [], f_room = room, f_closed = False\<rparr>"

definition file_write :: "bytes \<Rightarrow> os_file \<Rightarrow> bool \<times> os_file" where
  "file_write bs f =
     (if f_closed f then (False, f)
      else (length bs \<le> f_room f,
            f\<lparr>f_data := f_data f @ take (f_room f) bs, f_room := f_room f - length bs\<rparr>))"

text \<open>\<open>WriteAt\<close> within the file replaces bytes in place; one that would extend the file needs
  room for the extension.\<close>

definition file_write_at :: "bytes \<Rightarrow> nat \<Rightarrow> os_file \<Rightarrow> bool \<times> os_file" where
  "file_write_at bs off f =
     (let end = off + length bs; grow = end - length (f_data f)
      in if f_closed f \<or> f_room f < grow then (False, f)
         else (True,
               f\<lparr>f_data := take off (f_data f) @ replicate (off - length (f_data f)) 0 @ bs @
                           drop end (f_data f),
                 f_room := f_room f - grow\<rparr>))"

definition file_close :: "os_file \<Rightarrow> goerr option \<times> os_file" where
  "file_close f =
     (if f_closed f then (Some (Errorf ''file already closed''), f) else (None, f\<lparr>f_closed := True\<rparr>))"

text \<open>\<open>file_takes n f\<close>: the file is open and \<open>n\<close> more bytes fit.\<close>

definition file_takes :: "nat \<Rightarrow> os_file \<Rightarrow> bool" where
  "file_takes n f \<longleftrightarrow> \<not> f_closed f \<and> n \<le> f_room f"

lemma file_write_ok:
  "file_takes (length bs + n) f \<Longrightarrow> \<exists>f'. file_write bs f = (True, f') \<and> f_data f' = f_data f @ bs \<and>
     f_name f' = f_name f \<and> file_takes n f'"
  by (auto simp: file_write_def file_takes_def)

lemma file_write_snd:
  assumes "file_takes (length bs + n) f"
  shows "fst (file_write bs f)" "f_data (snd (file_write bs f)) = f_data f @ bs"
    "f_name (snd (file_write bs f)) = f_name f" "file_takes n (snd (file_write bs f))"
  using assms by (auto simp: file_write_def file_takes_def)

lemma file_write_at_inside:
  "\<not> f_closed f \<Longrightarrow> off + length bs \<le> length (f_data f) \<Longrightarrow> file_write_at bs off f =
     (True, f\<lparr>f_data := take off (f_data f) @ bs @ drop (off + length bs) (f_data f)\<rparr>)"
  by (simp add: file_write_at_def Let_def)

end
