(* ===== verification/Wav_Recorder.thy ===== *)
theory Wav_Recorder
  imports Recording_File Pcm_Bus
begin

text \<open>
  \<open>internal/audio/recorder.go\<close>: the WAV recorder, a bus listener that appends every frame's
  samples to a file and patches the two size fields of the header at the end. \<open>filepath.Join\<close>
  is the parameter \<open>join\<close>; the outcomes of \<open>os.MkdirAll\<close> and \<open>os.Create\<close> are arguments.
\<close>

section \<open>State\<close>

record recorder =
  wr_format :: string
  wr_channels :: int
  wr_rate :: int
  wr_dir :: string
  wr_base :: string
  wr_startTime :: time
  wr_bytes :: int
  wr_closed :: bool
  wr_wavFile :: "os_file option"
  wr_checksum :: u32

definition NewRecorder ::
  "goerr option \<Rightarrow> string \<Rightarrow> string \<Rightarrow> string \<Rightarrow> int \<Rightarrow> int \<Rightarrow> goerr + recorder" where
  "NewRecorder mkdir format dir base rate channels =
     (if format \<noteq> ''wav'' then Inl (Errorf ''recorder: unsupported format'')
      else case mkdir of
          Some e \<Rightarrow> Inl e
        | None \<Rightarrow> Inr \<lparr>wr_format = format, wr_channels = channels, wr_rate = rate, wr_dir = dir,
            wr_base = base, wr_startTime = time_zero, wr_bytes = 0, wr_closed = False,
            wr_wavFile = None, wr_checksum = 0\<rparr>)"

section \<open>Operations\<close>

definition writeWAVHeader :: "recorder \<Rightarrow> bytes" where
  "writeWAVHeader r =
     str_bytes ''RIFF'' @ le_bytes 4 (0 :: u32) @ str_bytes ''WAVE'' @ str_bytes ''fmt '' @
     le_bytes 4 (16 :: u32) @ le_bytes 2 (1 :: u16) @ le_bytes 2 (word_of_int (wr_channels r) :: u16) @
     le_bytes 4 (word_of_int (wr_rate r) :: u32) @
     le_bytes 4 (word_of_int (wr_rate r * wr_channels r * 2) :: u32) @
     le_bytes 2 (word_of_int (wr_channels r * 2) :: u16) @ le_bytes 2 (16 :: u16) @
     str_bytes ''data'' @ le_bytes 4 (0 :: u32)"

definition wr_Begin ::
  "(string list \<Rightarrow> string) \<Rightarrow> goerr + nat \<Rightarrow> time \<Rightarrow> recorder \<Rightarrow> goerr option \<times> recorder" where
  "wr_Begin join create start r =
     (if wr_wavFile r \<noteq> None then (Some (Errorf ''recorder: already begun''), r)
      else
        (let r1 = r\<lparr>wr_startTime := start\<rparr>;
             path = join [wr_dir r, wr_base r @ ''.'' @ wr_format r]
         in case create of
              Inl e \<Rightarrow> (Some e, r1)
            | Inr room \<Rightarrow>
                (None, r1\<lparr>wr_wavFile := Some (snd (file_write (writeWAVHeader r1) (file_create path room)))\<rparr>)))"

definition samples_bytes :: "i16 list \<Rightarrow> bytes" where
  "samples_bytes pcm = concat (map (le_bytes 2) pcm)"

definition wr_append :: "i16 list \<Rightarrow> os_file \<Rightarrow> recorder \<Rightarrow> recorder" where
  "wr_append pcm f r =
     (let buf = samples_bytes pcm
      in case file_write buf f of
           (ok, f') \<Rightarrow>
             if ok then r\<lparr>wr_wavFile := Some f', wr_bytes := wr_bytes r + int (length buf)\<rparr>
             else r\<lparr>wr_wavFile := Some f'\<rparr>)"

text \<open>\<open>crc32.Update\<close> with the IEEE table, bit by bit.\<close>

fun crc32_bits :: "nat \<Rightarrow> u32 \<Rightarrow> u32" where
  "crc32_bits 0 c = c"
| "crc32_bits (Suc n) c =
     crc32_bits n (if bit c 0 then drop_bit 1 c XOR 0xEDB88320 else drop_bit 1 c)"

definition crc32_Update :: "u32 \<Rightarrow> bytes \<Rightarrow> u32" where
  "crc32_Update crc p = NOT (foldl (\<lambda>c b. crc32_bits 8 (c XOR ucast b)) (NOT crc) p)"

definition crc32Update :: "u32 \<Rightarrow> i16 list \<Rightarrow> u32" where
  "crc32Update crc pcm = crc32_Update crc (samples_bytes pcm)"

definition wr_OnPCM :: "decoded_audio_frame option \<Rightarrow> recorder \<Rightarrow> recorder" where
  "wr_OnPCM frame r =
     (case (wr_wavFile r, frame) of
        (Some fl, Some f) \<Rightarrow>
          if wr_closed r then r
          else (let r1 = wr_append (af_PCM f) fl r
                in r1\<lparr>wr_checksum := crc32Update (wr_checksum r1) (af_PCM f)\<rparr>)
      | _ \<Rightarrow> r)"

definition wr_Bytes :: "recorder \<Rightarrow> int" where
  "wr_Bytes r = wr_bytes r"

definition wr_Checksum :: "recorder \<Rightarrow> u32" where
  "wr_Checksum r = wr_checksum r"

definition patchWAVSizes :: "int \<Rightarrow> os_file \<Rightarrow> os_file" where
  "patchWAVSizes n f =
     snd (file_write_at (le_bytes 4 (word_of_int n :: u32)) 40
       (snd (file_write_at (le_bytes 4 (word_of_int (n + 36) :: u32)) 4 f)))"

definition wr_Finalize :: "time \<Rightarrow> recorder \<Rightarrow> (string \<times> int \<times> goerr option) \<times> recorder" where
  "wr_Finalize end r0 =
     (if wr_closed r0 then (('''', 0, Some (Errorf ''recorder: already finalized'')), r0)
      else
        (let r = r0\<lparr>wr_closed := True\<rparr>
         in case wr_wavFile r of
              None \<Rightarrow> (('''', 0, Some (Errorf ''recorder: never begun'')), r)
            | Some f \<Rightarrow>
                (let f1 = patchWAVSizes (wr_bytes r) f
                 in case file_close f1 of
                      (err, f2) \<Rightarrow> ((f_name f1, wr_bytes r, err), r\<lparr>wr_wavFile := Some f2\<rparr>))))"

section \<open>What a reader makes of the file\<close>

fun bytes_samples :: "bytes \<Rightarrow> i16 list" where
  "bytes_samples (a # b # bs) = le_word [a, b] # bytes_samples bs"
| "bytes_samples _ = []"

text \<open>The field of \<open>n\<close> bytes at an offset.\<close>

definition field :: "nat \<Rightarrow> nat \<Rightarrow> bytes \<Rightarrow> bytes" where
  "field off n bs = take n (drop off bs)"

record wav_info =
  wi_riffSize :: u32
  wi_channels :: u16
  wi_rate :: u32
  wi_byteRate :: u32
  wi_blockAlign :: u16
  wi_dataSize :: u32

definition wav_parse :: "bytes \<Rightarrow> (wav_info \<times> bytes) option" where
  "wav_parse bs =
     (if length bs < 44 \<or> field 0 4 bs \<noteq> str_bytes ''RIFF'' \<or> field 8 4 bs \<noteq> str_bytes ''WAVE'' \<or>
         field 12 4 bs \<noteq> str_bytes ''fmt '' \<or> le_word (field 16 4 bs) \<noteq> (16 :: u32) \<or>
         le_word (field 20 2 bs) \<noteq> (1 :: u16) \<or> le_word (field 34 2 bs) \<noteq> (16 :: u16) \<or>
         field 36 4 bs \<noteq> str_bytes ''data''
      then None
      else Some (\<lparr>wi_riffSize = le_word (field 4 4 bs), wi_channels = le_word (field 22 2 bs),
                  wi_rate = le_word (field 24 4 bs), wi_byteRate = le_word (field 28 4 bs),
                  wi_blockAlign = le_word (field 32 2 bs), wi_dataSize = le_word (field 40 4 bs)\<rparr>,
                 drop 44 bs))"

section \<open>Lemmas\<close>

lemma samples_bytes_simps [simp]:
  "samples_bytes [] = []" "samples_bytes (s # ss) = le_bytes 2 s @ samples_bytes ss"
  "samples_bytes (ss @ ts) = samples_bytes ss @ samples_bytes ts"
  by (simp_all add: samples_bytes_def)

lemma length_samples_bytes [simp]: "length (samples_bytes ss) = 2 * length ss"
  by (induction ss) simp_all

lemma bytes_samples_round: "bytes_samples (samples_bytes ss) = ss"
proof (induction ss)
  case Nil
  then show ?case by simp
next
  case (Cons s ss)
  obtain a b where ab: "le_bytes 2 s = [a, b]"
    using length_le_bytes [of 2 s] by (metis (no_types) One_nat_def length_0_conv length_Suc_conv numeral_2_eq_2)
  have "le_word [a, b] = s" using le_word_le_bytes [of 2 s] ab by simp
  then show ?case using Cons ab by simp
qed

lemma length_wav_header [simp]: "length (writeWAVHeader r) = 44"
  by (simp add: writeWAVHeader_def)

text \<open>The header with its sizes filled in.\<close>

definition full_header :: "recorder \<Rightarrow> int \<Rightarrow> bytes" where
  "full_header r n =
     str_bytes ''RIFF'' @ le_bytes 4 (word_of_int (n + 36) :: u32) @ str_bytes ''WAVE'' @ str_bytes ''fmt '' @
     le_bytes 4 (16 :: u32) @ le_bytes 2 (1 :: u16) @ le_bytes 2 (word_of_int (wr_channels r) :: u16) @
     le_bytes 4 (word_of_int (wr_rate r) :: u32) @
     le_bytes 4 (word_of_int (wr_rate r * wr_channels r * 2) :: u32) @
     le_bytes 2 (word_of_int (wr_channels r * 2) :: u16) @ le_bytes 2 (16 :: u16) @
     str_bytes ''data'' @ le_bytes 4 (word_of_int n :: u32)"

lemma length_full_header [simp]: "length (full_header r n) = 44"
  by (simp add: full_header_def)

lemma patch_header:
  assumes "\<not> f_closed f" and "f_data f = writeWAVHeader r @ d"
  shows "patchWAVSizes n f = f\<lparr>f_data := full_header r n @ d\<rparr>"
proof -
  let ?f1 = "f\<lparr>f_data := take 4 (f_data f) @ le_bytes 4 (word_of_int (n + 36) :: u32) @ drop 8 (f_data f)\<rparr>"
  have "file_write_at (le_bytes 4 (word_of_int (n + 36) :: u32)) 4 f = (True, ?f1)"
    using assms by (subst file_write_at_inside) simp_all
  moreover have "file_write_at (le_bytes 4 (word_of_int n :: u32)) 40 ?f1 =
      (True, ?f1\<lparr>f_data := take 40 (f_data ?f1) @ le_bytes 4 (word_of_int n :: u32) @ drop 44 (f_data ?f1)\<rparr>)"
    using assms by (subst file_write_at_inside) simp_all
  ultimately show ?thesis
    using assms(2) by (simp add: patchWAVSizes_def writeWAVHeader_def full_header_def)
qed

lemma parse_full_header:
  "wav_parse (full_header r n @ d) =
     Some (\<lparr>wi_riffSize = word_of_int (n + 36), wi_channels = word_of_int (wr_channels r),
            wi_rate = word_of_int (wr_rate r), wi_byteRate = word_of_int (wr_rate r * wr_channels r * 2),
            wi_blockAlign = word_of_int (wr_channels r * 2), wi_dataSize = word_of_int n\<rparr>, d)"
  by (simp add: wav_parse_def field_def full_header_def le_word_le_bytes)

text \<open>A recording in progress: the header, then the samples so far.\<close>

definition recording :: "recorder \<Rightarrow> i16 list \<Rightarrow> nat \<Rightarrow> bool" where
  "recording r pcm room \<longleftrightarrow> \<not> wr_closed r \<and>
     (\<exists>f. wr_wavFile r = Some f \<and> file_takes room f \<and> f_data f = writeWAVHeader r @ samples_bytes pcm \<and>
       wr_bytes r = int (2 * length pcm))"

lemma OnPCM_recording:
  assumes "recording r pcm (2 * length (af_PCM f) + n)"
  shows "recording (wr_OnPCM (Some f) r) (pcm @ af_PCM f) n \<and>
    wr_channels (wr_OnPCM (Some f) r) = wr_channels r \<and> wr_rate (wr_OnPCM (Some f) r) = wr_rate r"
proof -
  from assms obtain fl where f: "wr_wavFile r = Some fl" "\<not> wr_closed r"
      "file_takes (length (samples_bytes (af_PCM f)) + n) fl"
      "f_data fl = writeWAVHeader r @ samples_bytes pcm" "wr_bytes r = int (2 * length pcm)"
    by (auto simp: recording_def)
  note w = file_write_snd [OF f(3)]
  obtain ok fl' where fw: "file_write (samples_bytes (af_PCM f)) fl = (ok, fl')" by force
  have "writeWAVHeader (r\<lparr>wr_wavFile := x, wr_bytes := y, wr_checksum := z\<rparr>) = writeWAVHeader r" for x y z
    by (simp add: writeWAVHeader_def)
  with f w fw show ?thesis
    by (simp add: wr_OnPCM_def wr_append_def recording_def Let_def)
qed

lemma frames_recording:
  assumes "recording r pcm (2 * length (concat (map af_PCM fs)) + n)"
  shows "recording (foldl (\<lambda>r f. wr_OnPCM (Some f) r) r fs) (pcm @ concat (map af_PCM fs)) n \<and>
    wr_channels (foldl (\<lambda>r f. wr_OnPCM (Some f) r) r fs) = wr_channels r \<and>
    wr_rate (foldl (\<lambda>r f. wr_OnPCM (Some f) r) r fs) = wr_rate r"
  using assms
proof (induction fs arbitrary: r pcm)
  case Nil
  then show ?case by simp
next
  case (Cons f fs)
  have "recording r pcm (2 * length (af_PCM f) + (2 * length (concat (map af_PCM fs)) + n))"
    using Cons.prems by (simp add: algebra_simps)
  note P = OnPCM_recording [OF this]
  from P Cons.IH [of "wr_OnPCM (Some f) r" "pcm @ af_PCM f"] show ?case by simp
qed

lemma Begin_recording:
  assumes "NewRecorder None ''wav'' dir base rate ch = Inr r0" and "wr_Begin join (Inr room) t0 r0 = (None, r1)"
    and "44 \<le> room"
  shows "recording r1 [] (room - 44) \<and> wr_channels r1 = ch \<and> wr_rate r1 = rate"
proof -
  have r0: "wr_wavFile r0 = None" "wr_channels r0 = ch" "wr_rate r0 = rate" "\<not> wr_closed r0" "wr_bytes r0 = 0"
    using assms(1) by (auto simp: NewRecorder_def)
  define r0' where "r0' = r0\<lparr>wr_startTime := t0\<rparr>"
  define f0 where "f0 = file_create (join [wr_dir r0, wr_base r0 @ ''.'' @ wr_format r0]) room"
  have r1: "r1 = r0'\<lparr>wr_wavFile := Some (snd (file_write (writeWAVHeader r0') f0))\<rparr>"
    using assms(2) r0(1) by (simp add: wr_Begin_def Let_def r0'_def f0_def)
  have "file_takes (length (writeWAVHeader r0') + (room - 44)) f0"
    using assms(3) by (simp add: file_takes_def f0_def file_create_def)
  note w = file_write_snd [OF this]
  have hd: "writeWAVHeader r1 = writeWAVHeader r0'" by (simp add: r1 writeWAVHeader_def)
  have "recording r1 [] (room - 44)"
    using w hd r0(4,5) by (simp add: recording_def r1) (simp add: r0'_def f0_def file_create_def)
  then show ?thesis using r0(2,3) by (simp add: r1 r0'_def)
qed

lemma Finalize_recording:
  assumes "recording r pcm k" and "wr_Finalize t r = ((uri, n, err), r')"
  shows "err = None \<and> n = 2 * int (length pcm) \<and> wr_closed r' \<and>
    (\<exists>fl. wr_wavFile r' = Some fl \<and> f_name fl = uri \<and> f_data fl = full_header r n @ samples_bytes pcm)"
proof -
  from assms(1) obtain f where f: "wr_wavFile r = Some f" "\<not> f_closed f" "\<not> wr_closed r"
      "f_data f = writeWAVHeader r @ samples_bytes pcm" "wr_bytes r = int (2 * length pcm)"
    by (auto simp: recording_def file_takes_def)
  from assms(2) f patch_header [OF f(2,4), of "wr_bytes r"] show ?thesis
    by (auto simp: wr_Finalize_def file_close_def Let_def)
qed

section \<open>Properties\<close>

text \<open>C27. A WAV recording reads back: when the disk has room, the finished file parses as 16-bit
  PCM with the recorder's rate and channels, its samples are exactly those of the frames received,
  in order, the reported byte count is the size of the data, and both size fields are right modulo
  \<open>2^32\<close>, hence exact below 4 GiB; the recorder then ignores further frames and refuses a
  second \<open>Finalize\<close>.\<close>

theorem wav_recording_reads_back:
  assumes "NewRecorder None ''wav'' dir base rate ch = Inr r0"
    and "wr_Begin join (Inr room) t0 r0 = (None, r1)"
    and "r2 = foldl (\<lambda>r f. wr_OnPCM (Some f) r) r1 fs"
    and "wr_Finalize t1 r2 = ((uri, n, err), r3)"
    and "44 + 2 * length (concat (map af_PCM fs)) \<le> room"
  shows "err = None \<and> n = 2 * int (length (concat (map af_PCM fs))) \<and>
    (\<exists>fl info. wr_wavFile r3 = Some fl \<and> f_name fl = uri \<and>
       wav_parse (f_data fl) = Some (info, samples_bytes (concat (map af_PCM fs))) \<and>
       bytes_samples (samples_bytes (concat (map af_PCM fs))) = concat (map af_PCM fs) \<and>
       wi_channels info = word_of_int ch \<and> wi_rate info = word_of_int rate \<and>
       uint (wi_dataSize info) = n mod 2 ^ 32 \<and> uint (wi_riffSize info) = (n + 36) mod 2 ^ 32) \<and>
    wr_OnPCM (Some f) r3 = r3 \<and> (snd (snd (fst (wr_Finalize t1 r3)))) \<noteq> None"
proof -
  let ?pcm = "concat (map af_PCM fs)"
  have "recording r1 [] (2 * length ?pcm + (room - 44 - 2 * length ?pcm)) \<and> wr_channels r1 = ch \<and> wr_rate r1 = rate"
    using Begin_recording [OF assms(1,2)] assms(5) by simp
  with frames_recording [of r1 "[]" fs "room - 44 - 2 * length ?pcm"] assms(3)
  have r2: "recording r2 ?pcm (room - 44 - 2 * length ?pcm)" "wr_channels r2 = ch" "wr_rate r2 = rate"
    by simp_all
  note F = Finalize_recording [OF r2(1) assms(4)]
  have u: "uint (word_of_int k :: u32) = k mod 2 ^ 32" for k
    by (simp add: unsigned_of_int take_bit_eq_mod)
  let ?info = "\<lparr>wi_riffSize = word_of_int (n + 36), wi_channels = word_of_int ch,
      wi_rate = word_of_int rate, wi_byteRate = word_of_int (rate * ch * 2),
      wi_blockAlign = word_of_int (ch * 2), wi_dataSize = word_of_int n\<rparr>"
  from F obtain fl where fl: "wr_wavFile r3 = Some fl" "f_name fl = uri"
      "f_data fl = full_header r2 n @ samples_bytes ?pcm" by blast
  have "wav_parse (f_data fl) = Some (?info, samples_bytes ?pcm)"
    unfolding fl(3) parse_full_header using r2(2,3) by simp
  then have "\<exists>fl info. wr_wavFile r3 = Some fl \<and> f_name fl = uri \<and>
       wav_parse (f_data fl) = Some (info, samples_bytes ?pcm) \<and>
       bytes_samples (samples_bytes ?pcm) = ?pcm \<and>
       wi_channels info = word_of_int ch \<and> wi_rate info = word_of_int rate \<and>
       uint (wi_dataSize info) = n mod 2 ^ 32 \<and> uint (wi_riffSize info) = (n + 36) mod 2 ^ 32"
    using fl(1,2) by (intro exI [of _ fl] exI [of _ ?info]) (simp only: wav_info.simps u bytes_samples_round simp_thms)
  moreover have "n = 2 * int (length ?pcm)" "err = None" using F by simp_all
  moreover have "wr_OnPCM (Some f) r3 = r3" "snd (snd (fst (wr_Finalize t1 r3))) \<noteq> None"
    using F by (auto simp: wr_OnPCM_def wr_Finalize_def)
  ultimately show ?thesis by blast
qed

theorem wav_recording_reads_back_witness:
  "\<exists>uri n r3. wr_Finalize 9 (wr_OnPCM (Some ((NewFrame ''s'' 0)\<lparr>af_PCM := [1, 2]\<rparr>))
      (snd (wr_Begin concat (Inr 100) 5 \<lparr>wr_format = ''wav'', wr_channels = 2, wr_rate = 48000,
         wr_dir = ''d/'', wr_base = ''b'', wr_startTime = time_zero, wr_bytes = 0, wr_closed = False,
         wr_wavFile = None, wr_checksum = 0\<rparr>))) = ((uri, n, None), r3) \<and> n = 4"
proof -
  let ?r0 = "\<lparr>wr_format = ''wav'', wr_channels = 2, wr_rate = 48000,
         wr_dir = ''d/'', wr_base = ''b'', wr_startTime = time_zero, wr_bytes = 0, wr_closed = False,
         wr_wavFile = None, wr_checksum = 0\<rparr>"
  let ?f = "(NewFrame ''s'' 0)\<lparr>af_PCM := [1, 2]\<rparr>"
  have new: "NewRecorder None ''wav'' ''d/'' ''b'' 48000 2 = Inr ?r0" by (simp add: NewRecorder_def)
  obtain r1 where r1: "wr_Begin concat (Inr 100) 5 ?r0 = (None, r1)"
    by (simp add: wr_Begin_def Let_def)
  obtain uri n err r3 where fin: "wr_Finalize 9 (wr_OnPCM (Some ?f) r1) = ((uri, n, err), r3)"
    by (metis prod_cases4 prod_cases3 surj_pair)
  from wav_recording_reads_back [OF new r1 _ fin, of "[?f]"] fin r1 show ?thesis by simp
qed

end
