(* ===== verification/Flac_Recorder.thy ===== *)
theory Flac_Recorder
  imports Pcm_Bus
begin

text \<open>
  \<open>internal/audio/flac.go\<close>: the FLAC recorder, which collects samples into blocks for the
  encoder. The encoder is third-party: \<open>encw\<close> writes a frame in a state of the encoder and says
  whether it succeeded, \<open>encc\<close> closes it. \<open>None\<close> stands for a panic of the recorder (an index
  out of range) and for a loop that never ends.
\<close>

type_synonym i32 = "32 word"

record flac_frame =
  ff_HasFixedBlockSize :: bool
  ff_BlockSize :: u16
  ff_SampleRate :: u32
  ff_Channels :: byte
  ff_BitsPerSample :: byte
  ff_Num :: u64
  ff_Subframes :: "i32 list list"

record 'e flac_recorder =
  fl_channels :: nat
  fl_rate :: int
  fl_blockSize :: nat
  fl_buf :: "i16 list"
  fl_enc :: 'e
  fl_name :: string
  fl_startTime :: time
  fl_bytes :: int
  fl_closed :: bool
  fl_nBlock :: u64

definition NewFlacRecorder ::
  "goerr option \<Rightarrow> goerr option \<Rightarrow> goerr + 'e \<Rightarrow> string \<Rightarrow> int \<Rightarrow> nat \<Rightarrow> nat \<Rightarrow> goerr + 'e flac_recorder" where
  "NewFlacRecorder mkdir create newEncoder path rate channels blockSize =
     (case mkdir of
        Some e \<Rightarrow> Inl e
      | None \<Rightarrow>
        (case create of
           Some e \<Rightarrow> Inl e
         | None \<Rightarrow>
           (case newEncoder of
              Inl e \<Rightarrow> Inl e
            | Inr enc \<Rightarrow>
                Inr \<lparr>fl_channels = channels, fl_rate = rate, fl_blockSize = blockSize, fl_buf = [],
                     fl_enc = enc, fl_name = path, fl_startTime = time_zero, fl_bytes = 0,
                     fl_closed = False, fl_nBlock = 0\<rparr>)))"

definition fl_Begin :: "time \<Rightarrow> 'e flac_recorder \<Rightarrow> goerr option \<times> 'e flac_recorder" where
  "fl_Begin start r = (None, r\<lparr>fl_startTime := start\<rparr>)"

type_synonym 'e frame_writer = "'e \<Rightarrow> flac_frame \<Rightarrow> bool \<times> 'e"

definition deinterleave :: "nat \<Rightarrow> nat \<Rightarrow> i16 list \<Rightarrow> i32 list list" where
  "deinterleave blockSize channels pcm =
     map (\<lambda>c. map (\<lambda>i. scast (pcm ! (i * channels + c))) [0..<blockSize]) [0..<channels]"

definition fl_frame :: "i16 list \<Rightarrow> 'e flac_recorder \<Rightarrow> flac_frame" where
  "fl_frame pcm r =
     \<lparr>ff_HasFixedBlockSize = True, ff_BlockSize = word_of_nat (fl_blockSize r),
      ff_SampleRate = word_of_int (fl_rate r), ff_Channels = word_of_int (int (fl_channels r) - 1),
      ff_BitsPerSample = 16, ff_Num = fl_nBlock r,
      ff_Subframes = deinterleave (fl_blockSize r) (fl_channels r) pcm\<rparr>"

definition writeBlock :: "'e frame_writer \<Rightarrow> i16 list \<Rightarrow> 'e flac_recorder \<Rightarrow> 'e flac_recorder option" where
  "writeBlock encw pcm r0 =
     (if length pcm < fl_blockSize r0 * fl_channels r0 then None
      else
        (let r = r0\<lparr>fl_nBlock := fl_nBlock r0 + 1\<rparr>
         in case encw (fl_enc r) (fl_frame pcm r) of
              (ok, enc) \<Rightarrow>
                Some (r\<lparr>fl_enc := enc,
                        fl_bytes := fl_bytes r + (if ok then int (fl_blockSize r * fl_channels r * 2) else 0)\<rparr>)))"

partial_function (option) blocks_loop ::
  "'e frame_writer \<Rightarrow> 'e flac_recorder \<Rightarrow> 'e flac_recorder option" where
  "blocks_loop encw r =
     (let n = fl_blockSize r * fl_channels r
      in if length (fl_buf r) < n then Some r
         else Option.bind (writeBlock encw (take n (fl_buf r)) r)
                (\<lambda>r'. blocks_loop encw (r'\<lparr>fl_buf := drop n (fl_buf r')\<rparr>)))"

definition fl_OnPCM ::
  "'e frame_writer \<Rightarrow> decoded_audio_frame option \<Rightarrow> 'e flac_recorder \<Rightarrow> 'e flac_recorder option" where
  "fl_OnPCM encw f r =
     (case f of
        None \<Rightarrow> Some r
      | Some fr \<Rightarrow>
          if fl_closed r then Some r else blocks_loop encw (r\<lparr>fl_buf := fl_buf r @ af_PCM fr\<rparr>))"

definition fl_Bytes :: "'e flac_recorder \<Rightarrow> int" where
  "fl_Bytes r = fl_bytes r"

definition fl_Finalize ::
  "'e frame_writer \<Rightarrow> ('e \<Rightarrow> goerr option) \<Rightarrow> 'e flac_recorder \<Rightarrow>
     ((string \<times> int \<times> goerr option) \<times> 'e flac_recorder) option" where
  "fl_Finalize encw encc r0 =
     (if fl_closed r0 then Some (('''', 0, Some (Errorf ''flac: already finalized'')), r0)
      else
        (let r = r0\<lparr>fl_closed := True\<rparr>;
             flushed = (if length (fl_buf r) > 0
                        then map_option (\<lambda>r'. r'\<lparr>fl_buf := []\<rparr>) (writeBlock encw (fl_buf r) r)
                        else Some r)
         in case flushed of
              None \<Rightarrow> None
            | Some r1 \<Rightarrow> Some ((fl_name r1, fl_bytes r1, encc (fl_enc r1)), r1)))"

section \<open>Lemmas\<close>

definition interleave :: "flac_frame \<Rightarrow> nat \<Rightarrow> i16 list" where
  "interleave fr n = concat (map (\<lambda>i. map (\<lambda>ch. ucast (ch ! i)) (ff_Subframes fr)) [0..<n])"

lemma ucast_scast_i16 [simp]: "(ucast (scast (x :: i16) :: i32) :: i16) = x"
  by (rule bit_word_eqI) (auto simp: bit_simps)

lemma row_take: "n * ch + ch \<le> length pcm \<Longrightarrow>
    map (\<lambda>c. pcm ! (n * ch + c)) [0..<ch] = take ch (drop (n * ch) pcm)"
  by (rule nth_equalityI) simp_all

lemma rows_take:
  "n * ch \<le> length pcm \<Longrightarrow>
    concat (map (\<lambda>i. map (\<lambda>c. pcm ! (i * ch + c)) [0..<ch]) [0..<n]) = take (n * ch) pcm"
proof (induction n)
  case 0
  then show ?case by simp
next
  case (Suc n)
  then have "n * ch + ch \<le> length pcm" by simp
  with Suc row_take [OF this] show ?case by (simp add: take_add [symmetric] add.commute)
qed

lemma interleave_frame:
  assumes "length pcm = fl_blockSize r * fl_channels r"
  shows "interleave (fl_frame pcm r) (fl_blockSize r) = pcm"
proof -
  have "interleave (fl_frame pcm r) (fl_blockSize r) =
      concat (map (\<lambda>i. map (\<lambda>c. pcm ! (i * fl_channels r + c)) [0..<fl_channels r]) [0..<fl_blockSize r])"
    unfolding interleave_def fl_frame_def deinterleave_def
    by (auto intro!: arg_cong [where f = concat] map_cong)
  with assms rows_take show ?thesis by (metis order_refl take_all_iff)
qed

text \<open>The frames handed to the encoder carry the block's samples.\<close>

definition encoded :: "'e frame_writer \<Rightarrow> 'e \<Rightarrow> flac_frame list \<Rightarrow> 'e" where
  "encoded encw e frs = foldl (\<lambda>e fr. snd (encw e fr)) e frs"

lemma writeBlock_ok:
  assumes "length pcm = fl_blockSize r * fl_channels r"
  shows "\<exists>r' fr. writeBlock encw pcm r = Some r' \<and> fl_enc r' = snd (encw (fl_enc r) fr) \<and>
    interleave fr (fl_blockSize r) = pcm \<and> length (ff_Subframes fr) = fl_channels r \<and>
    fl_buf r' = fl_buf r \<and> fl_blockSize r' = fl_blockSize r \<and> fl_channels r' = fl_channels r \<and>
    fl_closed r' = fl_closed r"
proof -
  let ?r = "r\<lparr>fl_nBlock := fl_nBlock r + 1\<rparr>"
  have "interleave (fl_frame pcm ?r) (fl_blockSize r) = pcm"
    using interleave_frame [of pcm ?r] assms by simp
  moreover have "length (ff_Subframes (fl_frame pcm ?r)) = fl_channels r"
    by (simp add: fl_frame_def deinterleave_def)
  ultimately show ?thesis
    using assms by (auto simp: writeBlock_def Let_def split: prod.split intro!: exI [of _ "fl_frame pcm ?r"])
qed

lemma blocks_loop_ok:
  assumes "0 < fl_blockSize r * fl_channels r"
  shows "\<exists>r' frs. blocks_loop encw r = Some r' \<and> fl_enc r' = encoded encw (fl_enc r) frs \<and>
    fl_buf r = concat (map (\<lambda>fr. interleave fr (fl_blockSize r)) frs) @ fl_buf r' \<and>
    (\<forall>fr\<in>set frs. length (ff_Subframes fr) = fl_channels r) \<and>
    length (fl_buf r') < fl_blockSize r * fl_channels r \<and>
    fl_blockSize r' = fl_blockSize r \<and> fl_channels r' = fl_channels r \<and> fl_closed r' = fl_closed r"
  using assms
proof (induction "length (fl_buf r)" arbitrary: r rule: less_induct)
  case less
  let ?n = "fl_blockSize r * fl_channels r"
  show ?case
  proof (cases "length (fl_buf r) < ?n")
    case True
    then have "blocks_loop encw r = Some r" by (subst blocks_loop.simps) (simp add: Let_def)
    with True show ?thesis by (intro exI [of _ r] exI [of _ "[]"]) (simp add: encoded_def)
  next
    case False
    then have "length (take ?n (fl_buf r)) = ?n" by simp
    from writeBlock_ok [OF this, of encw] obtain r1 fr where W:
        "writeBlock encw (take ?n (fl_buf r)) r = Some r1" "fl_enc r1 = snd (encw (fl_enc r) fr)"
        "interleave fr (fl_blockSize r) = take ?n (fl_buf r)" "length (ff_Subframes fr) = fl_channels r"
        "fl_buf r1 = fl_buf r" "fl_blockSize r1 = fl_blockSize r" "fl_channels r1 = fl_channels r"
        "fl_closed r1 = fl_closed r"
      by blast
    let ?r = "r1\<lparr>fl_buf := drop ?n (fl_buf r)\<rparr>"
    have eq: "blocks_loop encw r = blocks_loop encw ?r"
      using False W(1,5) by (subst blocks_loop.simps) (simp add: Let_def)
    have "?n \<le> length (fl_buf r)" "0 < ?n" using False less.prems by simp_all
    then have "length (fl_buf ?r) < length (fl_buf r)" by (simp add: diff_less del: nat_0_less_mult_iff)
    from less.hyps [OF this] less.prems W(6,7) obtain r' frs where I: "blocks_loop encw ?r = Some r'"
        "fl_enc r' = encoded encw (fl_enc r1) frs"
        "drop ?n (fl_buf r) = concat (map (\<lambda>fr. interleave fr (fl_blockSize r)) frs) @ fl_buf r'"
        "\<forall>fr\<in>set frs. length (ff_Subframes fr) = fl_channels r"
        "length (fl_buf r') < ?n" "fl_blockSize r' = fl_blockSize r" "fl_channels r' = fl_channels r"
        "fl_closed r' = fl_closed r1"
      by auto
    have "fl_buf r = concat (map (\<lambda>fr. interleave fr (fl_blockSize r)) (fr # frs)) @ fl_buf r'"
      using W(3) I(3) append_take_drop_id [of ?n "fl_buf r"] by simp
    moreover have "fl_enc r' = encoded encw (fl_enc r) (fr # frs)" using I(2) W(2) by (simp add: encoded_def)
    moreover have "\<forall>g\<in>set (fr # frs). length (ff_Subframes g) = fl_channels r" using I(4) W(4) by simp
    ultimately show ?thesis using eq I(1,5-8) W(8) by metis
  qed
qed

section \<open>Properties\<close>

text \<open>With a positive block size the recorder always returns from \<open>OnPCM\<close>: the frames it
  hands to the encoder, interleaved again, are the samples buffered and received, in order, up to a
  remainder of less than a block; and \<open>Finalize\<close> panics exactly when there is such a remainder,
  because it encodes it as a full block.\<close>

theorem flac_blocks_and_final_panic:
  assumes "0 < fl_blockSize r" and "0 < fl_channels r" and "\<not> fl_closed r"
  shows "\<exists>r' frs. fl_OnPCM encw (Some f) r = Some r' \<and> fl_enc r' = encoded encw (fl_enc r) frs \<and>
    fl_buf r @ af_PCM f = concat (map (\<lambda>fr. interleave fr (fl_blockSize r)) frs) @ fl_buf r' \<and>
    length (fl_buf r') < fl_blockSize r * fl_channels r \<and>
    (fl_Finalize encw encc r' = None \<longleftrightarrow> fl_buf r' \<noteq> [])"
proof -
  let ?r = "r\<lparr>fl_buf := fl_buf r @ af_PCM f\<rparr>"
  have "0 < fl_blockSize ?r * fl_channels ?r" using assms by simp
  from blocks_loop_ok [OF this, of encw] obtain r' frs where B: "blocks_loop encw ?r = Some r'"
      "fl_enc r' = encoded encw (fl_enc r) frs"
      "fl_buf r @ af_PCM f = concat (map (\<lambda>fr. interleave fr (fl_blockSize r)) frs) @ fl_buf r'"
      "length (fl_buf r') < fl_blockSize r * fl_channels r"
      "fl_blockSize r' = fl_blockSize r" "fl_channels r' = fl_channels r" "fl_closed r' = fl_closed r"
    by auto
  have "fl_Finalize encw encc r' = None \<longleftrightarrow> fl_buf r' \<noteq> []"
    using B(4-7) assms(3) by (auto simp: fl_Finalize_def writeBlock_def Let_def)
  moreover have "fl_OnPCM encw (Some f) r = Some r'"
    using B(1) assms(3) by (simp add: fl_OnPCM_def)
  ultimately show ?thesis
    using B(2-4) by (intro exI [of _ r'] exI [of _ frs] conjI)
qed

definition demo_flac :: "flac_frame list flac_recorder" where
  "demo_flac = \<lparr>fl_channels = 2, fl_rate = 48000, fl_blockSize = 2, fl_buf = [], fl_enc = [],
     fl_name = ''a.flac'', fl_startTime = 0, fl_bytes = 0, fl_closed = False, fl_nBlock = 0\<rparr>"

theorem flac_blocks_and_final_panic_witness:
  "\<exists>r' frs. fl_OnPCM (\<lambda>e fr. (True, e @ [fr])) (Some ((NewFrame ''s'' 0)\<lparr>af_PCM := [1, 2, 3, 4, 5, 6]\<rparr>))
       demo_flac = Some r' \<and>
     [1, 2, 3, 4, 5, 6] = concat (map (\<lambda>fr. interleave fr 2) frs) @ fl_buf r'"
proof -
  from flac_blocks_and_final_panic [of demo_flac "\<lambda>e fr. (True, e @ [fr])"
      "(NewFrame ''s'' 0)\<lparr>af_PCM := [1, 2, 3, 4, 5, 6]\<rparr>" "\<lambda>_. None"]
  show ?thesis by (auto simp: demo_flac_def)
qed

end
