(* ===== verification/Opus_Recorder.thy ===== *)
theory Opus_Recorder
  imports Recording_File "HOL-Library.Sublist"
begin

text \<open>
  \<open>internal/audio/opus_recorder.go\<close>: the Ogg/Opus recorder. \<open>WritePacket\<close> queues a packet
  on a channel of 256; a goroutine takes them off and appends one Ogg page each; \<open>Finalize\<close>
  closes the channel, waits for the goroutine, and ends the file.
\<close>

section \<open>State\<close>

type_synonym i64 = "64 word"

record opus_packet =
  op_ts :: u32
  op_payload :: bytes

record opus_recorder =
  or_serial :: u32
  or_seq :: u32
  or_preskip :: u16
  or_channels :: int
  or_rate :: int
  or_prevGP :: i64
  or_seen :: nat
  or_written :: nat
  or_f :: os_file
  or_startTime :: time
  or_bytes :: int
  or_closed :: bool
  or_ch :: "opus_packet list"
  or_chClosed :: bool

definition ch_cap :: nat where
  "ch_cap = 256"

definition warmupSkip :: nat where
  "warmupSkip = 2"

section \<open>Ogg pages\<close>

fun crc_bits :: "nat \<Rightarrow> u32 \<Rightarrow> u32" where
  "crc_bits 0 c = c"
| "crc_bits (Suc n) c =
     crc_bits n (if c AND 0x80000000 \<noteq> 0 then push_bit 1 c XOR 0x04C11DB7 else push_bit 1 c)"

definition oggCRC :: "bytes \<Rightarrow> u32" where
  "oggCRC data = foldl (\<lambda>c b. crc_bits 8 (c XOR push_bit 24 (ucast b))) 0 data"

text \<open>The segment table loop: \<open>n\<close> entries for the \<open>remaining\<close> bytes.\<close>

fun segTable :: "nat \<Rightarrow> nat \<Rightarrow> bytes" where
  "segTable 0 remaining = []"
| "segTable (Suc n) remaining =
     (if remaining \<ge> 255 then 255 # segTable n (remaining - 255)
      else word_of_nat remaining # segTable n 0)"

definition ogg_header :: "byte \<Rightarrow> i64 \<Rightarrow> u32 \<Rightarrow> u32 \<Rightarrow> u32 \<Rightarrow> byte \<Rightarrow> bytes" where
  "ogg_header htype granulepos serial sq crc nseg =
     str_bytes ''OggS'' @ [0, htype] @ le_bytes 8 granulepos @ le_bytes 4 serial @ le_bytes 4 sq @
     le_bytes 4 crc @ [nseg]"

text \<open>A page is built with a zero checksum, and the checksum of that is put in its place.\<close>

definition checked_page :: "(u32 \<Rightarrow> bytes) \<Rightarrow> bytes" where
  "checked_page mk = mk (oggCRC (mk 0))"

definition data_page :: "byte \<Rightarrow> i64 \<Rightarrow> opus_recorder \<Rightarrow> bytes \<Rightarrow> bytes" where
  "data_page htype granulepos r data =
     (let nseg = length data div 255 + 1
      in checked_page (\<lambda>crc. ogg_header htype granulepos (or_serial r) (or_seq r) crc (word_of_nat nseg) @
           segTable nseg (length data) @ data))"

definition emit_page :: "bytes \<Rightarrow> opus_recorder \<Rightarrow> opus_recorder" where
  "emit_page page r =
     r\<lparr>or_f := snd (file_write page (or_f r)), or_seq := or_seq r + 1,
       or_bytes := or_bytes r + int (length page)\<rparr>"

definition writePage :: "i64 \<Rightarrow> bytes \<Rightarrow> opus_recorder \<Rightarrow> opus_recorder" where
  "writePage granulepos data r = emit_page (data_page 0 granulepos r data) r"

definition buildBOSPage :: "i64 \<Rightarrow> bytes \<Rightarrow> opus_recorder \<Rightarrow> bytes" where
  "buildBOSPage granulepos data r = data_page 2 granulepos r data"

definition opus_head :: "opus_recorder \<Rightarrow> bytes" where
  "opus_head r =
     str_bytes ''OpusHead'' @ [1, word_of_int (or_channels r)] @ le_bytes 2 (or_preskip r) @
     le_bytes 4 (word_of_int (or_rate r) :: u32) @ le_bytes 2 (0 :: u16) @ [0]"

definition writeOpusHead :: "opus_recorder \<Rightarrow> opus_recorder" where
  "writeOpusHead r = emit_page (buildBOSPage 0 (opus_head r) r) r"

definition opus_tags :: bytes where
  "opus_tags = str_bytes ''OpusTags'' @ le_bytes 4 (word_of_nat (length ''espmic'') :: u32) @
     str_bytes ''espmic'' @ le_bytes 4 (0 :: u32)"

definition writeOpusTags :: "opus_recorder \<Rightarrow> opus_recorder" where
  "writeOpusTags r = writePage 0 opus_tags r"

definition eos_page :: "i64 \<Rightarrow> opus_recorder \<Rightarrow> bytes" where
  "eos_page granulepos r =
     checked_page (\<lambda>crc. ogg_header 4 granulepos (or_serial r) (or_seq r) crc 0)"

definition writeEOSPage :: "i64 \<Rightarrow> opus_recorder \<Rightarrow> opus_recorder" where
  "writeEOSPage granulepos r = emit_page (eos_page granulepos r) r"

section \<open>Operations\<close>

definition NewOpusRecorder ::
  "goerr option \<Rightarrow> goerr + nat \<Rightarrow> time \<Rightarrow> string \<Rightarrow> string \<Rightarrow> int \<Rightarrow> int \<Rightarrow> u16 \<Rightarrow> goerr + opus_recorder" where
  "NewOpusRecorder mkdir create now dir base rate channels preskip =
     (case mkdir of
        Some e \<Rightarrow> Inl e
      | None \<Rightarrow>
        (case create of
           Inl e \<Rightarrow> Inl e
         | Inr room \<Rightarrow>
             Inr (writeOpusTags (writeOpusHead
               \<lparr>or_serial = word_of_int now, or_seq = 0, or_preskip = preskip, or_channels = channels,
                or_rate = rate, or_prevGP = 0, or_seen = 0, or_written = 0,
                or_f = file_create (dir @ ''/'' @ base @ ''.opus'') room, or_startTime = now,
                or_bytes = 0, or_closed = False, or_ch = [], or_chClosed = False\<rparr>))))"

definition writePageForPacket :: "opus_packet \<Rightarrow> opus_recorder \<Rightarrow> opus_recorder" where
  "writePageForPacket pkt r0 =
     (let r = r0\<lparr>or_seen := Suc (or_seen r0)\<rparr>
      in if or_seen r \<le> warmupSkip then r
         else
           (let r1 = r\<lparr>or_written := Suc (or_written r)\<rparr>;
                gp = (if or_written r1 = 1 then ucast (or_preskip r1)
                      else or_prevGP r1 + word_of_int (quot (or_rate r1) 50))
            in writePage gp (op_payload pkt) (r1\<lparr>or_prevGP := gp\<rparr>)))"

text \<open>One pass of the writer goroutine: it takes the head of the channel.\<close>

definition writer_step :: "opus_recorder \<Rightarrow> opus_recorder" where
  "writer_step r =
     (case or_ch r of
        [] \<Rightarrow> r
      | pkt # rest \<Rightarrow> writePageForPacket pkt (r\<lparr>or_ch := rest\<rparr>))"

text \<open>The goroutine until the channel is empty.\<close>

fun writer_drain :: "opus_packet list \<Rightarrow> opus_recorder \<Rightarrow> opus_recorder" where
  "writer_drain [] r = r"
| "writer_drain (pkt # rest) r = writer_drain rest (writePageForPacket pkt (r\<lparr>or_ch := rest\<rparr>))"

text \<open>\<open>WritePacket\<close> looks at \<open>closed\<close> under the lock and sends after releasing it;
  \<open>between\<close> is what the other goroutines do in that gap. Sending on a closed channel panics:
  \<open>None\<close>.\<close>

definition WritePacket ::
  "(opus_recorder \<Rightarrow> opus_recorder) \<Rightarrow> u32 \<Rightarrow> bytes \<Rightarrow> opus_recorder \<Rightarrow> opus_recorder option" where
  "WritePacket between rtpTS payload r0 =
     (if or_closed r0 then Some r0
      else
        (let r = between r0
         in if or_chClosed r then None
            else if length (or_ch r) < ch_cap
              then Some (r\<lparr>or_ch := or_ch r @ [\<lparr>op_ts = rtpTS, op_payload = payload\<rparr>]\<rparr>)
              else Some r))"

definition finalize_begin :: "opus_recorder \<Rightarrow> opus_recorder" where
  "finalize_begin r = r\<lparr>or_closed := True, or_chClosed := True\<rparr>"

definition or_Finalize :: "time \<Rightarrow> opus_recorder \<Rightarrow> (string \<times> int \<times> goerr option) \<times> opus_recorder" where
  "or_Finalize end r0 =
     (if or_closed r0 then (('''', 0, Some (Errorf ''opus: already finalized'')), r0)
      else
        (let r = writer_drain (or_ch r0) (finalize_begin r0);
             uri = f_name (or_f r);
             r1 = writeEOSPage (or_prevGP r) r
         in case file_close (or_f r1) of
              (err, f) \<Rightarrow> ((uri, or_bytes r1, err), r1\<lparr>or_f := f\<rparr>)))"

section \<open>Reading pages back\<close>

record ogg_page =
  pg_type :: byte
  pg_granulepos :: i64
  pg_serial :: u32
  pg_seq :: u32
  pg_data :: bytes

definition page_bytes :: "ogg_page \<Rightarrow> bytes" where
  "page_bytes p =
     (let nseg = (if pg_type p = 4 then 0 else length (pg_data p) div 255 + 1)
      in checked_page (\<lambda>crc. ogg_header (pg_type p) (pg_granulepos p) (pg_serial p) (pg_seq p) crc
           (word_of_nat nseg) @ segTable nseg (length (pg_data p)) @ pg_data p))"

definition page_ok :: "ogg_page \<Rightarrow> bool" where
  "page_ok p \<longleftrightarrow> length (pg_data p) < 65025 \<and> (pg_type p = 4 \<longrightarrow> pg_data p = [])"

text \<open>A reader of one page: capture pattern, version, segment table, checksum.\<close>

definition read_page :: "bytes \<Rightarrow> (ogg_page \<times> bytes) option" where
  "read_page bs =
     (if length bs < 27 \<or> take 4 bs \<noteq> str_bytes ''OggS'' \<or> bs ! 4 \<noteq> 0 then None
      else
        (let nseg = unat (bs ! 26);
             table = take nseg (drop 27 bs);
             n = sum_list (map unat table);
             data = take n (drop (27 + nseg) bs);
             zeroed = take 22 bs @ [0, 0, 0, 0] @ [bs ! 26] @ table @ data
         in if length bs < 27 + nseg + n \<or> le_word (take 4 (drop 22 bs)) \<noteq> oggCRC zeroed then None
            else Some (\<lparr>pg_type = bs ! 5, pg_granulepos = le_word (take 8 (drop 6 bs)),
                        pg_serial = le_word (take 4 (drop 14 bs)), pg_seq = le_word (take 4 (drop 18 bs)),
                        pg_data = data\<rparr>, drop (27 + nseg + n) bs)))"

lemma length_segTable [simp]: "length (segTable n k) = n"
  by (induction n k rule: segTable.induct) auto

lemma segTable_zero: "sum_list (map unat (segTable n 0)) = 0"
  by (induction n) auto

lemma sum_segTable: "k < 255 * n \<Longrightarrow> sum_list (map unat (segTable n k)) = k"
proof (induction n k rule: segTable.induct)
  case (1 k)
  then show ?case by simp
next
  case (2 n k)
  show ?case
  proof (cases "k \<ge> 255")
    case True
    with 2 show ?thesis by simp
  next
    case False
    then have "unat (word_of_nat k :: byte) = k" by (simp add: unsigned_of_nat take_bit_nat_eq_self)
    with False show ?thesis by (simp add: segTable_zero)
  qed
qed

lemma length_ogg_header [simp]: "length (ogg_header h g s q c n) = 27"
  by (simp add: ogg_header_def)

lemma header_fields:
  "take 4 (ogg_header h g s q c n @ rest) = str_bytes ''OggS''"
  "(ogg_header h g s q c n @ rest) ! 4 = 0"
  "(ogg_header h g s q c n @ rest) ! 5 = h"
  "take 8 (drop 6 (ogg_header h g s q c n @ rest)) = le_bytes 8 g"
  "take 4 (drop 14 (ogg_header h g s q c n @ rest)) = le_bytes 4 s"
  "take 4 (drop 18 (ogg_header h g s q c n @ rest)) = le_bytes 4 q"
  "take 4 (drop 22 (ogg_header h g s q c n @ rest)) = le_bytes 4 c"
  "(ogg_header h g s q c n @ rest) ! 26 = n"
  by (simp_all add: ogg_header_def nth_append)

lemma header_zeroed:
  "take 22 (ogg_header h g s q c n @ rest) @ [0, 0, 0, 0] @ [n] = ogg_header h g s q 0 n"
  by (simp add: ogg_header_def le_bytes_def numeral_eq_Suc)

lemma read_page_round:
  assumes "page_ok p"
  shows "read_page (page_bytes p @ rest) = Some (p, rest)"
proof -
  define nseg where "nseg = (if pg_type p = 4 then 0 else length (pg_data p) div 255 + 1)"
  have ns: "nseg \<le> 255" "length (pg_data p) < 255 * nseg \<or> nseg = 0 \<and> pg_data p = []"
    using assms by (auto simp: nseg_def page_ok_def)
  have un: "unat (word_of_nat nseg :: byte) = nseg"
    using ns(1) by (simp add: unsigned_of_nat take_bit_nat_eq_self)
  have sum: "sum_list (map unat (segTable nseg (length (pg_data p)))) = length (pg_data p)"
    using ns(2) sum_segTable by auto
  define mk where "mk crc = ogg_header (pg_type p) (pg_granulepos p) (pg_serial p) (pg_seq p) crc
      (word_of_nat nseg) @ segTable nseg (length (pg_data p)) @ pg_data p" for crc
  have pb: "page_bytes p = mk (oggCRC (mk 0))"
    by (simp add: page_bytes_def checked_page_def Let_def nseg_def mk_def)
  have z: "take 22 (mk crc @ rest) @ [0, 0, 0, 0] @ [word_of_nat nseg] @
      segTable nseg (length (pg_data p)) @ pg_data p = mk 0" for crc
    using header_zeroed [of "pg_type p" "pg_granulepos p" "pg_serial p" "pg_seq p" crc "word_of_nat nseg"
        "segTable nseg (length (pg_data p)) @ pg_data p @ rest"]
    by (simp add: mk_def)
  have tb: "take nseg (drop 27 (mk crc @ rest)) = segTable nseg (length (pg_data p))"
    "take (length (pg_data p)) (drop (27 + nseg) (mk crc @ rest)) = pg_data p"
    "drop (27 + nseg + length (pg_data p)) (mk crc @ rest) = rest"
    "length (mk crc @ rest) = 27 + nseg + length (pg_data p) + length rest" for crc
    by (simp_all add: mk_def)
  have hf: "take 4 (mk crc @ rest) = str_bytes ''OggS''" "(mk crc @ rest) ! 4 = 0"
    "(mk crc @ rest) ! 5 = pg_type p" "take 8 (drop 6 (mk crc @ rest)) = le_bytes 8 (pg_granulepos p)"
    "take 4 (drop 14 (mk crc @ rest)) = le_bytes 4 (pg_serial p)"
    "take 4 (drop 18 (mk crc @ rest)) = le_bytes 4 (pg_seq p)"
    "take 4 (drop 22 (mk crc @ rest)) = le_bytes 4 crc" "(mk crc @ rest) ! 26 = word_of_nat nseg" for crc
    unfolding mk_def append_assoc by (rule header_fields)+
  show ?thesis
    unfolding pb read_page_def Let_def hf un tb sum z by (simp add: le_word_le_bytes)
qed

lemma page_bytes_not_Nil: "27 \<le> length (page_bytes p)"
  by (simp add: page_bytes_def checked_page_def Let_def)

interpretation ogg_pages: self_delimiting page_bytes read_page page_ok
proof
  show "page_ok a \<Longrightarrow> read_page (page_bytes a @ rest) = Some (a, rest)" for a rest
    by (rule read_page_round)
  show "read_page [] = None" by (simp add: read_page_def)
  show "read_page bs = Some (a, rest) \<Longrightarrow> length rest < length bs" for bs a rest
    by (auto simp: read_page_def Let_def split: if_splits)
qed

definition read_pages :: "nat \<Rightarrow> bytes \<Rightarrow> ogg_page list \<times> bytes" where
  "read_pages n bs = ogg_pages.dec_all n bs"

section \<open>What is on disk\<close>

definition page_for :: "byte \<Rightarrow> i64 \<Rightarrow> opus_recorder \<Rightarrow> bytes \<Rightarrow> ogg_page" where
  "page_for h g r d = \<lparr>pg_type = h, pg_granulepos = g, pg_serial = or_serial r, pg_seq = or_seq r, pg_data = d\<rparr>"

lemma data_page_bytes: "h \<noteq> 4 \<Longrightarrow> data_page h g r d = page_bytes (page_for h g r d)"
  by (simp add: data_page_def page_bytes_def page_for_def Let_def)

lemma eos_page_bytes: "eos_page g r = page_bytes (page_for 4 g r [])"
  by (simp add: eos_page_def page_bytes_def page_for_def Let_def)

text \<open>The pages of a recording: the two headers, then page \<open>i\<close> of the audio with granule
  position \<open>pre + i * step\<close> and page number \<open>i + 2\<close>.\<close>

definition head_pages :: "opus_recorder \<Rightarrow> ogg_page list" where
  "head_pages r =
     [\<lparr>pg_type = 2, pg_granulepos = 0, pg_serial = or_serial r, pg_seq = 0, pg_data = opus_head r\<rparr>,
      \<lparr>pg_type = 0, pg_granulepos = 0, pg_serial = or_serial r, pg_seq = 1, pg_data = opus_tags\<rparr>]"

definition audio_gp :: "opus_recorder \<Rightarrow> nat \<Rightarrow> i64" where
  "audio_gp r i = ucast (or_preskip r) + word_of_nat i * word_of_int (quot (or_rate r) 50)"

definition audio_pages :: "opus_recorder \<Rightarrow> bytes list \<Rightarrow> ogg_page list" where
  "audio_pages r ds = map (\<lambda>i. \<lparr>pg_type = 0, pg_granulepos = audio_gp r i, pg_serial = or_serial r,
     pg_seq = word_of_nat (i + 2), pg_data = ds ! i\<rparr>) [0..<length ds]"

definition last_gp :: "opus_recorder \<Rightarrow> nat \<Rightarrow> i64" where
  "last_gp r n = (if n = 0 then 0 else audio_gp r (n - 1))"

definition recording_pages :: "opus_recorder \<Rightarrow> bytes list \<Rightarrow> ogg_page list" where
  "recording_pages r accepted = head_pages r @ audio_pages r (drop 2 accepted) @
     [\<lparr>pg_type = 4, pg_granulepos = last_gp r (length accepted - 2), pg_serial = or_serial r,
       pg_seq = word_of_nat (length accepted - 2 + 2), pg_data = []\<rparr>]"

lemma audio_pages_snoc:
  "audio_pages r (ds @ [d]) = audio_pages r ds @
     [\<lparr>pg_type = 0, pg_granulepos = audio_gp r (length ds), pg_serial = or_serial r,
       pg_seq = word_of_nat (length ds + 2), pg_data = d\<rparr>]"
  by (simp add: audio_pages_def nth_append cong: map_cong)

lemma length_pages [simp]: "length (audio_pages r ds) = length ds" "length (head_pages r) = 2"
  by (simp_all add: audio_pages_def head_pages_def)

text \<open>The stream parameters never change.\<close>

definition same_stream :: "opus_recorder \<Rightarrow> opus_recorder \<Rightarrow> bool" where
  "same_stream r0 r \<longleftrightarrow> or_serial r = or_serial r0 \<and> or_preskip r = or_preskip r0 \<and>
     or_channels r = or_channels r0 \<and> or_rate r = or_rate r0"

text \<open>As long as the disk has room, the file holds exactly \<open>pages\<close> and is counted in full.\<close>

definition stored :: "opus_recorder \<Rightarrow> ogg_page list \<Rightarrow> bool" where
  "stored r pages \<longleftrightarrow> \<not> f_closed (or_f r) \<and> or_seq r = word_of_nat (length pages) \<and>
     (0 < f_room (or_f r) \<longrightarrow> f_data (or_f r) = concat (map page_bytes pages) \<and>
        or_bytes r = int (length (f_data (or_f r))))"

lemma stored_emit:
  assumes "stored r pages" and "page = page_bytes p"
  shows "stored (emit_page page r) (pages @ [p])"
  using assms by (auto simp: stored_def emit_page_def file_write_def)

definition rec_inv :: "opus_recorder \<Rightarrow> opus_recorder \<Rightarrow> bytes list \<Rightarrow> bool" where
  "rec_inv r0 r handled \<longleftrightarrow> same_stream r0 r \<and> or_seen r = length handled \<and>
     or_written r = length handled - 2 \<and> or_prevGP r = last_gp r0 (length handled - 2) \<and>
     stored r (head_pages r0 @ audio_pages r0 (drop 2 handled))"

lemma rec_inv_cong:
  "rec_inv r0 (r\<lparr>or_ch := c\<rparr>) handled = rec_inv r0 r handled"
  "rec_inv r0 (r\<lparr>or_closed := b, or_chClosed := b'\<rparr>) handled = rec_inv r0 r handled"
  by (simp_all add: rec_inv_def same_stream_def stored_def)

lemma rec_inv_packet:
  assumes "rec_inv r0 r handled"
  shows "rec_inv r0 (writePageForPacket pkt r) (handled @ [op_payload pkt])"
proof (cases "length handled < 2")
  case True
  with assms show ?thesis
    by (simp add: writePageForPacket_def rec_inv_def warmupSkip_def same_stream_def stored_def Let_def)
next
  case False
  then obtain m where m: "length handled = Suc (Suc m)"
    by (metis Suc_le_D add_2_eq_Suc le_Suc_ex linorder_not_less)
  let ?gp = "audio_gp r0 m"
  let ?r1 = "r\<lparr>or_seen := Suc (Suc (Suc m)), or_written := Suc m, or_prevGP := ?gp\<rparr>"
  note A = assms [unfolded rec_inv_def same_stream_def, simplified m, simplified]
  have "m = 0 \<Longrightarrow> ucast (or_preskip r) = ?gp"
    and "m \<noteq> 0 \<Longrightarrow> or_prevGP r + word_of_int (quot (or_rate r) 50) = ?gp"
    using A by (cases m; simp add: audio_gp_def last_gp_def algebra_simps)+
  then have wp: "writePageForPacket pkt r = writePage ?gp (op_payload pkt) ?r1"
    using A by (cases "m = 0") (simp_all add: writePageForPacket_def warmupSkip_def Let_def)
  have "stored ?r1 (head_pages r0 @ audio_pages r0 (drop 2 handled))" using A by (simp add: stored_def)
  from stored_emit [OF this data_page_bytes [of 0 ?gp ?r1 "op_payload pkt"]]
  have "stored (writePage ?gp (op_payload pkt) ?r1)
      ((head_pages r0 @ audio_pages r0 (drop 2 handled)) @ [page_for 0 ?gp ?r1 (op_payload pkt)])"
    by (simp add: writePage_def)
  moreover have "page_for 0 ?gp ?r1 (op_payload pkt) = \<lparr>pg_type = 0, pg_granulepos = ?gp,
      pg_serial = or_serial r0, pg_seq = word_of_nat (m + 2), pg_data = op_payload pkt\<rparr>"
    using A m by (simp add: page_for_def stored_def head_pages_def audio_pages_def)
  ultimately have "stored (writePage ?gp (op_payload pkt) ?r1)
      (head_pages r0 @ audio_pages r0 (drop 2 (handled @ [op_payload pkt])))"
    using m by (simp add: audio_pages_snoc)
  then show ?thesis
    using A m unfolding wp by (simp add: rec_inv_def same_stream_def writePage_def emit_page_def last_gp_def)
qed

lemma rec_inv_drain:
  "rec_inv r0 r handled \<Longrightarrow> rec_inv r0 (writer_drain pkts r) (handled @ map op_payload pkts)"
proof (induction pkts r arbitrary: handled rule: writer_drain.induct)
  case (1 r)
  then show ?case by simp
next
  case (2 pkt rest r)
  from 2(2) have "rec_inv r0 (r\<lparr>or_ch := rest\<rparr>) handled" by (simp add: rec_inv_cong)
  from 2(1) [OF rec_inv_packet [OF this]] show ?case by simp
qed

lemma packet_keeps [simp]:
  "or_ch (writePageForPacket pkt r) = or_ch r" "or_closed (writePageForPacket pkt r) = or_closed r"
  "or_chClosed (writePageForPacket pkt r) = or_chClosed r"
  by (simp_all add: writePageForPacket_def writePage_def emit_page_def Let_def)

lemma NewOpusRecorder_inv:
  assumes "NewOpusRecorder mkdir create now dir base rate channels pre = Inr r0"
  shows "rec_inv r0 r0 [] \<and> \<not> or_closed r0 \<and> \<not> or_chClosed r0 \<and> or_ch r0 = []"
proof -
  from assms obtain room where r0: "r0 = writeOpusTags (writeOpusHead
      \<lparr>or_serial = word_of_int now, or_seq = 0, or_preskip = pre, or_channels = channels,
       or_rate = rate, or_prevGP = 0, or_seen = 0, or_written = 0,
       or_f = file_create (dir @ ''/'' @ base @ ''.opus'') room, or_startTime = now,
       or_bytes = 0, or_closed = False, or_ch = [], or_chClosed = False\<rparr>)"
    by (auto simp: NewOpusRecorder_def split: option.splits sum.splits)
  let ?n = "\<lparr>or_serial = word_of_int now, or_seq = 0, or_preskip = pre, or_channels = channels,
       or_rate = rate, or_prevGP = 0, or_seen = 0, or_written = 0,
       or_f = file_create (dir @ ''/'' @ base @ ''.opus'') room, or_startTime = now,
       or_bytes = 0, or_closed = False, or_ch = [], or_chClosed = False\<rparr>"
  let ?h = "emit_page (data_page 2 0 ?n (opus_head ?n)) ?n"
  have "stored ?n []" by (simp add: stored_def file_create_def)
  from stored_emit [OF this data_page_bytes [of 2 0 ?n "opus_head ?n"]]
  have "stored ?h [page_for 2 0 ?n (opus_head ?n)]" by simp
  from stored_emit [OF this data_page_bytes [of 0 0 ?h opus_tags]]
  have st: "stored r0 [page_for 2 0 ?n (opus_head ?n), page_for 0 0 ?h opus_tags]"
    by (simp add: r0 writeOpusTags_def writeOpusHead_def writePage_def buildBOSPage_def)
  have k: "or_serial r0 = word_of_int now" "or_preskip r0 = pre" "or_channels r0 = channels"
    "or_rate r0 = rate" "or_seen r0 = 0" "or_written r0 = 0" "or_prevGP r0 = 0" "\<not> or_closed r0"
    "\<not> or_chClosed r0" "or_ch r0 = []"
    by (simp_all add: r0 writeOpusTags_def writeOpusHead_def writePage_def emit_page_def)
  have "head_pages r0 = [page_for 2 0 ?n (opus_head ?n), page_for 0 0 ?h opus_tags]"
    using k by (simp add: head_pages_def page_for_def opus_head_def emit_page_def)
  with st k show ?thesis
    by (simp add: rec_inv_def same_stream_def last_gp_def audio_pages_def)
qed

section \<open>Runs\<close>

text \<open>Calls of \<open>WritePacket\<close> and passes of the writer goroutine, in any order.\<close>

datatype opus_event = EvPacket u32 bytes | EvWriter

fun opus_run :: "opus_event list \<Rightarrow> opus_recorder \<Rightarrow> opus_recorder option" where
  "opus_run [] r = Some r"
| "opus_run (EvPacket ts pl # es) r = Option.bind (WritePacket (\<lambda>r. r) ts pl r) (opus_run es)"
| "opus_run (EvWriter # es) r = opus_run es (writer_step r)"

fun payloads :: "opus_event list \<Rightarrow> bytes list" where
  "payloads [] = []"
| "payloads (EvPacket ts pl # es) = pl # payloads es"
| "payloads (EvWriter # es) = payloads es"

text \<open>The packets accepted: those written and those still queued. None is lost as long as no more
  than the channel's capacity was sent.\<close>

definition run_inv :: "opus_recorder \<Rightarrow> bytes list \<Rightarrow> opus_recorder \<Rightarrow> bool" where
  "run_inv r0 sent r \<longleftrightarrow> \<not> or_closed r \<and> \<not> or_chClosed r \<and>
     (\<exists>handled. rec_inv r0 r handled \<and> subseq (handled @ map op_payload (or_ch r)) sent \<and>
       (length sent \<le> ch_cap \<longrightarrow> handled @ map op_payload (or_ch r) = sent))"

lemma run_inv_writer:
  assumes "run_inv r0 sent r"
  shows "run_inv r0 sent (writer_step r)"
proof (cases "or_ch r")
  case Nil
  with assms show ?thesis by (simp add: writer_step_def)
next
  case (Cons pkt rest)
  from assms obtain handled where h: "rec_inv r0 r handled"
      "subseq (handled @ map op_payload (or_ch r)) sent"
      "length sent \<le> ch_cap \<longrightarrow> handled @ map op_payload (or_ch r) = sent"
    and c: "\<not> or_closed r" "\<not> or_chClosed r"
    by (auto simp: run_inv_def)
  have "rec_inv r0 (r\<lparr>or_ch := rest\<rparr>) handled" using h(1) by (simp add: rec_inv_cong)
  from rec_inv_packet [OF this, of pkt] h(2,3) c Cons show ?thesis
    by (auto simp: writer_step_def run_inv_def intro!: exI [of _ "handled @ [op_payload pkt]"])
qed

lemma run_inv_send:
  assumes "run_inv r0 sent r"
  shows "\<exists>r'. WritePacket (\<lambda>r. r) ts pl r = Some r' \<and> run_inv r0 (sent @ [pl]) r'"
proof -
  from assms obtain handled where h: "rec_inv r0 r handled"
      "subseq (handled @ map op_payload (or_ch r)) sent"
      "length sent \<le> ch_cap \<longrightarrow> handled @ map op_payload (or_ch r) = sent"
    and c: "\<not> or_closed r" "\<not> or_chClosed r"
    by (auto simp: run_inv_def)
  show ?thesis
  proof (cases "length (or_ch r) < ch_cap")
    case True
    have "subseq ((handled @ map op_payload (or_ch r)) @ [pl]) (sent @ [pl])"
      by (rule list_emb_append_mono [OF h(2)]) simp
    with True h c show ?thesis
      by (auto simp: WritePacket_def Let_def run_inv_def rec_inv_cong intro!: exI [of _ handled])
  next
    case False
    have "length (or_ch r) \<le> length sent"
      using list_emb_length [OF h(2)] by simp
    with False have "\<not> length (sent @ [pl]) \<le> ch_cap" by simp
    with False h c show ?thesis
      by (auto simp: WritePacket_def Let_def run_inv_def subseq_rev_drop_many intro!: exI [of _ handled])
  qed
qed

lemma run_inv_run:
  "run_inv r0 sent r \<Longrightarrow> \<exists>r'. opus_run es r = Some r' \<and> run_inv r0 (sent @ payloads es) r'"
proof (induction es r arbitrary: sent rule: opus_run.induct)
  case (1 r)
  then show ?case by simp
next
  case (2 ts pl es r)
  from run_inv_send [OF 2(2), of ts pl] obtain r1 where
    r1: "WritePacket (\<lambda>r. r) ts pl r = Some r1" "run_inv r0 (sent @ [pl]) r1" by blast
  from 2(1) [OF r1] r1(1) show ?case by simp
next
  case (3 es r)
  then show ?case using run_inv_writer by simp
qed

lemma Finalize_pages:
  assumes "run_inv r0 sent r" and "or_Finalize t r = ((uri, n, err), r2)" and "0 < f_room (or_f r2)"
  shows "\<exists>acc. subseq acc sent \<and> (length sent \<le> ch_cap \<longrightarrow> acc = sent) \<and> err = None \<and>
    n = int (length (f_data (or_f r2))) \<and> f_data (or_f r2) = concat (map page_bytes
      (recording_pages r0 acc))"
proof -
  from assms(1) obtain handled where h: "rec_inv r0 r handled"
      "subseq (handled @ map op_payload (or_ch r)) sent"
      "length sent \<le> ch_cap \<longrightarrow> handled @ map op_payload (or_ch r) = sent"
    and c: "\<not> or_closed r"
    by (auto simp: run_inv_def)
  let ?acc = "handled @ map op_payload (or_ch r)"
  let ?r = "writer_drain (or_ch r) (finalize_begin r)"
  define acc where "acc = ?acc"
  have "rec_inv r0 (finalize_begin r) handled" using h(1) by (simp add: finalize_begin_def rec_inv_cong)
  from rec_inv_drain [OF this] have d: "rec_inv r0 ?r acc" by (simp add: acc_def)
  note D = d [unfolded rec_inv_def same_stream_def]
  have pf: "page_for 4 (or_prevGP ?r) ?r [] = \<lparr>pg_type = 4, pg_granulepos = last_gp r0 (length acc - 2),
      pg_serial = or_serial r0, pg_seq = word_of_nat (length acc - 2 + 2), pg_data = []\<rparr>"
    using D by (simp add: page_for_def stored_def)
  from D have "stored ?r (head_pages r0 @ audio_pages r0 (drop 2 acc))" by simp
  from stored_emit [OF this eos_page_bytes [of "or_prevGP ?r" ?r]]
  have st: "stored (writeEOSPage (or_prevGP ?r) ?r) (recording_pages r0 acc)"
    unfolding pf by (simp add: writeEOSPage_def recording_pages_def)
  have fin: "err = None" "n = or_bytes (writeEOSPage (or_prevGP ?r) ?r)"
      "or_f r2 = (or_f (writeEOSPage (or_prevGP ?r) ?r))\<lparr>f_closed := True\<rparr>"
    using assms(2) c st by (auto simp: or_Finalize_def file_close_def stored_def Let_def)
  show ?thesis
    by (rule exI [of _ acc]) (use st fin assms(3) h(2,3) in \<open>simp add: stored_def acc_def [symmetric]\<close>)
qed

lemma pages_read_back:
  assumes "\<forall>d\<in>set acc. length d < 65025"
  shows "\<forall>p\<in>set (recording_pages r0 acc). page_ok p"
proof -
  have "length (drop 2 acc ! i) < 65025" if "i < length (drop 2 acc)" for i
    using assms that by (meson in_set_dropD nth_mem)
  then show ?thesis
    by (auto simp: recording_pages_def head_pages_def audio_pages_def page_ok_def opus_head_def opus_tags_def)
qed

lemma length_recording_pages: "length (recording_pages r acc) = length (drop 2 acc) + 3"
  by (simp add: recording_pages_def)

section \<open>Properties\<close>

text \<open>C18. An Opus recording is complete and well formed. Whatever the interleaving of
  \<open>WritePacket\<close> with the writer goroutine, no call panics, and after \<open>Finalize\<close> (if the disk
  never filled up) a reader finds, with correct checksums and consecutive page numbers, the two
  headers, one page per accepted packet after the two skipped at the start, with granule positions
  from the pre-skip in steps of a 50th of the rate, and the end-of-stream page; the byte count is the
  file's length; packets are lost only when more than 256 were sent.\<close>

theorem opus_recording_complete:
  assumes "NewOpusRecorder None create now dir base rate channels pre = Inr r0"
    and "\<forall>d\<in>set (payloads es). length d < 65025"
  shows "\<exists>r1. opus_run es r0 = Some r1 \<and>
    (case or_Finalize t r1 of ((uri, n, err), r2) \<Rightarrow> 0 < f_room (or_f r2) \<longrightarrow>
      err = None \<and> n = int (length (f_data (or_f r2))) \<and>
      (\<exists>acc. subseq acc (payloads es) \<and> (length (payloads es) \<le> 256 \<longrightarrow> acc = payloads es) \<and>
        read_pages (length (drop 2 acc) + 3) (f_data (or_f r2)) =
          (recording_pages r0 acc, [])))"
proof -
  have "run_inv r0 [] r0"
    using NewOpusRecorder_inv [OF assms(1)] by (auto simp: run_inv_def)
  from run_inv_run [OF this, of es] obtain r1 where
    r1: "opus_run es r0 = Some r1" "run_inv r0 (payloads es) r1" by auto
  obtain uri n err r2 where fin: "or_Finalize t r1 = ((uri, n, err), r2)" by (metis prod_cases3 surj_pair)
  have "err = None \<and> n = int (length (f_data (or_f r2))) \<and>
      (\<exists>acc. subseq acc (payloads es) \<and> (length (payloads es) \<le> 256 \<longrightarrow> acc = payloads es) \<and>
        read_pages (length (drop 2 acc) + 3) (f_data (or_f r2)) =
          (recording_pages r0 acc, []))"
    if room: "0 < f_room (or_f r2)"
  proof -
    from Finalize_pages [OF r1(2) fin room] obtain acc where acc: "subseq acc (payloads es)"
        "length (payloads es) \<le> 256 \<longrightarrow> acc = payloads es" "err = None"
        "n = int (length (f_data (or_f r2)))"
        "f_data (or_f r2) = concat (map page_bytes (recording_pages r0 acc))"
      unfolding ch_cap_def by blast
    have "\<forall>d\<in>set acc. length d < 65025"
    proof
      fix d assume "d \<in> set acc"
      from list_emb_set [OF acc(1) this] assms(2) show "length d < 65025" by metis
    qed
    from ogg_pages.dec_all_enc [OF pages_read_back [OF this], of r0 "length (drop 2 acc) + 3"] acc
    show ?thesis by (intro conjI exI [of _ acc]) (simp_all add: read_pages_def length_recording_pages)
  qed
  then show ?thesis
    by (intro exI [of _ r1] conjI r1(1)) (simp only: fin prod.case, blast)
qed

text \<open>\<open>WritePacket\<close> panics when \<open>Finalize\<close> runs between its check of \<open>closed\<close> and
  its send: the channel is closed by then. Passes of the writer in the gap do no harm, and on a
  finalized recorder the call is ignored.\<close>

theorem write_racing_finalize_panics:
  assumes "\<not> or_closed r" and "\<not> or_chClosed r"
  shows "WritePacket (\<lambda>r. snd (or_Finalize t r)) ts pl r = None \<and>
    WritePacket (\<lambda>r. writer_drain pkts r) ts pl r \<noteq> None \<and>
    WritePacket between ts pl (snd (or_Finalize t r)) = Some (snd (or_Finalize t r))"
proof -
  have keep: "or_closed (writer_drain q r') = or_closed r' \<and> or_chClosed (writer_drain q r') = or_chClosed r'" for q r'
    by (induction q r' rule: writer_drain.induct) simp_all
  have "or_chClosed (snd (or_Finalize t r)) \<and> or_closed (snd (or_Finalize t r))"
    using assms(1) keep by (simp add: or_Finalize_def Let_def finalize_begin_def writeEOSPage_def emit_page_def
        split: prod.split)
  with assms keep show ?thesis by (simp add: WritePacket_def Let_def)
qed

section \<open>Witnesses\<close>

definition demo_opus :: opus_recorder where
  "demo_opus = writeOpusTags (writeOpusHead
     \<lparr>or_serial = 7, or_seq = 0, or_preskip = 312, or_channels = 2, or_rate = 48000, or_prevGP = 0,
      or_seen = 0, or_written = 0, or_f = file_create ''rec/strm-1.opus'' 4096, or_startTime = 7,
      or_bytes = 0, or_closed = False, or_ch = [], or_chClosed = False\<rparr>)"

lemma demo_opus_new: "NewOpusRecorder None (Inr 4096) 7 ''rec'' ''strm-1'' 48000 2 312 = Inr demo_opus"
  by (simp add: NewOpusRecorder_def demo_opus_def)

theorem opus_recording_complete_witness:
  "\<exists>r1. opus_run [EvPacket 0 [1], EvPacket 1 [2], EvWriter, EvPacket 2 [3, 4]] demo_opus = Some r1"
  using opus_recording_complete [OF demo_opus_new, of "[EvPacket 0 [1], EvPacket 1 [2], EvWriter, EvPacket 2 [3, 4]]"]
  by auto

theorem write_racing_finalize_panics_witness:
  "WritePacket (\<lambda>r. snd (or_Finalize 9 r)) 0 [1] demo_opus = None"
  using write_racing_finalize_panics [of demo_opus 9 0 "[1]"] NewOpusRecorder_inv [OF demo_opus_new] by blast

end
