(* ===== verification/Frame.thy ===== *)
theory Frame
  imports Prelude
begin

text \<open>
  \<open>internal/control/frame.go\<close>: the length-prefixed framing of the device control
  connection. A frame is a big-endian 32-bit payload length followed by the payload;
  lengths over \<open>MaxPayloadBytes\<close> are refused from the header. There are two decoders,
  the blocking \<open>ReadFrame\<close> and the incremental \<open>FrameReader\<close>; the lemmas show that
  they decode the same frames, however the bytes are cut into chunks.
\<close>

section \<open>The code\<close>

definition MaxPayloadBytes :: nat where
  "MaxPayloadBytes = 16 * 1024"

text \<open>
  \<open>io.ReadFull(r, buf)\<close> on a reader that will deliver exactly the bytes \<open>s\<close> and then
  the end of the stream: \<open>EOF\<close> when nothing could be read, \<open>ErrUnexpectedEOF\<close> after
  some but not all bytes. The second component is what is left to read.
\<close>

definition read_full :: "nat \<Rightarrow> bytes \<Rightarrow> (goerr + bytes) \<times> bytes" where
  "read_full n s =
     (if n \<le> length s then (Inr (take n s), drop n s)
      else if s = [] then (Inl (Sentinel IoEOF), [])
      else (Inl (Sentinel IoUnexpectedEOF), []))"

definition ReadFrame :: "bytes \<Rightarrow> (goerr + bytes) \<times> bytes" where
  "ReadFrame s =
     (case read_full 4 s of
        (Inl e, s1) \<Rightarrow> (Inl e, s1)
      | (Inr hdr, s1) \<Rightarrow>
          (let n = (be_word hdr :: u32) in
           if MaxPayloadBytes < unat n then (Inl (Sentinel ErrFrameTooLarge), s1)
           else read_full (unat n) s1))"

text \<open>
  \<open>WriteFrame(w, payload)\<close>: \<open>wr\<close> is the writer's \<open>Write\<close> method, which may fail;
  the header and the payload are two writes.
\<close>

definition WriteFrame ::
  "('w \<Rightarrow> bytes \<Rightarrow> 'w \<times> goerr option) \<Rightarrow> 'w \<Rightarrow> bytes \<Rightarrow> 'w \<times> goerr option" where
  "WriteFrame wr w payload =
     (if MaxPayloadBytes < length payload then (w, Some (Sentinel ErrFrameTooLarge))
      else
        let hdr = be_bytes 4 (word_of_nat (length payload) :: u32) in
        case wr w hdr of
          (w1, Some e) \<Rightarrow> (w1, Some e)
        | (w1, None) \<Rightarrow> wr w1 payload)"

record frame_reader =
  fr_buf :: bytes

datatype frame_status = FrameComplete | FrameNeedMore | FrameError

text \<open>\<open>FrameReader.next\<close>: payload, status and error, and the reader after the call.\<close>

definition fr_next :: "frame_reader \<Rightarrow> (bytes \<times> frame_status \<times> goerr option) \<times> frame_reader" where
  "fr_next fr =
     (let buf = fr_buf fr in
      if length buf < 4 then (([], FrameNeedMore, None), fr)
      else
        let n = (be_word (take 4 buf) :: u32) in
        if MaxPayloadBytes < unat n then (([], FrameError, Some (Sentinel ErrFrameTooLarge)), fr)
        else
          let need = 4 + unat n in
          if length buf < need then (([], FrameNeedMore, None), fr)
          else ((take (need - 4) (drop 4 buf), FrameComplete, None), fr\<lparr>fr_buf := drop need buf\<rparr>))"

lemma fr_next_shrinks:
  "((p, FrameComplete, e), fr') = fr_next fr \<Longrightarrow> length (fr_buf fr') < length (fr_buf fr)"
  by (auto simp: fr_next_def Let_def split: if_splits)

text \<open>The loop of \<open>FrameReader.Push\<close>, with the frames collected so far.\<close>

function fr_loop ::
  "frame_reader \<Rightarrow> bytes list \<Rightarrow> (bytes list \<times> bool \<times> goerr option) \<times> frame_reader" where
  "fr_loop fr frames =
     (case fr_next fr of ((payload, status, ferr), fr') \<Rightarrow>
        case ferr of
          Some e \<Rightarrow> ((frames, False, Some e), fr')
        | None \<Rightarrow>
            if status = FrameComplete then fr_loop fr' (frames @ [payload])
            else ((frames, 0 < length (fr_buf fr'), None), fr'))"
  by pat_completeness auto
termination
  by (relation "measure (\<lambda>(fr, frames). length (fr_buf fr))") (auto dest: fr_next_shrinks)

declare fr_loop.simps [simp del]

definition fr_push ::
  "frame_reader \<Rightarrow> bytes \<Rightarrow> (bytes list \<times> bool \<times> goerr option) \<times> frame_reader" where
  "fr_push fr data = fr_loop (fr\<lparr>fr_buf := fr_buf fr @ data\<rparr>) []"

section \<open>What a byte stream holds\<close>

text \<open>
  The wire format on its own, without either decoder: \<open>take_frame\<close> peels one legal frame
  off the front, \<open>frames_of\<close> all of them, \<open>oversize\<close> says that the next header
  declares too long a payload.
\<close>

definition encode_frame :: "bytes \<Rightarrow> bytes" where
  "encode_frame p = be_bytes 4 (word_of_nat (length p) :: u32) @ p"

definition header_len :: "bytes \<Rightarrow> nat" where
  "header_len s = unat (be_word (take 4 s) :: u32)"

definition oversize :: "bytes \<Rightarrow> bool" where
  "oversize s \<longleftrightarrow> 4 \<le> length s \<and> MaxPayloadBytes < header_len s"

definition take_frame :: "bytes \<Rightarrow> (bytes \<times> bytes) option" where
  "take_frame s =
     (if 4 \<le> length s \<and> header_len s \<le> MaxPayloadBytes \<and> 4 + header_len s \<le> length s
      then Some (take (header_len s) (drop 4 s), drop (4 + header_len s) s) else None)"

lemma take_frame_shorter: "take_frame s = Some (p, r) \<Longrightarrow> length r < length s"
  by (auto simp: take_frame_def split: if_splits)

lemma take_frame_Nil: "take_frame [] = None"
  by (simp add: take_frame_def)

function frames_of :: "bytes \<Rightarrow> bytes list \<times> bytes" where
  "frames_of s =
     (case take_frame s of None \<Rightarrow> ([], s)
      | Some (p, r) \<Rightarrow> (case frames_of r of (fs, rest) \<Rightarrow> (p # fs, rest)))"
  by pat_completeness auto
termination
  by (relation "measure length") (auto dest: take_frame_shorter)

declare frames_of.simps [simp del]

lemma frames_of_None: "take_frame s = None \<Longrightarrow> frames_of s = ([], s)"
  by (simp add: frames_of.simps [of s])

lemma frames_of_Some:
  "take_frame s = Some (p, r) \<Longrightarrow> frames_of s = (p # fst (frames_of r), snd (frames_of r))"
  by (simp add: frames_of.simps [of s] split: prod.split)

lemma header_len_append: "4 \<le> length a \<Longrightarrow> header_len (a @ b) = header_len a"
  by (simp add: header_len_def)

lemma oversize_append: "oversize a \<Longrightarrow> oversize (a @ b)"
  by (simp add: oversize_def header_len_append)

lemma oversize_take_frame: "oversize s \<Longrightarrow> take_frame s = None"
  by (simp add: oversize_def take_frame_def)

lemma take_frame_append:
  "take_frame a = Some (p, r) \<Longrightarrow> take_frame (a @ b) = Some (p, r @ b)"
  by (auto simp: take_frame_def header_len_append split: if_splits)

lemma frames_of_rest: "take_frame (snd (frames_of s)) = None"
proof (induction s rule: frames_of.induct)
  case (1 s)
  show ?case
    by (cases "take_frame s") (auto simp: frames_of_None frames_of_Some "1.IH")
qed

text \<open>Decoding a prefix first and the rest later gives the same frames.\<close>

lemma frames_of_append:
  "frames_of (a @ b) =
     (fst (frames_of a) @ fst (frames_of (snd (frames_of a) @ b)),
      snd (frames_of (snd (frames_of a) @ b)))"
proof (induction a rule: frames_of.induct)
  case (1 a)
  show ?case
  proof (cases "take_frame a")
    case None
    then show ?thesis by (simp add: frames_of_None)
  next
    case (Some x)
    obtain p r where x: "x = (p, r)" by (cases x)
    show ?thesis
      using Some x "1.IH" [OF Some x [symmetric]] by (simp add: frames_of_Some take_frame_append)
  qed
qed

lemma frames_of_oversize:
  "oversize (snd (frames_of a)) \<Longrightarrow>
     fst (frames_of (a @ b)) = fst (frames_of a) \<and> oversize (snd (frames_of (a @ b)))"
  by (simp add: frames_of_append [of a b] frames_of_None oversize_append oversize_take_frame)

lemma rest_bound: "\<not> oversize (snd (frames_of s)) \<Longrightarrow> length (snd (frames_of s)) < 4 + MaxPayloadBytes"
  using frames_of_rest [of s] by (auto simp: oversize_def take_frame_def split: if_splits)

section \<open>The incremental reader decodes the stream\<close>

lemma fr_next_eq:
  "fr_next fr =
     (case take_frame (fr_buf fr) of
        Some (p, r) \<Rightarrow> ((p, FrameComplete, None), fr\<lparr>fr_buf := r\<rparr>)
      | None \<Rightarrow> (if oversize (fr_buf fr) then (([], FrameError, Some (Sentinel ErrFrameTooLarge)), fr)
                else (([], FrameNeedMore, None), fr)))"
  by (auto simp: fr_next_def take_frame_def oversize_def header_len_def Let_def)

lemma fr_loop_eq:
  "fr_loop fr acc =
     (case frames_of (fr_buf fr) of (fs, rest) \<Rightarrow>
        if oversize rest
        then ((acc @ fs, False, Some (Sentinel ErrFrameTooLarge)), fr\<lparr>fr_buf := rest\<rparr>)
        else ((acc @ fs, rest \<noteq> [], None), fr\<lparr>fr_buf := rest\<rparr>))"
proof (induction "fr_buf fr" arbitrary: fr acc rule: frames_of.induct)
  case 1
  show ?case
  proof (cases "take_frame (fr_buf fr)")
    case None
    then show ?thesis by (simp add: fr_loop.simps [of fr] fr_next_eq frames_of_None)
  next
    case (Some x)
    obtain p r where x: "x = (p, r)" by (cases x)
    have "fr_loop (fr\<lparr>fr_buf := r\<rparr>) (acc @ [p]) =
      (case frames_of r of (fs, rest) \<Rightarrow>
        if oversize rest
        then ((acc @ p # fs, False, Some (Sentinel ErrFrameTooLarge)), fr\<lparr>fr_buf := rest\<rparr>)
        else ((acc @ p # fs, rest \<noteq> [], None), fr\<lparr>fr_buf := rest\<rparr>))"
      using "1"(1) [OF Some, of p "fr\<lparr>fr_buf := r\<rparr>" "acc @ [p]"] x by (simp split: prod.split)
    then show ?thesis
      using Some x by (simp add: fr_loop.simps [of fr] fr_next_eq frames_of_Some split: prod.splits)
  qed
qed

lemma fr_push_eq:
  "fr_push fr data =
     (case frames_of (fr_buf fr @ data) of (fs, rest) \<Rightarrow>
        if oversize rest
        then ((fs, False, Some (Sentinel ErrFrameTooLarge)), fr\<lparr>fr_buf := rest\<rparr>)
        else ((fs, rest \<noteq> [], None), fr\<lparr>fr_buf := rest\<rparr>))"
  by (simp add: fr_push_def fr_loop_eq split: prod.split)

text \<open>
  A connection hands its bytes over in chunks; the caller of \<open>Push\<close> stops at the first
  framing error.
\<close>

fun fr_push_all :: "frame_reader \<Rightarrow> bytes list \<Rightarrow> (bytes list \<times> goerr option) \<times> frame_reader" where
  "fr_push_all fr [] = (([], None), fr)"
| "fr_push_all fr (c # cs) =
     (case fr_push fr c of
        ((fs, m, Some e), fr') \<Rightarrow> ((fs, Some e), fr')
      | ((fs, m, None), fr') \<Rightarrow>
          (case fr_push_all fr' cs of ((gs, e), fr'') \<Rightarrow> ((fs @ gs, e), fr'')))"

lemma fr_push_all_eq:
  "take_frame (fr_buf fr) = None \<Longrightarrow>
   fst (fr_push_all fr cs) =
     (fst (frames_of (fr_buf fr @ concat cs)),
      if oversize (snd (frames_of (fr_buf fr @ concat cs))) \<and> cs \<noteq> []
      then Some (Sentinel ErrFrameTooLarge) else None)"
proof (induction cs arbitrary: fr)
  case Nil
  then show ?case by (simp add: frames_of_None)
next
  case (Cons c cs)
  obtain fs rest where fr: "frames_of (fr_buf fr @ c) = (fs, rest)" by fastforce
  have app: "frames_of (fr_buf fr @ c @ concat cs) =
      (fs @ fst (frames_of (rest @ concat cs)), snd (frames_of (rest @ concat cs)))"
    using frames_of_append [of "fr_buf fr @ c" "concat cs"] fr by simp
  have rest: "take_frame rest = None" using frames_of_rest [of "fr_buf fr @ c"] fr by simp
  show ?case
  proof (cases "oversize rest")
    case True
    then have "frames_of (rest @ concat cs) = ([], rest @ concat cs)"
      by (simp add: frames_of_None oversize_append oversize_take_frame)
    then show ?thesis using True fr app by (simp add: fr_push_eq oversize_append)
  next
    case False
    obtain gs e fr' where step: "fr_push_all (fr\<lparr>fr_buf := rest\<rparr>) cs = ((gs, e), fr')"
      by (metis surj_pair)
    have "fst (fr_push_all fr (c # cs)) = (fs @ gs, e)"
      using False fr step by (simp add: fr_push_eq)
    moreover have "gs = fst (frames_of (rest @ concat cs))"
      and "e = (if oversize (snd (frames_of (rest @ concat cs)))
        then Some (Sentinel ErrFrameTooLarge) else None)"
      using Cons.IH [of "fr\<lparr>fr_buf := rest\<rparr>"] rest step False
      by (auto simp: frames_of_None split: if_splits)
    ultimately show ?thesis using app by simp
  qed
qed

section \<open>The blocking reader decodes the same stream\<close>

lemma ReadFrame_Inr: "ReadFrame s = (Inr p, r) \<longleftrightarrow> take_frame s = Some (p, r)"
  by (auto simp: ReadFrame_def read_full_def take_frame_def header_len_def Let_def add.commute
      split: if_splits)

lemma ReadFrame_error:
  "take_frame s = None \<Longrightarrow>
     fst (ReadFrame s) = Inl (if oversize s then Sentinel ErrFrameTooLarge
       else if s = [] \<or> length s = 4 \<and> 0 < header_len s then Sentinel IoEOF else Sentinel IoUnexpectedEOF)"
  by (auto simp: ReadFrame_def read_full_def take_frame_def header_len_def oversize_def Let_def
      split: if_splits)

lemma ReadFrame_shorter: "(Inr p, r) = ReadFrame s \<Longrightarrow> length r < length s"
  using ReadFrame_Inr [of s p r] take_frame_shorter [of s p r] by simp

text \<open>A client that calls \<open>ReadFrame\<close> until it fails.\<close>

function read_frames :: "bytes \<Rightarrow> bytes list \<times> goerr" where
  "read_frames s =
     (case ReadFrame s of
        (Inl e, r) \<Rightarrow> ([], e)
      | (Inr p, r) \<Rightarrow> (case read_frames r of (fs, e) \<Rightarrow> (p # fs, e)))"
  by pat_completeness auto
termination
  by (relation "measure length") (auto dest: ReadFrame_shorter)

declare read_frames.simps [simp del]

lemma read_frames_eq:
  "fst (read_frames s) = fst (frames_of s) \<and>
   snd (read_frames s) = (case fst (ReadFrame (snd (frames_of s))) of Inl e \<Rightarrow> e | Inr p \<Rightarrow> Errorf [])"
proof (induction s rule: frames_of.induct)
  case (1 s)
  show ?case
  proof (cases "take_frame s")
    case None
    then show ?thesis
      using ReadFrame_error [OF None]
      by (auto simp: frames_of_None read_frames.simps [of s] split: prod.splits sum.splits)
  next
    case (Some x)
    obtain p r where x: "x = (p, r)" by (cases x)
    with Some have "ReadFrame s = (Inr p, r)" by (simp add: ReadFrame_Inr)
    with Some x "1.IH" [OF Some x [symmetric]] show ?thesis
      by (auto simp: frames_of_Some read_frames.simps [of s] split: prod.splits)
  qed
qed

section \<open>Round trip\<close>

lemma header_len_encode:
  "length p \<le> MaxPayloadBytes \<Longrightarrow> header_len (encode_frame p @ rest) = length p"
  by (simp add: header_len_def encode_frame_def codec_simps MaxPayloadBytes_def
      unsigned_of_nat take_bit_nat_eq_self)

lemma length_encode_frame: "length (encode_frame p) = 4 + length p"
  by (simp add: encode_frame_def)

lemma take_frame_encode:
  "length p \<le> MaxPayloadBytes \<Longrightarrow> take_frame (encode_frame p @ rest) = Some (p, rest)"
  using header_len_encode [of p rest]
  by (simp add: take_frame_def length_encode_frame) (simp add: encode_frame_def)

interpretation control_frames: self_delimiting encode_frame take_frame
  "\<lambda>p. length p \<le> MaxPayloadBytes"
  by unfold_locales (auto simp: take_frame_encode take_frame_shorter, simp add: take_frame_def)

lemma frames_of_dec_all: "length s \<le> n \<Longrightarrow> frames_of s = control_frames.dec_all n s"
proof (induction n arbitrary: s)
  case 0
  then show ?case by (simp add: frames_of_None take_frame_Nil)
next
  case (Suc n)
  show ?case
  proof (cases "take_frame s")
    case None
    then show ?thesis by (simp add: frames_of_None)
  next
    case (Some x)
    obtain p r where x: "x = (p, r)" by (cases x)
    with Some Suc.prems have "length r \<le> n" using take_frame_shorter [of s p r] by simp
    with Some x show ?thesis by (simp add: frames_of_Some Suc.IH split: prod.split)
  qed
qed

lemma frames_of_encode:
  assumes "\<forall>p\<in>set ps. length p \<le> MaxPayloadBytes"
  shows "frames_of (concat (map encode_frame ps)) = (ps, [])"
proof -
  let ?s = "concat (map encode_frame ps)"
  have "length ps \<le> length ?s"
    by (induction ps) (auto simp: length_encode_frame)
  with assms show ?thesis
    by (simp add: frames_of_dec_all [of ?s "length ?s"] control_frames.dec_all_enc)
qed

text \<open>Writing to a buffer, which never fails.\<close>

definition buffer_write :: "bytes \<Rightarrow> bytes \<Rightarrow> bytes \<times> goerr option" where
  "buffer_write w bs = (w @ bs, None)"

definition write_frames :: "bytes list \<Rightarrow> bytes" where
  "write_frames ps = foldl (\<lambda>w p. fst (WriteFrame buffer_write w p)) [] ps"

lemma WriteFrame_buffer:
  "length p \<le> MaxPayloadBytes \<Longrightarrow> WriteFrame buffer_write w p = (w @ encode_frame p, None)"
  by (simp add: WriteFrame_def buffer_write_def encode_frame_def Let_def)

lemma write_frames_encode:
  "\<forall>p\<in>set ps. length p \<le> MaxPayloadBytes \<Longrightarrow> write_frames ps = concat (map encode_frame ps)"
proof -
  have "\<forall>p\<in>set ps. length p \<le> MaxPayloadBytes \<Longrightarrow>
      foldl (\<lambda>w p. fst (WriteFrame buffer_write w p)) w ps = w @ concat (map encode_frame ps)" for w
    by (induction ps arbitrary: w) (auto simp: WriteFrame_buffer)
  then show "\<forall>p\<in>set ps. length p \<le> MaxPayloadBytes \<Longrightarrow> ?thesis"
    by (simp add: write_frames_def)
qed

section \<open>Properties\<close>

text \<open>C23. Payloads written with \<open>WriteFrame\<close> come out of the incremental reader unchanged,
  in order and complete, wherever the connection cut the bytes into chunks, and the reader
  ends with an empty buffer.\<close>

theorem frames_survive_chunking:
  assumes "\<forall>p\<in>set ps. length p \<le> MaxPayloadBytes"
    and "concat chunks = write_frames ps"
  shows "fst (fr_push_all \<lparr>fr_buf = []\<rparr> chunks) = (ps, None)"
  using fr_push_all_eq [of "\<lparr>fr_buf = []\<rparr>" chunks] assms
  by (simp add: write_frames_encode frames_of_encode take_frame_def oversize_def)

theorem frames_survive_chunking_witness:
  "fst (fr_push_all \<lparr>fr_buf = []\<rparr> [[0, 0], [0, 2, 7], [8, 0, 0, 0, 1, 9]]) = ([[7, 8], [9]], None)"
proof -
  have "write_frames [[7, 8], [9]] = [0, 0, 0, 2, 7, 8, 0, 0, 0, 1, 9]"
    by code_simp
  then show ?thesis
    by (intro frames_survive_chunking) (simp_all add: MaxPayloadBytes_def)
qed

text \<open>The two decoders agree on every byte stream and every chunking of it: the incremental
  reader delivers the frames that repeated \<open>ReadFrame\<close> calls return, and fails with
  \<open>ErrFrameTooLarge\<close> exactly when \<open>ReadFrame\<close> does.\<close>

theorem push_agrees_with_ReadFrame:
  "fst (fst (fr_push_all \<lparr>fr_buf = []\<rparr> chunks)) = fst (read_frames (concat chunks)) \<and>
   (snd (fst (fr_push_all \<lparr>fr_buf = []\<rparr> chunks)) = Some (Sentinel ErrFrameTooLarge) \<longleftrightarrow>
    snd (read_frames (concat chunks)) = Sentinel ErrFrameTooLarge)"
proof -
  let ?s = "concat chunks"
  let ?rest = "snd (frames_of ?s)"
  have push: "fst (fr_push_all \<lparr>fr_buf = []\<rparr> chunks) = (fst (frames_of ?s),
      if oversize ?rest \<and> chunks \<noteq> [] then Some (Sentinel ErrFrameTooLarge) else None)"
    using fr_push_all_eq [of "\<lparr>fr_buf = []\<rparr>" chunks] by (simp add: take_frame_def)
  have "\<not> oversize (snd (frames_of []))"
    by (simp add: frames_of_None take_frame_def oversize_def)
  with push ReadFrame_error [OF frames_of_rest [of ?s]] show ?thesis
    by (auto simp: read_frames_eq)
qed

text \<open>After a \<open>Push\<close> without error the reader holds less than one header and one maximal
  payload, \<open>needMore\<close> says whether it holds anything, and every frame delivered is within the
  16 KiB limit: a peer cannot make the buffer grow.\<close>

theorem push_bounds:
  assumes "fr_push fr data = ((fs, needMore, None), fr')"
  shows "length (fr_buf fr') < 4 + MaxPayloadBytes \<and> (needMore \<longleftrightarrow> fr_buf fr' \<noteq> []) \<and>
    (\<forall>f\<in>set fs. length f \<le> MaxPayloadBytes)"
proof -
  have small: "\<forall>f\<in>set (fst (frames_of s)). length f \<le> MaxPayloadBytes" for s
  proof (induction s rule: frames_of.induct)
    case (1 s)
    then show ?case
      by (cases "take_frame s") (auto simp: frames_of_None frames_of_Some take_frame_def split: if_splits)
  qed
  show ?thesis
    using assms rest_bound [of "fr_buf fr @ data"] small [of "fr_buf fr @ data"]
    by (auto simp: fr_push_eq split: prod.splits if_splits)
qed

theorem push_bounds_witness:
  "length (fr_buf (snd (fr_push \<lparr>fr_buf = [0]\<rparr> [0, 0, 1, 5, 0]))) < 4 + MaxPayloadBytes"
proof -
  have "fr_push \<lparr>fr_buf = [0]\<rparr> [0, 0, 1, 5, 0] = (([[5]], True, None), \<lparr>fr_buf = [0]\<rparr>)"
    by code_simp
  from push_bounds [OF this] this show ?thesis by simp
qed

text \<open>\<open>ReadFrame\<close> reports \<open>io.EOF\<close> at the end of the stream, and also when the stream
  breaks off right after a header that announces a payload: a truncated frame is then not
  told apart from a clean end.\<close>

theorem ReadFrame_EOF_iff:
  "fst (ReadFrame s) = Inl (Sentinel IoEOF) \<longleftrightarrow>
     s = [] \<or> (length s = 4 \<and> 0 < header_len s \<and> header_len s \<le> MaxPayloadBytes)"
proof (cases "take_frame s")
  case None
  then show ?thesis using ReadFrame_error [OF None] by (auto simp: oversize_def)
next
  case (Some x)
  then have "ReadFrame s = (Inr (fst x), snd x)" by (simp add: ReadFrame_Inr)
  with Some show ?thesis by (auto simp: take_frame_def split: if_splits)
qed

end
