(* ===== verification/Messages.thy ===== *)
theory Messages
  imports Strconv Frame "HOL-Library.AList" "HOL-Library.Monad_Syntax"
begin

text \<open>
  \<open>internal/control/messages.go\<close>: the twelve control messages, their JSON form and the
  dispatch on \<open>"type"\<close>. A JSON document is a tree; \<open>into\<close> decoders are \<open>encoding/json\<close>'s
  rules for storing a value into a Go variable: \<open>null\<close> keeps scalars and structs as they are and
  makes a pointer nil, a value of the wrong kind or out of range is an error, names match without
  regard to case (ASCII only here), unknown members are skipped, and a repeated member is stored
  again. The text of a JSON document is \<open>marshal\<close>'s and \<open>parse\<close>'s business, two parameters.
\<close>

section \<open>JSON\<close>

datatype json =
    JNull | JBool bool | JNum string | JStr string | JArr "json list" | JObj "(string \<times> json) list"

type_synonym 'a into = "'a \<Rightarrow> json \<Rightarrow> 'a option"

definition into_string :: "string into" where
  "into_string a v = (case v of JStr s \<Rightarrow> Some s | JNull \<Rightarrow> Some a | _ \<Rightarrow> None)"

definition into_bool :: "bool into" where
  "into_bool a v = (case v of JBool b \<Rightarrow> Some b | JNull \<Rightarrow> Some a | _ \<Rightarrow> None)"

definition into_int :: "int into" where
  "into_int a v = (case v of JNum s \<Rightarrow> Atoi s | JNull \<Rightarrow> Some a | _ \<Rightarrow> None)"

text \<open>\<open>ParseUint\<close> of the literal, and the overflow check of the variable's type.\<close>

definition into_uint :: "'a::len word into" where
  "into_uint a v =
     (case v of
        JNum s \<Rightarrow> (case parse_nat s of
                     Some n \<Rightarrow> if n < 2 ^ LENGTH('a) then Some (word_of_nat n) else None
                   | None \<Rightarrow> None)
      | JNull \<Rightarrow> Some a | _ \<Rightarrow> None)"

definition into_ptr :: "'a \<Rightarrow> 'a into \<Rightarrow> 'a option into" where
  "into_ptr zero f a v =
     (if v = JNull then Some None
      else map_option Some (f (case a of Some x \<Rightarrow> x | None \<Rightarrow> zero) v))"

fun into_elems :: "'a \<Rightarrow> 'a into \<Rightarrow> json list \<Rightarrow> 'a list option" where
  "into_elems zero f [] = Some []"
| "into_elems zero f (v # vs) =
     (case f zero v of None \<Rightarrow> None | Some x \<Rightarrow> map_option ((#) x) (into_elems zero f vs))"

definition into_slice :: "'a \<Rightarrow> 'a into \<Rightarrow> 'a list into" where
  "into_slice zero f a v = (case v of JArr vs \<Rightarrow> into_elems zero f vs | JNull \<Rightarrow> Some [] | _ \<Rightarrow> None)"

text \<open>\<open>map[string]any\<close>: the members, a later one of the same name replacing the earlier.\<close>

definition into_map :: "(string \<times> json) list into" where
  "into_map a v =
     (case v of
        JObj ms \<Rightarrow> Some (foldl (\<lambda>m (k, x). AList.update k x m) a ms)
      | JNull \<Rightarrow> Some [] | _ \<Rightarrow> None)"

text \<open>Storing the members of an object into the fields of a struct.\<close>

definition lower :: "char \<Rightarrow> char" where
  "lower c = (let k = (of_char c :: nat) in if 65 \<le> k \<and> k \<le> 90 then char_of (k + 32) else c)"

definition same_name :: "string \<Rightarrow> string \<Rightarrow> bool" where
  "same_name a b \<longleftrightarrow> map lower a = map lower b"

fun into_values :: "'a into \<Rightarrow> 'a \<Rightarrow> json list \<Rightarrow> 'a option" where
  "into_values f a [] = Some a"
| "into_values f a (v # vs) = (case f a v of None \<Rightarrow> None | Some b \<Rightarrow> into_values f b vs)"

definition member_values :: "string \<Rightarrow> (string \<times> json) list \<Rightarrow> json list" where
  "member_values name ms = map snd (filter (\<lambda>(k, v). same_name k name) ms)"

definition into_member :: "string \<Rightarrow> 'a into \<Rightarrow> 'a \<Rightarrow> (string \<times> json) list \<Rightarrow> 'a option" where
  "into_member name f a ms = into_values f a (member_values name ms)"

section \<open>Member names\<close>

datatype field =
    FType | FDeviceID | FCredential | FFirmware | FCapabilities | FProtocol | FSampleRates | FChannels
  | FCodecs | FPsram | FSessionID | FServerTimeMs | FSeq | FIp | FPort | FName | FSampleRate | FFrameMs
  | FBitrate | FVbr | FFec | FDtx | FComplexity | FPayloadType | FRequestID | FStreamID | FDestination
  | FCodec | FRtp | FPacketsSent | FBytesSent | FDurationMs | FEncoderErrors | FExtra | FStats | FStatus
  | FState | FFields | FCode | FMessage | FDefaultBitrate | FServerHost | FI2sBclk | FI2sWs | FI2sDin

fun field_name :: "field \<Rightarrow> string" where
  "field_name FType = ''type''"
| "field_name FDeviceID = ''device_id''"
| "field_name FCredential = ''credential''"
| "field_name FFirmware = ''firmware''"
| "field_name FCapabilities = ''capabilities''"
| "field_name FProtocol = ''protocol''"
| "field_name FSampleRates = ''sample_rates''"
| "field_name FChannels = ''channels''"
| "field_name FCodecs = ''codecs''"
| "field_name FPsram = ''psram''"
| "field_name FSessionID = ''session_id''"
| "field_name FServerTimeMs = ''server_time_ms''"
| "field_name FSeq = ''seq''"
| "field_name FIp = ''ip''"
| "field_name FPort = ''port''"
| "field_name FName = ''name''"
| "field_name FSampleRate = ''sample_rate''"
| "field_name FFrameMs = ''frame_ms''"
| "field_name FBitrate = ''bitrate''"
| "field_name FVbr = ''vbr''"
| "field_name FFec = ''fec''"
| "field_name FDtx = ''dtx''"
| "field_name FComplexity = ''complexity''"
| "field_name FPayloadType = ''payload_type''"
| "field_name FRequestID = ''request_id''"
| "field_name FStreamID = ''stream_id''"
| "field_name FDestination = ''destination''"
| "field_name FCodec = ''codec''"
| "field_name FRtp = ''rtp''"
| "field_name FPacketsSent = ''packets_sent''"
| "field_name FBytesSent = ''bytes_sent''"
| "field_name FDurationMs = ''duration_ms''"
| "field_name FEncoderErrors = ''encoder_errors''"
| "field_name FExtra = ''extra''"
| "field_name FStats = ''stats''"
| "field_name FStatus = ''status''"
| "field_name FState = ''state''"
| "field_name FFields = ''fields''"
| "field_name FCode = ''code''"
| "field_name FMessage = ''message''"
| "field_name FDefaultBitrate = ''default_bitrate''"
| "field_name FServerHost = ''server_host''"
| "field_name FI2sBclk = ''i2s_bclk''"
| "field_name FI2sWs = ''i2s_ws''"
| "field_name FI2sDin = ''i2s_din''"

definition all_fields :: "field list" where
  "all_fields = [FType, FDeviceID, FCredential, FFirmware, FCapabilities, FProtocol, FSampleRates,
     FChannels, FCodecs, FPsram, FSessionID, FServerTimeMs, FSeq, FIp, FPort, FName, FSampleRate,
     FFrameMs, FBitrate, FVbr, FFec, FDtx, FComplexity, FPayloadType, FRequestID, FStreamID,
     FDestination, FCodec, FRtp, FPacketsSent, FBytesSent, FDurationMs, FEncoderErrors, FExtra, FStats,
     FStatus, FState, FFields, FCode, FMessage, FDefaultBitrate, FServerHost, FI2sBclk, FI2sWs, FI2sDin]"

lemma in_all_fields: "f \<in> set all_fields"
  by (cases f) (simp_all add: all_fields_def)

lemma folded_names_distinct: "distinct (map (\<lambda>f. map lower (field_name f)) all_fields)"
  by code_simp

lemma same_name_field [simp]: "same_name (field_name a) (field_name b) \<longleftrightarrow> a = b"
  using folded_names_distinct in_all_fields
  by (auto simp: same_name_def distinct_map inj_on_def)

declare field_name.simps [simp del]

section \<open>Messages\<close>

record capabilities =
  cap_SampleRates :: "int list"
  cap_Channels :: int
  cap_Codecs :: "string list"
  cap_PSRAM :: bool

record hello =
  hl_DeviceID :: string
  hl_Credential :: string
  hl_Firmware :: string
  hl_Capabilities :: "capabilities option"
  hl_Protocol :: int

record destination =
  ds_IP :: string
  ds_Port :: u16

record codec =
  cd_Name :: string
  cd_SampleRate :: int
  cd_Channels :: int
  cd_FrameMS :: int
  cd_Bitrate :: int
  cd_VBR :: bool
  cd_FEC :: bool
  cd_DTX :: bool
  cd_Complexity :: int

record start_stream =
  ss_RequestID :: string
  ss_StreamID :: string
  ss_Destination :: destination
  ss_Codec :: codec
  ss_PayloadType :: byte

record stopped_stats =
  sp_PacketsSent :: u64
  sp_BytesSent :: u64
  sp_DurationMS :: u64
  sp_EncoderErrors :: u64
  sp_Extra :: "(string \<times> json) list"

record status_msg =
  st_RequestID :: string
  st_Status :: string
  st_State :: string
  st_Fields :: "(string \<times> json) list"

record error_msg =
  er_RequestID :: string
  er_StreamID :: string
  er_Code :: string
  er_Message :: string

record set_config =
  sc_RequestID :: string
  sc_DefaultBitrate :: "int option"
  sc_ServerHost :: "string option"
  sc_I2SBclk :: "int option"
  sc_I2SWs :: "int option"
  sc_I2SDin :: "int option"
  sc_Fec :: "bool option"
  sc_Dtx :: "bool option"
  sc_Complexity :: "int option"
  sc_Bitrate :: "int option"
  sc_Vbr :: "bool option"
  sc_FrameMS :: "int option"

text \<open>A message is one of the twelve structs; the struct's \<open>Type\<close> field is its constructor.\<close>

datatype message =
    Hello hello
  | HelloAck string string int
  | Ping u32
  | Pong u32
  | StartStream start_stream
  | StreamStarted string string
  | StopStream string string
  | StreamStopped string string "stopped_stats option"
  | GetStatus string
  | Status status_msg
  | ErrorMsg error_msg
  | SetConfig set_config

fun Kind :: "message \<Rightarrow> string" where
  "Kind (Hello h) = ''hello''"
| "Kind (HelloAck sid did t) = ''hello_ack''"
| "Kind (Ping n) = ''ping''"
| "Kind (Pong n) = ''pong''"
| "Kind (StartStream r) = ''start_stream''"
| "Kind (StreamStarted rid sid) = ''stream_started''"
| "Kind (StopStream rid sid) = ''stop_stream''"
| "Kind (StreamStopped rid sid st) = ''stream_stopped''"
| "Kind (GetStatus rid) = ''get_status''"
| "Kind (Status r) = ''status''"
| "Kind (ErrorMsg r) = ''error''"
| "Kind (SetConfig r) = ''set_config''"

definition NewHello :: "string \<Rightarrow> string \<Rightarrow> string \<Rightarrow> capabilities option \<Rightarrow> message" where
  "NewHello deviceID credential firmware caps =
     Hello \<lparr>hl_DeviceID = deviceID, hl_Credential = credential, hl_Firmware = firmware,
            hl_Capabilities = caps, hl_Protocol = 0\<rparr>"

definition NewStartStream :: "string \<Rightarrow> string \<Rightarrow> destination \<Rightarrow> codec \<Rightarrow> byte \<Rightarrow> start_stream" where
  "NewStartStream requestID streamID dest cdc rtp =
     \<lparr>ss_RequestID = requestID, ss_StreamID = streamID, ss_Destination = dest, ss_Codec = cdc,
      ss_PayloadType = rtp\<rparr>"

definition NewStatus :: "string \<Rightarrow> (string \<times> json) list \<Rightarrow> message" where
  "NewStatus status flds =
     Status \<lparr>st_RequestID = '''', st_Status = status, st_State = '''', st_Fields = flds\<rparr>"

definition NewError :: "int \<Rightarrow> string \<Rightarrow> message" where
  "NewError code msg =
     ErrorMsg \<lparr>er_RequestID = '''', er_StreamID = '''', er_Code = Itoa code, er_Message = msg\<rparr>"

definition NewStreamError :: "string \<Rightarrow> int \<Rightarrow> string \<Rightarrow> message" where
  "NewStreamError streamID code msg =
     ErrorMsg \<lparr>er_RequestID = '''', er_StreamID = streamID, er_Code = Itoa code, er_Message = msg\<rparr>"

definition NewSetConfig :: "string \<Rightarrow> set_config" where
  "NewSetConfig requestID =
     \<lparr>sc_RequestID = requestID, sc_DefaultBitrate = None, sc_ServerHost = None, sc_I2SBclk = None,
      sc_I2SWs = None, sc_I2SDin = None, sc_Fec = None, sc_Dtx = None, sc_Complexity = None,
      sc_Bitrate = None, sc_Vbr = None, sc_FrameMS = None\<rparr>"

section \<open>Validation\<close>

definition out_of_range :: "int \<Rightarrow> int \<Rightarrow> int option \<Rightarrow> bool" where
  "out_of_range lo hi v = (case v of None \<Rightarrow> False | Some i \<Rightarrow> i < lo \<or> hi < i)"

definition negative :: "int option \<Rightarrow> bool" where
  "negative v = (case v of None \<Rightarrow> False | Some i \<Rightarrow> i < 0)"

text \<open>The loop over the three pins, in the order \<open>pins\<close> Go visits the map literal.\<close>

fun check_pins :: "(string \<times> int option) list \<Rightarrow> goerr option" where
  "check_pins [] = None"
| "check_pins ((name, v) # ps) =
     (if out_of_range 0 47 v
      then Some (Errorf (''control: '' @ name @ '' out of range 0..47: '' @ Itoa (the v)))
      else check_pins ps)"

definition pin_map :: "set_config \<Rightarrow> (string \<times> int option) list" where
  "pin_map s = [(''i2s_bclk'', sc_I2SBclk s), (''i2s_ws'', sc_I2SWs s), (''i2s_din'', sc_I2SDin s)]"

definition Validate :: "(string \<times> int option) list \<Rightarrow> set_config \<Rightarrow> goerr option" where
  "Validate pins s =
     (if sc_DefaultBitrate s = None \<and> sc_ServerHost s = None \<and> sc_I2SBclk s = None \<and>
         sc_I2SWs s = None \<and> sc_I2SDin s = None \<and> sc_Fec s = None \<and> sc_Dtx s = None \<and>
         sc_Complexity s = None \<and> sc_Bitrate s = None \<and> sc_Vbr s = None \<and> sc_FrameMS s = None
      then Some (Errorf ''control: set_config requires at least one field'')
      else if negative (sc_DefaultBitrate s)
      then Some (Errorf (''control: default_bitrate must be >= 0: '' @ Itoa (the (sc_DefaultBitrate s))))
      else if sc_ServerHost s = Some ''''
      then Some (Errorf ''control: server_host must not be empty'')
      else case check_pins pins of
        Some e \<Rightarrow> Some e
      | None \<Rightarrow>
        if out_of_range 0 10 (sc_Complexity s)
        then Some (Errorf (''control: complexity out of range 0..10: '' @ Itoa (the (sc_Complexity s))))
        else if negative (sc_Bitrate s)
        then Some (Errorf (''control: bitrate must be >= 0: '' @ Itoa (the (sc_Bitrate s))))
        else (case sc_FrameMS s of
                None \<Rightarrow> None
              | Some n \<Rightarrow>
                  if n = 10 \<or> n = 20 \<or> n = 40 \<or> n = 60 then None
                  else Some (Errorf (''control: frame_ms must be one of 10,20,40,60: '' @ Itoa n))))"

section \<open>Encoding\<close>

definition member :: "field \<Rightarrow> json \<Rightarrow> (string \<times> json) list" where
  "member f v = [(field_name f, v)]"

definition omit_when :: "bool \<Rightarrow> field \<Rightarrow> json \<Rightarrow> (string \<times> json) list" where
  "omit_when none f v = (if none then [] else [(field_name f, v)])"

definition omit_none :: "field \<Rightarrow> ('a \<Rightarrow> json) \<Rightarrow> 'a option \<Rightarrow> (string \<times> json) list" where
  "omit_none f enc v = (case v of None \<Rightarrow> [] | Some x \<Rightarrow> [(field_name f, enc x)])"

definition jint :: "int \<Rightarrow> json" where
  "jint i = JNum (Itoa i)"

definition juint :: "'a::len word \<Rightarrow> json" where
  "juint w = JNum (Itoa (uint w))"

definition capabilities_json :: "capabilities \<Rightarrow> json" where
  "capabilities_json c = JObj
     (omit_when (cap_SampleRates c = []) FSampleRates (JArr (map jint (cap_SampleRates c))) @
      omit_when (cap_Channels c = 0) FChannels (jint (cap_Channels c)) @
      omit_when (cap_Codecs c = []) FCodecs (JArr (map JStr (cap_Codecs c))) @
      omit_when (\<not> cap_PSRAM c) FPsram (JBool (cap_PSRAM c)))"

definition destination_json :: "destination \<Rightarrow> json" where
  "destination_json d = JObj (member FIp (JStr (ds_IP d)) @ member FPort (juint (ds_Port d)))"

definition codec_json :: "codec \<Rightarrow> json" where
  "codec_json c = JObj
     (member FName (JStr (cd_Name c)) @ member FSampleRate (jint (cd_SampleRate c)) @
      member FChannels (jint (cd_Channels c)) @ member FFrameMs (jint (cd_FrameMS c)) @
      member FBitrate (jint (cd_Bitrate c)) @ member FVbr (JBool (cd_VBR c)) @
      member FFec (JBool (cd_FEC c)) @ member FDtx (JBool (cd_DTX c)) @
      member FComplexity (jint (cd_Complexity c)))"

definition rtp_json :: "byte \<Rightarrow> json" where
  "rtp_json pt = JObj (member FPayloadType (juint pt))"

definition stats_json :: "stopped_stats \<Rightarrow> json" where
  "stats_json s = JObj
     (omit_when (sp_PacketsSent s = 0) FPacketsSent (juint (sp_PacketsSent s)) @
      omit_when (sp_BytesSent s = 0) FBytesSent (juint (sp_BytesSent s)) @
      omit_when (sp_DurationMS s = 0) FDurationMs (juint (sp_DurationMS s)) @
      omit_when (sp_EncoderErrors s = 0) FEncoderErrors (juint (sp_EncoderErrors s)) @
      omit_when (sp_Extra s = []) FExtra (JObj (sp_Extra s)))"

fun message_members :: "message \<Rightarrow> (string \<times> json) list" where
  "message_members (Hello h) =
     member FDeviceID (JStr (hl_DeviceID h)) @
     omit_when (hl_Credential h = '''') FCredential (JStr (hl_Credential h)) @
     omit_when (hl_Firmware h = '''') FFirmware (JStr (hl_Firmware h)) @
     omit_none FCapabilities capabilities_json (hl_Capabilities h) @
     omit_when (hl_Protocol h = 0) FProtocol (jint (hl_Protocol h))"
| "message_members (HelloAck sid did t) =
     member FSessionID (JStr sid) @ member FDeviceID (JStr did) @ member FServerTimeMs (jint t)"
| "message_members (Ping n) = member FSeq (juint n)"
| "message_members (Pong n) = member FSeq (juint n)"
| "message_members (StartStream r) =
     member FRequestID (JStr (ss_RequestID r)) @ member FStreamID (JStr (ss_StreamID r)) @
     member FDestination (destination_json (ss_Destination r)) @
     member FCodec (codec_json (ss_Codec r)) @ member FRtp (rtp_json (ss_PayloadType r))"
| "message_members (StreamStarted rid sid) = member FRequestID (JStr rid) @ member FStreamID (JStr sid)"
| "message_members (StopStream rid sid) = member FRequestID (JStr rid) @ member FStreamID (JStr sid)"
| "message_members (StreamStopped rid sid st) =
     member FRequestID (JStr rid) @ member FStreamID (JStr sid) @ omit_none FStats stats_json st"
| "message_members (GetStatus rid) = omit_when (rid = '''') FRequestID (JStr rid)"
| "message_members (Status r) =
     omit_when (st_RequestID r = '''') FRequestID (JStr (st_RequestID r)) @
     member FStatus (JStr (st_Status r)) @
     omit_when (st_State r = '''') FState (JStr (st_State r)) @
     omit_when (st_Fields r = []) FFields (JObj (st_Fields r))"
| "message_members (ErrorMsg r) =
     omit_when (er_RequestID r = '''') FRequestID (JStr (er_RequestID r)) @
     omit_when (er_StreamID r = '''') FStreamID (JStr (er_StreamID r)) @
     member FCode (JStr (er_Code r)) @ member FMessage (JStr (er_Message r))"
| "message_members (SetConfig r) =
     member FRequestID (JStr (sc_RequestID r)) @
     omit_none FDefaultBitrate jint (sc_DefaultBitrate r) @ omit_none FServerHost JStr (sc_ServerHost r) @
     omit_none FI2sBclk jint (sc_I2SBclk r) @ omit_none FI2sWs jint (sc_I2SWs r) @
     omit_none FI2sDin jint (sc_I2SDin r) @ omit_none FFec JBool (sc_Fec r) @
     omit_none FDtx JBool (sc_Dtx r) @ omit_none FComplexity jint (sc_Complexity r) @
     omit_none FBitrate jint (sc_Bitrate r) @ omit_none FVbr JBool (sc_Vbr r) @
     omit_none FFrameMs jint (sc_FrameMS r)"

definition message_json :: "message \<Rightarrow> json" where
  "message_json m = JObj (member FType (JStr (Kind m)) @ message_members m)"

definition Encode :: "(json \<Rightarrow> goerr + bytes) \<Rightarrow> message \<Rightarrow> goerr + bytes" where
  "Encode marshal m = marshal (message_json m)"

section \<open>Decoding\<close>

text \<open>A struct takes its fields from the members of an object; \<open>null\<close> leaves it alone.\<close>

definition into_struct :: "('a \<Rightarrow> (string \<times> json) list \<Rightarrow> 'a option) \<Rightarrow> 'a into" where
  "into_struct f a v = (case v of JObj ms \<Rightarrow> f a ms | JNull \<Rightarrow> Some a | _ \<Rightarrow> None)"

abbreviation get :: "field \<Rightarrow> 'a into \<Rightarrow> 'a \<Rightarrow> (string \<times> json) list \<Rightarrow> 'a option" where
  "get f dec a ms \<equiv> into_member (field_name f) dec a ms"

definition zero_capabilities :: capabilities where
  "zero_capabilities = \<lparr>cap_SampleRates = [], cap_Channels = 0, cap_Codecs = [], cap_PSRAM = False\<rparr>"

definition into_capabilities :: "capabilities into" where
  "into_capabilities = into_struct (\<lambda>a ms. do {
     r \<leftarrow> get FSampleRates (into_slice 0 into_int) (cap_SampleRates a) ms;
     c \<leftarrow> get FChannels into_int (cap_Channels a) ms;
     cs \<leftarrow> get FCodecs (into_slice '''' into_string) (cap_Codecs a) ms;
     p \<leftarrow> get FPsram into_bool (cap_PSRAM a) ms;
     Some \<lparr>cap_SampleRates = r, cap_Channels = c, cap_Codecs = cs, cap_PSRAM = p\<rparr> })"

definition into_destination :: "destination into" where
  "into_destination = into_struct (\<lambda>a ms. do {
     ip \<leftarrow> get FIp into_string (ds_IP a) ms;
     p \<leftarrow> get FPort into_uint (ds_Port a) ms;
     Some \<lparr>ds_IP = ip, ds_Port = p\<rparr> })"

definition into_codec :: "codec into" where
  "into_codec = into_struct (\<lambda>a ms. do {
     n \<leftarrow> get FName into_string (cd_Name a) ms;
     r \<leftarrow> get FSampleRate into_int (cd_SampleRate a) ms;
     c \<leftarrow> get FChannels into_int (cd_Channels a) ms;
     f \<leftarrow> get FFrameMs into_int (cd_FrameMS a) ms;
     b \<leftarrow> get FBitrate into_int (cd_Bitrate a) ms;
     v \<leftarrow> get FVbr into_bool (cd_VBR a) ms;
     fe \<leftarrow> get FFec into_bool (cd_FEC a) ms;
     d \<leftarrow> get FDtx into_bool (cd_DTX a) ms;
     co \<leftarrow> get FComplexity into_int (cd_Complexity a) ms;
     Some \<lparr>cd_Name = n, cd_SampleRate = r, cd_Channels = c, cd_FrameMS = f, cd_Bitrate = b,
           cd_VBR = v, cd_FEC = fe, cd_DTX = d, cd_Complexity = co\<rparr> })"

definition zero_stats :: stopped_stats where
  "zero_stats = \<lparr>sp_PacketsSent = 0, sp_BytesSent = 0, sp_DurationMS = 0, sp_EncoderErrors = 0,
     sp_Extra = []\<rparr>"

definition into_stats :: "stopped_stats into" where
  "into_stats = into_struct (\<lambda>a ms. do {
     p \<leftarrow> get FPacketsSent into_uint (sp_PacketsSent a) ms;
     b \<leftarrow> get FBytesSent into_uint (sp_BytesSent a) ms;
     d \<leftarrow> get FDurationMs into_uint (sp_DurationMS a) ms;
     e \<leftarrow> get FEncoderErrors into_uint (sp_EncoderErrors a) ms;
     x \<leftarrow> get FExtra into_map (sp_Extra a) ms;
     Some \<lparr>sp_PacketsSent = p, sp_BytesSent = b, sp_DurationMS = d, sp_EncoderErrors = e,
           sp_Extra = x\<rparr> })"

text \<open>\<open>ErrorCode.UnmarshalJSON\<close>: a string as it is, and anything else through an \<open>int\<close>, which
  \<open>null\<close> leaves at 0.\<close>

definition into_code :: "string into" where
  "into_code a v =
     (case v of
        JStr s \<Rightarrow> Some s
      | _ \<Rightarrow> map_option Itoa (into_int 0 v))"

definition decode_hello :: "(string \<times> json) list \<Rightarrow> message option" where
  "decode_hello ms = do {
     d \<leftarrow> get FDeviceID into_string '''' ms;
     c \<leftarrow> get FCredential into_string '''' ms;
     f \<leftarrow> get FFirmware into_string '''' ms;
     k \<leftarrow> get FCapabilities (into_ptr zero_capabilities into_capabilities) None ms;
     p \<leftarrow> get FProtocol into_int 0 ms;
     Some (Hello \<lparr>hl_DeviceID = d, hl_Credential = c, hl_Firmware = f, hl_Capabilities = k,
                  hl_Protocol = p\<rparr>) }"

definition decode_hello_ack :: "(string \<times> json) list \<Rightarrow> message option" where
  "decode_hello_ack ms = do {
     s \<leftarrow> get FSessionID into_string '''' ms;
     d \<leftarrow> get FDeviceID into_string '''' ms;
     t \<leftarrow> get FServerTimeMs into_int 0 ms;
     Some (HelloAck s d t) }"

definition decode_start_stream :: "(string \<times> json) list \<Rightarrow> message option" where
  "decode_start_stream ms = do {
     r \<leftarrow> get FRequestID into_string '''' ms;
     s \<leftarrow> get FStreamID into_string '''' ms;
     d \<leftarrow> get FDestination into_destination \<lparr>ds_IP = '''', ds_Port = 0\<rparr> ms;
     c \<leftarrow> get FCodec into_codec \<lparr>cd_Name = '''', cd_SampleRate = 0, cd_Channels = 0, cd_FrameMS = 0,
        cd_Bitrate = 0, cd_VBR = False, cd_FEC = False, cd_DTX = False, cd_Complexity = 0\<rparr> ms;
     p \<leftarrow> get FRtp (into_struct (\<lambda>a ms. get FPayloadType into_uint a ms)) 0 ms;
     Some (StartStream \<lparr>ss_RequestID = r, ss_StreamID = s, ss_Destination = d, ss_Codec = c,
                        ss_PayloadType = p\<rparr>) }"

definition decode_stream_stopped :: "(string \<times> json) list \<Rightarrow> message option" where
  "decode_stream_stopped ms = do {
     r \<leftarrow> get FRequestID into_string '''' ms;
     s \<leftarrow> get FStreamID into_string '''' ms;
     t \<leftarrow> get FStats (into_ptr zero_stats into_stats) None ms;
     Some (StreamStopped r s t) }"

definition decode_status :: "(string \<times> json) list \<Rightarrow> message option" where
  "decode_status ms = do {
     r \<leftarrow> get FRequestID into_string '''' ms;
     s \<leftarrow> get FStatus into_string '''' ms;
     t \<leftarrow> get FState into_string '''' ms;
     f \<leftarrow> get FFields into_map [] ms;
     Some (Status \<lparr>st_RequestID = r, st_Status = s, st_State = t, st_Fields = f\<rparr>) }"

definition decode_error :: "(string \<times> json) list \<Rightarrow> message option" where
  "decode_error ms = do {
     r \<leftarrow> get FRequestID into_string '''' ms;
     s \<leftarrow> get FStreamID into_string '''' ms;
     c \<leftarrow> get FCode into_code '''' ms;
     m \<leftarrow> get FMessage into_string '''' ms;
     Some (ErrorMsg \<lparr>er_RequestID = r, er_StreamID = s, er_Code = c, er_Message = m\<rparr>) }"

definition decode_set_config :: "(string \<times> json) list \<Rightarrow> message option" where
  "decode_set_config ms = do {
     r \<leftarrow> get FRequestID into_string '''' ms;
     db \<leftarrow> get FDefaultBitrate (into_ptr 0 into_int) None ms;
     h \<leftarrow> get FServerHost (into_ptr '''' into_string) None ms;
     b \<leftarrow> get FI2sBclk (into_ptr 0 into_int) None ms;
     w \<leftarrow> get FI2sWs (into_ptr 0 into_int) None ms;
     d \<leftarrow> get FI2sDin (into_ptr 0 into_int) None ms;
     fe \<leftarrow> get FFec (into_ptr False into_bool) None ms;
     dt \<leftarrow> get FDtx (into_ptr False into_bool) None ms;
     co \<leftarrow> get FComplexity (into_ptr 0 into_int) None ms;
     br \<leftarrow> get FBitrate (into_ptr 0 into_int) None ms;
     vb \<leftarrow> get FVbr (into_ptr False into_bool) None ms;
     fm \<leftarrow> get FFrameMs (into_ptr 0 into_int) None ms;
     Some (SetConfig \<lparr>sc_RequestID = r, sc_DefaultBitrate = db, sc_ServerHost = h, sc_I2SBclk = b,
       sc_I2SWs = w, sc_I2SDin = d, sc_Fec = fe, sc_Dtx = dt, sc_Complexity = co, sc_Bitrate = br,
       sc_Vbr = vb, sc_FrameMS = fm\<rparr>) }"

text \<open>The dispatch on \<open>hdr.Type\<close>; \<open>None\<close> is an unknown type, \<open>Some None\<close> a decoding error.\<close>

definition decode_as :: "string \<Rightarrow> (string \<times> json) list \<Rightarrow> message option option" where
  "decode_as t ms =
     (if t = ''hello'' then Some (decode_hello ms)
      else if t = ''hello_ack'' then Some (decode_hello_ack ms)
      else if t = ''ping'' then Some (map_option Ping (get FSeq into_uint 0 ms))
      else if t = ''pong'' then Some (map_option Pong (get FSeq into_uint 0 ms))
      else if t = ''start_stream'' then Some (decode_start_stream ms)
      else if t = ''stream_started'' then
        Some (do { r \<leftarrow> get FRequestID into_string '''' ms; s \<leftarrow> get FStreamID into_string '''' ms;
                   Some (StreamStarted r s) })
      else if t = ''stop_stream'' then
        Some (do { r \<leftarrow> get FRequestID into_string '''' ms; s \<leftarrow> get FStreamID into_string '''' ms;
                   Some (StopStream r s) })
      else if t = ''stream_stopped'' then Some (decode_stream_stopped ms)
      else if t = ''get_status'' then
        Some (do { r \<leftarrow> get FRequestID into_string '''' ms; Some (GetStatus r) })
      else if t = ''status'' then Some (decode_status ms)
      else if t = ''error'' then Some (decode_error ms)
      else if t = ''set_config'' then Some (decode_set_config ms)
      else None)"

definition json_error :: goerr where
  "json_error = Errorf ''json''"

definition decode_json :: "json \<Rightarrow> goerr + message" where
  "decode_json j =
     (case into_struct (\<lambda>t ms. get FType into_string t ms) '''' j of
        None \<Rightarrow> Inl json_error
      | Some t \<Rightarrow>
          (case decode_as t (case j of JObj ms \<Rightarrow> ms | _ \<Rightarrow> []) of
             None \<Rightarrow> Inl (Sentinel ErrUnknownMessageType)
           | Some None \<Rightarrow> Inl json_error
           | Some (Some m) \<Rightarrow> Inr m))"

definition DecodePayload :: "(bytes \<Rightarrow> json option) \<Rightarrow> bytes \<Rightarrow> goerr + message" where
  "DecodePayload parse payload =
     (case parse payload of None \<Rightarrow> Inl json_error | Some j \<Rightarrow> decode_json j)"

section \<open>Lemmas\<close>

lemma parse_nat_uint: "parse_nat (Itoa (uint (w :: 'a::len word))) = Some (unat w)"
  by (simp add: Itoa_def unat_eq_nat_uint [symmetric])

lemma into_uint_juint [simp]: "into_uint a (juint w) = Some w"
  by (simp add: into_uint_def juint_def parse_nat_uint)

lemma into_int_jint [simp]: "in_int64 i \<Longrightarrow> into_int a (jint i) = Some i"
  by (simp add: into_int_def jint_def Atoi_Itoa)

lemma into_scalar_round [simp]:
  "into_string a (JStr s) = Some s" "into_bool b (JBool c) = Some c" "into_code a (JStr s) = Some s"
  by (simp_all add: into_string_def into_bool_def into_code_def)

lemma into_elems_map: "(\<And>x. x \<in> set xs \<Longrightarrow> f zero (enc x) = Some x) \<Longrightarrow>
    into_elems zero f (map enc xs) = Some xs"
  by (induction xs) simp_all

lemma into_ints_round [simp]: "\<forall>i\<in>set xs. in_int64 i \<Longrightarrow> into_slice 0 into_int a (JArr (map jint xs)) = Some xs"
  by (simp add: into_slice_def into_elems_map)

lemma into_strings_round [simp]: "into_slice z into_string a (JArr (map JStr xs)) = Some xs"
  by (simp add: into_slice_def into_elems_map)

lemma update_new: "k \<notin> fst ` set m \<Longrightarrow> AList.update k v m = m @ [(k, v)]"
  by (induction m) auto

lemma into_map_round [simp]: "distinct (map fst ms) \<Longrightarrow> into_map [] (JObj ms) = Some ms"
proof -
  have "distinct (map fst (acc @ ms)) \<Longrightarrow> foldl (\<lambda>m (k, x). AList.update k x m) acc ms = acc @ ms" for acc
  proof (induction ms arbitrary: acc)
    case (Cons p ms)
    obtain k v where p: "p = (k, v)" by force
    with Cons.prems have "AList.update k v acc = acc @ [(k, v)]" by (intro update_new) force
    with Cons.IH [of "acc @ [(k, v)]"] Cons.prems p show ?case by simp
  qed simp
  from this [of "[]"] show "distinct (map fst ms) \<Longrightarrow> ?thesis" by (simp add: into_map_def)
qed

text \<open>Looking a member up in a list built by \<open>member\<close>, \<open>omit_when\<close> and \<open>omit_none\<close>.\<close>

lemma values_append:
  "member_values n (xs @ ys) = member_values n xs @ member_values n ys"
  by (simp add: member_values_def)

lemma values_member: "member_values (field_name n) (member k v) = (if k = n then [v] else [])"
  by (simp add: member_values_def member_def)

lemma values_omit_when:
  "member_values (field_name n) (omit_when b k v) = (if k = n \<and> \<not> b then [v] else [])"
  by (simp add: member_values_def omit_when_def)

lemma values_omit_none:
  "member_values (field_name n) (omit_none k enc x) =
     (if k = n then (case x of None \<Rightarrow> [] | Some y \<Rightarrow> [enc y]) else [])"
  by (simp add: member_values_def omit_none_def split: option.split)

lemmas member_simps = into_member_def values_append values_member values_omit_when values_omit_none

lemma into_values_opt:
  "f a v = Some x \<Longrightarrow> (b \<Longrightarrow> a = x) \<Longrightarrow> into_values f a (if \<not> b then [v] else []) = Some x"
  by simp

lemma into_ptr_round:
  "(\<And>y. x = Some y \<Longrightarrow> enc y \<noteq> JNull \<and> f z (enc y) = Some y) \<Longrightarrow>
    into_values (into_ptr z f) None (case x of None \<Rightarrow> [] | Some y \<Rightarrow> [enc y]) = Some x"
  by (cases x) (simp_all add: into_ptr_def)

text \<open>The values a message may hold to be read back: Go \<open>int\<close>s in range, maps without a
  repeated key.\<close>

definition capabilities_ok :: "capabilities \<Rightarrow> bool" where
  "capabilities_ok c \<longleftrightarrow> (\<forall>i\<in>set (cap_SampleRates c). in_int64 i) \<and> in_int64 (cap_Channels c)"

definition codec_ok :: "codec \<Rightarrow> bool" where
  "codec_ok c \<longleftrightarrow> in_int64 (cd_SampleRate c) \<and> in_int64 (cd_Channels c) \<and> in_int64 (cd_FrameMS c) \<and>
     in_int64 (cd_Bitrate c) \<and> in_int64 (cd_Complexity c)"

definition int_opt_ok :: "int option \<Rightarrow> bool" where
  "int_opt_ok v = (case v of None \<Rightarrow> True | Some i \<Rightarrow> in_int64 i)"

fun message_ok :: "message \<Rightarrow> bool" where
  "message_ok (Hello h) \<longleftrightarrow> in_int64 (hl_Protocol h) \<and>
     (case hl_Capabilities h of None \<Rightarrow> True | Some c \<Rightarrow> capabilities_ok c)"
| "message_ok (HelloAck sid did t) \<longleftrightarrow> in_int64 t"
| "message_ok (StartStream r) \<longleftrightarrow> codec_ok (ss_Codec r)"
| "message_ok (StreamStopped rid sid st) \<longleftrightarrow>
     (case st of None \<Rightarrow> True | Some s \<Rightarrow> distinct (map fst (sp_Extra s)))"
| "message_ok (Status r) \<longleftrightarrow> distinct (map fst (st_Fields r))"
| "message_ok (SetConfig r) \<longleftrightarrow> int_opt_ok (sc_DefaultBitrate r) \<and> int_opt_ok (sc_I2SBclk r) \<and>
     int_opt_ok (sc_I2SWs r) \<and> int_opt_ok (sc_I2SDin r) \<and> int_opt_ok (sc_Complexity r) \<and>
     int_opt_ok (sc_Bitrate r) \<and> int_opt_ok (sc_FrameMS r)"
| "message_ok m \<longleftrightarrow> True"

lemma capabilities_round:
  "capabilities_ok c \<Longrightarrow> into_capabilities zero_capabilities (capabilities_json c) = Some c"
  by (cases c) (simp add: into_capabilities_def into_struct_def capabilities_json_def member_simps
      into_values_opt zero_capabilities_def capabilities_ok_def)

lemma destination_round: "into_destination a (destination_json d) = Some d"
  by (cases d) (simp add: into_destination_def into_struct_def destination_json_def member_simps)

lemma codec_round: "codec_ok c \<Longrightarrow> into_codec a (codec_json c) = Some c"
  by (cases c) (simp add: into_codec_def into_struct_def codec_json_def member_simps codec_ok_def)

lemma stats_round:
  "distinct (map fst (sp_Extra s)) \<Longrightarrow> into_stats zero_stats (stats_json s) = Some s"
  by (cases s) (simp add: into_stats_def into_struct_def stats_json_def member_simps into_values_opt zero_stats_def)

lemma json_not_null [simp]:
  "jint i \<noteq> JNull" "capabilities_json c \<noteq> JNull" "stats_json s \<noteq> JNull"
  by (simp_all add: jint_def capabilities_json_def stats_json_def)

lemma int_opt_round:
  "int_opt_ok x \<Longrightarrow>
    into_values (into_ptr 0 into_int) None (case x of None \<Rightarrow> [] | Some y \<Rightarrow> [jint y]) = Some x"
  by (rule into_ptr_round) (simp add: int_opt_ok_def)

lemma bool_opt_round:
  "into_values (into_ptr False into_bool) None (case x of None \<Rightarrow> [] | Some y \<Rightarrow> [JBool y]) = Some x"
  by (rule into_ptr_round) simp

lemma string_opt_round:
  "into_values (into_ptr '''' into_string) None (case x of None \<Rightarrow> [] | Some y \<Rightarrow> [JStr y]) = Some x"
  by (rule into_ptr_round) simp

lemmas message_simps = member_simps into_values_opt int_opt_round bool_opt_round string_opt_round

lemma decode_header:
  "into_struct (\<lambda>t ms. get FType into_string t ms) '''' (message_json m) = Some (Kind m)"
  by (cases m) (simp_all add: message_json_def into_struct_def member_simps)

text \<open>A leading \<open>"type"\<close> member does not disturb the others.\<close>

lemma get_type_prefix:
  "n \<noteq> FType \<Longrightarrow> into_member (field_name n) f a (member FType v @ ms) = into_member (field_name n) f a ms"
  by (simp add: into_member_def values_append values_member)

lemma decode_as_round:
  assumes "message_ok m"
  shows "decode_as (Kind m) (member FType (JStr (Kind m)) @ message_members m) = Some (Some m)"
proof (cases m)
  case (Hello h)
  have "into_values (into_ptr zero_capabilities into_capabilities) None
      (case hl_Capabilities h of None \<Rightarrow> [] | Some y \<Rightarrow> [capabilities_json y]) = Some (hl_Capabilities h)"
    using assms Hello by (intro into_ptr_round) (simp add: capabilities_round)
  with assms Hello show ?thesis
    by (simp add: decode_as_def decode_hello_def get_type_prefix message_simps)
next
  case (StreamStopped rid sid st)
  have "into_values (into_ptr zero_stats into_stats) None
      (case st of None \<Rightarrow> [] | Some y \<Rightarrow> [stats_json y]) = Some st"
    using assms StreamStopped by (intro into_ptr_round) (simp add: stats_round)
  with StreamStopped show ?thesis
    by (simp add: decode_as_def decode_stream_stopped_def get_type_prefix message_simps)
next
  case (StartStream r)
  have "into_struct (\<lambda>a ms. get FPayloadType into_uint a ms) 0 (rtp_json pt) = Some pt" for pt
    by (simp add: into_struct_def rtp_json_def member_simps)
  with assms StartStream show ?thesis
    by (simp add: decode_as_def decode_start_stream_def get_type_prefix message_simps destination_round codec_round)
next
  case (SetConfig r)
  with assms show ?thesis
    by (simp add: decode_as_def decode_set_config_def get_type_prefix message_simps)
qed (use assms in \<open>simp_all add: decode_as_def decode_hello_ack_def decode_status_def decode_error_def
      get_type_prefix message_simps\<close>)

lemma decode_json_round: "message_ok m \<Longrightarrow> decode_json (message_json m) = Inr m"
  using decode_as_round [of m] decode_header [of m] by (simp add: decode_json_def message_json_def)

section \<open>The wire\<close>

definition WriteMessage ::
  "(json \<Rightarrow> goerr + bytes) \<Rightarrow> ('w \<Rightarrow> bytes \<Rightarrow> 'w \<times> goerr option) \<Rightarrow> 'w \<Rightarrow> message \<Rightarrow> 'w \<times> goerr option" where
  "WriteMessage marshal wr w m =
     (case Encode marshal m of
        Inl e \<Rightarrow> (w, Some e)
      | Inr payload \<Rightarrow> WriteFrame wr w payload)"

definition send_all :: "(json \<Rightarrow> goerr + bytes) \<Rightarrow> message list \<Rightarrow> bytes" where
  "send_all marshal ms = foldl (\<lambda>w m. fst (WriteMessage marshal buffer_write w m)) [] ms"

definition payload_of :: "(json \<Rightarrow> goerr + bytes) \<Rightarrow> message \<Rightarrow> bytes" where
  "payload_of marshal m = (case Encode marshal m of Inr bs \<Rightarrow> bs | Inl e \<Rightarrow> [])"

definition sendable :: "(json \<Rightarrow> goerr + bytes) \<Rightarrow> message \<Rightarrow> bool" where
  "sendable marshal m \<longleftrightarrow> message_ok m \<and>
     (\<exists>bs. Encode marshal m = Inr bs \<and> length bs \<le> MaxPayloadBytes)"

lemma send_all_frames:
  "\<forall>m\<in>set ms. sendable marshal m \<Longrightarrow> send_all marshal ms = concat (map encode_frame (map (payload_of marshal) ms))"
proof -
  have "foldl (\<lambda>w m. fst (WriteMessage marshal buffer_write w m)) w ms =
      w @ concat (map encode_frame (map (payload_of marshal) ms))"
    if "\<forall>m\<in>set ms. sendable marshal m" for w
    using that
    by (induction ms arbitrary: w) (auto simp: sendable_def WriteMessage_def WriteFrame_buffer payload_of_def)
  then show "\<forall>m\<in>set ms. sendable marshal m \<Longrightarrow> ?thesis" by (simp add: send_all_def)
qed

lemma payload_decodes:
  assumes "\<And>j bs. marshal j = Inr bs \<Longrightarrow> parse bs = Some j" and "sendable marshal m"
  shows "DecodePayload parse (payload_of marshal m) = Inr m"
  using assms by (auto simp: sendable_def payload_of_def Encode_def DecodePayload_def decode_json_round)

lemma check_pins_None: "check_pins ps = None \<longleftrightarrow> (\<forall>(n, v)\<in>set ps. \<not> out_of_range 0 47 v)"
  by (induction ps rule: check_pins.induct) auto

section \<open>Properties\<close>


text \<open>\<open>Validate\<close> accepts a \<open>set_config\<close> exactly when it sets something and every value is in
  its range, whatever order Go visits the pins in.\<close>

theorem Validate_accepts_iff:
  assumes "set pins = set (pin_map s)"
  shows "Validate pins s = None \<longleftrightarrow>
    s \<noteq> NewSetConfig (sc_RequestID s) \<and> \<not> negative (sc_DefaultBitrate s) \<and> \<not> negative (sc_Bitrate s) \<and>
    sc_ServerHost s \<noteq> Some '''' \<and> \<not> out_of_range 0 47 (sc_I2SBclk s) \<and> \<not> out_of_range 0 47 (sc_I2SWs s) \<and>
    \<not> out_of_range 0 47 (sc_I2SDin s) \<and> \<not> out_of_range 0 10 (sc_Complexity s) \<and>
    (sc_FrameMS s = None \<or> sc_FrameMS s \<in> {Some 10, Some 20, Some 40, Some 60})"
proof -
  have pins: "check_pins pins = None \<longleftrightarrow> \<not> out_of_range 0 47 (sc_I2SBclk s) \<and>
      \<not> out_of_range 0 47 (sc_I2SWs s) \<and> \<not> out_of_range 0 47 (sc_I2SDin s)"
    unfolding check_pins_None assms by (auto simp: pin_map_def)
  have empty: "s = NewSetConfig (sc_RequestID s) \<longleftrightarrow> sc_DefaultBitrate s = None \<and> sc_ServerHost s = None \<and>
      sc_I2SBclk s = None \<and> sc_I2SWs s = None \<and> sc_I2SDin s = None \<and> sc_Fec s = None \<and> sc_Dtx s = None \<and>
      sc_Complexity s = None \<and> sc_Bitrate s = None \<and> sc_Vbr s = None \<and> sc_FrameMS s = None"
    by (cases s) (simp add: NewSetConfig_def)
  show ?thesis
    unfolding Validate_def empty [symmetric]
    by (cases "check_pins pins"; cases "sc_FrameMS s") (use pins in \<open>auto\<close>)
qed

section \<open>Witnesses\<close>

definition demo_marshal :: "json \<Rightarrow> goerr + bytes" where
  "demo_marshal j =
     (if j = message_json (Ping 7) then Inr [1]
      else if j = message_json (StopStream ''r'' ''s'') then Inr [2, 2] else Inl json_error)"

definition demo_parse :: "bytes \<Rightarrow> json option" where
  "demo_parse bs =
     (if bs = [1] then Some (message_json (Ping 7))
      else if bs = [2, 2] then Some (message_json (StopStream ''r'' ''s'')) else None)"

lemma demo_text_layer: "demo_marshal j = Inr bs \<Longrightarrow> demo_parse bs = Some j"
  by (auto simp: demo_marshal_def demo_parse_def split: if_splits)

lemma demo_sendable: "\<forall>m\<in>set [StopStream ''r'' ''s'', Ping 7]. sendable demo_marshal m"
  by (simp add: sendable_def Encode_def demo_marshal_def message_json_def member_def MaxPayloadBytes_def)


theorem Validate_accepts_iff_witness:
  "Validate (rev (pin_map ((NewSetConfig ''r'')\<lparr>sc_I2SWs := Some 47\<rparr>)))
     ((NewSetConfig ''r'')\<lparr>sc_I2SWs := Some 47\<rparr>) = None"
  using Validate_accepts_iff [of "rev (pin_map ((NewSetConfig ''r'')\<lparr>sc_I2SWs := Some 47\<rparr>))"
      "(NewSetConfig ''r'')\<lparr>sc_I2SWs := Some 47\<rparr>"]
  by (simp add: NewSetConfig_def negative_def out_of_range_def)

end
