(* ===== verification/Session.thy ===== *)
theory Session
  imports Messages
begin

text \<open>
  \<open>internal/control/session.go\<close>: the server side of one control connection: handshake, read
  loop and heartbeat. The connection is the list of the outcomes of its future reads (chunks of at
  most 1024 bytes, or an error, deadlines included) and a function \<open>write\<close> giving the outcome of
  writing a message. The callbacks and the messages written are recorded in the state.
\<close>

section \<open>State\<close>

datatype conn_read = Chunk bytes | ReadErr goerr

record session =
  se_id :: string
  se_deviceID :: string
  se_registered :: bool
  se_pingSeq :: u32
  se_lastPongSeq :: u32
  se_pongReceived :: bool
  se_buf :: frame_reader
  se_reads :: "conn_read list"
  se_out :: "message list"
  se_onMsg :: "message list"
  se_onReady :: "string list"
  se_onClose :: "string list"
  se_errCh :: "goerr option"
  se_result :: "goerr option option"

text \<open>\<open>se_onReady\<close> and \<open>se_onClose\<close> list the device identifiers the callbacks found;
  \<open>se_errCh\<close> is the error the read loop reported, \<open>se_result\<close> what \<open>Run\<close> returned.\<close>

definition NewSession :: "conn_read list \<Rightarrow> session" where
  "NewSession reads =
     \<lparr>se_id = '''', se_deviceID = '''', se_registered = False, se_pingSeq = 0, se_lastPongSeq = 0,
      se_pongReceived = False, se_buf = \<lparr>fr_buf = []\<rparr>, se_reads = reads, se_out = [], se_onMsg = [],
      se_onReady = [], se_onClose = [], se_errCh = None, se_result = None\<rparr>"

definition se_LastPongSeq :: "session \<Rightarrow> u32 \<times> bool" where
  "se_LastPongSeq s = (se_lastPongSeq s, se_pongReceived s)"

section \<open>Reading and writing\<close>

text \<open>\<open>readFrame\<close>: \<open>None\<close> while it waits for more input.\<close>

fun readFrame :: "frame_reader \<Rightarrow> conn_read list \<Rightarrow> (goerr + bytes) option \<times> frame_reader \<times> conn_read list" where
  "readFrame buf [] = (None, buf, [])"
| "readFrame buf (ReadErr e # rs) = (Some (Inl e), buf, rs)"
| "readFrame buf (Chunk d # rs) =
     (case fr_push buf d of
        ((frames, needMore, Some e), buf') \<Rightarrow> (Some (Inl e), buf', rs)
      | ((frames, needMore, None), buf') \<Rightarrow>
          (case frames of
             f # _ \<Rightarrow> (Some (Inr f), buf', rs)
           | [] \<Rightarrow> if \<not> needMore then (Some (Inl (Sentinel ErrFrameTooLarge)), buf', rs)
                   else readFrame buf' rs))"

type_synonym writer = "message \<Rightarrow> goerr option"

definition writeMsg :: "writer \<Rightarrow> message \<Rightarrow> session \<Rightarrow> goerr option \<times> session" where
  "writeMsg write m s =
     (case write m of
        Some e \<Rightarrow> (Some e, s)
      | None \<Rightarrow> (None, s\<lparr>se_out := se_out s @ [m]\<rparr>))"

text \<open>The return of \<open>Run\<close>: its deferred calls run \<open>onClose\<close>.\<close>

definition run_return :: "goerr option \<Rightarrow> session \<Rightarrow> session" where
  "run_return res s = s\<lparr>se_result := Some res, se_onClose := se_onClose s @ [se_deviceID s]\<rparr>"

section \<open>Run\<close>

text \<open>\<open>Run\<close> up to the start of the read loop, in its three parts: reading the \<open>hello\<close> (\<open>None\<close> with a
  \<open>Run\<close> that has returned, or that still waits), authenticating it, and acknowledging it. \<open>newID\<close>
  is the random session identifier, \<open>nowMs\<close> the server time of the acknowledgement.\<close>

definition run_hello :: "(bytes \<Rightarrow> json option) \<Rightarrow> session \<Rightarrow> hello option \<times> session" where
  "run_hello parse s0 =
     (case readFrame (se_buf s0) (se_reads s0) of
        (None, buf, rs) \<Rightarrow> (None, s0\<lparr>se_buf := buf, se_reads := rs\<rparr>)
      | (Some (Inl e), buf, rs) \<Rightarrow>
          (None, run_return (Some (Wrap ''control: read hello'' e)) (s0\<lparr>se_buf := buf, se_reads := rs\<rparr>))
      | (Some (Inr payload), buf, rs) \<Rightarrow>
         (let s = s0\<lparr>se_buf := buf, se_reads := rs\<rparr>
          in case DecodePayload parse payload of
               Inl e \<Rightarrow> (None, run_return (Some (Wrap ''control: decode hello'' e)) s)
             | Inr (Hello hello) \<Rightarrow> (Some hello, s)
             | Inr _ \<Rightarrow> (None, run_return (Some (Errorf ''control: expected hello'')) s)))"

definition run_auth ::
  "writer \<Rightarrow> (string \<Rightarrow> string \<Rightarrow> goerr option) option \<Rightarrow> hello \<Rightarrow> session \<Rightarrow> bool \<times> session" where
  "run_auth write auth hello s =
     (case Option.bind auth (\<lambda>a. a (hl_DeviceID hello) (hl_Credential hello)) of
        Some e \<Rightarrow>
          (False, run_return (Some (Wrap ''control: authenticate'' e))
             (snd (writeMsg write (NewError 1 ''auth failed'') s)))
      | None \<Rightarrow> (True, s))"

definition run_ack :: "writer \<Rightarrow> string \<Rightarrow> int \<Rightarrow> hello \<Rightarrow> session \<Rightarrow> session" where
  "run_ack write newID nowMs hello s =
     (let s1 = s\<lparr>se_id := newID, se_deviceID := hl_DeviceID hello, se_registered := True\<rparr>
      in case writeMsg write (HelloAck (se_id s1) (se_deviceID s1) nowMs) s1 of
           (Some e, s2) \<Rightarrow> run_return (Some (Wrap ''control: write hello_ack'' e)) s2
         | (None, s2) \<Rightarrow> s2\<lparr>se_onReady := se_onReady s2 @ [se_deviceID s2]\<rparr>)"

definition run_handshake ::
  "(bytes \<Rightarrow> json option) \<Rightarrow> writer \<Rightarrow> (string \<Rightarrow> string \<Rightarrow> goerr option) option \<Rightarrow> string \<Rightarrow> int \<Rightarrow>
     session \<Rightarrow> session" where
  "run_handshake parse write auth newID nowMs s0 =
     (case run_hello parse s0 of
        (None, s) \<Rightarrow> s
      | (Some hello, s) \<Rightarrow>
          (case run_auth write auth hello s of
             (False, s1) \<Rightarrow> s1
           | (True, s1) \<Rightarrow> run_ack write newID nowMs hello s1))"

text \<open>What the read loop does with a decoded message.\<close>

definition handle_message :: "writer \<Rightarrow> message \<Rightarrow> session \<Rightarrow> session" where
  "handle_message write m s =
     (case m of
        Ping n \<Rightarrow> snd (writeMsg write (Pong n) s)
      | Pong n \<Rightarrow> s\<lparr>se_lastPongSeq := n, se_pongReceived := True\<rparr>
      | _ \<Rightarrow> s\<lparr>se_onMsg := se_onMsg s @ [m]\<rparr>)"

text \<open>One pass of the read loop.\<close>

definition read_pass :: "(bytes \<Rightarrow> json option) \<Rightarrow> writer \<Rightarrow> session \<Rightarrow> session" where
  "read_pass parse write s0 =
     (if se_errCh s0 \<noteq> None then s0
      else case readFrame (se_buf s0) (se_reads s0) of
        (None, buf, rs) \<Rightarrow> s0\<lparr>se_buf := buf, se_reads := rs\<rparr>
      | (Some (Inl e), buf, rs) \<Rightarrow> s0\<lparr>se_buf := buf, se_reads := rs, se_errCh := Some e\<rparr>
      | (Some (Inr payload), buf, rs) \<Rightarrow>
         (let s = s0\<lparr>se_buf := buf, se_reads := rs\<rparr>
          in case DecodePayload parse payload of
               Inl e \<Rightarrow> s
             | Inr m \<Rightarrow> handle_message write m s))"

definition heartbeat :: "writer \<Rightarrow> session \<Rightarrow> session" where
  "heartbeat write s0 =
     (let s = s0\<lparr>se_pingSeq := se_pingSeq s0 + 1\<rparr>
      in case writeMsg write (Ping (se_pingSeq s)) s of
           (Some e, s1) \<Rightarrow> run_return (Some (Wrap ''control: heartbeat ping'' e)) s1
         | (None, s1) \<Rightarrow> s1)"

text \<open>The two goroutines after the handshake: passes of the read loop, and the branches of the
  \<open>select\<close> of \<open>Run\<close>, until \<open>Run\<close> has returned.\<close>

datatype session_event = ReadPass | Tick | TakeError | Cancel

fun session_step :: "(bytes \<Rightarrow> json option) \<Rightarrow> writer \<Rightarrow> session \<Rightarrow> session_event \<Rightarrow> session" where
  "session_step parse write s ReadPass = read_pass parse write s"
| "session_step parse write s Tick = (if se_result s \<noteq> None then s else heartbeat write s)"
| "session_step parse write s TakeError =
     (case (se_result s, se_errCh s) of
        (None, Some e) \<Rightarrow>
          run_return (if errors_is e IoEOF \<or> errors_is e NetErrClosed then None else Some e) s
      | _ \<Rightarrow> s)"
| "session_step parse write s Cancel =
     (if se_result s \<noteq> None then s else run_return (Some (Sentinel CtxCanceled)) s)"

section \<open>Lemmas\<close>

lemmas handshake_defs = run_handshake_def run_hello_def run_auth_def run_ack_def

lemma writeMsg_out: "se_out (snd (writeMsg write m s)) = se_out s @ (if write m = None then [m] else [])"
  by (auto simp: writeMsg_def split: option.split)

lemma writeMsg_frame [simp]:
  "se_onMsg (snd (writeMsg write m s)) = se_onMsg s" "se_onReady (snd (writeMsg write m s)) = se_onReady s"
  "se_onClose (snd (writeMsg write m s)) = se_onClose s"
  "se_deviceID (snd (writeMsg write m s)) = se_deviceID s"
  "se_registered (snd (writeMsg write m s)) = se_registered s"
  "se_result (snd (writeMsg write m s)) = se_result s" "se_errCh (snd (writeMsg write m s)) = se_errCh s"
  "se_lastPongSeq (snd (writeMsg write m s)) = se_lastPongSeq s"
  "se_pongReceived (snd (writeMsg write m s)) = se_pongReceived s"
  "se_buf (snd (writeMsg write m s)) = se_buf s" "se_reads (snd (writeMsg write m s)) = se_reads s"
  by (simp_all add: writeMsg_def split: option.split)

text \<open>Every call of \<open>onClose\<close> goes with the return of \<open>Run\<close>, and only an authenticated session
  has a device.\<close>

definition session_inv :: "session \<Rightarrow> bool" where
  "session_inv s \<longleftrightarrow> length (se_onClose s) = (if se_result s = None then 0 else 1) \<and>
     (se_registered s \<or> se_deviceID s = '''')"

lemma session_step_inv: "session_inv s \<Longrightarrow> session_inv (session_step parse write s e)"
proof (cases e)
  case ReadPass
  then show "session_inv s \<Longrightarrow> ?thesis"
    by (auto simp: session_inv_def read_pass_def handle_message_def Let_def
        split: prod.splits option.splits sum.splits message.splits)
next
  case Tick
  then show "session_inv s \<Longrightarrow> ?thesis"
    by (auto simp: session_inv_def heartbeat_def run_return_def writeMsg_def Let_def split: option.splits)
qed (auto simp: session_inv_def run_return_def split: option.splits)

interpretation session_runs: event_machine "session_step parse write" session_inv
  by unfold_locales (rule session_step_inv)

text \<open>The payloads a session gets out of a run of reads, one per pass.\<close>

fun passes :: "nat \<Rightarrow> frame_reader \<Rightarrow> conn_read list \<Rightarrow> bytes list" where
  "passes 0 buf rs = []"
| "passes (Suc n) buf rs =
     (case readFrame buf rs of
        (Some (Inr p), buf', rs') \<Rightarrow> p # passes n buf' rs'
      | _ \<Rightarrow> [])"

definition segment :: "bytes list \<Rightarrow> conn_read" where
  "segment ps = Chunk (concat (map encode_frame ps))"

lemma readFrame_segment:
  assumes "\<forall>q\<in>set (p # ps). length q \<le> MaxPayloadBytes"
  shows "readFrame \<lparr>fr_buf = []\<rparr> (segment (p # ps) # rs) = (Some (Inr p), \<lparr>fr_buf = []\<rparr>, rs)"
proof -
  have "fr_push \<lparr>fr_buf = []\<rparr> (concat (map encode_frame (p # ps))) =
      ((p # ps, False, None), \<lparr>fr_buf = []\<rparr>)"
    unfolding fr_push_eq using frames_of_encode [OF assms] by (simp add: oversize_def)
  then show ?thesis by (simp add: segment_def)
qed

lemma passes_segments:
  "\<forall>g\<in>set groups. g \<noteq> [] \<and> (\<forall>q\<in>set g. length q \<le> MaxPayloadBytes) \<Longrightarrow>
    passes (length groups + n) \<lparr>fr_buf = []\<rparr> (map segment groups) = map hd groups"
proof (induction groups)
  case Nil
  then show ?case by (cases n) simp_all
next
  case (Cons g groups)
  then obtain p ps where "g = p # ps" by (cases g) auto
  with Cons readFrame_segment [of p ps "map segment groups"] show ?case by simp
qed

lemma length_concat_nonempty:
  "\<forall>g\<in>set groups. g \<noteq> [] \<Longrightarrow> length groups \<le> length (concat groups)"
proof (induction groups)
  case (Cons g groups)
  then show ?case by (cases g) auto
qed simp

lemma heads_are_all:
  "\<forall>g\<in>set groups. g \<noteq> [] \<Longrightarrow> map hd groups = concat groups \<longleftrightarrow> (\<forall>g\<in>set groups. length g = 1)"
proof (induction groups)
  case (Cons g groups)
  then obtain p ps where g: "g = p # ps" by (cases g) auto
  have "map hd groups = ps @ concat groups \<Longrightarrow> ps = []"
    using length_concat_nonempty [of groups] Cons.prems by (auto dest: arg_cong [where f = length])
  with Cons g show ?case by auto
qed simp

definition pings :: "message list \<Rightarrow> u32 list" where
  "pings ms = concat (map (\<lambda>m. case m of Ping n \<Rightarrow> [n] | _ \<Rightarrow> []) ms)"

definition pongs :: "message list \<Rightarrow> u32 list" where
  "pongs ms = concat (map (\<lambda>m. case m of Pong n \<Rightarrow> [n] | _ \<Rightarrow> []) ms)"

definition is_keepalive :: "message \<Rightarrow> bool" where
  "is_keepalive m \<longleftrightarrow> (case m of Ping n \<Rightarrow> True | Pong n \<Rightarrow> True | _ \<Rightarrow> False)"

lemma handle_simps:
  "write (Pong n) = None \<Longrightarrow> handle_message write (Ping n) s = s\<lparr>se_out := se_out s @ [Pong n]\<rparr>"
  "handle_message write (Pong n) s = s\<lparr>se_lastPongSeq := n, se_pongReceived := True\<rparr>"
  "\<not> is_keepalive m \<Longrightarrow> handle_message write m s = s\<lparr>se_onMsg := se_onMsg s @ [m]\<rparr>"
  by (auto simp: handle_message_def writeMsg_def is_keepalive_def split: message.splits)

lemma keepalive_simps:
  "pings (Ping n # ms) = n # pings ms" "pings (Pong n # ms) = pings ms"
  "pongs (Ping n # ms) = pongs ms" "pongs (Pong n # ms) = n # pongs ms"
  "\<not> is_keepalive m \<Longrightarrow> pings (m # ms) = pings ms" "\<not> is_keepalive m \<Longrightarrow> pongs (m # ms) = pongs ms"
  "is_keepalive (Ping n)" "is_keepalive (Pong n)" "pings [] = []" "pongs [] = []"
  by (auto simp: pings_def pongs_def is_keepalive_def split: message.splits)

lemma pong_seq_simps:
  "se_LastPongSeq (s\<lparr>se_out := x\<rparr>) = se_LastPongSeq s" "se_LastPongSeq (s\<lparr>se_onMsg := y\<rparr>) = se_LastPongSeq s"
  "se_LastPongSeq (s\<lparr>se_lastPongSeq := n, se_pongReceived := True\<rparr>) = (n, True)"
  by (simp_all add: se_LastPongSeq_def)

lemma handle_messages:
  assumes "\<And>n. write (Pong n) = None"
  shows "se_onMsg (foldl (\<lambda>s m. handle_message write m s) s ms) = se_onMsg s @ filter (\<lambda>m. \<not> is_keepalive m) ms \<and>
    se_out (foldl (\<lambda>s m. handle_message write m s) s ms) = se_out s @ map Pong (pings ms) \<and>
    se_LastPongSeq (foldl (\<lambda>s m. handle_message write m s) s ms) =
      (if pongs ms = [] then se_LastPongSeq s else (last (pongs ms), True))"
proof (induction ms arbitrary: s)
  case Nil
  then show ?case by (simp add: keepalive_simps)
next
  case (Cons m ms)
  consider n where "m = Ping n" | n where "m = Pong n" | "\<not> is_keepalive m"
    by (cases m) (auto simp: is_keepalive_def)
  then show ?case
    by cases (simp_all add: Cons.IH handle_simps keepalive_simps assms pong_seq_simps)
qed

section \<open>Properties\<close>

text \<open>C24. Only an authenticated device gets a session. The handshake announces a device exactly
  when the first frame decodes to a \<open>hello\<close>, the authenticator accepts its credential and the
  acknowledgement could be written, and then under the device's own identifier after exactly that
  acknowledgement. In every other case nothing is registered, no message reaches the handler, and
  at most the "auth failed" error is written.\<close>

theorem handshake_authenticates:
  assumes "s = run_handshake parse write (Some auth) newID nowMs (NewSession reads)"
  shows "(se_onReady s \<noteq> [] \<longleftrightarrow>
      (\<exists>payload buf rs h. readFrame \<lparr>fr_buf = []\<rparr> reads = (Some (Inr payload), buf, rs) \<and>
         DecodePayload parse payload = Inr (Hello h) \<and> auth (hl_DeviceID h) (hl_Credential h) = None \<and>
         write (HelloAck newID (hl_DeviceID h) nowMs) = None \<and> se_onReady s = [hl_DeviceID h] \<and>
         se_out s = [HelloAck newID (hl_DeviceID h) nowMs] \<and> se_deviceID s = hl_DeviceID h \<and>
         se_result s = None)) \<and>
    (se_onReady s = [] \<longrightarrow> set (se_out s) \<subseteq> {NewError 1 ''auth failed''}) \<and>
    se_onMsg s = [] \<and> (se_result s \<noteq> None \<longrightarrow> se_onReady s = [] \<and> se_onClose s = [se_deviceID s])"
proof -
  obtain res buf rs where rf: "readFrame \<lparr>fr_buf = []\<rparr> reads = (res, buf, rs)" by (metis prod_cases3)
  show ?thesis
  proof (cases res)
    case None
    with rf show ?thesis unfolding assms by (simp add: handshake_defs NewSession_def)
  next
    case (Some r)
    show ?thesis
    proof (cases r)
      case (Inl e)
      with Some rf show ?thesis
        unfolding assms by (simp add: handshake_defs NewSession_def run_return_def)
    next
      case (Inr payload)
      note rf' = rf [unfolded Some Inr]
      show ?thesis
      proof (cases "DecodePayload parse payload")
        case (Inl e)
        with rf' show ?thesis
          unfolding assms by (simp add: handshake_defs NewSession_def run_return_def Let_def)
      next
        case (Inr m)
        note dp = Inr
        show ?thesis
        proof (cases m)
          case (Hello h)
          with dp rf' show ?thesis
            unfolding assms
            by (cases "auth (hl_DeviceID h) (hl_Credential h)";
                cases "write (HelloAck newID (hl_DeviceID h) nowMs)";
                cases "write (NewError 1 ''auth failed'')")
              (simp_all add: handshake_defs NewSession_def run_return_def writeMsg_def Let_def)
        qed (use dp rf' in \<open>simp_all add: assms handshake_defs NewSession_def run_return_def Let_def\<close>)
      qed
    qed
  qed
qed

text \<open>The session hears one frame per read: when TCP delivers several frames in one segment,
  \<open>readFrame\<close> returns the first and drops the others, so nothing is lost exactly when every
  segment carries a single frame.\<close>

theorem coalesced_frames_are_lost:
  assumes "\<forall>g\<in>set groups. g \<noteq> [] \<and> (\<forall>q\<in>set g. length q \<le> MaxPayloadBytes)"
  shows "passes (length groups) \<lparr>fr_buf = []\<rparr> (map segment groups) = map hd groups \<and>
    (passes (length (concat groups)) \<lparr>fr_buf = []\<rparr> (map segment groups) = concat groups \<longleftrightarrow>
      (\<forall>g\<in>set groups. length g = 1))"
proof -
  have ne: "\<forall>g\<in>set groups. g \<noteq> []" using assms by blast
  obtain n where "length (concat groups) = length groups + n"
    using length_concat_nonempty [OF ne] le_Suc_ex by blast
  then have "passes (length (concat groups)) \<lparr>fr_buf = []\<rparr> (map segment groups) = map hd groups"
    using passes_segments [OF assms] by simp
  with passes_segments [OF assms, of 0] heads_are_all [OF ne] show ?thesis by simp
qed

text \<open>Keepalive stays inside the session: over any sequence of decoded messages each ping is
  answered by a pong with its sequence number, the last pong's number is kept, and the handler gets
  the other messages, all of them and in order.\<close>

theorem keepalive_is_internal:
  assumes "\<And>n. write (Pong n) = None"
  shows "se_onMsg (foldl (\<lambda>s m. handle_message write m s) s ms) = se_onMsg s @ filter (\<lambda>m. \<not> is_keepalive m) ms \<and>
    se_out (foldl (\<lambda>s m. handle_message write m s) s ms) = se_out s @ map Pong (pings ms) \<and>
    se_LastPongSeq (foldl (\<lambda>s m. handle_message write m s) s ms) =
      (if pongs ms = [] then se_LastPongSeq s else (last (pongs ms), True))"
  by (rule handle_messages) (rule assms)

section \<open>Witnesses\<close>

definition demo_hello :: message where
  "demo_hello = NewHello ''dev-1'' ''k'' ''1.0'' None"

theorem handshake_authenticates_witness:
  "se_onReady (run_handshake (\<lambda>bs. if bs = [9] then Some (message_json demo_hello) else None) (\<lambda>m. None)
     (Some (\<lambda>d c. if c = ''k'' then None else Some (Sentinel ErrAuthFailed))) ''sess-1'' 5
     (NewSession [segment [[9]]])) = [''dev-1'']"
proof -
  let ?parse = "\<lambda>bs :: bytes. if bs = [9] then Some (message_json demo_hello) else None"
  let ?auth = "\<lambda>(d :: string) c. if c = ''k'' then None else Some (Sentinel ErrAuthFailed)"
  have rf: "readFrame \<lparr>fr_buf = []\<rparr> [segment [[9]]] = (Some (Inr [9]), \<lparr>fr_buf = []\<rparr>, [])"
    using readFrame_segment [of "[9]" "[]" "[]"] by (simp add: MaxPayloadBytes_def)
  have "message_ok demo_hello" by (simp add: demo_hello_def NewHello_def in_int64_def)
  then have dp: "DecodePayload ?parse [9] = Inr demo_hello"
    by (simp add: DecodePayload_def decode_json_round)
  from handshake_authenticates [OF refl, of ?parse "\<lambda>m. None" ?auth "''sess-1''" 5 "[segment [[9]]]"] rf dp
  show ?thesis
    by (simp add: demo_hello_def NewHello_def handshake_defs NewSession_def writeMsg_def Let_def)
qed

theorem coalesced_frames_are_lost_witness:
  "passes 2 \<lparr>fr_buf = []\<rparr> (map segment [[[1], [2, 3]], [[4]]]) = [[1], [4]]"
  using coalesced_frames_are_lost [of "[[[1], [2, 3]], [[4]]]"]
  by (simp add: MaxPayloadBytes_def numeral_2_eq_2)

theorem keepalive_is_internal_witness:
  "se_out (foldl (\<lambda>s m. handle_message (\<lambda>m. None) m s) (NewSession []) [Ping 3, GetStatus ''r'', Ping 4]) =
     [Pong 3, Pong 4]"
  using keepalive_is_internal [of "\<lambda>m. None" "NewSession []" "[Ping 3, GetStatus ''r'', Ping 4]"]
  by (simp add: keepalive_simps is_keepalive_def NewSession_def)

end
