(* ===== verification/Session_Manager.thy ===== *)
theory Session_Manager
  imports Messages
begin

text \<open>
  \<open>internal/control/session_manager.go\<close> and \<open>commands.go\<close>: live sessions by device, and the
  correlation of a command with its reply. A reply channel has room for one message, so a map from
  request to channel is a map from request to an optional message. A call registers its channel,
  sends, and waits; \<open>during\<close> is what the other goroutines do to the manager meanwhile, and an
  \<open>await_outcome\<close> is how the wait ends. A delivery is one atomic step.
\<close>

section \<open>State\<close>

type_synonym session_ref = nat
type_synonym reply_map = "string \<rightharpoonup> message option"

record session_manager =
  mg_sessions :: "string \<rightharpoonup> session_ref"
  mg_pending :: reply_map
  mg_streamCh :: reply_map

definition NewSessionManager :: session_manager where
  "NewSessionManager = \<lparr>mg_sessions = Map.empty, mg_pending = Map.empty, mg_streamCh = Map.empty\<rparr>"

section \<open>Sessions\<close>

definition mg_OnReady :: "session_ref \<Rightarrow> string \<Rightarrow> session_manager \<Rightarrow> session_manager" where
  "mg_OnReady s deviceID m =
     (if deviceID \<noteq> '''' then m\<lparr>mg_sessions := (mg_sessions m)(deviceID \<mapsto> s)\<rparr> else m)"

definition mg_Unregister :: "string \<Rightarrow> session_manager \<Rightarrow> session_manager" where
  "mg_Unregister deviceID m = m\<lparr>mg_sessions := (mg_sessions m)(deviceID := None)\<rparr>"

definition mg_UnregisterIf :: "string \<Rightarrow> session_ref \<Rightarrow> session_manager \<Rightarrow> bool \<times> session_manager" where
  "mg_UnregisterIf deviceID s m =
     (if mg_sessions m deviceID = Some s
      then (True, m\<lparr>mg_sessions := (mg_sessions m)(deviceID := None)\<rparr>) else (False, m))"

definition mg_IsConnected :: "session_manager \<Rightarrow> string \<Rightarrow> bool" where
  "mg_IsConnected m deviceID \<longleftrightarrow> mg_sessions m deviceID \<noteq> None"

text \<open>\<open>addr\<close>: the IP of a session's local TCP address, and whether it is unspecified.\<close>

definition mg_LocalIP :: "(session_ref \<Rightarrow> (string \<times> bool) option) \<Rightarrow> session_manager \<Rightarrow> string \<Rightarrow> string \<times> bool" where
  "mg_LocalIP addr m deviceID =
     (case mg_sessions m deviceID of
        None \<Rightarrow> ('''', False)
      | Some s \<Rightarrow>
          (case addr s of
             None \<Rightarrow> ('''', False)
           | Some (ip, unspecified) \<Rightarrow> if unspecified then ('''', False) else (ip, True)))"

section \<open>Delivery\<close>

fun requestIDOf :: "message \<Rightarrow> string" where
  "requestIDOf (Status r) = st_RequestID r"
| "requestIDOf (ErrorMsg r) = er_RequestID r"
| "requestIDOf (StreamStarted rid sid) = rid"
| "requestIDOf (StreamStopped rid sid st) = rid"
| "requestIDOf m = ''''"

text \<open>A send that finds the channel full is given up.\<close>

definition offer :: "string \<Rightarrow> message \<Rightarrow> reply_map \<Rightarrow> bool \<times> reply_map" where
  "offer rid msg chans =
     (case chans rid of
        Some None \<Rightarrow> (True, chans(rid \<mapsto> Some msg))
      | _ \<Rightarrow> (False, chans))"

definition deliverRequest :: "message \<Rightarrow> session_manager \<Rightarrow> bool \<times> session_manager" where
  "deliverRequest msg m =
     (if requestIDOf msg = '''' then (False, m)
      else case offer (requestIDOf msg) msg (mg_pending m) of
          (ok, p) \<Rightarrow> (ok, m\<lparr>mg_pending := p\<rparr>))"

fun stream_reply_id :: "message \<Rightarrow> string" where
  "stream_reply_id (StreamStarted rid sid) = rid"
| "stream_reply_id (StreamStopped rid sid st) = rid"
| "stream_reply_id (ErrorMsg r) = er_RequestID r"
| "stream_reply_id m = ''''"

definition deliverStream :: "message \<Rightarrow> session_manager \<Rightarrow> bool \<times> session_manager" where
  "deliverStream msg m =
     (if stream_reply_id msg = '''' then (False, m)
      else case offer (stream_reply_id msg) msg (mg_streamCh m) of
          (ok, p) \<Rightarrow> (ok, m\<lparr>mg_streamCh := p\<rparr>))"

definition mg_Handler :: "message \<Rightarrow> session_manager \<Rightarrow> session_manager" where
  "mg_Handler msg m =
     (case deliverRequest msg m of
        (True, m') \<Rightarrow> m'
      | (False, m') \<Rightarrow> snd (deliverStream msg m'))"

section \<open>Calls\<close>

datatype await_outcome = SendFailed goerr | ReplyTaken | CtxDone goerr

text \<open>What the wait returns; \<open>None\<close> while nothing has come.\<close>

definition await_result :: "await_outcome \<Rightarrow> message option option \<Rightarrow> (goerr + message) option" where
  "await_result oc chan =
     (case oc of
        SendFailed e \<Rightarrow> Some (Inl e)
      | CtxDone e \<Rightarrow> Some (Inl e)
      | ReplyTaken \<Rightarrow> (case chan of Some (Some msg) \<Rightarrow> Some (Inr msg) | _ \<Rightarrow> None))"

type_synonym call_result = "(goerr + message) option \<times> session_manager"

definition fail :: "goerr \<Rightarrow> session_manager \<Rightarrow> call_result" where
  "fail e m = (Some (Inl e), m)"

text \<open>Registering in \<open>pending\<close>, waiting, and the deferred deletion.\<close>

definition await_pending ::
  "(session_manager \<Rightarrow> session_manager) \<Rightarrow> await_outcome \<Rightarrow> string \<Rightarrow> session_manager \<Rightarrow> call_result" where
  "await_pending during oc rid m =
     (if mg_pending m rid \<noteq> None then fail (Errorf ''control: duplicate await'') m
      else
        (let m1 = during (m\<lparr>mg_pending := (mg_pending m)(rid \<mapsto> None)\<rparr>);
             res = await_result oc (mg_pending m1 rid)
         in (res, if res = None then m1 else m1\<lparr>mg_pending := (mg_pending m1)(rid := None)\<rparr>)))"

definition await_stream ::
  "(session_manager \<Rightarrow> session_manager) \<Rightarrow> await_outcome \<Rightarrow> string \<Rightarrow> session_manager \<Rightarrow> call_result" where
  "await_stream during oc rid m =
     (if mg_streamCh m rid \<noteq> None then fail (Errorf ''control: duplicate await for request'') m
      else
        (let m1 = during (m\<lparr>mg_streamCh := (mg_streamCh m)(rid \<mapsto> None)\<rparr>);
             res = await_result oc (mg_streamCh m1 rid)
         in (res, if res = None then m1 else m1\<lparr>mg_streamCh := (mg_streamCh m1)(rid := None)\<rparr>)))"

definition SendSetConfig ::
  "(session_manager \<Rightarrow> session_manager) \<Rightarrow> await_outcome \<Rightarrow> (string \<times> int option) list \<Rightarrow> string \<Rightarrow>
     set_config option \<Rightarrow> session_manager \<Rightarrow> call_result" where
  "SendSetConfig during oc pins deviceID req m =
     (case req of
        None \<Rightarrow> fail (Errorf ''control: nil set_config'') m
      | Some r \<Rightarrow>
          (case Validate pins r of
             Some e \<Rightarrow> fail e m
           | None \<Rightarrow>
               if sc_RequestID r = '''' then fail (Errorf ''control: set_config requires request_id'') m
               else if mg_sessions m deviceID = None then fail (Sentinel ErrNotConnected) m
               else await_pending during oc (sc_RequestID r) m))"

definition SendGetStatus ::
  "(session_manager \<Rightarrow> session_manager) \<Rightarrow> await_outcome \<Rightarrow> string \<Rightarrow> string option \<Rightarrow>
     session_manager \<Rightarrow> call_result" where
  "SendGetStatus during oc deviceID req m =
     (case req of
        None \<Rightarrow> fail (Errorf ''control: nil get_status'') m
      | Some rid \<Rightarrow>
          if rid = '''' then fail (Errorf ''control: get_status requires request_id'') m
          else if mg_sessions m deviceID = None then fail (Sentinel ErrNotConnected) m
          else await_pending during oc rid m)"

definition SendStartStream ::
  "(session_manager \<Rightarrow> session_manager) \<Rightarrow> await_outcome \<Rightarrow> string \<Rightarrow> start_stream option \<Rightarrow>
     session_manager \<Rightarrow> call_result" where
  "SendStartStream during oc deviceID req m =
     (case req of
        None \<Rightarrow> fail (Errorf ''control: nil start_stream'') m
      | Some r \<Rightarrow>
          if ss_RequestID r = '''' then fail (Errorf ''control: start_stream requires request_id'') m
          else if ss_StreamID r = '''' then fail (Errorf ''control: start_stream requires stream_id'') m
          else if mg_sessions m deviceID = None then fail (Sentinel ErrNotConnected) m
          else await_stream during oc (ss_RequestID r) m)"

text \<open>A \<open>StopStream\<close> request is its two identifiers.\<close>

definition SendStopStream ::
  "(session_manager \<Rightarrow> session_manager) \<Rightarrow> await_outcome \<Rightarrow> string \<Rightarrow> (string \<times> string) option \<Rightarrow>
     session_manager \<Rightarrow> call_result" where
  "SendStopStream during oc deviceID req m =
     (case req of
        None \<Rightarrow> fail (Errorf ''control: nil stop_stream'') m
      | Some (rid, sid) \<Rightarrow>
          if rid = '''' then fail (Errorf ''control: stop_stream requires request_id'') m
          else if sid = '''' then fail (Errorf ''control: stop_stream requires stream_id'') m
          else if mg_sessions m deviceID = None then fail (Sentinel ErrNotConnected) m
          else await_stream during oc rid m)"

section \<open>The command service\<close>

record command_service =
  cs_pending :: reply_map

definition NewCommandService :: command_service where
  "NewCommandService = \<lparr>cs_pending = Map.empty\<rparr>"

definition ValidateStart :: "string \<Rightarrow> string \<Rightarrow> goerr option" where
  "ValidateStart streamID deviceID =
     (if streamID = '''' then Some (Errorf ''control: start_stream requires stream_id'')
      else if deviceID = '''' then Some (Errorf ''control: start_stream requires device_id'')
      else None)"

definition BuildStartStream :: "string \<Rightarrow> string \<Rightarrow> string \<Rightarrow> u16 \<Rightarrow> start_stream" where
  "BuildStartStream requestID streamID destIP destPort =
     NewStartStream requestID streamID \<lparr>ds_IP = destIP, ds_Port = destPort\<rparr>
       \<lparr>cd_Name = ''opus'', cd_SampleRate = 48000, cd_Channels = 2, cd_FrameMS = 20,
        cd_Bitrate = 128000, cd_VBR = True, cd_FEC = False, cd_DTX = False, cd_Complexity = 0\<rparr> 111"

definition BuildStopStream :: "string \<Rightarrow> string \<Rightarrow> message" where
  "BuildStopStream requestID streamID = StopStream requestID streamID"

definition BuildGetStatus :: "string \<Rightarrow> message" where
  "BuildGetStatus requestID = GetStatus requestID"

definition cs_Await ::
  "(command_service \<Rightarrow> command_service) \<Rightarrow> await_outcome \<Rightarrow> string \<Rightarrow> command_service \<Rightarrow>
     (goerr + message) option \<times> command_service" where
  "cs_Await during oc streamID c =
     (if cs_pending c streamID \<noteq> None then (Some (Inl (Errorf ''control: duplicate await'')), c)
      else
        (let c1 = during (c\<lparr>cs_pending := (cs_pending c)(streamID \<mapsto> None)\<rparr>);
             res = await_result oc (cs_pending c1 streamID)
         in (res, if res = None then c1 else c1\<lparr>cs_pending := (cs_pending c1)(streamID := None)\<rparr>)))"

definition cs_Deliver :: "message option \<Rightarrow> command_service \<Rightarrow> bool \<times> command_service" where
  "cs_Deliver msg c =
     (case msg of
        Some (StreamStarted rid sid) \<Rightarrow>
          (case offer sid (StreamStarted rid sid) (cs_pending c) of (ok, p) \<Rightarrow> (ok, c\<lparr>cs_pending := p\<rparr>))
      | Some (StreamStopped rid sid st) \<Rightarrow>
          (case offer sid (StreamStopped rid sid st) (cs_pending c) of (ok, p) \<Rightarrow> (ok, c\<lparr>cs_pending := p\<rparr>))
      | _ \<Rightarrow> (False, c))"

section \<open>Lemmas\<close>

text \<open>A channel only ever holds a message with its own request identifier.\<close>

definition mg_inv :: "session_manager \<Rightarrow> bool" where
  "mg_inv m \<longleftrightarrow>
     (\<forall>rid msg. mg_pending m rid = Some (Some msg) \<longrightarrow> requestIDOf msg = rid) \<and>
     (\<forall>rid msg. mg_streamCh m rid = Some (Some msg) \<longrightarrow> stream_reply_id msg = rid)"

lemma deliver_inv:
  "mg_inv m \<Longrightarrow> mg_inv (snd (deliverRequest msg m))"
  "mg_inv m \<Longrightarrow> mg_inv (snd (deliverStream msg m))"
  by (auto simp: deliverRequest_def deliverStream_def mg_inv_def offer_def split: option.splits if_splits)

lemma Handler_inv: "mg_inv m \<Longrightarrow> mg_inv (mg_Handler msg m)"
  using deliver_inv(1) [of m msg] deliver_inv(2) [of "snd (deliverRequest msg m)" msg]
  by (auto simp: mg_Handler_def split: prod.splits bool.splits)

datatype manager_event =
    MgReady session_ref string | MgGone string session_ref | MgInbound message
  | MgOpenPending string | MgOpenStream string | MgClosePending string | MgCloseStream string

fun mg_step :: "session_manager \<Rightarrow> manager_event \<Rightarrow> session_manager" where
  "mg_step m (MgReady s d) = mg_OnReady s d m"
| "mg_step m (MgGone d s) = snd (mg_UnregisterIf d s m)"
| "mg_step m (MgInbound msg) = mg_Handler msg m"
| "mg_step m (MgOpenPending rid) =
     (if mg_pending m rid = None then m\<lparr>mg_pending := (mg_pending m)(rid \<mapsto> None)\<rparr> else m)"
| "mg_step m (MgOpenStream rid) =
     (if mg_streamCh m rid = None then m\<lparr>mg_streamCh := (mg_streamCh m)(rid \<mapsto> None)\<rparr> else m)"
| "mg_step m (MgClosePending rid) = m\<lparr>mg_pending := (mg_pending m)(rid := None)\<rparr>"
| "mg_step m (MgCloseStream rid) = m\<lparr>mg_streamCh := (mg_streamCh m)(rid := None)\<rparr>"

lemma mg_step_inv: "mg_inv m \<Longrightarrow> mg_inv (mg_step m e)"
proof (cases e)
  case (MgInbound msg)
  then show "mg_inv m \<Longrightarrow> ?thesis" by (simp add: Handler_inv)
qed (auto simp: mg_inv_def mg_OnReady_def mg_UnregisterIf_def)

interpretation manager_runs: event_machine mg_step mg_inv
  by unfold_locales (rule mg_step_inv)

interpretation sessions_by_device: keyed_store mg_sessions
  "\<lambda>d s m. m\<lparr>mg_sessions := (mg_sessions m)(d \<mapsto> s)\<rparr>" mg_Unregister
  by unfold_locales (simp_all add: mg_Unregister_def)

text \<open>Inbound messages while a call waits: the first one for its request stays in the channel.\<close>

definition inbound :: "message list \<Rightarrow> session_manager \<Rightarrow> session_manager" where
  "inbound ms m = foldl (\<lambda>m msg. mg_Handler msg m) m ms"

definition first_reply :: "string \<Rightarrow> message list \<Rightarrow> message option" where
  "first_reply rid ms = find (\<lambda>msg. stream_reply_id msg = rid) ms"

lemma stream_reply_request: "stream_reply_id msg \<noteq> '''' \<Longrightarrow> requestIDOf msg = stream_reply_id msg"
  by (cases msg) simp_all

lemma Handler_stream:
  assumes "mg_pending m rid = None" and "rid \<noteq> ''''"
  shows "mg_pending (mg_Handler msg m) rid = None \<and>
    mg_streamCh (mg_Handler msg m) rid =
      (if stream_reply_id msg = rid \<and> mg_streamCh m rid = Some None then Some (Some msg)
       else mg_streamCh m rid)"
proof (cases "requestIDOf msg = rid")
  case True
  then have "deliverRequest msg m = (False, m)"
    using assms by (simp add: deliverRequest_def offer_def)
  then show ?thesis using assms
    by (auto simp: mg_Handler_def deliverStream_def offer_def split: option.splits)
next
  case False
  then have "stream_reply_id msg \<noteq> rid" using stream_reply_request assms(2) by metis
  with False assms show ?thesis
    by (auto simp: mg_Handler_def deliverRequest_def deliverStream_def offer_def
        split: option.splits prod.splits bool.splits)
qed

lemma inbound_stream:
  assumes "mg_pending m rid = None" and "rid \<noteq> ''''"
  shows "mg_pending (inbound ms m) rid = None \<and>
    (mg_streamCh m rid = Some None \<longrightarrow> mg_streamCh (inbound ms m) rid = Some (first_reply rid ms)) \<and>
    (\<forall>x. mg_streamCh m rid = Some (Some x) \<longrightarrow> mg_streamCh (inbound ms m) rid = Some (Some x))"
  using assms
proof (induction ms arbitrary: m)
  case Nil
  then show ?case by (simp add: inbound_def first_reply_def)
next
  case (Cons msg ms)
  note H = Handler_stream [OF Cons.prems, of msg]
  have "inbound (msg # ms) m = inbound ms (mg_Handler msg m)" by (simp add: inbound_def)
  with Cons.IH [of "mg_Handler msg m"] H Cons.prems show ?case by (auto simp: first_reply_def)
qed

section \<open>Properties\<close>

text \<open>A \<open>start_stream\<close> call returns the reply to its own request: of the messages that come in
  while it waits, the first stream reply or error that echoes its request identifier, and none
  other; without one it keeps waiting. The channel is gone afterwards, and a second call with the
  same identifier is refused while the first one waits.\<close>

theorem start_call_gets_its_reply:
  assumes "mg_sessions m dev \<noteq> None" and "mg_streamCh m (ss_RequestID r) = None"
    and "mg_pending m (ss_RequestID r) = None" and "ss_RequestID r \<noteq> ''''" and "ss_StreamID r \<noteq> ''''"
    and "SendStartStream (inbound ms) ReplyTaken dev (Some r) m = (res, m')"
  shows "res = map_option Inr (first_reply (ss_RequestID r) ms) \<and>
    (res \<noteq> None \<longrightarrow> mg_streamCh m' (ss_RequestID r) = None) \<and>
    (res = None \<longrightarrow> mg_sessions m' dev \<noteq> None \<longrightarrow>
      fst (SendStartStream d oc dev (Some r) m') = Some (Inl (Errorf ''control: duplicate await for request'')))"
proof -
  let ?m = "m\<lparr>mg_streamCh := (mg_streamCh m)(ss_RequestID r \<mapsto> None)\<rparr>"
  have "mg_streamCh (inbound ms ?m) (ss_RequestID r) = Some (first_reply (ss_RequestID r) ms)"
    using inbound_stream [of ?m "ss_RequestID r" ms] assms(3,4) by simp
  with assms show ?thesis
    by (cases "first_reply (ss_RequestID r) ms")
      (auto simp: SendStartStream_def await_stream_def await_result_def fail_def Let_def)
qed


text \<open>A stale connection cannot take down a reconnected device: when a device has registered a
  newer session, the end of the old one neither unregisters the device nor reports it as gone; only
  the end of the current session does.\<close>

theorem stale_session_is_ignored:
  assumes "dev \<noteq> ''''" and "old \<noteq> new"
  shows "mg_UnregisterIf dev old (mg_OnReady new dev (mg_OnReady old dev m)) =
      (False, mg_OnReady new dev (mg_OnReady old dev m)) \<and>
    mg_IsConnected (mg_OnReady new dev (mg_OnReady old dev m)) dev \<and>
    fst (mg_UnregisterIf dev new (mg_OnReady new dev m)) \<and>
    \<not> mg_IsConnected (snd (mg_UnregisterIf dev new (mg_OnReady new dev m))) dev"
  using assms by (simp add: mg_UnregisterIf_def mg_OnReady_def mg_IsConnected_def)

section \<open>Witnesses\<close>

definition demo_request :: start_stream where
  "demo_request = BuildStartStream ''req-1'' ''strm-1'' ''10.0.0.1'' 5000"

theorem start_call_gets_its_reply_witness:
  "fst (SendStartStream (inbound [Ping 1, StreamStarted ''req-0'' ''strm-1'', StreamStarted ''req-1'' ''strm-1'',
      StreamStopped ''req-1'' ''strm-1'' None]) ReplyTaken ''dev-1'' (Some demo_request)
      (mg_OnReady 0 ''dev-1'' NewSessionManager)) = Some (Inr (StreamStarted ''req-1'' ''strm-1''))"
  using start_call_gets_its_reply [OF _ _ _ _ _ surjective_pairing, of "mg_OnReady 0 ''dev-1'' NewSessionManager"
      "''dev-1''" demo_request]
  by (simp add: mg_OnReady_def NewSessionManager_def demo_request_def BuildStartStream_def
      NewStartStream_def first_reply_def)


theorem stale_session_is_ignored_witness:
  "fst (mg_UnregisterIf ''dev-1'' 0 (mg_OnReady 1 ''dev-1'' (mg_OnReady 0 ''dev-1'' NewSessionManager))) = False"
  using stale_session_is_ignored [of "''dev-1''" 0 1 NewSessionManager] by simp

end
