(* ===== verification/Persistence.thy ===== *)
theory Persistence
  imports Device_Registry
begin

text \<open>
  \<open>internal/persistence\<close>: the four SQLite tables and the statements the repositories run on
  them. A table is a map from its primary key to the other columns; a nullable column is an option.
  SQLite and its driver are third-party: what a nil \<open>[]byte\<close> is bound to is the parameter
  \<open>nil_blob\<close> (\<open>None\<close> is NULL), and a \<open>SELECT\<close> of a table gives its rows in the order
  \<open>ids\<close> the engine chooses. Statements other than these constraint failures succeed.
\<close>

section \<open>Tables\<close>

record device_row =
  rw_DisplayName :: string
  rw_Firmware :: string
  rw_Capabilities :: string
  rw_Hash :: bytes
  rw_Status :: string
  rw_LastSeen :: "int option"

record stream_row =
  rs_DeviceID :: string
  rs_SSRC :: u32
  rs_State :: string
  rs_Started :: "int option"
  rs_Reason :: string

record recording_row =
  rr_StreamID :: string
  rr_SampleRate :: int
  rr_Channels :: int
  rr_Codec :: string
  rr_Start :: int
  rr_End :: "int option"
  rr_Bytes :: int
  rr_Uri :: "string option"

record stats_row =
  rt_DeviceID :: string
  rt_PacketsSent :: u64
  rt_BytesSent :: u64
  rt_DurationMS :: u64
  rt_EncoderErrors :: u64
  rt_Extra :: "bytes option"

record database =
  db_devices :: "string \<rightharpoonup> device_row"
  db_streams :: "string \<rightharpoonup> stream_row"
  db_recordings :: "string \<rightharpoonup> recording_row"
  db_stats :: "string \<rightharpoonup> stats_row"

definition db_empty :: database where
  "db_empty = \<lparr>db_devices = Map.empty, db_streams = Map.empty, db_recordings = Map.empty,
     db_stats = Map.empty\<rparr>"

section \<open>Strings and times\<close>

definition UnixMilli :: "time \<Rightarrow> int" where
  "UnixMilli t = t div 1000000"

definition of_UnixMilli :: "int \<Rightarrow> time" where
  "of_UnixMilli n = n * 1000000"

definition null_time :: "time \<Rightarrow> int option" where
  "null_time t = (if t = time_zero then None else Some (UnixMilli t))"

definition time_of_null :: "int option \<Rightarrow> time" where
  "time_of_null n = (case n of Some i \<Rightarrow> of_UnixMilli i | None \<Rightarrow> time_zero)"

text \<open>\<open>strings.Join\<close> and \<open>strings.Split\<close> with a separator of one character.\<close>

fun strings_Join :: "string list \<Rightarrow> char \<Rightarrow> string" where
  "strings_Join [] sep = []"
| "strings_Join [s] sep = s"
| "strings_Join (s # ss) sep = s @ sep # strings_Join ss sep"

fun strings_Split :: "string \<Rightarrow> char \<Rightarrow> string list" where
  "strings_Split [] sep = [[]]"
| "strings_Split (c # cs) sep =
     (if c = sep then [] # strings_Split cs sep
      else (case strings_Split cs sep of
              w # ws \<Rightarrow> (c # w) # ws
            | [] \<Rightarrow> [[c]]))"

section \<open>Devices\<close>

definition ErrConstraint :: goerr where
  "ErrConstraint = Errorf ''NOT NULL constraint failed: devices.credential_hash''"

definition ErrNoRows :: goerr where
  "ErrNoRows = Errorf ''sql: no rows in result set''"

text \<open>The credential hash is a slice that may be nil (\<open>None\<close>).\<close>

definition DeviceRepo_Save ::
  "bytes option \<Rightarrow> device \<Rightarrow> bytes option \<Rightarrow> database \<Rightarrow> goerr option \<times> database" where
  "DeviceRepo_Save nil_blob d credHash db =
     (case (case credHash of Some h \<Rightarrow> Some h | None \<Rightarrow> nil_blob) of
        None \<Rightarrow> (Some ErrConstraint, db)
      | Some h \<Rightarrow>
          (None, db\<lparr>db_devices := (db_devices db)(dv_DeviceID d \<mapsto>
             \<lparr>rw_DisplayName = dv_DisplayName d, rw_Firmware = dv_Firmware d,
              rw_Capabilities = strings_Join (dv_Capabilities d) (CHR '',''), rw_Hash = h,
              rw_Status = dv_Status d, rw_LastSeen = null_time (dv_LastSeen d)\<rparr>)\<rparr>))"

definition device_of_row :: "string \<Rightarrow> device_row \<Rightarrow> device" where
  "device_of_row devID r =
     \<lparr>dv_DeviceID = devID, dv_DisplayName = rw_DisplayName r, dv_Firmware = rw_Firmware r,
      dv_Capabilities = (if rw_Capabilities r \<noteq> '''' then strings_Split (rw_Capabilities r) (CHR '','') else []),
      dv_Status = rw_Status r, dv_LastSeen = time_of_null (rw_LastSeen r), dv_Online = False\<rparr>"

definition DeviceRepo_Load :: "string \<Rightarrow> database \<Rightarrow> goerr + device \<times> bytes" where
  "DeviceRepo_Load devID db =
     (case db_devices db devID of
        None \<Rightarrow> Inl ErrNoRows
      | Some r \<Rightarrow> Inr (device_of_row devID r, rw_Hash r))"

definition DeviceRepo_CredHash :: "string \<Rightarrow> database \<Rightarrow> goerr + bytes" where
  "DeviceRepo_CredHash devID db =
     (case db_devices db devID of None \<Rightarrow> Inl ErrNoRows | Some r \<Rightarrow> Inr (rw_Hash r))"

definition DeviceRepo_LoadAll :: "string list \<Rightarrow> database \<Rightarrow> (device \<times> bytes) list" where
  "DeviceRepo_LoadAll ids db =
     List.map_filter (\<lambda>devID. map_option (\<lambda>r. (device_of_row devID r, rw_Hash r)) (db_devices db devID)) ids"

definition DeviceRepo_UpdateDisplayName :: "string \<Rightarrow> string \<Rightarrow> database \<Rightarrow> database" where
  "DeviceRepo_UpdateDisplayName devID name db =
     (case db_devices db devID of
        None \<Rightarrow> db
      | Some r \<Rightarrow> db\<lparr>db_devices := (db_devices db)(devID \<mapsto> r\<lparr>rw_DisplayName := name\<rparr>)\<rparr>)"

section \<open>Streams\<close>

definition StreamRepo_Save ::
  "string \<Rightarrow> string \<Rightarrow> string \<Rightarrow> string \<Rightarrow> u32 \<Rightarrow> time \<Rightarrow> database \<Rightarrow> database" where
  "StreamRepo_Save sid deviceID state reason ssrc started db =
     db\<lparr>db_streams := (db_streams db)(sid \<mapsto>
       (case db_streams db sid of
          None \<Rightarrow> \<lparr>rs_DeviceID = deviceID, rs_SSRC = ssrc, rs_State = state,
                   rs_Started = null_time started, rs_Reason = reason\<rparr>
        | Some r \<Rightarrow> r\<lparr>rs_State := state, rs_Reason := reason\<rparr>))\<rparr>"

definition StreamRepo_LoadAll :: "string list \<Rightarrow> database \<Rightarrow> (string \<times> stream_row) list" where
  "StreamRepo_LoadAll ids db = List.map_filter (\<lambda>sid. map_option (Pair sid) (db_streams db sid)) ids"

section \<open>Recordings\<close>

definition RecordingRepo_Create ::
  "string \<Rightarrow> string \<Rightarrow> int \<Rightarrow> int \<Rightarrow> string \<Rightarrow> time \<Rightarrow> database \<Rightarrow> goerr option \<times> database" where
  "RecordingRepo_Create recID sid sampleRate channels codec start db =
     (if db_recordings db recID \<noteq> None
      then (Some (Errorf ''UNIQUE constraint failed: recordings.recording_id''), db)
      else (None, db\<lparr>db_recordings := (db_recordings db)(recID \<mapsto>
             \<lparr>rr_StreamID = sid, rr_SampleRate = sampleRate, rr_Channels = channels,
              rr_Codec = codec, rr_Start = UnixMilli start, rr_End = None, rr_Bytes = 0, rr_Uri = None\<rparr>)\<rparr>))"

definition RecordingRepo_Finalize :: "string \<Rightarrow> time \<Rightarrow> int \<Rightarrow> string \<Rightarrow> database \<Rightarrow> database" where
  "RecordingRepo_Finalize recID end bytes uri db =
     (case db_recordings db recID of
        None \<Rightarrow> db
      | Some r \<Rightarrow> db\<lparr>db_recordings := (db_recordings db)(recID \<mapsto>
          r\<lparr>rr_End := Some (UnixMilli end), rr_Bytes := bytes, rr_Uri := Some uri\<rparr>)\<rparr>)"

section \<open>Device statistics\<close>

definition stats_put :: "string \<Rightarrow> stats_row \<Rightarrow> database \<Rightarrow> database" where
  "stats_put sid row db = db\<lparr>db_stats := (db_stats db)(sid \<mapsto> row)\<rparr>"

text \<open>\<open>database/sql\<close> refuses a \<open>uint64\<close> with the high bit set as a parameter.\<close>

definition stats_storable :: "stats_row \<Rightarrow> bool" where
  "stats_storable row \<longleftrightarrow>
     (\<forall>n\<in>{rt_PacketsSent row, rt_BytesSent row, rt_DurationMS row, rt_EncoderErrors row}. unat n < 2 ^ 63)"

definition DeviceStatsRepo_Save :: "string \<Rightarrow> stats_row \<Rightarrow> database \<Rightarrow> goerr option \<times> database" where
  "DeviceStatsRepo_Save sid row db =
     (if stats_storable row then (None, stats_put sid row db)
      else (Some (Errorf ''uint64 values with high bit set are not supported''), db))"

definition DeviceStatsRepo_Load :: "string \<Rightarrow> database \<Rightarrow> goerr + stats_row" where
  "DeviceStatsRepo_Load sid db = (case db_stats db sid of None \<Rightarrow> Inl ErrNoRows | Some r \<Rightarrow> Inr r)"

section \<open>Lemmas\<close>

lemma Split_not_Nil: "strings_Split s sep \<noteq> []"
  by (induction s sep rule: strings_Split.induct) (auto split: list.splits)

lemma Split_word: "sep \<notin> set w \<Longrightarrow> strings_Split w sep = [w]"
  by (induction w) auto

lemma Split_word_sep: "sep \<notin> set w \<Longrightarrow> strings_Split (w @ sep # rest) sep = w # strings_Split rest sep"
  by (induction w) auto

lemma Split_Join:
  "ss \<noteq> [] \<Longrightarrow> \<forall>s\<in>set ss. sep \<notin> set s \<Longrightarrow> strings_Split (strings_Join ss sep) sep = ss"
  by (induction ss sep rule: strings_Join.induct) (simp_all add: Split_word Split_word_sep)

lemma Join_Nil_iff: "strings_Join ss sep = [] \<longleftrightarrow> ss = [] \<or> ss = [[]]"
  by (induction ss sep rule: strings_Join.induct) auto

interpretation stats_by_stream: keyed_store db_stats stats_put
  "\<lambda>sid db. db\<lparr>db_stats := (db_stats db)(sid := None)\<rparr>"
  by unfold_locales (simp_all add: stats_put_def)

section \<open>Properties\<close>

text \<open>A saved device loads back: every column as saved, the capabilities included when no name
  has a comma, the last-seen time to the millisecond; the row of no other device changes. A nil
  credential hash is stored only if the driver does not bind it to NULL, which the table refuses.\<close>

theorem saved_device_loads_back:
  assumes "\<forall>c\<in>set (dv_Capabilities d). CHR '','' \<notin> set c" and "dv_Capabilities d \<noteq> ['''']"
    and "\<not> dv_Online d" and "dv_LastSeen d mod 1000000 = 0"
    and "DeviceRepo_Save nil_blob d hash db = (e, db')"
  shows "(case hash of
       Some h \<Rightarrow> e = None \<and> DeviceRepo_Load (dv_DeviceID d) db' = Inr (d, h)
     | None \<Rightarrow> nil_blob = None \<longrightarrow> e \<noteq> None \<and> db' = db) \<and>
    (k \<noteq> dv_DeviceID d \<longrightarrow> DeviceRepo_Load k db' = DeviceRepo_Load k db)"
proof -
  have "time_of_null (null_time (dv_LastSeen d)) = dv_LastSeen d"
    using assms(4) by (auto simp: null_time_def time_of_null_def UnixMilli_def of_UnixMilli_def)
  moreover have "(if strings_Join (dv_Capabilities d) (CHR '','') \<noteq> ''''
      then strings_Split (strings_Join (dv_Capabilities d) (CHR '','')) (CHR '','') else []) = dv_Capabilities d"
    using assms(1,2) Split_Join [of "dv_Capabilities d" "CHR '',''"] by (auto simp: Join_Nil_iff)
  ultimately show ?thesis
    using assms(3,5)
    by (cases d; cases hash; cases nil_blob) (auto simp: DeviceRepo_Save_def DeviceRepo_Load_def device_of_row_def)
qed

text \<open>Saving a stream again changes its state and reason only: the device, the source and the
  start time stay those of the first save, whatever the later calls pass, over any number of
  saves.\<close>

theorem stream_keeps_first_start:
  assumes "db_streams db sid = None" and "db1 = StreamRepo_Save sid dev st rs ssrc t0 db"
  shows "\<exists>r. db_streams (foldl (\<lambda>db (d, s, q, x, t). StreamRepo_Save sid d s q x t db) db1 later) sid = Some r \<and>
    rs_DeviceID r = dev \<and> rs_SSRC r = ssrc \<and> rs_Started r = null_time t0 \<and>
    (rs_State r, rs_Reason r) = (if later = [] then (st, rs) else (case last later of (d, s, q, x, t) \<Rightarrow> (s, q)))"
proof (induction later rule: rev_induct)
  case Nil
  then show ?case using assms by (simp add: StreamRepo_Save_def)
next
  case (snoc e later)
  obtain d s q x t where "e = (d, s, q, x, t)" by (metis prod_cases5)
  with snoc show ?case by (auto simp: StreamRepo_Save_def)
qed

section \<open>Witnesses\<close>

definition demo_stored_device :: device where
  "demo_stored_device = \<lparr>dv_DeviceID = ''dev-1'', dv_DisplayName = ''mic'', dv_Firmware = ''1.0'',
     dv_Capabilities = [''opus'', ''fec''], dv_Status = ''offline'', dv_LastSeen = 3000000, dv_Online = False\<rparr>"

theorem saved_device_loads_back_witness:
  "DeviceRepo_Load ''dev-1'' (snd (DeviceRepo_Save None demo_stored_device (Some [7]) db_empty)) =
     Inr (demo_stored_device, [7])"
  using saved_device_loads_back [OF _ _ _ _ surjective_pairing, of demo_stored_device None "Some [7]" db_empty]
  by (simp add: demo_stored_device_def)

theorem stream_keeps_first_start_witness:
  "\<exists>r. db_streams (StreamRepo_Save ''s'' ''d'' ''COMPLETE'' '''' 0 9000000
      (StreamRepo_Save ''s'' ''d'' ''STARTING'' '''' 0 5000000 db_empty)) ''s'' = Some r \<and>
    rs_Started r = Some 5 \<and> rs_State r = ''COMPLETE''"
  using stream_keeps_first_start [of db_empty "''s''" _ "''d''" "''STARTING''" "''''" 0 5000000
      "[(''d'', ''COMPLETE'', '''', 0, 9000000)]", OF _ refl]
  by (fastforce simp: db_empty_def null_time_def time_zero_def UnixMilli_def)

end
