(* ===== verification/Server.thy ===== *)
theory Server
  imports Config Receiver Worker Wav_Recorder Opus_Recorder Stream_Lifecycle Session_Manager Persistence
begin

text \<open>
  \<open>internal/server/server.go\<close>: the state of the server, which owns every component, and its
  handlers. Objects reached through pointers (streams, recorders, live outputs, workers) live in
  heaps of the state. A handler is one step; while \<open>StartStream\<close> or \<open>StopStream\<close> waits for the
  device, \<open>others\<close> is what the rest of the server does and \<open>during\<close> what happens in the session
  manager. What a call is told from outside (clock, random bytes, sockets, files) is the record
  \<open>outside\<close>; its \<open>i\<close>-th entries answer the \<open>i\<close>-th question of the handler.
\<close>

section \<open>Standard library\<close>

text \<open>\<open>fmt.Sprintf("%x", b)\<close>, and \<open>net.SplitHostPort\<close>, of which only the host and whether it
  failed are used.\<close>

definition hex_digit :: "nat \<Rightarrow> char" where
  "hex_digit d = (if d < 10 then char_of (48 + d) else char_of (87 + d))"

definition hex :: "bytes \<Rightarrow> string" where
  "hex bs = concat (map (\<lambda>b. [hex_digit (unat b div 16), hex_digit (unat b mod 16)]) bs)"

fun index_of :: "char \<Rightarrow> string \<Rightarrow> nat option" where
  "index_of c [] = None"
| "index_of c (x # xs) = (if x = c then Some 0 else map_option Suc (index_of c xs))"

definition last_index_of :: "char \<Rightarrow> string \<Rightarrow> nat option" where
  "last_index_of c s = map_option (\<lambda>i. length s - 1 - i) (index_of c (rev s))"

definition SplitHost :: "string \<Rightarrow> string option" where
  "SplitHost hp =
     (case last_index_of (CHR '':'') hp of
        None \<Rightarrow> None
      | Some i \<Rightarrow>
          if hd hp = CHR ''['' then
            (case index_of (CHR '']'') hp of
               None \<Rightarrow> None
             | Some e \<Rightarrow>
                 if Suc e \<noteq> i \<or> CHR ''['' \<in> set (drop 1 hp) \<or> CHR '']'' \<in> set (drop (Suc e) hp) then None
                 else Some (take (e - 1) (drop 1 hp)))
          else if CHR '':'' \<in> set (take i hp) \<or> CHR ''['' \<in> set hp \<or> CHR '']'' \<in> set hp then None
          else Some (take i hp))"

text \<open>\<open>time.Duration(n) * unit\<close> wraps at 64 bits; \<open>Duration.Seconds\<close>.\<close>

definition times_unit :: "int \<Rightarrow> int \<Rightarrow> duration" where
  "times_unit n unit = sint (word_of_int (n * unit) :: u64)"

definition Seconds :: "duration \<Rightarrow> rat" where
  "Seconds d =
     (let sec = quot d 1000000000; nsec = d - sec * 1000000000
      in f64_add (f64_of_int sec) (f64_div (f64_of_int nsec) 1000000000))"

section \<open>State\<close>

type_synonym rec_ref = nat

datatype rec_object = WavRec recorder | OpusRec opus_recorder

record 'd running_worker =
  wk_worker :: "'d worker"
  wk_binding :: binding_ref
  wk_ctx :: worker_ctx
  wk_returned :: bool

record 'd server =
  sv_cfg :: config
  sv_db :: database
  sv_device :: device_registry
  sv_stream :: stream_registry
  sv_streamHeap :: stream_heap
  sv_rtp :: receiver
  sv_bus :: pcm_bus
  sv_ctrl :: session_manager
  sv_recordings :: "string \<rightharpoonup> rec_ref"
  sv_recHeap :: "rec_ref \<rightharpoonup> rec_object"
  sv_live :: "listener \<rightharpoonup> live_output"
  sv_workers :: "worker_handle \<rightharpoonup> 'd running_worker"
  sv_opusTarget :: "rec_ref option"
  sv_lastStats :: "string \<rightharpoonup> stats"
  sv_lastBitrate :: "string \<rightharpoonup> u64"
  sv_lastBitrateT :: "string \<rightharpoonup> time"
  sv_deviceStats :: "string \<rightharpoonup> stopped_stats"
  sv_next :: nat

text \<open>\<open>sv_opusTarget\<close> is the recorder the \<open>onCompressed\<close> callback captured. The metrics object is
  shared by pointer; it is kept in the receiver. \<open>sv_next\<close> is a fresh address.\<close>

definition sv_New :: "config \<Rightarrow> database \<Rightarrow> 'd server" where
  "sv_New cfg db =
     \<lparr>sv_cfg = cfg, sv_db = db, sv_device = dr_New, sv_stream = reg_New, sv_streamHeap = Map.empty,
      sv_rtp = NewReceiver (Some m_New), sv_bus = NewPCMBus, sv_ctrl = NewSessionManager,
      sv_recordings = Map.empty, sv_recHeap = Map.empty, sv_live = Map.empty, sv_workers = Map.empty,
      sv_opusTarget = None, sv_lastStats = Map.empty, sv_lastBitrate = Map.empty,
      sv_lastBitrateT = Map.empty, sv_deviceStats = Map.empty, sv_next = 0\<rparr>"

record outside =
  ou_clock :: "nat \<Rightarrow> time"
  ou_order :: "string list"
  ou_random :: "nat \<Rightarrow> bytes"
  ou_listen :: "string \<Rightarrow> goerr + int"
  ou_addr :: "session_ref \<Rightarrow> (string \<times> bool) option"
  ou_mkdir :: "nat \<Rightarrow> goerr option"
  ou_create :: "nat \<Rightarrow> goerr + nat"
  ou_join :: "string list \<Rightarrow> string"
  ou_grow :: "nat \<Rightarrow> nat"

definition newStreamID :: "bytes \<Rightarrow> string" where
  "newStreamID b = ''strm-'' @ hex b"

definition newRequestID :: "bytes \<Rightarrow> string" where
  "newRequestID b = ''req-'' @ hex b"

section \<open>Access to the components\<close>

definition on_metrics :: "(metrics \<Rightarrow> metrics) \<Rightarrow> 'd server \<Rightarrow> 'd server" where
  "on_metrics f s = s\<lparr>sv_rtp := (sv_rtp s)\<lparr>rc_metrics := map_option f (rc_metrics (sv_rtp s))\<rparr>\<rparr>"

definition sv_metrics :: "'d server \<Rightarrow> metrics" where
  "sv_metrics s = (case rc_metrics (sv_rtp s) of Some m \<Rightarrow> m | None \<Rightarrow> m_New)"

definition on_stream :: "stream_ref \<Rightarrow> (stream \<Rightarrow> stream) \<Rightarrow> 'd server \<Rightarrow> 'd server" where
  "on_stream p f s =
     (case sv_streamHeap s p of
        None \<Rightarrow> s
      | Some st \<Rightarrow> s\<lparr>sv_streamHeap := (sv_streamHeap s)(p \<mapsto> f st)\<rparr>)"

definition save_stream ::
  "string \<Rightarrow> string \<Rightarrow> stream_state \<Rightarrow> failure_reason \<Rightarrow> u32 \<Rightarrow> time \<Rightarrow> 'd server \<Rightarrow> 'd server" where
  "save_stream sid dev st rs ssrc t s =
     s\<lparr>sv_db := StreamRepo_Save sid dev (state_string st) (reason_string rs) ssrc t (sv_db s)\<rparr>"

definition remove_stream :: "string \<Rightarrow> 'd server \<Rightarrow> 'd server" where
  "remove_stream sid s = s\<lparr>sv_stream := reg_Remove sid (sv_stream s)\<rparr>"

definition cancel_worker :: "worker_handle option \<Rightarrow> 'd server \<Rightarrow> 'd server" where
  "cancel_worker h s =
     (case h of
        None \<Rightarrow> s
      | Some w \<Rightarrow> s\<lparr>sv_workers := (sv_workers s)(w := map_option (\<lambda>k. k\<lparr>wk_ctx := (wk_ctx k)\<lparr>wc_parentDone := True\<rparr>\<rparr>) (sv_workers s w))\<rparr>)"

definition close_rtp :: "string \<Rightarrow> 'd server \<Rightarrow> 'd server" where
  "close_rtp sid s =
     (case rc_CloseStream sid (sv_rtp s) of (h, r) \<Rightarrow> cancel_worker h (s\<lparr>sv_rtp := r\<rparr>))"

definition drop_tracking :: "string \<Rightarrow> 'd server \<Rightarrow> 'd server" where
  "drop_tracking sid s =
     s\<lparr>sv_lastStats := (sv_lastStats s)(sid := None), sv_lastBitrate := (sv_lastBitrate s)(sid := None),
       sv_lastBitrateT := (sv_lastBitrateT s)(sid := None)\<rparr>"

section \<open>Recorders\<close>

fun rec_Finalize :: "time \<Rightarrow> rec_object \<Rightarrow> (string \<times> int \<times> goerr option) \<times> rec_object" where
  "rec_Finalize t (WavRec r) = (case wr_Finalize t r of (res, r') \<Rightarrow> (res, WavRec r'))"
| "rec_Finalize t (OpusRec r) = (case or_Finalize t r of (res, r') \<Rightarrow> (res, OpusRec r'))"

text \<open>The type assertion to \<open>PCMListener\<close>: only the WAV recorder has \<open>OnPCM\<close>.\<close>

fun is_listener :: "rec_object \<Rightarrow> bool" where
  "is_listener (WavRec r) = True"
| "is_listener (OpusRec r) = False"

text \<open>\<open>rec.Finalize\<close> on the recorder at an address and the update of its row.\<close>

definition finalize_object :: "time \<Rightarrow> string \<Rightarrow> rec_ref \<Rightarrow> 'd server \<Rightarrow> 'd server" where
  "finalize_object t recID ref s =
     (case sv_recHeap s ref of
        None \<Rightarrow> s
      | Some obj \<Rightarrow>
          (case rec_Finalize t obj of
             ((uri, n, Some e), obj') \<Rightarrow> s\<lparr>sv_recHeap := (sv_recHeap s)(ref \<mapsto> obj')\<rparr>
           | ((uri, n, None), obj') \<Rightarrow>
               s\<lparr>sv_recHeap := (sv_recHeap s)(ref \<mapsto> obj'),
                 sv_db := RecordingRepo_Finalize recID t n uri (sv_db s)\<rparr>))"

definition finalizeRecorder :: "time \<Rightarrow> string \<Rightarrow> 'd server \<Rightarrow> 'd server" where
  "finalizeRecorder t sid s =
     (case sv_recordings s sid of
        None \<Rightarrow> s
      | Some ref \<Rightarrow>
          (let s1 = s\<lparr>sv_recordings := (sv_recordings s)(sid := None)\<rparr>;
               s2 = (if map_option is_listener (sv_recHeap s1 ref) = Some True
                     then s1\<lparr>sv_bus := bus_Unsubscribe ref (sv_bus s1)\<rparr> else s1)
           in finalize_object t (sid @ ''-rec'') ref s2))"

definition finalizeOpusRecorder :: "time \<Rightarrow> string \<Rightarrow> 'd server \<Rightarrow> 'd server" where
  "finalizeOpusRecorder t sid s =
     (let s1 = s\<lparr>sv_recordings := (sv_recordings s)(sid @ ''-opus'' := None)\<rparr>
      in case sv_recordings s (sid @ ''-opus'') of
           None \<Rightarrow> s1
         | Some ref \<Rightarrow> finalize_object t (sid @ ''-opus'') ref s1)"

definition cleanupStreamByID :: "(nat \<Rightarrow> time) \<Rightarrow> string \<Rightarrow> 'd server \<Rightarrow> 'd server" where
  "cleanupStreamByID clk sid s =
     drop_tracking sid (finalizeOpusRecorder (clk 1) sid (finalizeRecorder (clk 0) sid
       (remove_stream sid (close_rtp sid s))))"

end
