(* ===== verification/Server_Handlers.thy ===== *)
theory Server_Handlers
  imports Server
begin

text \<open>
  \<open>internal/server/server.go\<close>: starting and stopping a stream, the life of a control session, the
  data path of the packets, and the monitor.
\<close>

section \<open>StartStream\<close>

record recording_config =
  rg_Enabled :: bool
  rg_Format :: string

text \<open>The stream of the device that is still live is replaced.\<close>

definition replace_existing :: "outside \<Rightarrow> string \<Rightarrow> 'd server \<Rightarrow> 'd server" where
  "replace_existing ou dev s =
     (case reg_GetByDevice (ou_order ou) (sv_streamHeap s) dev (sv_stream s) of
        None \<Rightarrow> s
      | Some p \<Rightarrow>
          (case sv_streamHeap s p of
             None \<Rightarrow> s
           | Some st \<Rightarrow>
               (let sid = sm_StreamID st
                in save_stream sid dev StateComplete FailureReplaced 0 (ou_clock ou 2)
                     (drop_tracking sid (remove_stream sid
                       (finalizeOpusRecorder (ou_clock ou 1) sid (finalizeRecorder (ou_clock ou 0) sid
                         (close_rtp sid (on_stream p (\<lambda>st. snd (sm_ForceComplete st)) s)))))))))"

definition timeouts :: "config \<Rightarrow> timeout_config" where
  "timeouts cfg =
     (let disappear = times_unit (cf_RTPDisappearTimeoutS cfg) 1000000000;
          disappear = (if disappear \<le> 0 then DefaultRTPDisappearTimeout else disappear)
      in \<lparr>RTPWait = times_unit (cf_RTPWaitTimeoutS cfg) 1000000000, RTPDisappear = disappear\<rparr>)"

text \<open>The new stream in CREATED, filed in the registry, then WAITING_FOR_DEVICE and STARTING.\<close>

definition new_stream :: "outside \<Rightarrow> config \<Rightarrow> string \<Rightarrow> string \<Rightarrow> stream" where
  "new_stream ou cfg sid dev =
     snd (sm_DeviceCommandSent (snd (sm_Start (ou_clock ou 4)
       (WithTimeoutConfig (timeouts cfg) (stream_New sid dev 0 (ou_clock ou 3))))))"

definition add_stream :: "outside \<Rightarrow> string \<Rightarrow> string \<Rightarrow> 'd server \<Rightarrow> 'd server" where
  "add_stream ou sid dev s =
     (let st = new_stream ou (sv_cfg s) sid dev
      in save_stream sid dev StateStarting FailureNone 0 (sm_StartedAt st)
           (s\<lparr>sv_streamHeap := (sv_streamHeap s)(sv_next s \<mapsto> st),
              sv_stream := reg_Add sid (sv_next s) (sv_stream s), sv_next := Suc (sv_next s)\<rparr>))"

definition server_ip :: "outside \<Rightarrow> string \<Rightarrow> 'd server \<Rightarrow> string" where
  "server_ip ou dev s =
     (if cf_AdvertiseHost (sv_cfg s) \<noteq> '''' then cf_AdvertiseHost (sv_cfg s)
      else case mg_LocalIP (ou_addr ou) (sv_ctrl s) dev of
          (ip, True) \<Rightarrow> ip
        | (ip, False) \<Rightarrow>
            if cf_ControlAddr (sv_cfg s) \<noteq> '''' then
              (case SplitHost (cf_ControlAddr (sv_cfg s)) of
                 Some host \<Rightarrow> if host \<noteq> '''' \<and> host \<noteq> ''0.0.0.0'' \<and> host \<noteq> ''::'' then host else ''127.0.0.1''
               | None \<Rightarrow> ''127.0.0.1'')
            else ''127.0.0.1'')"

definition start_request :: "outside \<Rightarrow> string \<Rightarrow> u16 \<Rightarrow> string \<Rightarrow> 'd server \<Rightarrow> start_stream" where
  "start_request ou sid port dev s =
     (let destPort = (if cf_AdvertiseRTPPort (sv_cfg s) > 0
                      then word_of_int (cf_AdvertiseRTPPort (sv_cfg s)) else port)
      in NewStartStream (newRequestID (ou_random ou 1)) sid
           \<lparr>ds_IP = server_ip ou dev s, ds_Port = destPort\<rparr>
           \<lparr>cd_Name = ''opus'', cd_SampleRate = 48000, cd_Channels = 2, cd_FrameMS = 20,
            cd_Bitrate = 128000, cd_VBR = True, cd_FEC = False, cd_DTX = False, cd_Complexity = 0\<rparr>
           DefaultPayloadType)"

definition start_worker :: "'d \<Rightarrow> string \<Rightarrow> binding_ref \<Rightarrow> 'd server \<Rightarrow> 'd server" where
  "start_worker dec sid b s =
     s\<lparr>sv_workers := (sv_workers s)(sv_next s \<mapsto>
         \<lparr>wk_worker = NewWorker sid dec (rc_metrics (sv_rtp s)) True, wk_binding = b, wk_ctx = worker_derive worker_ctx_New, wk_returned = False\<rparr>),
       sv_rtp := rc_SetOnPacket True (rc_SetWorkerCancel sid (Some (sv_next s)) (sv_rtp s)),
       sv_next := Suc (sv_next s)\<rparr>"

definition add_recorder :: "string \<Rightarrow> string \<Rightarrow> string \<Rightarrow> string \<Rightarrow> time \<Rightarrow> rec_object \<Rightarrow> 'd server \<Rightarrow> 'd server" where
  "add_recorder key recID sid format t obj s =
     s\<lparr>sv_recHeap := (sv_recHeap s)(sv_next s \<mapsto> obj),
       sv_recordings := (sv_recordings s)(key \<mapsto> sv_next s),
       sv_db := snd (RecordingRepo_Create recID sid 48000 2 format t (sv_db s)),
       sv_next := Suc (sv_next s)\<rparr>"

definition start_wav :: "outside \<Rightarrow> recording_config \<Rightarrow> string \<Rightarrow> 'd server \<Rightarrow> 'd server" where
  "start_wav ou rg sid s =
     (if \<not> rg_Enabled rg then s
      else
        (let format = (if rg_Format rg = '''' then ''wav'' else rg_Format rg)
         in if format \<noteq> ''wav'' then s
            else case NewRecorder (ou_mkdir ou 0) format (cf_RecordingsDir (sv_cfg s)) sid 48000 2 of
                Inl e \<Rightarrow> s
              | Inr r \<Rightarrow>
                  (case wr_Begin (ou_join ou) (ou_create ou 0) (ou_clock ou 6) r of
                     (Some e, r') \<Rightarrow> s
                   | (None, r') \<Rightarrow>
                       add_recorder sid (sid @ ''-rec'') sid ''wav'' (ou_clock ou 7) (WavRec r')
                         (s\<lparr>sv_bus := bus_Subscribe (ou_grow ou) (sv_next s) (sv_bus s)\<rparr>))))"

definition start_opus :: "outside \<Rightarrow> string \<Rightarrow> 'd server \<Rightarrow> 'd server" where
  "start_opus ou sid s =
     (case NewOpusRecorder (ou_mkdir ou 1) (ou_create ou 1) (ou_clock ou 8)
             (cf_RecordingsDir (sv_cfg s)) sid 48000 2 312 of
        Inl e \<Rightarrow> s
      | Inr r \<Rightarrow>
          add_recorder (sid @ ''-opus'') (sid @ ''-opus'') sid ''opus'' (ou_clock ou 9) (OpusRec r)
            (s\<lparr>sv_rtp := rc_SetOnCompressed True (sv_rtp s), sv_opusTarget := Some (sv_next s)\<rparr>))"

type_synonym start_result = "goerr + string \<times> u16 \<times> stream_state"

definition reject_stream :: "time \<Rightarrow> string \<Rightarrow> string \<Rightarrow> 'd server \<Rightarrow> 'd server" where
  "reject_stream t sid dev s =
     save_stream sid dev StateFailed FailureStartRejected 0 t (remove_stream sid (close_rtp sid s))"

text \<open>The reply \<open>stream_started\<close>; \<open>p\<close> is the address of the stream, \<open>dec\<close> the new decoder.\<close>

definition stream_accepted ::
  "outside \<Rightarrow> 'd \<Rightarrow> recording_config \<Rightarrow> string \<Rightarrow> string \<Rightarrow> stream_ref \<Rightarrow> u16 \<Rightarrow> 'd server \<Rightarrow>
     start_result \<times> 'd server" where
  "stream_accepted ou dec rg sid dev p port s =
     (let s1 = on_stream p (\<lambda>st. snd (sm_StreamStarted (ou_clock ou 5) st)) s;
          started = (case sv_streamHeap s1 p of Some st \<Rightarrow> sm_StartedAt st | None \<Rightarrow> time_zero);
          s2 = save_stream sid dev StateRTPWait FailureNone 0 started s1
      in case rc_GetStreamBinding (sv_rtp s2) sid of
           None \<Rightarrow> (Inl (Errorf ''stream binding not found after start''),
                    reject_stream (ou_clock ou 10) sid dev s2)
         | Some b \<Rightarrow>
             (let s3 = start_opus ou sid (start_wav ou rg sid (start_worker dec sid b s2))
              in (Inr (sid, port, (case sv_streamHeap s3 p of Some st \<Rightarrow> sm_state st | None \<Rightarrow> StateCreated)), s3)))"

text \<open>The call up to sending the request, in the three parts between which other calls can come:
  \<open>GetByDevice\<close> and the replacement, \<open>Bind\<close>, and filing the stream. No lock is held across them.\<close>

definition start_lookup :: "outside \<Rightarrow> string \<Rightarrow> 'd server \<Rightarrow> goerr option \<times> 'd server" where
  "start_lookup ou dev s =
     (case dr_Get (sv_device s) dev of
        Inl e \<Rightarrow> (Some (Wrap ''device not found'' e), s)
      | Inr d \<Rightarrow> (None, replace_existing ou dev s))"

definition start_bind :: "outside \<Rightarrow> 'd server \<Rightarrow> (goerr + u16) \<times> 'd server" where
  "start_bind ou s =
     (case rc_Bind (ou_listen ou) (newStreamID (ou_random ou 0)) DefaultPayloadType
             (times_unit (cf_JitterTargetMS (sv_cfg s)) 1000000) (cf_RTPBindPort (sv_cfg s)) (sv_rtp s) of
        (Inl e, r) \<Rightarrow> (Inl (Wrap ''bind RTP'' e), s\<lparr>sv_rtp := r\<rparr>)
      | (Inr port, r) \<Rightarrow> (Inr port, s\<lparr>sv_rtp := r\<rparr>))"

definition start_register :: "outside \<Rightarrow> string \<Rightarrow> 'd server \<Rightarrow> stream_ref \<times> 'd server" where
  "start_register ou dev s = (sv_next s, add_stream ou (newStreamID (ou_random ou 0)) dev s)"

text \<open>The three in a row: the port bound and the address of the stream.\<close>

definition start_begin ::
  "outside \<Rightarrow> string \<Rightarrow> 'd server \<Rightarrow> (goerr + u16 \<times> stream_ref) \<times> 'd server" where
  "start_begin ou dev s0 =
     (case start_lookup ou dev s0 of
        (Some e, s1) \<Rightarrow> (Inl e, s1)
      | (None, s1) \<Rightarrow>
          (case start_bind ou s1 of
             (Inl e, s2) \<Rightarrow> (Inl e, s2)
           | (Inr port, s2) \<Rightarrow> (case start_register ou dev s2 of (p, s3) \<Rightarrow> (Inr (port, p), s3))))"

lemmas start_begin_defs = start_begin_def start_lookup_def start_bind_def start_register_def

text \<open>What it does with the outcome of the request.\<close>

definition start_finish ::
  "outside \<Rightarrow> 'd \<Rightarrow> recording_config \<Rightarrow> string \<Rightarrow> u16 \<Rightarrow> stream_ref \<Rightarrow> goerr + message \<Rightarrow> 'd server \<Rightarrow>
     start_result \<times> 'd server" where
  "start_finish ou dec rg dev port p reply s =
     (let sid = newStreamID (ou_random ou 0);
          reject = reject_stream (ou_clock ou 10) sid dev;
          rejected = on_stream p (\<lambda>st. snd (sm_DeviceRejected FailureStartRejected st))
      in case reply of
           Inl e \<Rightarrow> (Inl (Wrap ''send start_stream'' e), reject s)
         | Inr (StreamStarted _ _) \<Rightarrow> stream_accepted ou dec rg sid dev p port s
         | Inr (ErrorMsg em) \<Rightarrow>
             (Inl (Errorf (''device rejected start_stream: '' @ er_Message em)), reject (rejected s))
         | Inr _ \<Rightarrow> (Inl (Errorf ''unexpected reply type''), reject (rejected s)))"

text \<open>The whole call; \<open>None\<close> while it waits for the device.\<close>

definition sv_StartStream ::
  "outside \<Rightarrow> (session_manager \<Rightarrow> session_manager) \<Rightarrow> ('d server \<Rightarrow> 'd server) \<Rightarrow> await_outcome \<Rightarrow> 'd \<Rightarrow>
     string \<Rightarrow> recording_config \<Rightarrow> 'd server \<Rightarrow> start_result option \<times> 'd server" where
  "sv_StartStream ou during others oc dec dev rg s0 =
     (case start_begin ou dev s0 of
        (Inl e, s1) \<Rightarrow> (Some (Inl e), s1)
      | (Inr (port, p), s1) \<Rightarrow>
          (case SendStartStream during oc dev
                  (Some (start_request ou (newStreamID (ou_random ou 0)) port dev s1)) (sv_ctrl s1) of
             (None, m) \<Rightarrow> (None, (others s1)\<lparr>sv_ctrl := m\<rparr>)
           | (Some reply, m) \<Rightarrow>
               (case start_finish ou dec rg dev port p reply ((others s1)\<lparr>sv_ctrl := m\<rparr>) of
                  (res, s2) \<Rightarrow> (Some res, s2))))"

section \<open>StopStream\<close>

definition stats_row_of :: "(json \<Rightarrow> goerr + bytes) \<Rightarrow> string \<Rightarrow> stopped_stats \<Rightarrow> stats_row" where
  "stats_row_of marshal dev st =
     \<lparr>rt_DeviceID = dev, rt_PacketsSent = sp_PacketsSent st, rt_BytesSent = sp_BytesSent st,
      rt_DurationMS = sp_DurationMS st, rt_EncoderErrors = sp_EncoderErrors st,
      rt_Extra = (if sp_Extra st \<noteq> []
                  then (case marshal (JObj (sp_Extra st)) of Inr b \<Rightarrow> Some b | Inl e \<Rightarrow> None) else None)\<rparr>"

definition keep_final_stats ::
  "(json \<Rightarrow> goerr + bytes) \<Rightarrow> string \<Rightarrow> string \<Rightarrow> stopped_stats option \<Rightarrow> 'd server \<Rightarrow> 'd server" where
  "keep_final_stats marshal sid dev stats s =
     (case stats of
        None \<Rightarrow> s
      | Some st \<Rightarrow>
          s\<lparr>sv_deviceStats := (sv_deviceStats s)(sid \<mapsto> st),
            sv_db := snd (DeviceStatsRepo_Save sid (stats_row_of marshal dev st) (sv_db s))\<rparr>)"

definition stop_begin :: "string \<Rightarrow> 'd server \<Rightarrow> (goerr + string \<times> stream_ref) \<times> 'd server" where
  "stop_begin sid s =
     (case reg_Get (sv_stream s) sid of
        Inl e \<Rightarrow> (Inl e, s)
      | Inr p \<Rightarrow>
          (case sv_streamHeap s p of
             None \<Rightarrow> (Inl (Sentinel ErrStreamNotFound), s)
           | Some st \<Rightarrow>
               if sm_state st \<noteq> StateActive then (Inl (Errorf ''stream not active''), s)
               else (Inr (sm_DeviceID st, p), on_stream p (\<lambda>st. snd (sm_StopRequested st)) s)))"

definition stop_finish ::
  "outside \<Rightarrow> (json \<Rightarrow> goerr + bytes) \<Rightarrow> string \<Rightarrow> string \<Rightarrow> stream_ref \<Rightarrow> goerr + message \<Rightarrow> 'd server \<Rightarrow>
     goerr option \<times> 'd server" where
  "stop_finish ou marshal sid dev p reply s =
     (let stopped = on_stream p (\<lambda>st. snd (sm_Stopped st));
          finalized = finalizeRecorder (ou_clock ou 0) sid;
          save = (\<lambda>st rs. save_stream sid dev st rs 0 (ou_clock ou 1))
      in case reply of
           Inl e \<Rightarrow> (Some (Wrap ''send stop_stream'' e),
                     save StateComplete FailureNone (finalized (stopped (close_rtp sid s))))
         | Inr (StreamStopped _ _ stats) \<Rightarrow>
             (None, save StateComplete FailureNone
                (stopped (keep_final_stats marshal sid dev stats (finalized (close_rtp sid s)))))
         | Inr (ErrorMsg em) \<Rightarrow>
             (Some (Errorf (''device error on stop: '' @ er_Message em)),
              save StateFailed FailureStartRejected (stopped (finalized (close_rtp sid s))))
         | Inr _ \<Rightarrow> (Some (Errorf ''unexpected reply type''), stopped (finalized (close_rtp sid s))))"

definition sv_StopStream ::
  "outside \<Rightarrow> (json \<Rightarrow> goerr + bytes) \<Rightarrow> (session_manager \<Rightarrow> session_manager) \<Rightarrow> ('d server \<Rightarrow> 'd server) \<Rightarrow>
     await_outcome \<Rightarrow> string \<Rightarrow> 'd server \<Rightarrow> goerr option option \<times> 'd server" where
  "sv_StopStream ou marshal during others oc sid s0 =
     (case stop_begin sid s0 of
        (Inl e, s1) \<Rightarrow> (Some (Some e), s1)
      | (Inr (dev, p), s1) \<Rightarrow>
          (case SendStopStream during oc dev (Some (newRequestID (ou_random ou 0), sid)) (sv_ctrl s1) of
             (None, m) \<Rightarrow> (None, (others s1)\<lparr>sv_ctrl := m\<rparr>)
           | (Some reply, m) \<Rightarrow>
               (case stop_finish ou marshal sid dev p reply ((others s1)\<lparr>sv_ctrl := m\<rparr>) of
                  (res, s2) \<Rightarrow> (Some res, s2))))"

text \<open>\<open>DeviceFinalStats\<close>: the cached statistics or the persisted ones, which it caches.\<close>

definition DeviceFinalStats ::
  "(bytes \<Rightarrow> json option) \<Rightarrow> string \<Rightarrow> 'd server \<Rightarrow> stopped_stats option \<times> 'd server" where
  "DeviceFinalStats parse sid s =
     (case sv_deviceStats s sid of
        Some st \<Rightarrow> (Some st, s)
      | None \<Rightarrow>
          (case DeviceStatsRepo_Load sid (sv_db s) of
             Inl e \<Rightarrow> (None, s)
           | Inr row \<Rightarrow>
               (let extra = (case rt_Extra row of
                      Some b \<Rightarrow> if b = [] then [] else
                          (case parse b of
                             Some j \<Rightarrow> (case into_map [] j of Some ms \<Rightarrow> ms | None \<Rightarrow> [])
                           | None \<Rightarrow> [])
                    | None \<Rightarrow> []);
                    st = \<lparr>sp_PacketsSent = rt_PacketsSent row, sp_BytesSent = rt_BytesSent row,
                          sp_DurationMS = rt_DurationMS row, sp_EncoderErrors = rt_EncoderErrors row,
                          sp_Extra = extra\<rparr>
                in (Some st, s\<lparr>sv_deviceStats := (sv_deviceStats s)(sid \<mapsto> st)\<rparr>))))"

end
