(* ===== verification/Server_Runtime.thy ===== *)
theory Server_Runtime
  imports Server_Handlers
begin

text \<open>
  \<open>internal/server/server.go\<close>, the rest: enrolment and the life of a control session, the data path
  from the RTP socket to recorders, bus and live clients, the monitor with its metrics, the restart,
  and what the HTTP API reads. Each function is one step of the server; a panic, and an \<open>Emit\<close> that
  does not return, is \<open>None\<close>.
\<close>

section \<open>Devices and sessions\<close>

definition tofu_device :: "string \<Rightarrow> device" where
  "tofu_device dev =
     \<lparr>dv_DeviceID = dev, dv_DisplayName = dev, dv_Firmware = '''', dv_Capabilities = [],
      dv_Status = ''online'', dv_LastSeen = time_zero, dv_Online = False\<rparr>"

text \<open>\<open>Authenticate\<close>: the shared credential, then trust on first use. A nil credential hash is the
  empty slice in the registry; the error of saving it is discarded.\<close>

definition sv_Authenticate ::
  "bytes option \<Rightarrow> time \<Rightarrow> string \<Rightarrow> string \<Rightarrow> 'd server \<Rightarrow> goerr option \<times> 'd server" where
  "sv_Authenticate nil_blob now dev credential s =
     (if cf_DeviceCredential (sv_cfg s) \<noteq> '''' \<and>
         ConstantTimeCompare (str_bytes credential) (str_bytes (cf_DeviceCredential (sv_cfg s))) \<noteq> 1
      then (Some (Sentinel ErrAuthFailed), s)
      else case dr_Get (sv_device s) dev of
          Inl e \<Rightarrow>
            if e = Sentinel ErrDeviceNotFound then
              (let d = tofu_device dev
               in (None, s\<lparr>sv_device := dr_SetOnline dev now (dr_Register d [] (sv_device s)),
                           sv_db := snd (DeviceRepo_Save nil_blob d None (sv_db s))\<rparr>))
            else (Some e, s)
        | Inr d \<Rightarrow> (None, s\<lparr>sv_device := dr_SetOnline dev now (sv_device s)\<rparr>))"

definition sv_OnReady :: "session_ref \<Rightarrow> string \<Rightarrow> 'd server \<Rightarrow> 'd server" where
  "sv_OnReady ref dev s = s\<lparr>sv_ctrl := mg_OnReady ref dev (sv_ctrl s)\<rparr>"

definition disconnect_stream ::
  "string \<Rightarrow> stream_ref \<Rightarrow> 'd server \<times> string list \<Rightarrow> 'd server \<times> string list" where
  "disconnect_stream dev p acc =
     (case acc of (s, ids) \<Rightarrow>
        (case sv_streamHeap s p of
           None \<Rightarrow> (s, ids)
         | Some st \<Rightarrow>
             if sm_DeviceID st = dev \<and> sm_state st = StateActive
             then (on_stream p (\<lambda>st. snd (sm_DeviceDisconnected st)) s, ids @ [sm_StreamID st])
             else (s, ids)))"

definition cleanup_all :: "(string \<Rightarrow> nat \<Rightarrow> time) \<Rightarrow> string list \<Rightarrow> 'd server \<Rightarrow> 'd server" where
  "cleanup_all clk ids s = foldl (\<lambda>s sid. cleanupStreamByID (clk sid) sid s) s ids"

definition OnDeviceDisconnect ::
  "string list \<Rightarrow> (string \<Rightarrow> nat \<Rightarrow> time) \<Rightarrow> string \<Rightarrow> 'd server \<Rightarrow> 'd server" where
  "OnDeviceDisconnect order clk dev s =
     (if dev = '''' then s
      else case reg_ForEach order (disconnect_stream dev) (sv_stream s) (s, []) of
          (s1, toCleanup) \<Rightarrow>
            (let s2 = cleanup_all clk toCleanup s1
             in s2\<lparr>sv_device := dr_SetOffline dev (sv_device s2)\<rparr>))"

text \<open>The \<open>onClose\<close> callback of \<open>controlLoop\<close>.\<close>

definition sv_OnClose ::
  "string list \<Rightarrow> (string \<Rightarrow> nat \<Rightarrow> time) \<Rightarrow> session_ref \<Rightarrow> string \<Rightarrow> 'd server \<Rightarrow> 'd server" where
  "sv_OnClose order clk ref dev s =
     (case mg_UnregisterIf dev ref (sv_ctrl s) of
        (True, m) \<Rightarrow> OnDeviceDisconnect order clk dev (s\<lparr>sv_ctrl := m\<rparr>)
      | (False, m) \<Rightarrow> s\<lparr>sv_ctrl := m\<rparr>)"

section \<open>The data path\<close>

text \<open>The \<open>onPacket\<close> and \<open>onCompressed\<close> callbacks. The second ignores the stream it is called
  for: it writes to the recorder it captured.\<close>

definition on_packet :: "time \<Rightarrow> string \<Rightarrow> 'd server \<Rightarrow> 'd server" where
  "on_packet now sid s =
     (case reg_Get (sv_stream s) sid of
        Inl e \<Rightarrow> s
      | Inr p \<Rightarrow>
          on_stream p (\<lambda>st. if sm_state st = StateRTPWait then snd (sm_FirstPacket now st) else sm_Packet now st) s)"

definition on_compressed :: "u32 \<Rightarrow> bytes \<Rightarrow> 'd server \<Rightarrow> 'd server option" where
  "on_compressed ts payload s =
     (case sv_opusTarget s of
        None \<Rightarrow> Some s
      | Some ref \<Rightarrow>
          (case sv_recHeap s ref of
             Some (OpusRec r) \<Rightarrow>
               map_option (\<lambda>r'. s\<lparr>sv_recHeap := (sv_recHeap s)(ref \<mapsto> OpusRec r')\<rparr>) (WritePacket (\<lambda>r. r) ts payload r)
           | _ \<Rightarrow> Some s))"

fun run_callbacks :: "time \<Rightarrow> rtp_callback list \<Rightarrow> 'd server \<Rightarrow> 'd server option" where
  "run_callbacks now [] s = Some s"
| "run_callbacks now (OnPacket sid first # cs) s = run_callbacks now cs (on_packet now sid s)"
| "run_callbacks now (OnCompressed sid ts payload # cs) s =
     Option.bind (on_compressed ts payload s) (run_callbacks now cs)"

text \<open>One pass of the read loop of a binding, with its callbacks.\<close>

definition rtp_turn ::
  "(bytes \<Rightarrow> pion_packet option) \<Rightarrow> time \<Rightarrow> read_outcome \<Rightarrow> binding_ref \<Rightarrow> 'd server \<Rightarrow> 'd server option" where
  "rtp_turn pion now rd ref s =
     (case read_step pion now rd ref (sv_rtp s) of
        (ctl, cbs, r) \<Rightarrow> run_callbacks now cbs (s\<lparr>sv_rtp := r\<rparr>))"

text \<open>The writer goroutine of an Opus recorder takes one packet from the channel.\<close>

definition opus_writer_turn :: "rec_ref \<Rightarrow> 'd server \<Rightarrow> 'd server" where
  "opus_writer_turn ref s =
     (case sv_recHeap s ref of
        Some (OpusRec r) \<Rightarrow> s\<lparr>sv_recHeap := (sv_recHeap s)(ref \<mapsto> OpusRec (writer_step r))\<rparr>
      | _ \<Rightarrow> s)"

text \<open>A frame published on the bus reaches recorders and live clients.\<close>

definition on_pcm :: "decoded_audio_frame \<Rightarrow> listener \<Rightarrow> 'd server \<Rightarrow> 'd server" where
  "on_pcm f l s =
     (case sv_live s l of
        Some lo \<Rightarrow> s\<lparr>sv_live := (sv_live s)(l \<mapsto> live_OnPCM f lo)\<rparr>
      | None \<Rightarrow>
          (case sv_recHeap s l of
             Some (WavRec r) \<Rightarrow> s\<lparr>sv_recHeap := (sv_recHeap s)(l \<mapsto> WavRec (wr_OnPCM (Some f) r))\<rparr>
           | _ \<Rightarrow> s))"

fun on_pcm_all :: "decoded_audio_frame \<Rightarrow> listener option list \<Rightarrow> 'd server \<Rightarrow> 'd server option" where
  "on_pcm_all f [] s = Some s"
| "on_pcm_all f (None # ls) s = None"
| "on_pcm_all f (Some l # ls) s = on_pcm_all f ls (on_pcm f l s)"

definition publish :: "decoded_audio_frame \<Rightarrow> 'd server \<Rightarrow> 'd server option" where
  "publish f s =
     (case bus_Publish (\<lambda>_ b. b) (Some f) (sv_bus s) of (ls, b) \<Rightarrow> on_pcm_all f ls (s\<lparr>sv_bus := b\<rparr>))"

fun publish_events :: "worker_event list \<Rightarrow> 'd server \<Rightarrow> 'd server option" where
  "publish_events [] s = Some s"
| "publish_events (WOnPacket first # es) s = publish_events es s"
| "publish_events (WPublish f # es) s = Option.bind (publish f s) (publish_events es)"

text \<open>One pass of a worker's loop, unless it has returned.\<close>

definition worker_turn ::
  "map_order \<Rightarrow> 'd decode_fn \<Rightarrow> bool \<Rightarrow> time \<Rightarrow> worker_handle \<Rightarrow> 'd server \<Rightarrow> 'd server option" where
  "worker_turn iter decode takeDone now h s =
     (case sv_workers s h of
        None \<Rightarrow> Some s
      | Some k \<Rightarrow>
          if wk_returned k then Some s
          else (case rc_heap (sv_rtp s) (wk_binding k) of
             None \<Rightarrow> Some s
           | Some b \<Rightarrow>
               (case worker_pass iter decode (wk_ctx k) takeDone now (sb_jb b)
                       ((wk_worker k)\<lparr>w_metrics := rc_metrics (sv_rtp s)\<rparr>) of
                  None \<Rightarrow> None
                | Some (ret, evs, jb, w) \<Rightarrow>
                    publish_events evs
                      (s\<lparr>sv_rtp := (sv_rtp s)\<lparr>rc_heap := (rc_heap (sv_rtp s))(wk_binding k \<mapsto> b\<lparr>sb_jb := jb\<rparr>),
                                             rc_metrics := w_metrics w\<rparr>,
                         sv_workers := (sv_workers s)(h \<mapsto> k\<lparr>wk_worker := w, wk_returned := ret\<rparr>)\<rparr>))))"

text \<open>A live client connects; a pass of its write loop, which ends by leaving the bus.\<close>

definition live_connect :: "(nat \<Rightarrow> nat) \<Rightarrow> 'd server \<Rightarrow> 'd server" where
  "live_connect grow s =
     s\<lparr>sv_live := (sv_live s)(sv_next s \<mapsto> NewLiveOutput), sv_bus := bus_Subscribe grow (sv_next s) (sv_bus s),
       sv_next := Suc (sv_next s)\<rparr>"

definition live_turn :: "bool \<Rightarrow> bool \<Rightarrow> listener \<Rightarrow> 'd server \<Rightarrow> 'd server" where
  "live_turn ctxFirst writable l s =
     (case sv_live s l of
        None \<Rightarrow> s
      | Some lo \<Rightarrow>
          (let lo' = live_writeLoop ctxFirst writable lo; s1 = s\<lparr>sv_live := (sv_live s)(l \<mapsto> lo')\<rparr>
           in if lo_done lo' \<and> \<not> lo_done lo then s1\<lparr>sv_bus := bus_Unsubscribe l (sv_bus s1)\<rparr> else s1))"

section \<open>The monitor\<close>

definition stat_or_zero :: "(string \<rightharpoonup> stats) \<Rightarrow> string \<Rightarrow> stats" where
  "stat_or_zero m sid = (case m sid of Some st \<Rightarrow> st | None \<Rightarrow> stats_zero)"

text \<open>The counters grow by the differences, which are unsigned; \<open>int(delta)\<close> reads one as signed.\<close>

definition push_counters :: "stats \<Rightarrow> stats \<Rightarrow> metrics \<Rightarrow> metrics" where
  "push_counters st lst m =
     (let m = (if Lost st - Lost lst > 0 then AddRTPPacketsLost (sint (Lost st - Lost lst)) m else m);
          m = (IncRTPPacketsDuplicate ^^ unat (Duplicate st - Duplicate lst)) m;
          m = (IncRTPPacketsReordered ^^ unat (Reordered st - Reordered lst)) m;
          m = (IncRTPPacketsLate ^^ unat (Late st - Late lst)) m
      in SetRTPJitterMS (JitterMS st) m)"

definition bitrate_of :: "u64 \<Rightarrow> rat \<Rightarrow> u64" where
  "bitrate_of est window = word_of_int (f64_to_int (f64_div (f64_mul (f64_of_int (sint est)) 8) window))"

definition pushStreamMetrics :: "string \<Rightarrow> stats \<Rightarrow> time \<Rightarrow> 'd server \<Rightarrow> 'd server" where
  "pushStreamMetrics sid st now s0 =
     (let lst = stat_or_zero (sv_lastStats s0) sid;
          s1 = on_metrics (push_counters st lst) s0;
          lastTime = (case sv_lastBitrateT s1 sid of Some t \<Rightarrow> t | None \<Rightarrow> time_zero);
          receivedDelta = Received st - Received lst;
          s2 = (if receivedDelta > 0
                then s1\<lparr>sv_lastBitrate := (sv_lastBitrate s1)(sid \<mapsto> receivedDelta * 300),
                        sv_lastBitrateT := (sv_lastBitrateT s1)(sid \<mapsto> now)\<rparr>
                else s1);
          window = Seconds (time_sub now lastTime);
          est = (case sv_lastBitrate s2 sid of Some b \<Rightarrow> b | None \<Rightarrow> 0);
          s3 = (if lastTime \<noteq> time_zero \<and> window > 0
                then on_metrics (SetRTPBitrateBPS (bitrate_of est window)) s2 else s2)
      in s3\<lparr>sv_lastStats := (sv_lastStats s3)(sid \<mapsto> st)\<rparr>)"

definition active_ids :: "string list \<Rightarrow> 'd server \<Rightarrow> string list" where
  "active_ids order s =
     reg_ForEach order
       (\<lambda>p ids. case sv_streamHeap s p of
          Some st \<Rightarrow> if sm_state st = StateActive then ids @ [sm_StreamID st] else ids
        | None \<Rightarrow> ids) (sv_stream s) []"

definition push_active :: "time \<Rightarrow> string list \<Rightarrow> 'd server \<Rightarrow> 'd server" where
  "push_active now ids s =
     foldl (\<lambda>s sid. case rc_StreamStats (sv_rtp s) sid of
        (st, ok) \<Rightarrow> if ok then pushStreamMetrics sid st now s else s) s ids"

definition timeout_stream ::
  "time \<Rightarrow> stream_ref \<Rightarrow> 'd server \<times> string list \<Rightarrow> 'd server \<times> string list" where
  "timeout_stream now p acc =
     (case acc of (s, ids) \<Rightarrow>
        (case sv_streamHeap s p of
           None \<Rightarrow> (s, ids)
         | Some st \<Rightarrow>
             if sm_RTPWaitTimedOut now st
             then (on_stream p (\<lambda>st. snd (sm_RTPWaitTimeout now st)) s, ids @ [sm_StreamID st])
             else if sm_RTPDisappeared now st
             then (on_stream p (\<lambda>st. snd (sm_RTPTimeout now st)) s, ids @ [sm_StreamID st])
             else (s, ids)))"

text \<open>One tick of \<open>streamMonitor\<close>; its two walks over the registry may take different orders.\<close>

definition monitor_tick ::
  "string list \<Rightarrow> string list \<Rightarrow> (string \<Rightarrow> nat \<Rightarrow> time) \<Rightarrow> time \<Rightarrow> 'd server \<Rightarrow> 'd server" where
  "monitor_tick order1 order2 clk now s =
     (let s1 = push_active now (active_ids order1 s) s
      in case reg_ForEach order2 (timeout_stream now) (sv_stream s1) (s1, []) of
           (s2, toCleanup) \<Rightarrow> cleanup_all clk toCleanup s2)"

section \<open>Restart\<close>

definition restore_device :: "'d server \<Rightarrow> device \<times> bytes \<Rightarrow> 'd server" where
  "restore_device s rec =
     (case rec of (d, h) \<Rightarrow> s\<lparr>sv_device := dr_Register (d\<lparr>dv_Status := ''offline''\<rparr>) h (sv_device s)\<rparr>)"

definition stale_state :: "string \<Rightarrow> bool" where
  "stale_state st \<longleftrightarrow> st = state_string StateActive \<or> st = state_string StateStarting \<or> st = state_string StateRTPWait"

fun restore_streams :: "(string \<times> stream_row) list \<Rightarrow> 'd server \<Rightarrow> goerr option \<times> 'd server" where
  "restore_streams [] s = (None, s)"
| "restore_streams ((sid, row) # rest) s =
     (if stale_state (rs_State row) then
        (case sm_MarkServerRestartFailed (WithTimeoutConfig (timeouts (sv_cfg s))
                (stream_New sid (rs_DeviceID row) (rs_SSRC row) (time_of_null (rs_Started row)))) of
           (Some e, st) \<Rightarrow> (Some (Wrap ''mark stream failed'' e), s)
         | (None, st) \<Rightarrow>
             restore_streams rest
               (save_stream sid (rs_DeviceID row) StateFailed FailureServerRestart (rs_SSRC row)
                  (time_of_null (rs_Started row))
                  (s\<lparr>sv_streamHeap := (sv_streamHeap s)(sv_next s \<mapsto> st),
                     sv_stream := reg_Add sid (sv_next s) (sv_stream s), sv_next := Suc (sv_next s)\<rparr>)))
      else restore_streams rest s)"

definition Restore :: "string list \<Rightarrow> string list \<Rightarrow> 'd server \<Rightarrow> goerr option \<times> 'd server" where
  "Restore devOrder streamOrder s =
     (let s1 = foldl restore_device s (DeviceRepo_LoadAll devOrder (sv_db s))
      in restore_streams (StreamRepo_LoadAll streamOrder (sv_db s1)) s1)"

section \<open>What the API reads\<close>

record stream_info =
  si_StreamID :: string
  si_DeviceID :: string
  si_SSRC :: u32
  si_State :: string
  si_StartedAt :: time
  si_PacketsReceived :: u64
  si_PacketsLost :: u64
  si_JitterMS :: rat

text \<open>The start time is kept as the time; the code formats it as RFC 3339.\<close>

definition stream_info_of :: "'d server \<Rightarrow> stream \<Rightarrow> stream_info" where
  "stream_info_of s st =
     (let (stats, ok) = rc_StreamStats (sv_rtp s) (sm_StreamID st);
          stats = (if ok then stats else stats_zero)
      in \<lparr>si_StreamID = sm_StreamID st, si_DeviceID = sm_DeviceID st, si_SSRC = sm_SSRC st,
          si_State = state_string (sm_state st), si_StartedAt = sm_StartedAt st,
          si_PacketsReceived = Received stats, si_PacketsLost = Lost stats, si_JitterMS = JitterMS stats\<rparr>)"

definition StreamList :: "string list \<Rightarrow> 'd server \<Rightarrow> stream_info list" where
  "StreamList order s =
     map (stream_info_of s) (List.map_filter (sv_streamHeap s) (reg_List order (sv_stream s)))"

definition DeviceList :: "string list \<Rightarrow> 'd server \<Rightarrow> device list" where
  "DeviceList order s = dr_List order (sv_device s)"

definition DeviceGet :: "string \<Rightarrow> 'd server \<Rightarrow> goerr + device" where
  "DeviceGet dev s = dr_Get (sv_device s) dev"

definition GetStream :: "string \<Rightarrow> 'd server \<Rightarrow> goerr + stream_ref" where
  "GetStream sid s = reg_Get (sv_stream s) sid"

definition MetricsSurface :: "'d server \<Rightarrow> (string \<times> int) list" where
  "MetricsSurface s = Snapshot (sv_metrics s)"

definition RTPStreamStats :: "string \<Rightarrow> 'd server \<Rightarrow> stats \<times> bool" where
  "RTPStreamStats sid s = rc_StreamStats (sv_rtp s) sid"

definition StreamPort :: "string \<Rightarrow> 'd server \<Rightarrow> u16 \<times> bool" where
  "StreamPort sid s = rc_StreamPort (sv_rtp s) sid"

definition SetDeviceDisplayName :: "string \<Rightarrow> string \<Rightarrow> 'd server \<Rightarrow> goerr option \<times> 'd server" where
  "SetDeviceDisplayName dev name s =
     (case dr_SetDisplayName dev name (sv_device s) of
        (Some e, r) \<Rightarrow> (Some e, s\<lparr>sv_device := r\<rparr>)
      | (None, r) \<Rightarrow>
          (None, s\<lparr>sv_device := r, sv_db := DeviceRepo_UpdateDisplayName dev name (sv_db s)\<rparr>))"

definition PushConfig ::
  "(session_manager \<Rightarrow> session_manager) \<Rightarrow> await_outcome \<Rightarrow> (string \<times> int option) list \<Rightarrow> string \<Rightarrow>
     set_config \<Rightarrow> 'd server \<Rightarrow> (goerr + message) option \<times> 'd server" where
  "PushConfig during oc pins dev cfg s =
     (case SendSetConfig during oc pins dev (Some cfg) (sv_ctrl s) of (res, m) \<Rightarrow> (res, s\<lparr>sv_ctrl := m\<rparr>))"

definition GetDeviceStatus ::
  "outside \<Rightarrow> (session_manager \<Rightarrow> session_manager) \<Rightarrow> await_outcome \<Rightarrow> string \<Rightarrow> 'd server \<Rightarrow>
     (goerr + message) option \<times> 'd server" where
  "GetDeviceStatus ou during oc dev s =
     (case dr_Get (sv_device s) dev of
        Inl e \<Rightarrow> (Some (Inl (Wrap ''device not found'' e)), s)
      | Inr d \<Rightarrow>
          (case SendGetStatus during oc dev (Some (newRequestID (ou_random ou 0))) (sv_ctrl s) of
             (res, m) \<Rightarrow> (res, s\<lparr>sv_ctrl := m\<rparr>)))"

text \<open>A recording's row, and the file to serve for it: \<open>exists\<close> is \<open>os.Stat\<close>.\<close>

definition GetRecording :: "string \<Rightarrow> 'd server \<Rightarrow> goerr + recording_row" where
  "GetRecording recID s =
     (case db_recordings (sv_db s) recID of
        None \<Rightarrow> Inl (Errorf ''recording not found'') | Some r \<Rightarrow> Inr r)"

definition DownloadRecording :: "(string \<Rightarrow> bool) \<Rightarrow> string \<Rightarrow> 'd server \<Rightarrow> goerr + string" where
  "DownloadRecording exists recID s =
     (case GetRecording recID s of
        Inl e \<Rightarrow> Inl e
      | Inr r \<Rightarrow>
          (let p = cf_RecordingsDir (sv_cfg s) @ ''/'' @ rr_StreamID r @ ''.opus''
           in case rr_Uri r of
                Some u \<Rightarrow>
                  if u \<noteq> '''' \<and> exists u then Inr u
                  else if rr_StreamID r \<noteq> '''' \<and> exists p then Inr p
                  else Inl (Errorf ''recording file not available'')
              | None \<Rightarrow>
                  if rr_StreamID r \<noteq> '''' \<and> exists p then Inr p
                  else Inl (Errorf ''recording file not available'')))"

definition ListRecordings :: "string list \<Rightarrow> 'd server \<Rightarrow> (string \<times> recording_row) list" where
  "ListRecordings ids s =
     sort_key (\<lambda>(k, r). - rr_Start r)
       (List.map_filter (\<lambda>k. map_option (Pair k) (db_recordings (sv_db s) k)) ids)"

end
