(* ===== verification/Server_Invariant.thy ===== *)
theory Server_Invariant
  imports Server_Runtime
begin

text \<open>
  The well-formedness of the server's state, one predicate per group of components, and its
  preservation by every operation: no pointer dangles, every stream and binding is filed under its own
  identifier, every bus listener is a WAV recorder or a live client.
\<close>

section \<open>The invariant\<close>

text \<open>The states a filed stream is ever seen in: \<open>add_stream\<close> leaves it in STARTING.\<close>

definition served :: "stream_state \<Rightarrow> bool" where
  "served st \<longleftrightarrow> st \<noteq> StateCreated \<and> st \<noteq> StateWaitingForDevice"

definition streams_ok :: "stream_registry \<Rightarrow> stream_heap \<Rightarrow> nat \<Rightarrow> bool" where
  "streams_ok r h n \<longleftrightarrow>
     (\<forall>sid p. reg_streams r sid = Some p \<longrightarrow> (\<exists>st. h p = Some st \<and> sm_StreamID st = sid)) \<and>
     (\<forall>p st. h p = Some st \<longrightarrow> p < n \<and> reason_inv st \<and> served (sm_state st))"

definition bindings_ok :: "receiver \<Rightarrow> bool" where
  "bindings_ok r \<longleftrightarrow>
     (\<forall>sid b. rc_streams r sid = Some b \<longrightarrow> (\<exists>x. rc_heap r b = Some x \<and> sb_streamID x = sid)) \<and>
     (\<forall>b x. rc_heap r b = Some x \<longrightarrow> b < rc_next r \<and> jb_inv (sb_jb x))"

definition workers_ok ::
  "('d \<Rightarrow> bool) \<Rightarrow> (worker_handle \<rightharpoonup> 'd running_worker) \<Rightarrow> binding_ref set \<Rightarrow> nat \<Rightarrow> bool" where
  "workers_ok good ws bs n \<longleftrightarrow>
     (\<forall>h k. ws h = Some k \<longrightarrow> h < n \<and> wk_binding k \<in> bs \<and> good (w_decoder (wk_worker k)) \<and>
        w_streamID (wk_worker k) \<noteq> '''')"

fun rec_ok :: "rec_object \<Rightarrow> bool" where
  "rec_ok (WavRec r) = True"
| "rec_ok (OpusRec r) = (or_closed r = or_chClosed r)"

definition recorders_ok :: "(string \<rightharpoonup> rec_ref) \<Rightarrow> (rec_ref \<rightharpoonup> rec_object) \<Rightarrow> nat \<Rightarrow> bool" where
  "recorders_ok recs h n \<longleftrightarrow> ran recs \<subseteq> dom h \<and> (\<forall>r obj. h r = Some obj \<longrightarrow> r < n \<and> rec_ok obj)"

definition listeners_ok ::
  "pcm_bus \<Rightarrow> (listener \<rightharpoonup> live_output) \<Rightarrow> (rec_ref \<rightharpoonup> rec_object) \<Rightarrow> nat \<Rightarrow> bool" where
  "listeners_ok bus lv h n \<longleftrightarrow>
     bus_inv bus \<and> (\<forall>l. lv l \<noteq> None \<longrightarrow> l < n \<and> h l = None) \<and>
     (\<forall>l\<in>set (listeners bus). lv l \<noteq> None \<or> map_option is_listener (h l) = Some True)"

definition sv_inv :: "('d \<Rightarrow> bool) \<Rightarrow> 'd server \<Rightarrow> bool" where
  "sv_inv good s \<longleftrightarrow>
     streams_ok (sv_stream s) (sv_streamHeap s) (sv_next s) \<and>
     bindings_ok (sv_rtp s) \<and>
     workers_ok good (sv_workers s) (dom (rc_heap (sv_rtp s))) (sv_next s) \<and>
     recorders_ok (sv_recordings s) (sv_recHeap s) (sv_next s) \<and>
     listeners_ok (sv_bus s) (sv_live s) (sv_recHeap s) (sv_next s)"

lemmas sv_inv_defs = sv_inv_def streams_ok_def bindings_ok_def workers_ok_def recorders_ok_def listeners_ok_def

named_theorems sv_keeps \<open>operations that keep the invariant\<close>

lemma sv_New_inv: "sv_inv good (sv_New cfg db)"
  using NewPCMBus_inv
  by (simp add: sv_inv_defs sv_New_def reg_New_def NewReceiver_def listeners_def NewPCMBus_def bus_elems_def)

lemma ok_mono:
  "streams_ok r h n \<Longrightarrow> n \<le> m \<Longrightarrow> streams_ok r h m"
  "workers_ok good ws bs n \<Longrightarrow> n \<le> m \<Longrightarrow> bs \<subseteq> cs \<Longrightarrow> workers_ok good ws cs m"
  "recorders_ok recs hp n \<Longrightarrow> n \<le> m \<Longrightarrow> recorders_ok recs hp m"
  "listeners_ok bus lv hp n \<Longrightarrow> n \<le> m \<Longrightarrow> listeners_ok bus lv hp m"
  unfolding streams_ok_def workers_ok_def recorders_ok_def listeners_ok_def
  by (meson less_le_trans subsetD)+

lemma filedD: "streams_ok r h n \<Longrightarrow> reg_streams r sid = Some p \<Longrightarrow> \<exists>st. h p = Some st \<and> sm_StreamID st = sid"
  by (simp add: streams_ok_def)

lemma filed_heap: "streams_ok r h n \<Longrightarrow> h p = Some st \<Longrightarrow> p < n \<and> reason_inv st \<and> served (sm_state st)"
  by (simp add: streams_ok_def)

section \<open>Streams\<close>

text \<open>The part of the lifecycle that is left to a filed stream.\<close>

inductive running_edge :: "stream_state \<Rightarrow> stream_state \<Rightarrow> bool" where
  accepted: "running_edge StateStarting StateRTPWait"
| rejected: "running_edge StateStarting StateFailed"
| wait_timeout: "running_edge StateRTPWait StateFailed"
| first_packet: "running_edge StateRTPWait StateActive"
| lost: "running_edge StateActive StateFailed"
| stop: "running_edge StateActive StateStopping"
| stopped: "running_edge StateStopping StateComplete"
| replaced: "live_for_device st \<Longrightarrow> running_edge st StateComplete"

inductive_simps running_edge_from: "running_edge st t"

abbreviation runs_on :: "stream_state \<Rightarrow> stream_state \<Rightarrow> bool" where
  "runs_on \<equiv> running_edge\<^sup>*\<^sup>*"

lemma lifecycle_running: "lifecycle a b \<Longrightarrow> served a \<Longrightarrow> running_edge a b"
  by (cases a) (auto simp: served_def running_edge_from live_for_device_def terminal_def elim: lifecycle.cases)

lemma running_edge_facts: "running_edge a b \<Longrightarrow> served b \<and> live_for_device a"
  by (induction rule: running_edge.induct) (simp_all add: served_def live_for_device_def terminal_def)

lemma runs_on_facts:
  assumes "runs_on a b"
  shows "served a \<Longrightarrow> served b" "live_for_device b \<Longrightarrow> live_for_device a"
  using assms by (induction rule: converse_rtranclp_induct) (auto dest: running_edge_facts)

text \<open>What a method of \<open>Stream\<close> keeps.\<close>

definition stream_method :: "(stream \<Rightarrow> stream) \<Rightarrow> bool" where
  "stream_method f \<longleftrightarrow>
     (\<forall>st. sm_StreamID (f st) = sm_StreamID st \<and> sm_DeviceID (f st) = sm_DeviceID st \<and>
        (reason_inv st \<longrightarrow> reason_inv (f st)) \<and>
        (served (sm_state st) \<longrightarrow> runs_on (sm_state st) (sm_state (f st))))"

lemma op_runs_on: "served (sm_state st) \<Longrightarrow> runs_on (sm_state st) (sm_state (op_step st opn))"
  by (cases rule: apply_op_cases [of opn st]) (auto simp: op_step_def dest: lifecycle_running)

lemma stream_method_op: "stream_method (\<lambda>st. snd (apply_op opn st))"
  using op_step_fixed stream_reason.step_inv op_runs_on
  unfolding stream_method_def op_step_def by blast

lemmas stream_methods [simp] =
  stream_method_op [of OpForceComplete, unfolded apply_op.simps, simplified]
  stream_method_op [of "OpDeviceRejected r" for r, unfolded apply_op.simps, simplified]
  stream_method_op [of "OpStreamStarted t" for t, unfolded apply_op.simps, simplified]
  stream_method_op [of OpStopRequested, unfolded apply_op.simps, simplified]
  stream_method_op [of OpStopped, unfolded apply_op.simps, simplified]
  stream_method_op [of OpDeviceDisconnected, unfolded apply_op.simps, simplified]
  stream_method_op [of "OpRTPWaitTimeout t" for t, unfolded apply_op.simps, simplified]
  stream_method_op [of "OpRTPTimeout t" for t, unfolded apply_op.simps, simplified]

lemma stream_method_if:
  assumes "stream_method f" and "stream_method g"
  shows "stream_method (\<lambda>st. if c st then f st else g st)"
  unfolding stream_method_def
proof
  fix st
  show "sm_StreamID (if c st then f st else g st) = sm_StreamID st \<and>
      sm_DeviceID (if c st then f st else g st) = sm_DeviceID st \<and>
      (reason_inv st \<longrightarrow> reason_inv (if c st then f st else g st)) \<and>
      (served (sm_state st) \<longrightarrow> runs_on (sm_state st) (sm_state (if c st then f st else g st)))"
    using assms [unfolded stream_method_def, rule_format, of st] by (cases "c st") auto
qed

lemma packet_method [simp]:
  "stream_method (\<lambda>st. if sm_state st = StateRTPWait then snd (sm_FirstPacket now st) else sm_Packet now st)"
  using stream_method_op [of "OpFirstPacket now"] stream_method_op [of "OpPacket now"]
  by (intro stream_method_if) simp_all

lemma on_stream_eq:
  "on_stream p f s = s\<lparr>sv_streamHeap := (sv_streamHeap s)(p := map_option f (sv_streamHeap s p))\<rparr>"
  by (cases "sv_streamHeap s p") (simp_all add: on_stream_def fun_upd_idem)

lemma streams_ok_method:
  assumes "streams_ok r h n" and f: "stream_method f"
  shows "streams_ok r (h(p := map_option f (h p))) n"
proof -
  have "\<exists>st. (h(p := map_option f (h p))) q = Some st \<and> sm_StreamID st = sid"
    if "reg_streams r sid = Some q" for sid q
    using filedD [OF assms(1) that] f by (auto simp: stream_method_def)
  moreover have "q < n \<and> reason_inv st \<and> served (sm_state st)" if "(h(p := map_option f (h p))) q = Some st" for q st
    using filed_heap [OF assms(1)] f runs_on_facts(1) that by (fastforce simp: stream_method_def split: if_splits)
  ultimately show ?thesis unfolding streams_ok_def by blast
qed

lemma on_stream_inv [sv_keeps]: "sv_inv good s \<Longrightarrow> stream_method f \<Longrightarrow> sv_inv good (on_stream p f s)"
  by (simp add: sv_inv_def on_stream_eq streams_ok_method)

lemma save_stream_inv [sv_keeps]: "sv_inv good s \<Longrightarrow> sv_inv good (save_stream sid dev st rs ssrc t s)"
  by (simp add: sv_inv_def save_stream_def)

lemma remove_stream_inv [sv_keeps]: "sv_inv good s \<Longrightarrow> sv_inv good (remove_stream sid s)"
  by (simp add: sv_inv_def streams_ok_def remove_stream_def reg_Remove_def)

lemma drop_tracking_inv [sv_keeps]: "sv_inv good s \<Longrightarrow> sv_inv good (drop_tracking sid s)"
  by (simp add: sv_inv_def drop_tracking_def)

lemma keep_final_stats_inv [sv_keeps]: "sv_inv good s \<Longrightarrow> sv_inv good (keep_final_stats m sid dev st s)"
  by (simp add: sv_inv_def keep_final_stats_def split: option.split)

lemma set_ctrl_inv [sv_keeps]: "sv_inv good s \<Longrightarrow> sv_inv good (s\<lparr>sv_ctrl := m\<rparr>)"
  by (simp add: sv_inv_def)

lemma set_device_inv [sv_keeps]: "sv_inv good s \<Longrightarrow> sv_inv good (s\<lparr>sv_device := r\<rparr>)"
  by (simp add: sv_inv_def)

lemma on_metrics_inv [sv_keeps]: "sv_inv good s \<Longrightarrow> sv_inv good (on_metrics f s)"
  by (simp add: sv_inv_defs on_metrics_def)

lemma streams_ok_add:
  assumes "streams_ok r h n" and "sm_StreamID st = sid" and "reason_inv st" and "served (sm_state st)"
  shows "streams_ok (reg_Add sid n r) (h(n \<mapsto> st)) (Suc n)"
proof -
  have fresh: "h n = None" using filed_heap [OF assms(1), of n] by (cases "h n") auto
  have old: "p \<noteq> n" if "reg_streams r k = Some p" for k p
    using filedD [OF assms(1) that] fresh by auto
  have "\<exists>x. (h(n \<mapsto> st)) p = Some x \<and> sm_StreamID x = k" if "reg_streams (reg_Add sid n r) k = Some p" for k p
    using filedD [OF assms(1)] old that assms(2) by (auto simp: reg_Add_def split: if_splits)
  moreover have "p < Suc n \<and> reason_inv x \<and> served (sm_state x)" if "(h(n \<mapsto> st)) p = Some x" for p x
    using filed_heap [OF assms(1)] assms(3,4) that by (fastforce split: if_splits)
  ultimately show ?thesis unfolding streams_ok_def by blast
qed

text \<open>A new stream under its own identifier at the fresh address.\<close>

lemma file_stream_inv:
  assumes "sv_inv good s" and "sm_StreamID st = sid" and "reason_inv st" and "served (sm_state st)"
  shows "sv_inv good (s\<lparr>sv_streamHeap := (sv_streamHeap s)(sv_next s \<mapsto> st),
    sv_stream := reg_Add sid (sv_next s) (sv_stream s), sv_next := Suc (sv_next s)\<rparr>)"
  using assms by (auto simp: sv_inv_def intro: ok_mono intro!: streams_ok_add)

section \<open>Bindings and workers\<close>

lemma jb_New_inv [simp]: "jb_inv (jb_New target hook)"
  by (simp add: jb_New_def jb_inv_def)

lemma bindings_ok_add:
  "bindings_ok r \<Longrightarrow> sb_streamID b = sid \<Longrightarrow> jb_inv (sb_jb b) \<Longrightarrow>
    bindings_ok (r\<lparr>rc_streams := (rc_streams r)(sid \<mapsto> rc_next r),
      rc_heap := (rc_heap r)(rc_next r \<mapsto> b), rc_next := Suc (rc_next r)\<rparr>)"
  by (auto simp: bindings_ok_def less_Suc_eq)

lemma Bind_bindings_ok:
  "bindings_ok r \<Longrightarrow> bindings_ok (snd (rc_Bind listen sid pt target port r))"
  by (auto simp: rc_Bind_def Let_def intro!: bindings_ok_add split: option.split sum.split)

lemma Bind_heap: "dom (rc_heap r) \<subseteq> dom (rc_heap (snd (rc_Bind listen sid pt target port r)))"
  by (auto simp: rc_Bind_def Let_def split: option.split sum.split)

lemma Bind_inv [sv_keeps]:
  "sv_inv good s \<Longrightarrow> sv_inv good (s\<lparr>sv_rtp := snd (rc_Bind listen sid pt target port (sv_rtp s))\<rparr>)"
  by (auto simp: sv_inv_def simp del: split_paired_All intro: Bind_bindings_ok ok_mono(2) [OF _ order_refl Bind_heap])

text \<open>A change of one binding that keeps its identifier and the jitter buffer consistent.\<close>

lemma rc_update_heap [simp]: "dom (rc_heap (rc_update ref f r)) = dom (rc_heap r)"
  by (auto simp: rc_update_def split: option.split)

lemma rc_update_bindings_ok:
  assumes "bindings_ok r" and "\<And>b. sb_streamID (f b) = sb_streamID b" and "\<And>b. jb_inv (sb_jb b) \<Longrightarrow> jb_inv (sb_jb (f b))"
  shows "bindings_ok (rc_update ref f r)"
  using assms by (fastforce simp: bindings_ok_def rc_update_def split: option.split)

lemma bindings_ok_drop: "bindings_ok r \<Longrightarrow> bindings_ok (r\<lparr>rc_streams := (rc_streams r)(sid := None)\<rparr>)"
  by (simp add: bindings_ok_def)

lemma CloseStream_bindings_ok: "bindings_ok r \<Longrightarrow> bindings_ok (snd (rc_CloseStream sid r))"
  by (auto simp: rc_CloseStream_def Let_def intro!: rc_update_bindings_ok bindings_ok_drop split: option.split)

lemma CloseStream_heap [simp]: "dom (rc_heap (snd (rc_CloseStream sid r))) = dom (rc_heap r)"
  by (simp add: rc_CloseStream_def Let_def split: option.split)

lemma cancel_worker_eq:
  "cancel_worker h s = s\<lparr>sv_workers := (case h of None \<Rightarrow> sv_workers s
     | Some w \<Rightarrow> (sv_workers s)(w := map_option (\<lambda>k. k\<lparr>wk_ctx := (wk_ctx k)\<lparr>wc_parentDone := True\<rparr>\<rparr>) (sv_workers s w)))\<rparr>"
  by (simp add: cancel_worker_def split: option.split)

lemma cancelled_workers_ok:
  "workers_ok good ws bs n \<Longrightarrow>
    workers_ok good (ws(w := map_option (\<lambda>k. k\<lparr>wk_ctx := (wk_ctx k)\<lparr>wc_parentDone := True\<rparr>\<rparr>) (ws w))) bs n"
  by (auto simp: workers_ok_def)

lemma close_rtp_eq:
  "close_rtp sid s = cancel_worker (fst (rc_CloseStream sid (sv_rtp s))) (s\<lparr>sv_rtp := snd (rc_CloseStream sid (sv_rtp s))\<rparr>)"
  by (simp add: close_rtp_def split: prod.split)

lemma close_rtp_inv [sv_keeps]: "sv_inv good s \<Longrightarrow> sv_inv good (close_rtp sid s)"
  by (auto simp: sv_inv_def close_rtp_eq cancel_worker_eq CloseStream_bindings_ok cancelled_workers_ok
      split: option.split)

lemma SetWorkerCancel_ok: "bindings_ok r \<Longrightarrow> bindings_ok (rc_SetWorkerCancel sid c r)"
  by (simp add: rc_SetWorkerCancel_def rc_update_bindings_ok split: option.split)

lemma SetWorkerCancel_heap [simp]: "dom (rc_heap (rc_SetWorkerCancel sid c r)) = dom (rc_heap r)"
  by (simp add: rc_SetWorkerCancel_def split: option.split)

lemma set_callbacks_ok [simp]:
  "bindings_ok (rc_SetOnPacket c r) = bindings_ok r" "rc_heap (rc_SetOnPacket c r) = rc_heap r"
  "bindings_ok (rc_SetOnCompressed c r) = bindings_ok r" "rc_heap (rc_SetOnCompressed c r) = rc_heap r"
  by (simp_all add: bindings_ok_def rc_SetOnPacket_def rc_SetOnCompressed_def)

lemma workers_ok_add:
  "workers_ok good ws bs n \<Longrightarrow> good (w_decoder (wk_worker k)) \<Longrightarrow> wk_binding k \<in> bs \<Longrightarrow>
    w_streamID (wk_worker k) \<noteq> '''' \<Longrightarrow> workers_ok good (ws(n \<mapsto> k)) bs (Suc n)"
  by (auto simp: workers_ok_def less_Suc_eq)

lemma start_worker_inv [sv_keeps]:
  assumes "sv_inv good s" and "good dec" and "b \<in> dom (rc_heap (sv_rtp s))" and "sid \<noteq> ''''"
  shows "sv_inv good (start_worker dec sid b s)"
  using assms
  by (auto simp: sv_inv_def start_worker_def NewWorker_def intro: ok_mono SetWorkerCancel_ok intro!: workers_ok_add)

section \<open>Recorders and listeners\<close>

lemma emit_page_closed [simp]:
  "or_closed (emit_page p r) = or_closed r" "or_chClosed (emit_page p r) = or_chClosed r"
  by (simp_all add: emit_page_def)

lemma writer_closed [simp]:
  "or_closed (writePageForPacket pkt r) = or_closed r" "or_chClosed (writePageForPacket pkt r) = or_chClosed r"
  "or_closed (writer_drain pkts r) = or_closed r" "or_chClosed (writer_drain pkts r) = or_chClosed r"
proof -
  show one: "or_closed (writePageForPacket pkt r) = or_closed r" "or_chClosed (writePageForPacket pkt r) = or_chClosed r" for pkt r
    by (simp_all add: writePageForPacket_def writePage_def Let_def)
  show "or_closed (writer_drain pkts r) = or_closed r" "or_chClosed (writer_drain pkts r) = or_chClosed r"
    by (induction pkts arbitrary: r) (simp_all add: one)
qed

lemma rec_Finalize_ok:
  "rec_ok obj \<Longrightarrow> rec_ok (snd (rec_Finalize t obj))"
  "is_listener (snd (rec_Finalize t obj)) = is_listener obj"
  by (cases obj; simp add: or_Finalize_def finalize_begin_def writeEOSPage_def Let_def split: prod.split)+

lemma finalize_object_frame [simp]:
  "sv_stream (finalize_object t k ref s) = sv_stream s" "sv_streamHeap (finalize_object t k ref s) = sv_streamHeap s"
  "sv_rtp (finalize_object t k ref s) = sv_rtp s" "sv_workers (finalize_object t k ref s) = sv_workers s"
  "sv_recordings (finalize_object t k ref s) = sv_recordings s" "sv_bus (finalize_object t k ref s) = sv_bus s"
  "sv_live (finalize_object t k ref s) = sv_live s" "sv_next (finalize_object t k ref s) = sv_next s"
  "sv_recHeap (finalize_object t k ref s) =
     (sv_recHeap s)(ref := map_option (\<lambda>obj. snd (rec_Finalize t obj)) (sv_recHeap s ref))"
  by (auto simp: finalize_object_def fun_upd_idem split: option.split prod.split)

lemma recorders_ok_update:
  "recorders_ok recs h n \<Longrightarrow> (\<And>obj. rec_ok obj \<Longrightarrow> rec_ok (f obj)) \<Longrightarrow>
    recorders_ok recs (h(ref := map_option f (h ref))) n"
  by (auto simp: recorders_ok_def)

lemma listeners_ok_update:
  "listeners_ok bus lv h n \<Longrightarrow> (\<And>obj. is_listener (f obj) = is_listener obj) \<Longrightarrow>
    listeners_ok bus lv (h(ref := map_option f (h ref))) n"
  by (auto simp: listeners_ok_def option.map_comp comp_def)

lemma finalize_object_inv [sv_keeps]: "sv_inv good s \<Longrightarrow> sv_inv good (finalize_object t k ref s)"
  by (simp add: sv_inv_def recorders_ok_update listeners_ok_update rec_Finalize_ok)

lemma drop_recording_inv:
  "sv_inv good s \<Longrightarrow> sv_inv good (s\<lparr>sv_recordings := (sv_recordings s)(k := None)\<rparr>)"
  using map_del_ran by (fastforce simp: sv_inv_def recorders_ok_def)

lemma listeners_ok_Unsubscribe: "listeners_ok bus lv h n \<Longrightarrow> listeners_ok (bus_Unsubscribe l bus) lv h n"
  by (auto simp: listeners_ok_def Unsubscribe_inv listeners_Unsubscribe)

lemma listeners_ok_Subscribe:
  "listeners_ok bus lv h n \<Longrightarrow> lv l \<noteq> None \<or> map_option is_listener (h l) = Some True \<Longrightarrow>
    listeners_ok (bus_Subscribe grow l bus) lv h n"
  by (auto simp: listeners_ok_def Subscribe_inv listeners_Subscribe)

lemma Unsubscribe_server_inv:
  "sv_inv good s \<Longrightarrow> sv_inv good (s\<lparr>sv_bus := bus_Unsubscribe l (sv_bus s)\<rparr>)"
  by (simp add: sv_inv_def listeners_ok_Unsubscribe)

lemma finalizeRecorder_inv [sv_keeps]: "sv_inv good s \<Longrightarrow> sv_inv good (finalizeRecorder t sid s)"
  using drop_recording_inv [of good s sid] Unsubscribe_server_inv [of good "s\<lparr>sv_recordings := (sv_recordings s)(sid := None)\<rparr>"]
  by (auto simp: finalizeRecorder_def Let_def intro: finalize_object_inv split: option.split)

lemma finalizeOpusRecorder_inv [sv_keeps]: "sv_inv good s \<Longrightarrow> sv_inv good (finalizeOpusRecorder t sid s)"
  using drop_recording_inv [of good s "sid @ ''-opus''"]
  by (auto simp: finalizeOpusRecorder_def Let_def intro: finalize_object_inv split: option.split)

lemma cleanup_inv [sv_keeps]: "sv_inv good s \<Longrightarrow> sv_inv good (cleanupStreamByID clk sid s)"
  unfolding cleanupStreamByID_def by (intro sv_keeps)

lemma cleanup_all_inv [sv_keeps]: "sv_inv good s \<Longrightarrow> sv_inv good (cleanup_all clk ids s)"
  unfolding cleanup_all_def by (induction ids arbitrary: s) (simp_all add: cleanup_inv)

text \<open>A recorder at the fresh address.\<close>

lemma recorders_ok_add:
  "recorders_ok recs h n \<Longrightarrow> rec_ok obj \<Longrightarrow> recorders_ok (recs(k \<mapsto> n)) (h(n \<mapsto> obj)) (Suc n)"
  using map_upd_ran [of recs k n] by (fastforce simp: recorders_ok_def less_Suc_eq)

lemma listeners_fresh: "listeners_ok bus lv h n \<Longrightarrow> recorders_ok recs h n \<Longrightarrow> n \<notin> set (listeners bus) \<and> lv n = None"
  by (force simp: listeners_ok_def recorders_ok_def)

lemma listeners_ok_add:
  assumes "listeners_ok bus lv h n" and "recorders_ok recs h n"
  shows "listeners_ok bus lv (h(n \<mapsto> obj)) (Suc n)"
  using assms listeners_fresh [OF assms] by (auto simp: listeners_ok_def less_Suc_eq)

lemma add_recorder_inv [sv_keeps]:
  assumes "sv_inv good s" and "rec_ok obj"
  shows "sv_inv good (add_recorder key recID sid fmt t obj s)"
  using assms
  by (auto simp: sv_inv_def add_recorder_def intro: ok_mono listeners_ok_add intro!: recorders_ok_add)

lemma add_listening_recorder_inv:
  assumes "sv_inv good s" and "rec_ok obj" and "is_listener obj"
  shows "sv_inv good (add_recorder key recID sid fmt t obj (s\<lparr>sv_bus := bus_Subscribe grow (sv_next s) (sv_bus s)\<rparr>))"
proof -
  have "listeners_ok (bus_Subscribe grow (sv_next s) (sv_bus s)) (sv_live s) ((sv_recHeap s)(sv_next s \<mapsto> obj)) (Suc (sv_next s))"
    using assms by (intro listeners_ok_Subscribe listeners_ok_add [of _ _ _ _ "sv_recordings s"]) (simp_all add: sv_inv_def)
  then show ?thesis
    using assms by (auto simp: sv_inv_def add_recorder_def intro: ok_mono intro!: recorders_ok_add)
qed

lemma start_wav_inv [sv_keeps]: "sv_inv good s \<Longrightarrow> sv_inv good (start_wav ou rg sid s)"
  by (auto simp: start_wav_def Let_def intro: add_listening_recorder_inv split: sum.split prod.split option.split)

lemma NewOpusRecorder_ok:
  "NewOpusRecorder mkdir create now dir base rate ch preskip = Inr r \<Longrightarrow> rec_ok (OpusRec r)"
  by (auto simp: NewOpusRecorder_def writeOpusTags_def writeOpusHead_def writePage_def
      split: option.splits sum.splits)

lemma start_opus_inv [sv_keeps]:
  assumes "sv_inv good s"
  shows "sv_inv good (start_opus ou sid s)"
proof -
  have "sv_inv good (s\<lparr>sv_rtp := rc_SetOnCompressed True (sv_rtp s), sv_opusTarget := Some (sv_next s)\<rparr>)"
    using assms by (simp add: sv_inv_def)
  from add_recorder_inv [OF this] assms show ?thesis
    by (auto simp: start_opus_def dest!: NewOpusRecorder_ok split: sum.split)
qed

section \<open>Handlers\<close>

lemma newStreamID_not_Nil [simp]: "newStreamID b \<noteq> ''''"
  by (simp add: newStreamID_def)

lemma replace_existing_inv [sv_keeps]: "sv_inv good s \<Longrightarrow> sv_inv good (replace_existing ou dev s)"
  unfolding replace_existing_def
  by (auto simp: Let_def intro!: save_stream_inv drop_tracking_inv remove_stream_inv finalizeOpusRecorder_inv
      finalizeRecorder_inv close_rtp_inv on_stream_inv split: option.split)

lemma new_stream_fields [simp]:
  "sm_StreamID (new_stream ou cfg sid dev) = sid" "sm_DeviceID (new_stream ou cfg sid dev) = dev"
  "sm_state (new_stream ou cfg sid dev) = StateStarting" "sm_Reason (new_stream ou cfg sid dev) = FailureNone"
  "reason_inv (new_stream ou cfg sid dev)"
  by (simp_all add: new_stream_def stream_New_def WithTimeoutConfig_def sm_Start_def sm_DeviceCommandSent_def
      reason_inv_def)

lemma add_stream_inv [sv_keeps]: "sv_inv good s \<Longrightarrow> sv_inv good (add_stream ou sid dev s)"
  unfolding add_stream_def Let_def by (intro save_stream_inv file_stream_inv) (simp_all add: served_def)

lemma close_rtp_frame [simp]:
  "sv_stream (close_rtp sid s) = sv_stream s" "sv_streamHeap (close_rtp sid s) = sv_streamHeap s"
  by (simp_all add: close_rtp_eq cancel_worker_eq)

lemma finalizers_frame [simp]:
  "sv_stream (finalizeRecorder t sid s) = sv_stream s" "sv_streamHeap (finalizeRecorder t sid s) = sv_streamHeap s"
  "sv_stream (finalizeOpusRecorder t sid s) = sv_stream s" "sv_streamHeap (finalizeOpusRecorder t sid s) = sv_streamHeap s"
  by (simp_all add: finalizeRecorder_def finalizeOpusRecorder_def Let_def split: option.split)

lemma start_lookup_inv: "sv_inv good s \<Longrightarrow> sv_inv good (snd (start_lookup ou dev s))"
  by (simp add: start_lookup_def replace_existing_inv split: sum.split)

lemma start_bind_inv: "sv_inv good s \<Longrightarrow> sv_inv good (snd (start_bind ou s))"
  using Bind_inv [of good s "ou_listen ou" "newStreamID (ou_random ou 0)" DefaultPayloadType
    "times_unit (cf_JitterTargetMS (sv_cfg s)) 1000000" "cf_RTPBindPort (sv_cfg s)"]
  by (auto simp: start_bind_def split: prod.split sum.split)

lemma start_register_inv: "sv_inv good s \<Longrightarrow> sv_inv good (snd (start_register ou dev s))"
  by (simp add: start_register_def add_stream_inv)

lemma reject_stream_inv [sv_keeps]: "sv_inv good s \<Longrightarrow> sv_inv good (reject_stream t sid dev s)"
  unfolding reject_stream_def by (intro save_stream_inv remove_stream_inv close_rtp_inv)

lemma bound_heap: "bindings_ok r \<Longrightarrow> rc_streams r sid = Some b \<Longrightarrow> b \<in> dom (rc_heap r)"
  by (fastforce simp: bindings_ok_def)

lemma stream_accepted_inv [sv_keeps]:
  assumes "sv_inv good s" and "good dec" and "sid \<noteq> ''''"
  shows "sv_inv good (snd (stream_accepted ou dec rg sid dev p port s))"
proof -
  have "sv_inv good (save_stream sid dev StateRTPWait FailureNone 0 t
      (on_stream p (\<lambda>st. snd (sm_StreamStarted (ou_clock ou 5) st)) s))" (is "sv_inv good (?s t)") for t
    using assms(1) by (intro save_stream_inv on_stream_inv) simp_all
  moreover have "b \<in> dom (rc_heap (sv_rtp (?s t)))" if "rc_GetStreamBinding (sv_rtp (?s t)) sid = Some b" for t b
    using that assms(1) bound_heap [of "sv_rtp s" sid b]
    by (simp add: rc_GetStreamBinding_def sv_inv_def save_stream_def on_stream_eq)
  ultimately show ?thesis
    using assms(2,3) by (auto simp: stream_accepted_def Let_def reject_stream_inv
        intro!: start_opus_inv start_wav_inv start_worker_inv split: option.split)
qed

lemma start_finish_inv:
  assumes "sv_inv good s" and "good dec"
  shows "sv_inv good (snd (start_finish ou dec rg dev port p reply s))"
  using assms stream_accepted_inv [OF assms newStreamID_not_Nil]
  by (auto simp: start_finish_def Let_def intro!: reject_stream_inv on_stream_inv split: sum.split message.split)

lemma stop_begin_inv: "sv_inv good s \<Longrightarrow> sv_inv good (snd (stop_begin sid s))"
  by (auto simp: stop_begin_def intro!: on_stream_inv split: sum.split option.split)

lemma stop_finish_inv: "sv_inv good s \<Longrightarrow> sv_inv good (snd (stop_finish ou marshal sid dev p reply s))"
  by (auto simp: stop_finish_def Let_def intro!: save_stream_inv finalizeRecorder_inv on_stream_inv close_rtp_inv
      keep_final_stats_inv split: sum.split message.split)

text \<open>A walk over the registry that only applies methods to streams.\<close>

lemma walk_inv:
  assumes "\<And>p acc. sv_inv good (fst acc) \<Longrightarrow> sv_inv good (fst (f p acc))" and "sv_inv good s"
  shows "sv_inv good (fst (reg_ForEach order f r (s, ids)))"
proof -
  have "sv_inv good (fst acc) \<Longrightarrow> sv_inv good (fst (foldl (\<lambda>s p. f p s) acc ps))" for ps acc
    by (induction ps arbitrary: acc) (simp_all add: assms(1))
  with assms(2) show ?thesis by (simp add: reg_ForEach_def)
qed

lemma disconnect_inv: "sv_inv good s \<Longrightarrow> sv_inv good (OnDeviceDisconnect order clk dev s)"
proof -
  assume inv: "sv_inv good s"
  have "sv_inv good (fst acc) \<Longrightarrow> sv_inv good (fst (disconnect_stream dev p acc))" for p acc
    by (auto simp: disconnect_stream_def intro!: on_stream_inv split: prod.split option.split)
  from walk_inv [OF this inv] have
    "sv_inv good (fst (reg_ForEach order (disconnect_stream dev) (sv_stream s) (s, [])))" .
  then show ?thesis
    using inv by (auto simp: OnDeviceDisconnect_def Let_def intro!: set_device_inv cleanup_all_inv split: prod.split)
qed

lemma OnClose_inv: "sv_inv good s \<Longrightarrow> sv_inv good (sv_OnClose order clk ref dev s)"
  by (auto simp: sv_OnClose_def intro!: disconnect_inv set_ctrl_inv split: prod.split bool.split)

lemma OnReady_inv: "sv_inv good s \<Longrightarrow> sv_inv good (sv_OnReady ref dev s)"
  unfolding sv_OnReady_def by (rule set_ctrl_inv)

lemma set_db_inv [sv_keeps]: "sv_inv good s \<Longrightarrow> sv_inv good (s\<lparr>sv_db := db\<rparr>)"
  by (simp add: sv_inv_def)

lemma Authenticate_inv: "sv_inv good s \<Longrightarrow> sv_inv good (snd (sv_Authenticate nb now dev cred s))"
  by (auto simp: sv_Authenticate_def Let_def sv_inv_def split: sum.split)

lemma pushStreamMetrics_inv: "sv_inv good s \<Longrightarrow> sv_inv good (pushStreamMetrics sid st now s)"
  by (simp add: pushStreamMetrics_def Let_def on_metrics_def sv_inv_def bindings_ok_def)

lemma push_active_inv: "sv_inv good s \<Longrightarrow> sv_inv good (push_active now ids s)"
  unfolding push_active_def
  by (induction ids arbitrary: s) (simp_all add: pushStreamMetrics_inv split: prod.split)

lemma monitor_inv: "sv_inv good s \<Longrightarrow> sv_inv good (monitor_tick o1 o2 clk now s)"
proof -
  assume inv: "sv_inv good s"
  have "sv_inv good (fst acc) \<Longrightarrow> sv_inv good (fst (timeout_stream now p acc))" for p acc
    by (auto simp: timeout_stream_def intro!: on_stream_inv split: prod.split option.split)
  from walk_inv [OF this push_active_inv [OF inv]] show ?thesis
    by (simp add: monitor_tick_def Let_def cleanup_all_inv split_beta)
qed

text \<open>A stream restored from its row, which is new, can always be marked.\<close>

lemma mark_new_stream:
  "sm_MarkServerRestartFailed (WithTimeoutConfig c (stream_New sid d x t)) =
     (None, (WithTimeoutConfig c (stream_New sid d x t))\<lparr>sm_state := StateFailed, sm_Reason := FailureServerRestart\<rparr>)"
  by (simp add: sm_MarkServerRestartFailed_def WithTimeoutConfig_def stream_New_def)

lemma restored_stream [simp]:
  "reason_inv (st\<lparr>sm_state := StateFailed, sm_Reason := FailureServerRestart\<rparr>)"
  "sm_StreamID (WithTimeoutConfig c (stream_New sid d x t)) = sid"
  "served StateFailed"
  by (simp_all add: served_def reason_inv_def WithTimeoutConfig_def stream_New_def)

lemma restore_streams_inv: "sv_inv good s \<Longrightarrow> sv_inv good (snd (restore_streams rows s))"
proof (induction rows arbitrary: s)
  case (Cons x rows)
  obtain sid row where "x = (sid, row)" by force
  moreover have "sv_inv good (save_stream sid d StateFailed FailureServerRestart x t (s\<lparr>sv_streamHeap :=
      (sv_streamHeap s)(sv_next s \<mapsto> (WithTimeoutConfig c (stream_New sid d x t))
        \<lparr>sm_state := StateFailed, sm_Reason := FailureServerRestart\<rparr>),
      sv_stream := reg_Add sid (sv_next s) (sv_stream s), sv_next := Suc (sv_next s)\<rparr>))" for c sid d x t
    using Cons.prems by (intro save_stream_inv file_stream_inv) simp_all
  ultimately show ?case using Cons by (simp add: mark_new_stream)
qed simp

lemma Restore_inv: "sv_inv good s \<Longrightarrow> sv_inv good (snd (Restore o1 o2 s))"
proof -
  have "sv_inv good s \<Longrightarrow> sv_inv good (foldl restore_device s ds)" for ds and s :: "'a server"
    by (induction ds arbitrary: s) (simp_all add: restore_device_def set_device_inv split: prod.split)
  then show "sv_inv good s \<Longrightarrow> ?thesis" by (simp add: Restore_def Let_def restore_streams_inv)
qed

end
