(* ===== verification/Server_Lifecycle.thy ===== *)
theory Server_Lifecycle
  imports Server_Invariant
begin

text \<open>
  How the streams of the server change: filing a new one apart, every operation moves the streams it
  touches forward along the lifecycle and at most takes entries out of the registry. Two frame facts
  come with it: which operations touch streams and registry at all, and which reach the sessions.
\<close>

section \<open>Forward moves\<close>

definition stream_moved :: "stream \<Rightarrow> stream \<Rightarrow> bool" where
  "stream_moved st st' \<longleftrightarrow> sm_StreamID st' = sm_StreamID st \<and> sm_DeviceID st' = sm_DeviceID st \<and>
     (served (sm_state st) \<longrightarrow> runs_on (sm_state st) (sm_state st'))"

definition heap_moved :: "stream_heap \<Rightarrow> stream_heap \<Rightarrow> bool" where
  "heap_moved h h' \<longleftrightarrow> (\<forall>p. rel_option stream_moved (h p) (h' p))"

definition sv_moves :: "'d server \<Rightarrow> 'd server \<Rightarrow> bool" where
  "sv_moves s s' \<longleftrightarrow> heap_moved (sv_streamHeap s) (sv_streamHeap s') \<and>
     reg_streams (sv_stream s') \<subseteq>\<^sub>m reg_streams (sv_stream s)"

lemma stream_moved_refl [simp]: "stream_moved st st"
  by (simp add: stream_moved_def)

lemma stream_moved_trans: "stream_moved a b \<Longrightarrow> stream_moved b c \<Longrightarrow> stream_moved a c"
  using runs_on_facts(1) by (auto simp: stream_moved_def)

lemma stream_method_moved: "stream_method f \<Longrightarrow> stream_moved st (f st)"
  by (simp add: stream_moved_def stream_method_def)

lemma heap_moved_trans: "heap_moved h1 h2 \<Longrightarrow> heap_moved h2 h3 \<Longrightarrow> heap_moved h1 h3"
  unfolding heap_moved_def by (metis option.rel_transp stream_moved_trans transpE transpI)

lemma heap_moved_refl [simp]: "heap_moved h h"
  by (simp add: heap_moved_def option.rel_refl)

lemma sv_moves_refl [simp]: "sv_moves s s"
  by (simp add: sv_moves_def)

lemma sv_moves_trans [trans]: "sv_moves s1 s2 \<Longrightarrow> sv_moves s2 s3 \<Longrightarrow> sv_moves s1 s3"
  unfolding sv_moves_def using heap_moved_trans map_le_trans by blast

text \<open>An operation after a move is a move; each rule peels one operation off.\<close>

named_theorems moves \<open>operations that move streams forward\<close>

lemma moves_frame:
  "sv_moves s0 s \<Longrightarrow> sv_stream s' = sv_stream s \<Longrightarrow> sv_streamHeap s' = sv_streamHeap s \<Longrightarrow> sv_moves s0 s'"
  by (simp add: sv_moves_def)

lemma on_stream_moves [moves]:
  assumes "sv_moves s0 s" and "stream_method f"
  shows "sv_moves s0 (on_stream p f s)"
proof -
  have "heap_moved (sv_streamHeap s) (sv_streamHeap (on_stream p f s))"
    by (auto simp: heap_moved_def on_stream_eq option.rel_map option.rel_refl stream_method_moved [OF assms(2)])
  with assms(1) show ?thesis unfolding sv_moves_def by (auto simp: on_stream_eq intro: heap_moved_trans)
qed

lemma remove_stream_moves [moves]: "sv_moves s0 s \<Longrightarrow> sv_moves s0 (remove_stream sid s)"
  by (auto simp: sv_moves_def remove_stream_def reg_Remove_def map_le_def)

lemma framed_moves [moves]:
  assumes "sv_moves s0 s"
  shows "sv_moves s0 (save_stream sid dev st rs x t s)" "sv_moves s0 (drop_tracking sid s)"
    "sv_moves s0 (keep_final_stats marshal sid dev stats s)" "sv_moves s0 (on_metrics g s)"
    "sv_moves s0 (close_rtp sid s)" "sv_moves s0 (finalizeRecorder t sid s)" "sv_moves s0 (finalizeOpusRecorder t sid s)"
    "sv_moves s0 (start_worker dec sid b s)" "sv_moves s0 (add_recorder k i sid fmt t obj s)"
    "sv_moves s0 (start_wav ou rg sid s)" "sv_moves s0 (start_opus ou sid s)"
  by (rule moves_frame [OF assms];
      simp add: save_stream_def drop_tracking_def keep_final_stats_def on_metrics_def start_worker_def add_recorder_def
        start_wav_def start_opus_def Let_def split: option.split sum.split prod.split)+

lemma updated_moves [moves]:
  "sv_moves s0 s \<Longrightarrow> sv_moves s0 (s\<lparr>sv_rtp := r\<rparr>)" "sv_moves s0 s \<Longrightarrow> sv_moves s0 (s\<lparr>sv_ctrl := m\<rparr>)"
  "sv_moves s0 s \<Longrightarrow> sv_moves s0 (s\<lparr>sv_device := d\<rparr>)"
  by (simp_all add: sv_moves_def)

lemma cleanup_moves [moves]: "sv_moves s0 s \<Longrightarrow> sv_moves s0 (cleanupStreamByID clk sid s)"
  unfolding cleanupStreamByID_def by (intro moves)

lemma cleanup_all_moves [moves]: "sv_moves s0 s \<Longrightarrow> sv_moves s0 (cleanup_all clk ids s)"
  unfolding cleanup_all_def by (induction ids arbitrary: s) (simp_all add: cleanup_moves)

lemma replace_existing_moves [moves]: "sv_moves s0 s \<Longrightarrow> sv_moves s0 (replace_existing ou dev s)"
  by (auto simp: replace_existing_def Let_def intro!: moves split: option.split)

lemma reject_stream_moves [moves]: "sv_moves s0 s \<Longrightarrow> sv_moves s0 (reject_stream t sid dev s)"
  unfolding reject_stream_def by (intro moves)

lemma stream_accepted_moves [moves]:
  "sv_moves s0 s \<Longrightarrow> sv_moves s0 (snd (stream_accepted ou dec rg sid dev p port s))"
  by (auto simp: stream_accepted_def Let_def intro!: moves split: option.split)

section \<open>Handlers\<close>

lemma start_lookup_moves: "sv_moves s (snd (start_lookup ou dev s))"
  by (auto simp: start_lookup_def intro: moves split: sum.split)

lemma start_bind_moves: "sv_moves s (snd (start_bind ou s))"
  by (auto simp: start_bind_def intro: moves split: sum.split prod.split)

lemma start_finish_moves: "sv_moves s (snd (start_finish ou dec rg dev port p reply s))"
  by (auto simp: start_finish_def Let_def intro!: moves split: sum.split message.split)

lemma stop_begin_moves: "sv_moves s (snd (stop_begin sid s))"
  by (auto simp: stop_begin_def intro!: moves split: sum.split option.split)

lemma stop_finish_moves: "sv_moves s (snd (stop_finish ou marshal sid dev p reply s))"
  by (auto simp: stop_finish_def Let_def intro!: moves split: sum.split message.split)

lemma walk_moves:
  assumes "\<And>p acc. sv_moves s0 (fst acc) \<Longrightarrow> sv_moves s0 (fst (f p acc))" and "sv_moves s0 s"
  shows "sv_moves s0 (fst (reg_ForEach order f r (s, ids)))"
proof -
  have "sv_moves s0 (fst acc) \<Longrightarrow> sv_moves s0 (fst (foldl (\<lambda>s p. f p s) acc ps))" for ps acc
    by (induction ps arbitrary: acc) (simp_all add: assms(1))
  with assms(2) show ?thesis by (simp add: reg_ForEach_def)
qed

lemma disconnect_moves [moves]: "sv_moves s0 s \<Longrightarrow> sv_moves s0 (OnDeviceDisconnect order clk dev s)"
proof -
  assume start: "sv_moves s0 s"
  have "sv_moves s0 (fst acc) \<Longrightarrow> sv_moves s0 (fst (disconnect_stream dev p acc))" for p acc
    by (auto simp: disconnect_stream_def intro!: moves split: prod.split option.split)
  from walk_moves [OF this start] have
    "sv_moves s0 (fst (reg_ForEach order (disconnect_stream dev) (sv_stream s) (s, [])))" .
  with start show ?thesis
    by (auto simp: OnDeviceDisconnect_def Let_def intro!: moves split: prod.split)
qed

lemma OnClose_moves: "sv_moves s (sv_OnClose order clk ref dev s)"
  by (auto simp: sv_OnClose_def intro!: moves split: prod.split bool.split)

lemma push_active_moves [moves]: "sv_moves s0 s \<Longrightarrow> sv_moves s0 (push_active now ids s)"
proof -
  have "sv_moves s0 s \<Longrightarrow> sv_moves s0 (pushStreamMetrics sid st now s)" for sid st and s :: "'a server"
    by (erule moves_frame) (simp_all add: pushStreamMetrics_def Let_def on_metrics_def)
  then show "sv_moves s0 s \<Longrightarrow> ?thesis"
    unfolding push_active_def by (induction ids arbitrary: s) (simp_all split: prod.split)
qed

lemma monitor_moves: "sv_moves s (monitor_tick o1 o2 clk now s)"
proof -
  have "sv_moves s (fst acc) \<Longrightarrow> sv_moves s (fst (timeout_stream now p acc))" for p acc
    by (auto simp: timeout_stream_def intro!: moves split: prod.split option.split)
  from walk_moves [OF this push_active_moves [OF sv_moves_refl]] show ?thesis
    by (simp add: monitor_tick_def Let_def cleanup_all_moves split_beta)
qed

lemma on_packet_moves [moves]: "sv_moves s0 s \<Longrightarrow> sv_moves s0 (on_packet now sid s)"
  by (auto simp: on_packet_def intro!: moves split: sum.split)

lemma on_compressed_moves: "on_compressed ts payload s = Some s' \<Longrightarrow> sv_moves s0 s \<Longrightarrow> sv_moves s0 s'"
  by (erule moves_frame) (auto simp: on_compressed_def split: option.splits rec_object.splits)

lemma run_callbacks_moves: "run_callbacks now cbs s = Some s' \<Longrightarrow> sv_moves s0 s \<Longrightarrow> sv_moves s0 s'"
proof (induction now cbs s rule: run_callbacks.induct)
  case (3 now sid ts payload cs s)
  then show ?case by (auto simp: bind_eq_Some_conv dest: on_compressed_moves)
qed (auto intro: moves)

lemma rtp_turn_moves: "rtp_turn pion now rd ref s = Some s' \<Longrightarrow> sv_moves s s'"
  by (auto simp: rtp_turn_def intro: moves dest!: run_callbacks_moves split: prod.splits)

lemma on_pcm_all_frame:
  "on_pcm_all f ls s = Some s' \<Longrightarrow> sv_stream s' = sv_stream s \<and> sv_streamHeap s' = sv_streamHeap s"
proof (induction f ls s rule: on_pcm_all.induct)
  case (3 f l ls s)
  moreover have "sv_stream (on_pcm f l s) = sv_stream s \<and> sv_streamHeap (on_pcm f l s) = sv_streamHeap s"
    by (simp add: on_pcm_def split: option.split rec_object.split)
  ultimately show ?case by simp
qed simp_all

lemma publish_events_frame:
  "publish_events evs s = Some s' \<Longrightarrow> sv_stream s' = sv_stream s \<and> sv_streamHeap s' = sv_streamHeap s"
proof (induction evs s rule: publish_events.induct)
  case (3 f es s)
  then show ?case
    by (fastforce simp: bind_eq_Some_conv publish_def dest: on_pcm_all_frame split: prod.splits)
qed simp_all

lemma worker_turn_moves: "worker_turn iter decode takeDone now h s = Some s' \<Longrightarrow> sv_moves s s'"
  by (rule moves_frame [OF sv_moves_refl])
    (auto simp: worker_turn_def dest!: publish_events_frame split: option.splits if_splits)

lemma side_moves:
  "sv_moves s (opus_writer_turn ref s)" "sv_moves s (live_connect grow s)" "sv_moves s (live_turn c w l s)"
  "sv_moves s (snd (sv_Authenticate nil_blob now dev cred s))" "sv_moves s (snd (SetDeviceDisplayName dev name s))"
  "sv_moves s (snd (DeviceFinalStats parse sid s))" "sv_moves s (sv_OnReady ref dev s)"
  by (rule moves_frame [OF sv_moves_refl];
      simp add: opus_writer_turn_def live_connect_def live_turn_def sv_Authenticate_def SetDeviceDisplayName_def
        DeviceFinalStats_def sv_OnReady_def Let_def split: option.split rec_object.split sum.split prod.split)+

end
