(* ===== verification/Server_Reach.thy ===== *)
theory Server_Reach
  imports Server_Lifecycle
begin

text \<open>
  The server as a transition system: every handler, goroutine pass and half of a waiting call is a
  step, in any interleaving. What holds in every reachable state.
\<close>

section \<open>The data path keeps the invariant and does not panic\<close>

lemma read_step_ok:
  assumes "bindings_ok r" and "read_step pion now rd ref r = (c, cbs, r')"
  shows "bindings_ok r' \<and> dom (rc_heap r') = dom (rc_heap r)"
proof -
  have upd: "bindings_ok (q\<lparr>rc_heap := (rc_heap q)(ref \<mapsto> y)\<rparr>)"
    if "bindings_ok q" "rc_heap q ref = Some x" "sb_streamID y = sb_streamID x" "jb_inv (sb_jb y)" for q x y
    using that by (fastforce simp: bindings_ok_def)
  have mono: "bindings_ok q \<Longrightarrow> bindings_ok (q\<lparr>rc_metrics := m\<rparr>)" for q m
    by (simp add: bindings_ok_def)
  have learn: "sb_streamID (learn_ssrc p cb b) = sb_streamID b" "sb_jb (learn_ssrc p cb b) = sb_jb b" for p cb b
    by (simp_all add: learn_ssrc_def Let_def)
  have inv: "jb_inv (sb_jb b)" if "rc_heap r ref = Some b" for b
    using assms(1) that by (auto simp: bindings_ok_def)
  show ?thesis
    using assms upd [OF assms(1)] mono [OF upd [OF assms(1)]] mono [OF assms(1)] learn inv jb_Push_inv
    by (auto simp: read_step_def Let_def split: option.splits if_splits read_outcome.splits sum.splits)
qed

lemma on_packet_inv [sv_keeps]: "sv_inv good s \<Longrightarrow> sv_inv good (on_packet now sid s)"
  by (auto simp: on_packet_def intro!: on_stream_inv split: sum.split)

lemma recHeap_update_inv:
  assumes "sv_inv good s" and "sv_recHeap s ref = Some old" and "rec_ok obj" and "is_listener obj = is_listener old"
  shows "sv_inv good (s\<lparr>sv_recHeap := (sv_recHeap s)(ref \<mapsto> obj)\<rparr>)"
proof -
  have "recorders_ok (sv_recordings s) ((sv_recHeap s)(ref \<mapsto> obj)) (sv_next s)"
    using recorders_ok_update [of "sv_recordings s" "sv_recHeap s" "sv_next s" "\<lambda>_. obj" ref] assms
    by (simp add: sv_inv_def)
  moreover have "listeners_ok (sv_bus s) (sv_live s) ((sv_recHeap s)(ref \<mapsto> obj)) (sv_next s)"
    using assms by (auto simp: sv_inv_def listeners_ok_def)
  ultimately show ?thesis using assms(1) by (simp add: sv_inv_def)
qed

lemma inv_rec_ok: "sv_inv good s \<Longrightarrow> sv_recHeap s ref = Some obj \<Longrightarrow> rec_ok obj"
  by (auto simp: sv_inv_def recorders_ok_def)

lemma on_compressed_ok:
  assumes "sv_inv good s"
  shows "\<exists>s'. on_compressed ts payload s = Some s' \<and> sv_inv good s'"
proof (cases "Option.bind (sv_opusTarget s) (sv_recHeap s)")
  case None
  with assms show ?thesis by (auto simp: on_compressed_def split: option.split)
next
  case (Some obj)
  then obtain ref where ref: "sv_opusTarget s = Some ref" "sv_recHeap s ref = Some obj"
    by (auto simp: bind_eq_Some_conv)
  show ?thesis
  proof (cases obj)
    case (WavRec r)
    with ref assms show ?thesis by (simp add: on_compressed_def)
  next
    case (OpusRec r)
    have "rec_ok (OpusRec r)" using inv_rec_ok [OF assms ref(2)] OpusRec by simp
    then obtain r' where "WritePacket (\<lambda>r. r) ts payload r = Some r'" "rec_ok (OpusRec r')"
      by (cases "length (or_ch r) < ch_cap") (auto simp: WritePacket_def Let_def)
    with ref OpusRec recHeap_update_inv [OF assms ref(2), of "OpusRec r'"] show ?thesis
      by (simp add: on_compressed_def)
  qed
qed

lemma run_callbacks_ok: "sv_inv good s \<Longrightarrow> \<exists>s'. run_callbacks now cbs s = Some s' \<and> sv_inv good s'"
proof (induction now cbs s rule: run_callbacks.induct)
  case (3 now sid ts payload cs s)
  obtain s1 where "on_compressed ts payload s = Some s1" "sv_inv good s1"
    using on_compressed_ok [OF 3(2)] by blast
  with 3(1) show ?case by simp
qed (simp_all add: on_packet_inv)

lemma rtp_turn_ok:
  assumes "sv_inv good s"
  shows "\<exists>s'. rtp_turn pion now rd ref s = Some s' \<and> sv_inv good s'"
proof -
  obtain c cbs r where st: "read_step pion now rd ref (sv_rtp s) = (c, cbs, r)" by (metis prod_cases3)
  have "sv_inv good (s\<lparr>sv_rtp := r\<rparr>)"
    using read_step_ok [OF _ st] assms by (simp add: sv_inv_def)
  from run_callbacks_ok [OF this] st show ?thesis by (simp add: rtp_turn_def)
qed

lemma on_pcm_inv: "sv_inv good s \<Longrightarrow> sv_inv good (on_pcm f l s)"
proof -
  assume inv: "sv_inv good s"
  have "sv_inv good (s\<lparr>sv_live := (sv_live s)(l \<mapsto> lo')\<rparr>)" if "sv_live s l = Some lo" for lo lo'
    using inv that by (auto simp: sv_inv_def listeners_ok_def)
  with inv show ?thesis
    by (auto simp: on_pcm_def intro: recHeap_update_inv split: option.split rec_object.split)
qed

lemma on_pcm_bus [simp]: "sv_bus (on_pcm f l s) = sv_bus s"
  by (simp add: on_pcm_def split: option.split rec_object.split)

lemma on_pcm_all_ok:
  "sv_inv good s \<Longrightarrow> \<exists>s'. on_pcm_all f (map Some ls) s = Some s' \<and> sv_inv good s'"
  by (induction ls arbitrary: s) (simp_all add: on_pcm_inv)

lemma publish_ok:
  assumes "sv_inv good s"
  shows "\<exists>s'. publish f s = Some s' \<and> sv_inv good s'"
proof -
  have bi: "bus_inv (sv_bus s)" using assms by (simp add: sv_inv_def listeners_ok_def)
  have same: "snd (publish_loop (\<lambda>_ b. b) n i arr b) = b" for n i arr b
    by (induction n arbitrary: i) (simp_all add: split_beta)
  have "bus_Publish (\<lambda>_ b. b) (Some f) (sv_bus s) = (map Some (listeners (sv_bus s)), sv_bus s)"
    using publish_undisturbed [of "\<lambda>b. b = sv_bus s" "\<lambda>_ b. b" "bus_len (sv_bus s)" "bus_arr (sv_bus s)"
        "bus_elems (sv_bus s)" "sv_bus s" 0 "bus_len (sv_bus s)"] same
      bus_elems_listeners [OF bi] bi
    by (simp add: bus_Publish_def bus_elems_def bus_inv_def prod_eq_iff)
  with on_pcm_all_ok [OF assms, of f] show ?thesis by (simp add: publish_def)
qed

lemma publish_events_ok: "sv_inv good s \<Longrightarrow> \<exists>s'. publish_events evs s = Some s' \<and> sv_inv good s'"
proof (induction evs s rule: publish_events.induct)
  case (3 f es s)
  obtain s1 where "publish f s = Some s1" "sv_inv good s1" using publish_ok [OF 3(2)] by blast
  with 3(1) show ?case by simp
qed simp_all

lemma worker_turn_ok:
  assumes "pcm_decoder decode good" and "sv_inv good s"
  shows "\<exists>s'. worker_turn iter decode takeDone now h s = Some s' \<and> sv_inv good s'"
proof (cases "sv_workers s h")
  case None
  with assms(2) show ?thesis by (simp add: worker_turn_def)
next
  case (Some k)
  have k: "wk_binding k \<in> dom (rc_heap (sv_rtp s))" "good (w_decoder (wk_worker k))" "w_streamID (wk_worker k) \<noteq> ''''" "h < sv_next s"
    using assms(2) Some by (auto simp: sv_inv_def workers_ok_def)
  then obtain b where b: "rc_heap (sv_rtp s) (wk_binding k) = Some b" by blast
  have jb: "jb_inv (sb_jb b)" using assms(2) b by (auto simp: sv_inv_def bindings_ok_def)
  let ?w = "(wk_worker k)\<lparr>w_metrics := rc_metrics (sv_rtp s)\<rparr>"
  obtain ret evs jb' w' where pk: "worker_pass iter decode (wk_ctx k) takeDone now (sb_jb b) ?w = Some (ret, evs, jb', w')"
      "jb_inv jb'" "good (w_decoder w')" "w_streamID w' \<noteq> ''''"
    using pcm_decoder.pass_ok [OF assms(1), of ?w "sb_jb b" iter "wk_ctx k" takeDone now] k(2,3) jb by auto
  let ?s = "s\<lparr>sv_rtp := (sv_rtp s)\<lparr>rc_heap := (rc_heap (sv_rtp s))(wk_binding k \<mapsto> b\<lparr>sb_jb := jb'\<rparr>),
      rc_metrics := w_metrics w'\<rparr>, sv_workers := (sv_workers s)(h \<mapsto> k\<lparr>wk_worker := w', wk_returned := ret\<rparr>)\<rparr>"
  have "bindings_ok (sv_rtp ?s)"
    using assms(2) b pk(2) by (fastforce simp: sv_inv_def bindings_ok_def)
  moreover have "workers_ok good (sv_workers ?s) (dom (rc_heap (sv_rtp ?s))) (sv_next ?s)"
    using assms(2) k pk by (auto simp: sv_inv_def workers_ok_def)
  ultimately have "sv_inv good ?s" using assms(2) by (simp add: sv_inv_def)
  from publish_events_ok [OF this] Some b pk(1) assms(2) show ?thesis
    by (cases "wk_returned k") (auto simp: worker_turn_def)
qed

lemma opus_writer_inv: "sv_inv good s \<Longrightarrow> sv_inv good (opus_writer_turn ref s)"
proof -
  assume inv: "sv_inv good s"
  have "rec_ok (OpusRec (writer_step r))" if "sv_recHeap s ref = Some (OpusRec r)" for r
  proof -
    have "or_closed r = or_chClosed r" using inv_rec_ok [OF inv that] by simp
    then show ?thesis by (simp add: writer_step_def split: list.split)
  qed
  with inv show ?thesis
    by (auto simp: opus_writer_turn_def intro: recHeap_update_inv split: option.split rec_object.split)
qed

lemma live_connect_inv:
  assumes "sv_inv good s"
  shows "sv_inv good (live_connect grow s)"
proof -
  have fresh: "sv_recHeap s (sv_next s) = None"
    using assms by (cases "sv_recHeap s (sv_next s)") (auto simp: sv_inv_def recorders_ok_def)
  have "listeners_ok (sv_bus s) ((sv_live s)(sv_next s \<mapsto> NewLiveOutput)) (sv_recHeap s) (Suc (sv_next s))"
    using assms fresh by (auto simp: sv_inv_def listeners_ok_def less_Suc_eq)
  then show ?thesis
    using assms by (auto simp: sv_inv_def live_connect_def intro: ok_mono intro!: listeners_ok_Subscribe)
qed

lemma live_update_inv:
  "sv_inv good s \<Longrightarrow> sv_live s l = Some lo \<Longrightarrow> sv_inv good (s\<lparr>sv_live := (sv_live s)(l \<mapsto> lo')\<rparr>)"
  by (auto simp: sv_inv_def listeners_ok_def)

lemma live_turn_inv: "sv_inv good s \<Longrightarrow> sv_inv good (live_turn c w l s)"
proof (cases "sv_live s l")
  case (Some lo)
  assume "sv_inv good s"
  from live_update_inv [OF this Some] have upd: "sv_inv good (s\<lparr>sv_live := (sv_live s)(l \<mapsto> lo')\<rparr>)" for lo' .
  from Some upd Unsubscribe_server_inv [OF upd] show ?thesis by (simp add: live_turn_def Let_def)
qed (simp add: live_turn_def)

section \<open>Steps\<close>

text \<open>Any change of the reply channels (a delivery, a channel opened or closed) is one kind of step.
  What the goroutines of the control connections do is marked \<open>Control\<close>. \<open>StartStream\<close> takes four steps (looking the device up and replacing its stream,
  binding, filing the new stream, and using the reply), \<open>StopStream\<close> two. The label of a step tells
  how far a start got.\<close>

datatype sv_event = LookedUp string | Registered string | GaveUp string | Control | Other

inductive sv_step ::
  "'d decode_fn \<Rightarrow> ('d \<Rightarrow> bool) \<Rightarrow> sv_event \<Rightarrow> 'd server \<Rightarrow> 'd server \<Rightarrow> bool" for decode good where
  manager: "mg_sessions m = mg_sessions (sv_ctrl s) \<Longrightarrow> sv_step decode good Other s (s\<lparr>sv_ctrl := m\<rparr>)"
| lookup: "visits (ou_order ou) (sv_stream s) \<Longrightarrow> start_lookup ou dev s = (None, s') \<Longrightarrow>
    sv_step decode good (LookedUp dev) s s'"
| bind: "start_bind ou s = (Inr port, s') \<Longrightarrow> sv_step decode good Other s s'"
| bind_failed: "start_bind ou s = (Inl e, s') \<Longrightarrow> sv_step decode good (GaveUp dev) s s'"
| register: "sv_step decode good (Registered dev) s (snd (start_register ou dev s))"
| reply: "good dec \<Longrightarrow> sv_step decode good Other s (snd (start_finish ou dec rg dev port p reply s))"
| stop1: "sv_step decode good Other s (snd (stop_begin sid s))"
| stop2: "sv_step decode good Other s (snd (stop_finish ou marshal sid dev p reply s))"
| auth: "sv_step decode good Control s (snd (sv_Authenticate nil_blob now dev cred s))"
| ready: "sv_step decode good Control s (sv_OnReady ref dev s)"
| closed: "sv_step decode good Control s (sv_OnClose order clk ref dev s)"
| datagram: "rtp_turn pion now rd ref s = Some s' \<Longrightarrow> sv_step decode good Other s s'"
| tick: "worker_turn iter decode takeDone now h s = Some s' \<Longrightarrow> sv_step decode good Other s s'"
| writer: "sv_step decode good Other s (opus_writer_turn ref s)"
| live_join: "sv_step decode good Other s (live_connect grow s)"
| live_write: "sv_step decode good Other s (live_turn c w l s)"
| monitor: "sv_step decode good Other s (monitor_tick o1 o2 clk now s)"
| rename: "sv_step decode good Other s (snd (SetDeviceDisplayName dev name s))"
| final_stats: "sv_step decode good Other s (snd (DeviceFinalStats parse sid s))"

inductive_cases lookupE: "sv_step decode good (LookedUp dev) s s'"
inductive_cases registerE: "sv_step decode good (Registered dev) s s'"

text \<open>The reachable states, and the runs with their trace of labels.\<close>

inductive sv_reach ::
  "'d decode_fn \<Rightarrow> ('d \<Rightarrow> bool) \<Rightarrow> config \<Rightarrow> database \<Rightarrow> 'd server \<Rightarrow> bool" for decode good cfg db where
  boot: "sv_reach decode good cfg db (snd (Restore o1 o2 (sv_New cfg db)))"
| step: "sv_reach decode good cfg db s \<Longrightarrow> sv_step decode good e s s' \<Longrightarrow> sv_reach decode good cfg db s'"

inductive sv_run ::
  "'d decode_fn \<Rightarrow> ('d \<Rightarrow> bool) \<Rightarrow> config \<Rightarrow> database \<Rightarrow> sv_event list \<Rightarrow> 'd server \<Rightarrow> bool"
  for decode good cfg db where
  run_boot: "sv_run decode good cfg db [] (snd (Restore o1 o2 (sv_New cfg db)))"
| run_step: "sv_run decode good cfg db tr s \<Longrightarrow> sv_step decode good e s s' \<Longrightarrow>
    sv_run decode good cfg db (tr @ [e]) s'"

lemma run_reach: "sv_run decode good cfg db tr s \<Longrightarrow> sv_reach decode good cfg db s"
  by (induction rule: sv_run.induct) (auto intro: sv_reach.intros)

lemma reach_run: "sv_reach decode good cfg db s \<Longrightarrow> \<exists>tr. sv_run decode good cfg db tr s"
  by (induction rule: sv_reach.induct) (auto intro: sv_run.intros)

lemma sv_step_inv:
  assumes "pcm_decoder decode good" and "sv_step decode good e s s'" and "sv_inv good s"
  shows "sv_inv good s'"
  using assms(2)
proof cases
  case (lookup ou dev)
  then show ?thesis using start_lookup_inv [OF assms(3), of ou dev] by simp
next
  case (bind ou port)
  then show ?thesis using start_bind_inv [OF assms(3), of ou] by simp
next
  case (bind_failed ou e dev)
  then show ?thesis using start_bind_inv [OF assms(3), of ou] by simp
next
  case datagram
  then show ?thesis using rtp_turn_ok [OF assms(3)] by (metis option.inject)
next
  case tick
  then show ?thesis using worker_turn_ok [OF assms(1,3)] by (metis option.inject)
next
  case rename
  then show ?thesis using assms(3) by (simp add: SetDeviceDisplayName_def sv_inv_def split: prod.split option.split)
next
  case final_stats
  then show ?thesis
    using assms(3) by (simp add: DeviceFinalStats_def sv_inv_def Let_def split: option.split sum.split)
next
  case ready
  then show ?thesis using assms(3) by (simp add: sv_OnReady_def set_ctrl_inv)
qed (use assms(3) in \<open>simp_all add: set_ctrl_inv start_register_inv start_finish_inv stop_begin_inv stop_finish_inv
    Authenticate_inv OnClose_inv opus_writer_inv live_connect_inv live_turn_inv monitor_inv\<close>)

lemma reach_inv:
  assumes "pcm_decoder decode good" and "sv_reach decode good cfg db s"
  shows "sv_inv good s"
  using assms(2) by induction (simp_all add: Restore_inv sv_New_inv sv_step_inv [OF assms(1)])

section \<open>Properties\<close>


text \<open>C30. No pointer of a reachable server dangles: a registered stream is in the heap under its own
  identifier, with a failure reason exactly when it failed; a bound stream has a binding of its own
  identifier; every bus listener is a live client or a WAV recorder; every recording has its
  recorder.\<close>

theorem reachable_server_well_formed:
  assumes "pcm_decoder decode good" and "sv_reach decode good cfg db s"
  shows "(GetStream sid s = Inr p \<longrightarrow>
      (\<exists>st. sv_streamHeap s p = Some st \<and> sm_StreamID st = sid \<and>
        (sm_Reason st \<notin> {FailureNone, FailureReplaced} \<longrightarrow> sm_state st = StateFailed) \<and>
        (sm_state st = StateFailed \<longrightarrow> sm_Reason st \<noteq> FailureNone))) \<and>
    (rc_streams (sv_rtp s) sid = Some b \<longrightarrow> (\<exists>x. rc_heap (sv_rtp s) b = Some x \<and> sb_streamID x = sid)) \<and>
    (l \<in> set (listeners (sv_bus s)) \<longrightarrow> (\<exists>lo. sv_live s l = Some lo) \<or> (\<exists>r. sv_recHeap s l = Some (WavRec r))) \<and>
    (sv_recordings s k = Some r \<longrightarrow> (\<exists>obj. sv_recHeap s r = Some obj))"
proof -
  have inv: "sv_inv good s" using assms by (rule reach_inv)
  have reason: "(sm_Reason st \<notin> {FailureNone, FailureReplaced} \<longrightarrow> sm_state st = StateFailed) \<and>
      (sm_state st = StateFailed \<longrightarrow> sm_Reason st \<noteq> FailureNone)" if "reason_inv st" for st
    using that by (cases "sm_state st") (auto simp: reason_inv_def)
  have "\<exists>st. sv_streamHeap s p = Some st \<and> sm_StreamID st = sid \<and> reason_inv st" if "GetStream sid s = Inr p"
    using inv that filedD filed_heap by (fastforce simp: sv_inv_def GetStream_def reg_Get_iff)
  moreover have "(\<exists>lo. sv_live s l = Some lo) \<or> (\<exists>r. sv_recHeap s l = Some (WavRec r))"
    if "l \<in> set (listeners (sv_bus s))"
    using inv that by (auto simp: sv_inv_def listeners_ok_def) (metis is_listener.elims(2))
  moreover have "\<exists>obj. sv_recHeap s r = Some obj" if "sv_recordings s k = Some r"
    using inv that by (auto simp: sv_inv_def recorders_ok_def ran_def)
  moreover have "\<exists>x. rc_heap (sv_rtp s) b = Some x \<and> sb_streamID x = sid" if "rc_streams (sv_rtp s) sid = Some b"
    using inv that by (simp add: sv_inv_def bindings_ok_def)
  ultimately show ?thesis using reason by blast
qed

end
