(* ===== verification/Server_Live.thy ===== *)
theory Server_Live
  imports Server_Reach
begin

text \<open>
  The live stream of a device. Its abstract specification is a slot that is empty or holds one stream
  in STARTING, RTP_WAIT, ACTIVE or STOPPING; the server implements it as long as the starts of one
  device come one after the other, and only then.
\<close>

section \<open>The live streams of a device\<close>

text \<open>The registered streams of a device that \<open>GetByDevice\<close> would find.\<close>

definition live_ids :: "stream_registry \<Rightarrow> stream_heap \<Rightarrow> string \<Rightarrow> string set" where
  "live_ids r h dev =
     {sid. \<exists>p st. reg_streams r sid = Some p \<and> h p = Some st \<and> sm_DeviceID st = dev \<and>
        live_for_device (sm_state st)}"

abbreviation sv_live_ids :: "'d server \<Rightarrow> string \<Rightarrow> string set" where
  "sv_live_ids s \<equiv> live_ids (sv_stream s) (sv_streamHeap s)"

lemma live_ids_iff:
  "sid \<in> live_ids r h dev \<longleftrightarrow> (\<exists>p st. reg_streams r sid = Some p \<and> h p = Some st \<and> sm_DeviceID st = dev \<and>
     live_for_device (sm_state st))"
  by (simp add: live_ids_def)

text \<open>A live stream was live before a move, and has moved.\<close>

lemma moved_live:
  assumes "sv_moves s s'" and "sv_inv good s"
    and "reg_streams (sv_stream s') sid = Some p" and "sv_streamHeap s' p = Some st'" and "live_for_device (sm_state st')"
  shows "\<exists>st. reg_streams (sv_stream s) sid = Some p \<and> sv_streamHeap s p = Some st \<and> sm_StreamID st = sm_StreamID st' \<and>
    sm_DeviceID st = sm_DeviceID st' \<and> runs_on (sm_state st) (sm_state st') \<and> live_for_device (sm_state st)"
proof -
  have "reg_streams (sv_stream s) sid = Some p"
    using assms(1,3) by (force simp: sv_moves_def map_le_def)
  moreover obtain st where st: "sv_streamHeap s p = Some st" "stream_moved st st'"
    using assms(1,4) by (metis heap_moved_def option_rel_Some2 sv_moves_def)
  moreover have "served (sm_state st)"
    using assms(2) filed_heap [where h = "sv_streamHeap s" and st = st] st(1) by (auto simp: sv_inv_def)
  ultimately show ?thesis
    using runs_on_facts(2) [of "sm_state st" "sm_state st'"] assms(5) by (auto simp: stream_moved_def)
qed

lemma moves_live: "sv_moves s s' \<Longrightarrow> sv_inv good s \<Longrightarrow> sv_live_ids s' dev \<subseteq> sv_live_ids s dev"
  by (fastforce simp: live_ids_iff dest: moved_live)

section \<open>Looking up, replacing and filing\<close>

lemma GetByDevice_None:
  "visits order r \<Longrightarrow> reg_GetByDevice order h dev r = None \<Longrightarrow> live_ids r h dev = {}"
  by (auto simp: reg_GetByDevice_def first_live_None reg_List_refs live_ids_def ran_def)

lemma GetByDevice_Some:
  assumes "visits order r" and "reg_GetByDevice order h dev r = Some p" and "streams_ok r h n"
  shows "\<exists>st. h p = Some st \<and> sm_DeviceID st = dev \<and> live_for_device (sm_state st) \<and>
    reg_streams r (sm_StreamID st) = Some p \<and> sm_StreamID st \<in> live_ids r h dev"
proof -
  obtain st where st: "p \<in> ran (reg_streams r)" "h p = Some st" "sm_DeviceID st = dev" "live_for_device (sm_state st)"
    using first_live_Some assms(1,2) reg_List_refs by (fastforce simp: reg_GetByDevice_def)
  then obtain sid where sid: "reg_streams r sid = Some p" by (auto simp: ran_def)
  with filedD [OF assms(3) sid] st(2) have "reg_streams r (sm_StreamID st) = Some p" by auto
  with st show ?thesis by (auto simp: live_ids_iff)
qed

lemma filed_once:
  assumes "streams_ok r h n" and "reg_streams r a = Some p" and "reg_streams r b = Some p"
  shows "a = b"
  using filedD [OF assms(1,2)] filedD [OF assms(1,3)] by auto

text \<open>Replacing takes exactly the stream found out of the live ones of its device.\<close>

lemma replace_existing_live:
  assumes "sv_inv good s" and "visits (ou_order ou) (sv_stream s)"
  shows "sv_live_ids (replace_existing ou dev s) d =
    (case reg_GetByDevice (ou_order ou) (sv_streamHeap s) dev (sv_stream s) of
       None \<Rightarrow> sv_live_ids s d
     | Some p \<Rightarrow> sv_live_ids s d - {sid. reg_streams (sv_stream s) sid = Some p})"
proof (cases "reg_GetByDevice (ou_order ou) (sv_streamHeap s) dev (sv_stream s)")
  case None
  then show ?thesis by (simp add: replace_existing_def)
next
  case (Some p)
  have ok: "streams_ok (sv_stream s) (sv_streamHeap s) (sv_next s)" using assms(1) by (simp add: sv_inv_def)
  obtain st where st: "sv_streamHeap s p = Some st" "reg_streams (sv_stream s) (sm_StreamID st) = Some p"
    using GetByDevice_Some [OF assms(2) Some ok] by blast
  have "live_ids (reg_Remove (sm_StreamID st) (sv_stream s)) ((sv_streamHeap s)(p \<mapsto> x)) d =
      sv_live_ids s d - {sid. reg_streams (sv_stream s) sid = Some p}" (is "?L = ?R") for x
  proof (rule set_eqI)
    fix k
    show "k \<in> ?L \<longleftrightarrow> k \<in> ?R"
    proof (cases "k = sm_StreamID st")
      case True
      with st show ?thesis by (simp add: live_ids_iff reg_Remove_def)
    next
      case False
      with filed_once [OF ok _ st(2)] have "reg_streams (sv_stream s) k \<noteq> Some p" by blast
      with False show ?thesis by (auto simp: live_ids_iff reg_Remove_def)
    qed
  qed
  with Some st(1) show ?thesis
    by (simp add: replace_existing_def Let_def save_stream_def drop_tracking_def remove_stream_def on_stream_eq)
qed

lemma live_ids_add:
  assumes "streams_ok r h n"
  shows "live_ids (reg_Add sid n r) (h(n \<mapsto> st)) d =
    live_ids r h d - {sid} \<union> (if live_for_device (sm_state st) \<and> sm_DeviceID st = d then {sid} else {})"
proof (rule set_eqI)
  fix k
  have "h n = None" using filed_heap [OF assms, of n] by (cases "h n") auto
  then have "p \<noteq> n" if "reg_streams r k = Some p" for k p using filedD [OF assms that] by auto
  then show "k \<in> live_ids (reg_Add sid n r) (h(n \<mapsto> st)) d \<longleftrightarrow>
      k \<in> live_ids r h d - {sid} \<union> (if live_for_device (sm_state st) \<and> sm_DeviceID st = d then {sid} else {})"
    by (cases "k = sid") (force simp: live_ids_iff reg_Add_def)+
qed

lemma register_live:
  assumes "sv_inv good s"
  shows "sv_live_ids (snd (start_register ou dev s)) d =
    sv_live_ids s d - {newStreamID (ou_random ou 0)} \<union> (if d = dev then {newStreamID (ou_random ou 0)} else {})"
proof -
  have "streams_ok (sv_stream s) (sv_streamHeap s) (sv_next s)" using assms by (simp add: sv_inv_def)
  from live_ids_add [OF this] show ?thesis
    by (auto simp: start_register_def add_stream_def save_stream_def Let_def live_for_device_def terminal_def)
qed

section \<open>Starts of one device that come one after the other\<close>

text \<open>The devices whose start is between the lookup and the filing of the new stream, while no such
  device is looked up again; \<open>None\<close> once one was.\<close>

fun track_start :: "string set option \<Rightarrow> sv_event \<Rightarrow> string set option" where
  "track_start None e = None"
| "track_start (Some P) (LookedUp dev) = (if dev \<in> P then None else Some (insert dev P))"
| "track_start (Some P) (Registered dev) = (if dev \<in> P then Some (P - {dev}) else None)"
| "track_start (Some P) (GaveUp dev) = Some (P - {dev})"
| "track_start (Some P) Control = Some P"
| "track_start (Some P) Other = Some P"

definition starting :: "sv_event list \<Rightarrow> string set option" where
  "starting tr = foldl track_start (Some {}) tr"

definition live_inv :: "string set \<Rightarrow> 'd server \<Rightarrow> bool" where
  "live_inv P s \<longleftrightarrow>
     (\<forall>dev a b. a \<in> sv_live_ids s dev \<longrightarrow> b \<in> sv_live_ids s dev \<longrightarrow> a = b) \<and> (\<forall>dev\<in>P. sv_live_ids s dev = {})"

lemma live_inv_moves: "live_inv P s \<Longrightarrow> sv_moves s s' \<Longrightarrow> sv_inv good s \<Longrightarrow> live_inv P s'"
  unfolding live_inv_def using moves_live by blast

lemma live_inv_fewer: "live_inv P s \<Longrightarrow> Q \<subseteq> P \<Longrightarrow> live_inv Q s"
  unfolding live_inv_def by blast

lemma lookup_clears:
  assumes "sv_inv good s" and "live_inv P s" and "visits (ou_order ou) (sv_stream s)"
  shows "sv_live_ids (replace_existing ou dev s) dev = {}"
proof (cases "reg_GetByDevice (ou_order ou) (sv_streamHeap s) dev (sv_stream s)")
  case None
  with GetByDevice_None [OF assms(3) this] show ?thesis by (simp add: replace_existing_def)
next
  case (Some p)
  have ok: "streams_ok (sv_stream s) (sv_streamHeap s) (sv_next s)" using assms(1) by (simp add: sv_inv_def)
  from GetByDevice_Some [OF assms(3) Some ok] obtain st :: stream where
    "reg_streams (sv_stream s) (sm_StreamID st) = Some p" "sm_StreamID st \<in> sv_live_ids s dev" by blast
  moreover from this(2) assms(2) have "sv_live_ids s dev \<subseteq> {sm_StreamID st}" unfolding live_inv_def by blast
  ultimately show ?thesis using Some by (auto simp: replace_existing_live [OF assms(1,3)])
qed

lemma step_moves:
  assumes "sv_step decode good e s s'" and "\<And>dev. e \<noteq> Registered dev"
  shows "sv_moves s s'"
  using assms(1)
proof cases
  case (lookup ou dev)
  then show ?thesis using start_lookup_moves [of s ou dev] by simp
next
  case (bind ou port)
  then show ?thesis using start_bind_moves [of s ou] by simp
next
  case (bind_failed ou e dev)
  then show ?thesis using start_bind_moves [of s ou] by simp
qed (use assms(2) in \<open>simp_all add: updated_moves start_finish_moves stop_begin_moves stop_finish_moves OnClose_moves
    rtp_turn_moves worker_turn_moves side_moves monitor_moves\<close>)

lemma step_live_inv:
  assumes "sv_step decode good e s s'" and "sv_inv good s" and "live_inv P s" and "track_start (Some P) e = Some Q"
  shows "live_inv Q s'"
proof (cases e)
  case (LookedUp dev)
  with assms(4) have Q: "Q = insert dev P" by (simp split: if_splits)
  have "live_inv P s'" using live_inv_moves [OF assms(3) step_moves [OF assms(1)] assms(2)] LookedUp by simp
  moreover have "sv_live_ids s' dev = {}"
    using assms(1)[unfolded LookedUp] lookup_clears [OF assms(2,3)]
    by cases (auto simp: start_lookup_def split: sum.splits)
  ultimately show ?thesis by (simp add: live_inv_def Q)
next
  case (Registered dev)
  with assms(4) have Q: "Q = P - {dev}" "dev \<in> P" by (simp_all split: if_splits)
  obtain ou where s': "s' = snd (start_register ou dev s)" using assms(1)[unfolded Registered] by cases
  show ?thesis
    using assms(3) Q(2) unfolding s' live_inv_def register_live [OF assms(2)] Q(1) by (auto split: if_splits)
next
  case (GaveUp dev)
  then show ?thesis
    using live_inv_moves [OF assms(3) step_moves [OF assms(1)] assms(2)] assms(4) live_inv_fewer [of P s' Q] by auto
qed (use live_inv_moves [OF assms(3) step_moves [OF assms(1)] assms(2)] assms(4) in simp_all)

lemma boot_live: "sv_live_ids (snd (Restore o1 o2 (sv_New cfg db))) dev = {}"
proof -
  have streams: "sv_live_ids (snd (restore_streams rows s)) dev = {}"
    if "sv_live_ids s dev = {}" "sv_inv (\<lambda>_. True) s" for rows and s :: "'a server"
    using that
  proof (induction rows arbitrary: s)
    case (Cons x rows)
    obtain sid row where x: "x = (sid, row)" by force
    have ok: "streams_ok (sv_stream s) (sv_streamHeap s) (sv_next s)" using Cons.prems by (simp add: sv_inv_def)
    let ?s = "\<lambda>c d y t. save_stream sid d StateFailed FailureServerRestart y t (s\<lparr>sv_streamHeap :=
      (sv_streamHeap s)(sv_next s \<mapsto> (WithTimeoutConfig c (stream_New sid d y t))
        \<lparr>sm_state := StateFailed, sm_Reason := FailureServerRestart\<rparr>),
      sv_stream := reg_Add sid (sv_next s) (sv_stream s), sv_next := Suc (sv_next s)\<rparr>)"
    have "sv_inv (\<lambda>_. True) (?s c d y t)" for c d y t
      using Cons.prems by (intro save_stream_inv file_stream_inv) simp_all
    moreover have "sv_live_ids (?s c d y t) dev = {}" for c d y t
      using Cons.prems(1) by (simp add: save_stream_def live_ids_add [OF ok] live_for_device_def terminal_def)
    ultimately show ?case using Cons by (simp add: x mark_new_stream)
  qed simp
  have devices: "sv_stream (foldl restore_device s ds) = sv_stream s \<and> sv_streamHeap (foldl restore_device s ds) = sv_streamHeap s"
    "sv_inv good s \<Longrightarrow> sv_inv good (foldl restore_device s ds)" for ds good and s :: "'a server"
    by (induction ds arbitrary: s) (simp_all add: restore_device_def set_device_inv split: prod.split)
  let ?s = "foldl restore_device (sv_New cfg db) (DeviceRepo_LoadAll o1 (sv_db (sv_New cfg db :: 'a server))) :: 'a server"
  have "sv_live_ids ?s dev = {}"
    unfolding devices(1) [THEN conjunct1] devices(1) [THEN conjunct2] by (simp add: sv_New_def live_ids_def reg_New_def)
  from streams [OF this devices(2) [OF sv_New_inv]] show ?thesis by (simp add: Restore_def Let_def)
qed

lemma run_live_inv:
  assumes "pcm_decoder decode good" and "sv_run decode good cfg db tr s" and "starting tr = Some P"
  shows "live_inv P s"
  using assms(2,3)
proof (induction arbitrary: P)
  case (run_boot o1 o2)
  then show ?case by (simp add: live_inv_def boot_live)
next
  case (run_step tr s e s')
  then obtain Q where "starting tr = Some Q" "track_start (Some Q) e = Some P"
    by (cases "starting tr") (auto simp: starting_def)
  with run_step step_live_inv [OF run_step(2) reach_inv [OF assms(1) run_reach [OF run_step(1)]]] show ?case by blast
qed

section \<open>Properties\<close>

text \<open>C1. A device has at most one live stream, as long as its starts do not overlap. In every run of
  the server in which no device is looked up for a start while an earlier start of the same device is
  still between its lookup and the filing of its stream, however starts of different devices, stops,
  replies, packets, timeouts and disconnects interleave: two registered streams of one device that
  \<open>GetByDevice\<close> regards as live are the same stream. (The server holds no lock from the lookup to
  the filing; \<open>overlapping_starts_leave_two_streams\<close> is what happens otherwise.)\<close>

theorem one_live_stream_per_device:
  assumes "pcm_decoder decode good" and "sv_run decode good cfg db tr s" and "starting tr \<noteq> None"
    and "GetStream a s = Inr p" and "sv_streamHeap s p = Some st" and "live_for_device (sm_state st)"
    and "GetStream b s = Inr q" and "sv_streamHeap s q = Some su" and "live_for_device (sm_state su)"
    and "sm_DeviceID st = sm_DeviceID su"
  shows "a = b \<and> p = q"
proof -
  obtain P where "live_inv P s" using run_live_inv [OF assms(1,2)] assms(3) by blast
  moreover have "a \<in> sv_live_ids s (sm_DeviceID st)" "b \<in> sv_live_ids s (sm_DeviceID st)"
    using assms(4-10) by (auto simp: live_ids_iff GetStream_def reg_Get_iff)
  ultimately have "a = b" unfolding live_inv_def by blast
  with assms(4,7) show ?thesis by simp
qed

section \<open>The slot of a device\<close>

type_synonym live_slot = "(string \<times> stream_state) option"

text \<open>The abstract machine, and what the server's lookup shows of it.\<close>

inductive slot_step :: "string \<Rightarrow> sv_event \<Rightarrow> live_slot \<Rightarrow> live_slot \<Rightarrow> bool" for dev where
  opened: "slot_step dev (Registered dev) None (Some (sid, StateStarting))"
| moved: "e \<notin> {LookedUp dev, Registered dev} \<Longrightarrow> runs_on a b \<Longrightarrow> live_for_device b \<Longrightarrow>
    slot_step dev e (Some (sid, a)) (Some (sid, b))"
| closed: "e \<noteq> Registered dev \<Longrightarrow> slot_step dev e (Some x) None"
| idle: "e \<noteq> Registered dev \<Longrightarrow> slot_step dev e None None"

definition device_slot :: "string list \<Rightarrow> string \<Rightarrow> 'd server \<Rightarrow> live_slot" where
  "device_slot order dev s =
     (case reg_GetByDevice order (sv_streamHeap s) dev (sv_stream s) of
        None \<Rightarrow> None
      | Some p \<Rightarrow> map_option (\<lambda>st. (sm_StreamID st, sm_state st)) (sv_streamHeap s p))"

lemma device_slot_None:
  assumes "sv_inv good s" and "visits order (sv_stream s)"
  shows "device_slot order dev s = None \<longleftrightarrow> sv_live_ids s dev = {}"
proof (cases "reg_GetByDevice order (sv_streamHeap s) dev (sv_stream s)")
  case None
  with GetByDevice_None [OF assms(2) this] show ?thesis by (simp add: device_slot_def)
next
  case (Some p)
  have "streams_ok (sv_stream s) (sv_streamHeap s) (sv_next s)" using assms(1) by (simp add: sv_inv_def)
  from GetByDevice_Some [OF assms(2) Some this] Some show ?thesis by (auto simp: device_slot_def)
qed

lemma device_slot_Some:
  assumes "sv_inv good s" and "live_inv P s" and "visits order (sv_stream s)"
    and "reg_streams (sv_stream s) sid = Some p" and "sv_streamHeap s p = Some st" and "sm_DeviceID st = dev"
    and "live_for_device (sm_state st)"
  shows "device_slot order dev s = Some (sid, sm_state st)"
proof -
  have ok: "streams_ok (sv_stream s) (sv_streamHeap s) (sv_next s)" using assms(1) by (simp add: sv_inv_def)
  have sid: "sid \<in> sv_live_ids s dev" using assms(4-7) by (auto simp: live_ids_iff)
  then obtain q where q: "reg_GetByDevice order (sv_streamHeap s) dev (sv_stream s) = Some q"
    using GetByDevice_None [OF assms(3)] by (metis empty_iff not_None_eq)
  obtain su where su: "sv_streamHeap s q = Some su" "reg_streams (sv_stream s) (sm_StreamID su) = Some q"
      "sm_StreamID su \<in> sv_live_ids s dev"
    using GetByDevice_Some [OF assms(3) q ok] by blast
  have "sm_StreamID su = sid" using su(3) sid assms(2) unfolding live_inv_def by blast
  with su assms(4,5) q show ?thesis by (simp add: device_slot_def)
qed

lemma device_slot_Some_iff:
  assumes "sv_inv good s" and "live_inv P s" and "visits order (sv_stream s)"
  shows "device_slot order dev s = Some (sid, a) \<longleftrightarrow>
    (\<exists>p st. reg_streams (sv_stream s) sid = Some p \<and> sv_streamHeap s p = Some st \<and> sm_DeviceID st = dev \<and>
       sm_state st = a \<and> live_for_device a)" (is "?L \<longleftrightarrow> ?R")
proof
  assume L: ?L
  then obtain p where p: "reg_GetByDevice order (sv_streamHeap s) dev (sv_stream s) = Some p"
    by (cases "reg_GetByDevice order (sv_streamHeap s) dev (sv_stream s)") (auto simp: device_slot_def)
  have "streams_ok (sv_stream s) (sv_streamHeap s) (sv_next s)" using assms(1) by (simp add: sv_inv_def)
  from GetByDevice_Some [OF assms(3) p this] p L show ?R by (auto simp: device_slot_def)
next
  assume ?R
  then show ?L using device_slot_Some [OF assms] by auto
qed

text \<open>The slot moves along with the streams.\<close>

lemma moves_slot:
  assumes "sv_moves s s'" and "sv_inv good s" and "live_inv P s" and "sv_inv good s'" and "live_inv Q s'"
    and "visits order (sv_stream s)" and "visits order' (sv_stream s')" and "device_slot order' dev s' = Some (sid, b)"
  shows "\<exists>a. device_slot order dev s = Some (sid, a) \<and> runs_on a b \<and> live_for_device b"
proof -
  obtain p st' where st': "reg_streams (sv_stream s') sid = Some p" "sv_streamHeap s' p = Some st'"
      "sm_DeviceID st' = dev" "sm_state st' = b" "live_for_device b"
    using assms(8) unfolding device_slot_Some_iff [OF assms(4,5,7)] by blast
  with moved_live [OF assms(1,2) st'(1,2)] obtain st where "reg_streams (sv_stream s) sid = Some p"
      "sv_streamHeap s p = Some st" "sm_DeviceID st = dev" "runs_on (sm_state st) b" "live_for_device (sm_state st)"
    by auto
  with device_slot_Some [OF assms(2,3,6)] st'(5) show ?thesis by blast
qed

text \<open>C2. The live stream of a device, as \<open>GetByDevice\<close> finds it, implements the slot machine. For every
  step of a run without overlapping starts, and whatever order the registry is walked in: a lookup for
  a start leaves the slot of its device empty, filing a stream turns it from empty to STARTING, and any
  other step keeps the stream that is in it and moves it forward along the lifecycle, empties the slot,
  or leaves it empty. So a device never passes from one stream to another directly, and no stream comes
  back to the slot.\<close>

theorem live_slot_refines:
  assumes "pcm_decoder decode good" and "sv_run decode good cfg db tr s" and "sv_step decode good e s s'"
    and "starting (tr @ [e]) \<noteq> None" and "visits order (sv_stream s)" and "visits order' (sv_stream s')"
  shows "slot_step dev e (device_slot order dev s) (device_slot order' dev s')"
proof -
  have run': "sv_run decode good cfg db (tr @ [e]) s'" using assms(2,3) by (rule sv_run.run_step)
  have inv: "sv_inv good s" "sv_inv good s'" using reach_inv [OF assms(1) run_reach] assms(2) run' by blast+
  obtain P Q where P: "starting tr = Some P" "live_inv P s" and Q: "track_start (Some P) e = Some Q" "live_inv Q s'"
    using assms(4) run_live_inv [OF assms(1,2)] run_live_inv [OF assms(1) run']
    by (cases "starting tr") (auto simp: starting_def)
  note none = device_slot_None [OF inv(1) assms(5), of dev] device_slot_None [OF inv(2) assms(6), of dev]
  show ?thesis
  proof (cases "e = Registered dev")
    case True
    with Q(1) P(2) have "device_slot order dev s = None" by (auto simp: none live_inv_def split: if_splits)
    moreover obtain ou where s': "s' = snd (start_register ou dev s)" using assms(3)[unfolded True] by cases
    have "device_slot order' dev s' = Some (newStreamID (ou_random ou 0), StateStarting)"
      by (subst device_slot_Some_iff [OF inv(2) Q(2) assms(6)]) (simp add: s' start_register_def add_stream_def save_stream_def Let_def reg_Add_def live_for_device_def terminal_def)
    ultimately show ?thesis by (simp add: True slot_step.opened)
  next
    case False
    have held: "\<exists>a. device_slot order dev s = Some (sid, a) \<and> runs_on a b \<and> live_for_device b"
      if slot: "device_slot order' dev s' = Some (sid, b)" for sid b
    proof (cases "\<exists>d. e = Registered d")
      case True
      then obtain d where e: "e = Registered d" by blast
      with False have d: "d \<noteq> dev" by blast
      obtain ou where s': "s' = snd (start_register ou d s)" using assms(3)[unfolded e] by (rule registerE)
      obtain p st where st: "reg_streams (sv_stream s') sid = Some p" "sv_streamHeap s' p = Some st" "sm_DeviceID st = dev"
          "sm_state st = b" "live_for_device b"
        using slot unfolding device_slot_Some_iff [OF inv(2) Q(2) assms(6)] by blast
      then have "reg_streams (sv_stream s) sid = Some p \<and> sv_streamHeap s p = Some st"
        using d by (auto simp: s' start_register_def add_stream_def save_stream_def Let_def reg_Add_def split: if_splits)
      with st device_slot_Some [OF inv(1) P(2) assms(5)] show ?thesis by blast
    next
      case False
      with moves_slot [OF step_moves [OF assms(3)] inv(1) P(2) inv(2) Q(2) assms(5,6) slot] show ?thesis by blast
    qed
    show ?thesis
    proof (cases "device_slot order' dev s'")
      case None
      then show ?thesis using False by (cases "device_slot order dev s") (auto intro: slot_step.intros)
    next
      case (Some x)
      obtain sid b where x: "x = (sid, b)" by force
      have "e \<noteq> LookedUp dev"
        using Q Some none(2) by (auto simp: live_inv_def split: if_splits)
      with held [OF Some [unfolded x]] Some x False show ?thesis by (auto intro: slot_step.moved)
    qed
  qed
qed

section \<open>Overlapping starts\<close>

lemma start_bind_frame [simp]:
  "start_bind ou s = (res, s') \<Longrightarrow> sv_stream s' = sv_stream s \<and> sv_streamHeap s' = sv_streamHeap s"
  by (auto simp: start_bind_def split: prod.splits sum.splits)

text \<open>C31. Two starts of one device that overlap leave it with two live streams. In every reachable
  state: if a second start looks the device up after the first did and before the first has filed its
  stream, and both then bind a port and file their streams, the device has both new streams registered
  as live, contrary to the one-active-stream-per-device semantics the replacement means to ensure. The
  lookup of a third start does not repair it: a live stream of the device is left.\<close>

theorem overlapping_starts_leave_two_streams:
  assumes "pcm_decoder decode good" and "sv_reach decode good cfg db s"
    and "start_lookup ou1 dev s = (None, s1)" and "start_lookup ou2 dev s1 = (None, s2)"
    and "start_bind ou1 s2 = (Inr port1, s3)" and "start_bind ou2 s3 = (Inr port2, s4)"
    and "start_register ou1 dev s4 = (p1, s5)" and "start_register ou2 dev s5 = (p2, s6)"
    and "newStreamID (ou_random ou1 0) \<noteq> newStreamID (ou_random ou2 0)"
    and "visits (ou_order ou3) (sv_stream s6)"
  shows "{newStreamID (ou_random ou1 0), newStreamID (ou_random ou2 0)} \<subseteq> sv_live_ids s6 dev \<and>
    sv_live_ids (snd (start_lookup ou3 dev s6)) dev \<noteq> {}"
proof -
  have inv: "sv_inv good s" using assms(1,2) by (rule reach_inv)
  have s1: "sv_inv good s1" using start_lookup_inv [OF inv, of ou1 dev] assms(3) by simp
  have s2: "sv_inv good s2" using start_lookup_inv [OF s1, of ou2 dev] assms(4) by simp
  have s3: "sv_inv good s3" using start_bind_inv [OF s2, of ou1] assms(5) by simp
  have s4: "sv_inv good s4" using start_bind_inv [OF s3, of ou2] assms(6) by simp
  have s5: "sv_inv good s5" using start_register_inv [OF s4, of ou1 dev] assms(7) by simp
  have s6: "sv_inv good s6" using start_register_inv [OF s5, of ou2 dev] assms(8) by simp
  then have ok: "streams_ok (sv_stream s6) (sv_streamHeap s6) (sv_next s6)" by (simp add: sv_inv_def)
  let ?a = "newStreamID (ou_random ou1 0)" and ?b = "newStreamID (ou_random ou2 0)"
  have two: "?a \<in> sv_live_ids s6 dev" "?b \<in> sv_live_ids s6 dev"
    using register_live [OF s4, of ou1 dev dev] register_live [OF s5, of ou2 dev dev] assms(7-9) by auto
  have "?a \<in> sv_live_ids (replace_existing ou3 dev s6) dev \<or> ?b \<in> sv_live_ids (replace_existing ou3 dev s6) dev"
    using two filed_once [OF ok, of ?a _ ?b] assms(9)
    by (auto simp: replace_existing_live [OF s6 assms(10)] split: option.split)
  with two show ?thesis by (auto simp: start_lookup_def split: sum.split)
qed

end
