(* ===== verification/Server_Database.thy ===== *)
theory Server_Database
  imports Server_Live
begin

text \<open>
  What the tables can hold. SQLite stores any text in a column; the code relies on states, reasons and
  codecs being among its constants, and nothing checks it when a row is read back.
\<close>

section \<open>Typed rows\<close>

text \<open>The pairs of state and reason the server ever writes: neither ACTIVE nor a time-out is among
  them.\<close>

definition saved_pairs :: "(stream_state \<times> failure_reason) set" where
  "saved_pairs =
     {(StateStarting, FailureNone), (StateRTPWait, FailureNone), (StateComplete, FailureNone),
      (StateComplete, FailureReplaced), (StateFailed, FailureStartRejected), (StateFailed, FailureServerRestart)}"

definition stream_row_typed :: "stream_row \<Rightarrow> bool" where
  "stream_row_typed r \<longleftrightarrow> (\<exists>(st, rs)\<in>saved_pairs. rs_State r = state_string st \<and> rs_Reason r = reason_string rs)"

definition recording_row_typed :: "string \<Rightarrow> recording_row \<Rightarrow> bool" where
  "recording_row_typed recID r \<longleftrightarrow>
     rr_SampleRate r = 48000 \<and> rr_Channels r = 2 \<and>
     (rr_Codec r = ''wav'' \<and> recID = rr_StreamID r @ ''-rec'' \<or> rr_Codec r = ''opus'' \<and> recID = rr_StreamID r @ ''-opus'') \<and>
     (case rr_End r of
        None \<Rightarrow> rr_Bytes r = 0 \<and> rr_Uri r = None
      | Some t \<Rightarrow> rr_Uri r \<noteq> None)"

definition db_typed :: "database \<Rightarrow> bool" where
  "db_typed db \<longleftrightarrow> (\<forall>r\<in>ran (db_streams db). stream_row_typed r) \<and>
     (\<forall>recID r. db_recordings db recID = Some r \<longrightarrow> recording_row_typed recID r)"

lemma db_typedI:
  "(\<And>sid r. db_streams db sid = Some r \<Longrightarrow> stream_row_typed r) \<Longrightarrow>
    (\<And>recID r. db_recordings db recID = Some r \<Longrightarrow> recording_row_typed recID r) \<Longrightarrow> db_typed db"
  by (auto simp: db_typed_def ran_def)

lemma db_typedD:
  "db_typed db \<Longrightarrow> db_streams db sid = Some r \<Longrightarrow> stream_row_typed r"
  "db_typed db \<Longrightarrow> db_recordings db recID = Some q \<Longrightarrow> recording_row_typed recID q"
  by (auto simp: db_typed_def ran_def)

section \<open>The statements keep it\<close>

lemma db_typed_same:
  "db_typed db \<Longrightarrow> db_streams db' = db_streams db \<Longrightarrow> db_recordings db' = db_recordings db \<Longrightarrow> db_typed db'"
  by (simp add: db_typed_def)

lemma StreamRepo_Save_typed:
  assumes "db_typed db" and "(st, rs) \<in> saved_pairs"
  shows "db_typed (StreamRepo_Save sid dev (state_string st) (reason_string rs) ssrc t db)"
proof (rule db_typedI)
  fix k r
  assume "db_streams (StreamRepo_Save sid dev (state_string st) (reason_string rs) ssrc t db) k = Some r"
  moreover have "stream_row_typed q" if "rs_State q = state_string st" "rs_Reason q = reason_string rs" for q
    using assms(2) that by (auto simp: stream_row_typed_def)
  ultimately show "stream_row_typed r"
    using db_typedD(1) [OF assms(1)] by (auto simp: StreamRepo_Save_def split: if_splits option.splits)
qed (use db_typedD(2) [OF assms(1)] in \<open>auto simp: StreamRepo_Save_def\<close>)

lemma RecordingRepo_Create_typed:
  assumes "db_typed db" and "(codec, recID) \<in> {(''wav'', sid @ ''-rec''), (''opus'', sid @ ''-opus'')}"
  shows "db_typed (snd (RecordingRepo_Create recID sid 48000 2 codec t db))"
proof (rule db_typedI)
  fix k r
  assume r: "db_recordings (snd (RecordingRepo_Create recID sid 48000 2 codec t db)) k = Some r"
  have "recording_row_typed recID \<lparr>rr_StreamID = sid, rr_SampleRate = 48000, rr_Channels = 2, rr_Codec = codec,
      rr_Start = UnixMilli t, rr_End = None, rr_Bytes = 0, rr_Uri = None\<rparr>"
    using assms(2) by (auto simp: recording_row_typed_def)
  with r show "recording_row_typed k r"
    using db_typedD(2) [OF assms(1)] by (auto simp: RecordingRepo_Create_def split: if_splits)
qed (use db_typedD(1) [OF assms(1)] in \<open>auto simp: RecordingRepo_Create_def split: if_splits\<close>)

lemma RecordingRepo_Finalize_typed:
  assumes "db_typed db"
  shows "db_typed (RecordingRepo_Finalize recID t n uri db)"
proof (rule db_typedI)
  fix k r
  assume r: "db_recordings (RecordingRepo_Finalize recID t n uri db) k = Some r"
  have "recording_row_typed j (q\<lparr>rr_End := Some e, rr_Bytes := n, rr_Uri := Some uri\<rparr>)" if "recording_row_typed j q" for j q e
    using that by (simp add: recording_row_typed_def)
  with r show "recording_row_typed k r"
    using db_typedD(2) [OF assms] by (auto simp: RecordingRepo_Finalize_def split: if_splits option.splits)
qed (use db_typedD(1) [OF assms] in \<open>auto simp: RecordingRepo_Finalize_def split: option.splits\<close>)

named_theorems db_keeps \<open>operations that keep the tables typed\<close>

abbreviation sv_typed :: "'d server \<Rightarrow> bool" where
  "sv_typed s \<equiv> db_typed (sv_db s)"

lemma typed_same: "sv_typed s \<Longrightarrow> sv_db s' = sv_db s \<Longrightarrow> sv_typed s'"
  by simp

lemma save_stream_typed [db_keeps]: "sv_typed s \<Longrightarrow> (st, rs) \<in> saved_pairs \<Longrightarrow> sv_typed (save_stream sid dev st rs x t s)"
  by (simp add: save_stream_def StreamRepo_Save_typed)

lemma finalize_object_typed: "sv_typed s \<Longrightarrow> sv_typed (finalize_object t k ref s)"
  by (auto simp: finalize_object_def RecordingRepo_Finalize_typed split: option.split prod.split)

lemma framed_typed [db_keeps]:
  assumes "sv_typed s"
  shows "sv_typed (on_stream p f s)" "sv_typed (remove_stream sid s)" "sv_typed (drop_tracking sid s)"
    "sv_typed (on_metrics g s)" "sv_typed (close_rtp sid s)" "sv_typed (start_worker dec sid b s)"
    "sv_typed (s\<lparr>sv_rtp := r\<rparr>)" "sv_typed (s\<lparr>sv_ctrl := m\<rparr>)" "sv_typed (s\<lparr>sv_device := d\<rparr>)" "sv_typed (s\<lparr>sv_bus := bus\<rparr>)"
  using assms
  by (simp_all add: on_stream_eq remove_stream_def drop_tracking_def on_metrics_def close_rtp_eq cancel_worker_eq
      start_worker_def)

lemma finalizers_typed [db_keeps]:
  "sv_typed s \<Longrightarrow> sv_typed (finalizeRecorder t sid s)" "sv_typed s \<Longrightarrow> sv_typed (finalizeOpusRecorder t sid s)"
  by (simp_all add: finalizeRecorder_def finalizeOpusRecorder_def Let_def finalize_object_typed split: option.split)

lemma keep_final_stats_typed [db_keeps]: "sv_typed s \<Longrightarrow> sv_typed (keep_final_stats marshal sid dev stats s)"
  by (auto simp: keep_final_stats_def DeviceStatsRepo_Save_def stats_put_def intro: db_typed_same split: option.split)

lemma add_recorder_typed:
  "sv_typed s \<Longrightarrow> (codec, recID) \<in> {(''wav'', sid @ ''-rec''), (''opus'', sid @ ''-opus'')} \<Longrightarrow>
    sv_typed (add_recorder key recID sid codec t obj s)"
  by (simp add: add_recorder_def RecordingRepo_Create_typed)

lemma recorders_typed [db_keeps]:
  "sv_typed s \<Longrightarrow> sv_typed (start_wav ou rg sid s)" "sv_typed s \<Longrightarrow> sv_typed (start_opus ou sid s)"
  by (auto simp: start_wav_def start_opus_def Let_def intro!: add_recorder_typed split: sum.split option.split prod.split)

lemma cleanup_typed [db_keeps]: "sv_typed s \<Longrightarrow> sv_typed (cleanupStreamByID clk sid s)"
  unfolding cleanupStreamByID_def by (intro db_keeps)

lemma cleanup_all_typed [db_keeps]: "sv_typed s \<Longrightarrow> sv_typed (cleanup_all clk ids s)"
  unfolding cleanup_all_def by (induction ids arbitrary: s) (simp_all add: cleanup_typed)

lemma pairs_saved [simp]:
  "(StateStarting, FailureNone) \<in> saved_pairs" "(StateRTPWait, FailureNone) \<in> saved_pairs"
  "(StateComplete, FailureNone) \<in> saved_pairs" "(StateComplete, FailureReplaced) \<in> saved_pairs"
  "(StateFailed, FailureStartRejected) \<in> saved_pairs" "(StateFailed, FailureServerRestart) \<in> saved_pairs"
  by (simp_all add: saved_pairs_def)

section \<open>So do the handlers\<close>

lemma replace_existing_typed [db_keeps]: "sv_typed s \<Longrightarrow> sv_typed (replace_existing ou dev s)"
  by (auto simp: replace_existing_def Let_def intro!: db_keeps split: option.split)

lemma reject_stream_typed [db_keeps]: "sv_typed s \<Longrightarrow> sv_typed (reject_stream t sid dev s)"
  unfolding reject_stream_def by (intro db_keeps) simp_all

lemma add_stream_typed: "sv_typed s \<Longrightarrow> sv_typed (add_stream ou sid dev s)"
  unfolding add_stream_def Let_def by (intro save_stream_typed) simp_all

lemma start_typed:
  "sv_typed s \<Longrightarrow> sv_typed (snd (start_lookup ou dev s))" "sv_typed s \<Longrightarrow> sv_typed (snd (start_bind ou s))"
  "sv_typed s \<Longrightarrow> sv_typed (snd (start_register ou dev s))"
  by (simp_all add: start_lookup_def start_bind_def start_register_def replace_existing_typed add_stream_typed
      split: sum.split prod.split)

lemma stream_accepted_typed [db_keeps]:
  "sv_typed s \<Longrightarrow> sv_typed (snd (stream_accepted ou dec rg sid dev p port s))"
  by (auto simp: stream_accepted_def Let_def intro!: db_keeps split: option.split)

lemma start_finish_typed: "sv_typed s \<Longrightarrow> sv_typed (snd (start_finish ou dec rg dev port p reply s))"
  by (auto simp: start_finish_def Let_def intro!: db_keeps split: sum.split message.split)

lemma stop_typed:
  "sv_typed s \<Longrightarrow> sv_typed (snd (stop_begin sid s))"
  "sv_typed s \<Longrightarrow> sv_typed (snd (stop_finish ou marshal sid dev p reply s))"
  by (auto simp: stop_begin_def stop_finish_def Let_def intro!: db_keeps split: sum.split option.split message.split)

lemma walk_typed:
  assumes "\<And>p acc. sv_typed (fst acc) \<Longrightarrow> sv_typed (fst (f p acc))" and "sv_typed s"
  shows "sv_typed (fst (reg_ForEach order f r (s, ids)))"
proof -
  have "sv_typed (fst acc) \<Longrightarrow> sv_typed (fst (foldl (\<lambda>s p. f p s) acc ps))" for ps acc
    by (induction ps arbitrary: acc) (simp_all add: assms(1))
  with assms(2) show ?thesis by (simp add: reg_ForEach_def)
qed

lemma disconnect_typed: "sv_typed s \<Longrightarrow> sv_typed (OnDeviceDisconnect order clk dev s)"
proof -
  assume start: "sv_typed s"
  have "sv_typed (fst acc) \<Longrightarrow> sv_typed (fst (disconnect_stream dev p acc))" for p acc
    by (auto simp: disconnect_stream_def intro!: db_keeps split: prod.split option.split)
  from walk_typed [OF this start] have
    "sv_typed (fst (reg_ForEach order (disconnect_stream dev) (sv_stream s) (s, [])))" .
  with start show ?thesis
    by (auto simp: OnDeviceDisconnect_def Let_def intro!: db_keeps split: prod.split)
qed

lemma OnClose_typed: "sv_typed s \<Longrightarrow> sv_typed (sv_OnClose order clk ref dev s)"
  by (auto simp: sv_OnClose_def intro!: disconnect_typed split: prod.split bool.split)

lemma push_active_db: "sv_db (push_active now ids s) = sv_db s"
  unfolding push_active_def
  by (induction ids arbitrary: s) (simp_all add: pushStreamMetrics_def Let_def on_metrics_def split: prod.split)

lemma monitor_typed: "sv_typed s \<Longrightarrow> sv_typed (monitor_tick o1 o2 clk now s)"
proof -
  assume "sv_typed s"
  then have start: "sv_typed (push_active now (active_ids o1 s) s)" by (simp add: push_active_db)
  have "sv_typed (fst acc) \<Longrightarrow> sv_typed (fst (timeout_stream now p acc))" for p acc
    by (auto simp: timeout_stream_def intro!: db_keeps split: prod.split option.split)
  from walk_typed [OF this start] show ?thesis
    by (simp add: monitor_tick_def Let_def cleanup_all_typed split_beta)
qed

lemma device_typed:
  "sv_typed s \<Longrightarrow> sv_typed (snd (sv_Authenticate nil_blob now dev cred s))"
  "sv_typed s \<Longrightarrow> sv_typed (snd (SetDeviceDisplayName dev name s))"
  by (auto simp: sv_Authenticate_def SetDeviceDisplayName_def DeviceRepo_Save_def DeviceRepo_UpdateDisplayName_def Let_def
      elim: db_typed_same split: sum.split option.split prod.split)

lemma data_path_db:
  "rtp_turn pion now rd ref s = Some s' \<Longrightarrow> sv_db s' = sv_db s"
  "worker_turn iter decode takeDone now h s = Some s' \<Longrightarrow> sv_db s' = sv_db s"
proof -
  have compressed: "on_compressed ts payload s = Some s' \<Longrightarrow> sv_db s' = sv_db s" for ts payload and s s' :: "'b server"
    by (auto simp: on_compressed_def split: option.splits rec_object.splits)
  have "run_callbacks now cbs s = Some s' \<Longrightarrow> sv_db s' = sv_db s" for now cbs and s s' :: "'b server"
  proof (induction now cbs s rule: run_callbacks.induct)
    case (2 now sid first cs s)
    then show ?case by (simp add: on_packet_def on_stream_eq split: sum.splits)
  next
    case (3 now sid ts payload cs s)
    then obtain a where "on_compressed ts payload s = Some a" "run_callbacks now cs a = Some s'"
      by (auto simp: bind_eq_Some_conv)
    with 3(1) compressed show ?case by metis
  qed simp
  then show "rtp_turn pion now rd ref s = Some s' \<Longrightarrow> sv_db s' = sv_db s"
    by (fastforce simp: rtp_turn_def split: prod.splits)
next
  have pcm: "on_pcm_all f ls s = Some s' \<Longrightarrow> sv_db s' = sv_db s" for f ls and s s' :: "'a server"
    by (induction f ls s rule: on_pcm_all.induct) (auto simp: on_pcm_def split: option.splits rec_object.splits)
  have "publish_events evs s = Some s' \<Longrightarrow> sv_db s' = sv_db s" for evs and s s' :: "'a server"
  proof (induction evs s rule: publish_events.induct)
    case (3 f es s)
    then obtain a where "publish f s = Some a" "publish_events es a = Some s'"
      by (auto simp: bind_eq_Some_conv)
    moreover from this(1) have "sv_db a = sv_db s" by (auto simp: publish_def dest: pcm split: prod.splits)
    ultimately show ?case using 3(1) by metis
  qed simp_all
  then show "worker_turn iter decode takeDone now h s = Some s' \<Longrightarrow> sv_db s' = sv_db s"
    by (fastforce simp: worker_turn_def split: option.splits prod.splits if_splits)
qed

lemma step_typed:
  assumes "sv_step decode good e s s'" and "sv_typed s"
  shows "sv_typed s'"
  using assms(1)
proof cases
  case (lookup ou dev)
  then show ?thesis using start_typed(1) [OF assms(2), of ou dev] by simp
next
  case (bind ou port)
  then show ?thesis using start_typed(2) [OF assms(2), of ou] by simp
next
  case (bind_failed ou e dev)
  then show ?thesis using start_typed(2) [OF assms(2), of ou] by simp
next
  case (writer ref)
  then show ?thesis using assms(2) by (simp add: opus_writer_turn_def split: option.split rec_object.split)
next
  case (live_join grow)
  then show ?thesis using assms(2) by (simp add: live_connect_def)
next
  case (live_write c w l)
  then show ?thesis using assms(2) by (simp add: live_turn_def Let_def split: option.split)
next
  case (ready ref dev)
  then show ?thesis using assms(2) by (simp add: sv_OnReady_def)
next
  case (final_stats parse sid)
  then show ?thesis using assms(2) by (simp add: DeviceFinalStats_def Let_def split: option.split sum.split)
qed (use assms(2) in \<open>simp_all add: framed_typed start_typed start_finish_typed stop_typed OnClose_typed monitor_typed
    device_typed data_path_db\<close>)

lemma Restore_typed: "sv_typed s \<Longrightarrow> sv_typed (snd (Restore o1 o2 s))"
proof -
  have "sv_typed s \<Longrightarrow> sv_typed (snd (restore_streams rows s))" for rows and s :: "'a server"
  proof (induction rows arbitrary: s)
    case (Cons x rows)
    obtain sid row where x: "x = (sid, row)" by force
    show ?case using Cons by (simp add: x mark_new_stream save_stream_typed)
  qed simp
  moreover have "sv_db (foldl restore_device s ds) = sv_db s" for ds and s :: "'a server"
    by (induction ds arbitrary: s) (simp_all add: restore_device_def split: prod.split)
  ultimately show "sv_typed s \<Longrightarrow> ?thesis" by (simp add: Restore_def Let_def)
qed

section \<open>Property\<close>


end
