(* ===== verification/Server_Streams.thy ===== *)
theory Server_Streams
  imports Server_Live
begin

text \<open>
  What \<open>StartStream\<close> and \<open>StopStream\<close> leave behind, whatever the device answers.
\<close>

section \<open>Effects on one stream\<close>

lemma close_rtp_streams [simp]:
  "rc_streams (sv_rtp (close_rtp sid s)) = (rc_streams (sv_rtp s))(sid := None)"
  by (auto simp: close_rtp_eq cancel_worker_eq rc_CloseStream_def rc_update_def Let_def split: option.split)

lemma close_rtp_others [simp]:
  "sv_db (close_rtp sid s) = sv_db s" "sv_recordings (close_rtp sid s) = sv_recordings s"
  "sv_recHeap (close_rtp sid s) = sv_recHeap s" "sv_cfg (close_rtp sid s) = sv_cfg s"
  "sv_device (close_rtp sid s) = sv_device s"
  by (simp_all add: close_rtp_eq cancel_worker_eq)

lemma finalizers_streams [simp]:
  "sv_rtp (finalizeRecorder t sid s) = sv_rtp s" "sv_rtp (finalizeOpusRecorder t sid s) = sv_rtp s"
  "sv_recordings (finalizeRecorder t sid s) = (sv_recordings s)(sid := None)"
  "sv_recordings (finalizeOpusRecorder t sid s) = (sv_recordings s)(sid @ ''-opus'' := None)"
  by (auto simp: finalizeRecorder_def finalizeOpusRecorder_def Let_def split: option.split)

lemma finalize_object_db [simp]: "db_streams (sv_db (finalize_object t k ref s)) = db_streams (sv_db s)"
  by (auto simp: finalize_object_def RecordingRepo_Finalize_def split: option.split prod.split)

lemma finalizers_db [simp]:
  "db_streams (sv_db (finalizeRecorder t sid s)) = db_streams (sv_db s)"
  "db_streams (sv_db (finalizeOpusRecorder t sid s)) = db_streams (sv_db s)"
  by (simp_all add: finalizeRecorder_def finalizeOpusRecorder_def Let_def split: option.split)

lemma remove_stream_reg [simp]: "reg_streams (sv_stream (remove_stream sid s)) = (reg_streams (sv_stream s))(sid := None)"
  by (simp add: remove_stream_def reg_Remove_def)

lemma remove_stream_frame [simp]:
  "sv_rtp (remove_stream sid s) = sv_rtp s" "sv_streamHeap (remove_stream sid s) = sv_streamHeap s"
  "sv_db (remove_stream sid s) = sv_db s" "sv_recordings (remove_stream sid s) = sv_recordings s"
  by (simp_all add: remove_stream_def)

lemma drop_tracking_frame [simp]:
  "sv_rtp (drop_tracking sid s) = sv_rtp s" "sv_stream (drop_tracking sid s) = sv_stream s"
  "sv_streamHeap (drop_tracking sid s) = sv_streamHeap s" "sv_db (drop_tracking sid s) = sv_db s"
  "sv_recordings (drop_tracking sid s) = sv_recordings s"
  by (simp_all add: drop_tracking_def)

lemma cfg_frame [simp]:
  "sv_cfg (on_stream p f s) = sv_cfg s" "sv_cfg (save_stream sid dev st rs x t s) = sv_cfg s"
  "sv_cfg (drop_tracking sid s) = sv_cfg s" "sv_cfg (remove_stream sid s) = sv_cfg s"
  "sv_cfg (finalize_object t k ref s) = sv_cfg s"
  by (simp_all add: on_stream_eq save_stream_def drop_tracking_def remove_stream_def finalize_object_def
      split: option.split prod.split)

lemma cfg_finalizers [simp]:
  "sv_cfg (finalizeRecorder t sid s) = sv_cfg s" "sv_cfg (finalizeOpusRecorder t sid s) = sv_cfg s"
  by (simp_all add: finalizeRecorder_def finalizeOpusRecorder_def Let_def split: option.split)

lemma save_stream_frame [simp]:
  "sv_rtp (save_stream sid dev st rs x t s) = sv_rtp s" "sv_stream (save_stream sid dev st rs x t s) = sv_stream s"
  "sv_streamHeap (save_stream sid dev st rs x t s) = sv_streamHeap s" "sv_ctrl (save_stream sid dev st rs x t s) = sv_ctrl s"
  "sv_recordings (save_stream sid dev st rs x t s) = sv_recordings s" "sv_recHeap (save_stream sid dev st rs x t s) = sv_recHeap s"
  "sv_next (save_stream sid dev st rs x t s) = sv_next s" "sv_workers (save_stream sid dev st rs x t s) = sv_workers s"
  by (simp_all add: save_stream_def)

lemma on_stream_frame [simp]:
  "sv_rtp (on_stream p f s) = sv_rtp s" "sv_stream (on_stream p f s) = sv_stream s" "sv_db (on_stream p f s) = sv_db s"
  "sv_recordings (on_stream p f s) = sv_recordings s" "sv_recHeap (on_stream p f s) = sv_recHeap s"
  "sv_ctrl (on_stream p f s) = sv_ctrl s" "sv_next (on_stream p f s) = sv_next s" "sv_workers (on_stream p f s) = sv_workers s"
  "sv_streamHeap (on_stream p f s) = (sv_streamHeap s)(p := map_option f (sv_streamHeap s p))"
  by (simp_all add: on_stream_eq)

text \<open>The state of a stream as it was last saved.\<close>

definition saved_state :: "string \<Rightarrow> database \<Rightarrow> (string \<times> string) option" where
  "saved_state sid db = map_option (\<lambda>r. (rs_State r, rs_Reason r)) (db_streams db sid)"

lemma saved_state_save [simp]:
  "saved_state k (sv_db (save_stream sid dev st rs x t s)) =
     (if k = sid then Some (state_string st, reason_string rs) else saved_state k (sv_db s))"
  by (simp add: saved_state_def save_stream_def StreamRepo_Save_def split: option.split)

lemma saved_state_finalizers [simp]:
  "saved_state k (sv_db (finalizeRecorder t sid s)) = saved_state k (sv_db s)"
  "saved_state k (sv_db (finalizeOpusRecorder t sid s)) = saved_state k (sv_db s)"
  by (simp_all add: saved_state_def)

section \<open>Starting\<close>

lemma reject_stream_effect [simp]:
  "reg_streams (sv_stream (reject_stream t sid dev s)) = (reg_streams (sv_stream s))(sid := None)"
  "rc_streams (sv_rtp (reject_stream t sid dev s)) = (rc_streams (sv_rtp s))(sid := None)"
  "saved_state sid (sv_db (reject_stream t sid dev s)) = Some (state_string StateFailed, reason_string FailureStartRejected)"
  by (simp_all add: reject_stream_def)

lemma start_finish_failed:
  assumes "start_finish ou dec rg dev port p reply s = (Inl e, s')"
  shows "reg_streams (sv_stream s') (newStreamID (ou_random ou 0)) = None \<and>
    rc_streams (sv_rtp s') (newStreamID (ou_random ou 0)) = None \<and>
    saved_state (newStreamID (ou_random ou 0)) (sv_db s') =
      Some (state_string StateFailed, reason_string FailureStartRejected)"
  using assms
  by (auto simp: start_finish_def stream_accepted_def Let_def split: sum.splits message.splits option.splits)

text \<open>Replacing the live stream only removes entries.\<close>

lemma replace_existing_frame:
  "reg_streams (sv_stream s) k = None \<Longrightarrow> reg_streams (sv_stream (replace_existing ou dev s)) k = None"
  "rc_streams (sv_rtp s) k = None \<Longrightarrow> rc_streams (sv_rtp (replace_existing ou dev s)) k = None"
  by (auto simp: replace_existing_def Let_def split: option.split)

lemma Bind_failed: "rc_Bind l sid pt tg port r = (Inl e, r') \<Longrightarrow> r' = r"
  by (auto simp: rc_Bind_def Let_def split: option.splits sum.splits)

lemma start_begin_Inl:
  "start_begin ou dev s = (Inl e, s') \<Longrightarrow> s' = s \<or> start_bind ou (replace_existing ou dev s) = (Inl e, s')"
  by (cases "dr_Get (sv_device s) dev")
    (simp_all add: start_begin_def start_lookup_def split: prod.splits sum.splits)

lemma start_bind_cases:
  obtains (refused) e where "start_bind ou s = (Inl e, s)"
  | (bound) port l tg bp q where "start_bind ou s = (Inr port, s\<lparr>sv_rtp := q\<rparr>)"
      "rc_Bind l (newStreamID (ou_random ou 0)) DefaultPayloadType tg bp (sv_rtp s) = (Inr port, q)"
proof -
  define b where "b = rc_Bind (ou_listen ou) (newStreamID (ou_random ou 0)) DefaultPayloadType
    (times_unit (cf_JitterTargetMS (sv_cfg s)) 1000000) (cf_RTPBindPort (sv_cfg s)) (sv_rtp s)"
  obtain x q where xq: "b = (x, q)" by force
  show ?thesis
  proof (cases x)
    case (Inl e)
    then have "q = sv_rtp s" using xq Bind_failed unfolding b_def by blast
    with Inl xq show ?thesis by (intro refused) (simp add: start_bind_def b_def [symmetric])
  next
    case (Inr port)
    with xq show ?thesis by (intro bound) (simp_all add: start_bind_def b_def)
  qed
qed

lemma start_bind_Inl: "start_bind ou s = (Inl e, s') \<Longrightarrow> s' = s"
  by (cases rule: start_bind_cases [of ou s]) simp_all

lemma start_begin_failed:
  assumes "start_begin ou dev s = (Inl e, s')" and "reg_streams (sv_stream s) k = None" and "rc_streams (sv_rtp s) k = None"
  shows "reg_streams (sv_stream s') k = None \<and> rc_streams (sv_rtp s') k = None"
  using start_begin_Inl [OF assms(1)] assms(2,3) replace_existing_frame [of s k ou dev] start_bind_Inl by blast

text \<open>C8. A start that fails leaves nothing behind. Whatever goes wrong (an unknown device, no free
  port, a device that is offline, rejects, does not answer in time or answers nonsense) and whatever
  the server did meanwhile, the new identifier is neither registered nor bound afterwards, and once
  the port was bound the stream is on record as FAILED with the reason of a rejected start.\<close>

theorem failed_start_leaves_nothing:
  assumes "sv_StartStream ou during others oc dec dev rg s = (Some (Inl e), s')"
    and "sid = newStreamID (ou_random ou 0)"
    and "reg_streams (sv_stream s) sid = None" and "rc_streams (sv_rtp s) sid = None"
  shows "reg_streams (sv_stream s') sid = None \<and> rc_streams (sv_rtp s') sid = None \<and>
    (start_begin ou dev s = (Inl e, s') \<or>
     saved_state sid (sv_db s') = Some (state_string StateFailed, reason_string FailureStartRejected))"
proof (cases "start_begin ou dev s")
  case (Pair res s1)
  show ?thesis
  proof (cases res)
    case (Inl e1)
    with assms(1) Pair have "start_begin ou dev s = (Inl e, s')" by (simp add: sv_StartStream_def)
    from start_begin_failed [OF this assms(3,4)] this show ?thesis by simp
  next
    case (Inr x)
    obtain port p where "x = (port, p)" by force
    with assms(1) Pair Inr obtain reply s2 where "start_finish ou dec rg dev port p reply s2 = (Inl e, s')"
      by (auto simp: sv_StartStream_def split: prod.splits option.splits)
    from start_finish_failed [OF this] assms(2) show ?thesis by simp
  qed
qed

lemma add_recorder_frame [simp]:
  "sv_rtp (add_recorder k i sid f t obj s) = sv_rtp s" "sv_stream (add_recorder k i sid f t obj s) = sv_stream s"
  "sv_streamHeap (add_recorder k i sid f t obj s) = sv_streamHeap s" "sv_workers (add_recorder k i sid f t obj s) = sv_workers s"
  "db_streams (sv_db (add_recorder k i sid f t obj s)) = db_streams (sv_db s)"
  by (simp_all add: add_recorder_def RecordingRepo_Create_def)

lemma start_wav_frame [simp]:
  "sv_rtp (start_wav ou rg sid s) = sv_rtp s" "sv_stream (start_wav ou rg sid s) = sv_stream s"
  "sv_streamHeap (start_wav ou rg sid s) = sv_streamHeap s" "sv_workers (start_wav ou rg sid s) = sv_workers s"
  "db_streams (sv_db (start_wav ou rg sid s)) = db_streams (sv_db s)" "sv_cfg (start_wav ou rg sid s) = sv_cfg s"
  by (simp_all add: start_wav_def add_recorder_def RecordingRepo_Create_def Let_def split: sum.split prod.split option.split)

lemma start_opus_frame [simp]:
  "rc_streams (sv_rtp (start_opus ou sid s)) = rc_streams (sv_rtp s)" "rc_heap (sv_rtp (start_opus ou sid s)) = rc_heap (sv_rtp s)"
  "rc_onPacket (sv_rtp (start_opus ou sid s)) = rc_onPacket (sv_rtp s)"
  "sv_stream (start_opus ou sid s) = sv_stream s" "sv_streamHeap (start_opus ou sid s) = sv_streamHeap s"
  "sv_workers (start_opus ou sid s) = sv_workers s" "db_streams (sv_db (start_opus ou sid s)) = db_streams (sv_db s)"
  by (simp_all add: start_opus_def rc_SetOnCompressed_def split: sum.split)

lemma rc_binding_start_opus [simp]: "rc_binding (sv_rtp (start_opus ou sid s)) k = rc_binding (sv_rtp s) k"
  by (simp add: rc_binding_def)

text \<open>The worker of a stream runs on the stream's binding, which can cancel it.\<close>

definition worker_running :: "string \<Rightarrow> 'd server \<Rightarrow> bool" where
  "worker_running sid s \<longleftrightarrow>
     (case rc_streams (sv_rtp s) sid of
        None \<Rightarrow> False
      | Some b \<Rightarrow>
          (case Option.bind (rc_heap (sv_rtp s) b) sb_workerCancel of
             None \<Rightarrow> False
           | Some h \<Rightarrow>
               (case sv_workers s h of
                  None \<Rightarrow> False
                | Some k \<Rightarrow> \<not> worker_done (wk_ctx k) \<and> \<not> wk_returned k \<and> wk_binding k = b \<and> w_streamID (wk_worker k) = sid)))"

lemma start_worker_running:
  assumes "rc_streams (sv_rtp s) sid = Some b" and "rc_heap (sv_rtp s) b = Some x"
  shows "worker_running sid (start_worker dec sid b s) \<and> rc_onPacket (sv_rtp (start_worker dec sid b s)) \<and>
    StreamPort sid (start_worker dec sid b s) = StreamPort sid s"
  using assms
  by (simp add: worker_running_def start_worker_def rc_SetOnPacket_def rc_SetWorkerCancel_def rc_update_def
      NewWorker_def StreamPort_def rc_StreamPort_def rc_binding_def worker_done_def worker_derive_def worker_ctx_New_def)

lemma worker_running_recorders [simp]:
  "worker_running sid (start_opus ou k (start_wav ou rg k s)) = worker_running sid s"
  "StreamPort sid (start_opus ou k (start_wav ou rg k s)) = StreamPort sid s"
  by (simp_all add: worker_running_def StreamPort_def rc_StreamPort_def cong: option.case_cong)

lemma start_worker_frame [simp]:
  "sv_stream (start_worker dec sid b s) = sv_stream s" "sv_streamHeap (start_worker dec sid b s) = sv_streamHeap s"
  "sv_db (start_worker dec sid b s) = sv_db s"
  by (simp_all add: start_worker_def)

lemma Bind_effect:
  assumes "rc_Bind l sid pt tg port r = (Inr q, r')"
  shows "rc_streams r sid = None \<and> rc_streams r' sid = Some (rc_next r) \<and>
    (\<exists>x. rc_heap r' (rc_next r) = Some x \<and> sb_port x = q \<and> sb_streamID x = sid)"
  using assms by (auto simp: rc_Bind_def Let_def split: option.splits sum.splits)

lemma stream_accepted_effect:
  assumes "stream_accepted ou dec rg sid dev p port s = (Inr res, s')"
    and "rc_streams (sv_rtp s) sid = Some b" and "rc_heap (sv_rtp s) b = Some x" and "sb_port x = port"
    and "sv_streamHeap s p = Some st" and "sm_state st = StateStarting"
  shows "res = (sid, port, StateRTPWait) \<and> worker_running sid s' \<and> rc_onPacket (sv_rtp s') \<and>
    StreamPort sid s' = (port, True) \<and> sv_stream s' = sv_stream s \<and>
    sv_streamHeap s' = (sv_streamHeap s)(p \<mapsto> snd (sm_StreamStarted (ou_clock ou 5) st)) \<and>
    saved_state sid (sv_db s') = Some (state_string StateRTPWait, '''')"
proof -
  let ?s = "save_stream sid dev StateRTPWait FailureNone 0 (sm_StartedAt (snd (sm_StreamStarted (ou_clock ou 5) st)))
      (on_stream p (\<lambda>st. snd (sm_StreamStarted (ou_clock ou 5) st)) s)"
  have s': "s' = start_opus ou sid (start_wav ou rg sid (start_worker dec sid b ?s))"
    and res: "res = (sid, port, StateRTPWait)"
    using assms by (auto simp: stream_accepted_def Let_def rc_GetStreamBinding_def sm_StreamStarted_def)
  have "worker_running sid (start_worker dec sid b ?s) \<and> rc_onPacket (sv_rtp (start_worker dec sid b ?s)) \<and>
      StreamPort sid (start_worker dec sid b ?s) = StreamPort sid ?s"
    using assms(2,3) by (intro start_worker_running) simp_all
  moreover have "StreamPort sid ?s = (port, True)"
    using assms(2-4) by (simp add: StreamPort_def rc_StreamPort_def rc_binding_def)
  moreover have "saved_state sid (sv_db s') = saved_state sid (sv_db ?s)"
    by (simp add: s' saved_state_def)
  ultimately show ?thesis
    using assms(5) by (simp add: s' res)
qed

lemma replace_existing_others:
  assumes "sv_inv good s" and "visits (ou_order ou) (sv_stream s)" and "d \<noteq> dev"
  shows "sv_live_ids (replace_existing ou dev s) d = sv_live_ids s d"
proof (cases "reg_GetByDevice (ou_order ou) (sv_streamHeap s) dev (sv_stream s)")
  case None
  then show ?thesis by (simp add: replace_existing_def)
next
  case (Some p)
  have "streams_ok (sv_stream s) (sv_streamHeap s) (sv_next s)" using assms(1) by (simp add: sv_inv_def)
  from GetByDevice_Some [OF assms(2) Some this] assms(3) Some show ?thesis
    by (auto simp: replace_existing_live [OF assms(1,2)] live_ids_iff)
qed

lemma start_begin_Inr:
  assumes "start_begin ou dev s = (Inr (port, p), s1)"
  shows "\<exists>s2. start_bind ou (replace_existing ou dev s) = (Inr port, s2) \<and> start_register ou dev s2 = (p, s1)"
  using assms
  by (cases "dr_Get (sv_device s) dev")
    (simp_all add: start_begin_def start_lookup_def split: prod.splits sum.splits)

lemma start_begin_effect:
  assumes "start_begin ou dev s = (Inr (port, p), s1)" and "sv_inv good s" and "live_inv P s"
    and "visits (ou_order ou) (sv_stream s)" and sid: "sid = newStreamID (ou_random ou 0)"
    and "reg_streams (sv_stream s) sid = None"
  shows "reg_streams (sv_stream s1) sid = Some p \<and> sv_streamHeap s1 p = Some (new_stream ou (sv_cfg s) sid dev) \<and>
    sv_inv good s1 \<and> sv_live_ids s1 dev = {sid} \<and> (\<forall>d. d \<noteq> dev \<longrightarrow> sv_live_ids s1 d = sv_live_ids s d) \<and>
    (\<exists>b x. rc_streams (sv_rtp s1) sid = Some b \<and> rc_heap (sv_rtp s1) b = Some x \<and> sb_port x = port)"
proof -
  let ?r = "replace_existing ou dev s"
  have cfg: "sv_cfg ?r = sv_cfg s"
    by (simp add: replace_existing_def Let_def split: option.split)
  obtain s2 where s2: "start_bind ou ?r = (Inr port, s2)" and reg: "start_register ou dev s2 = (p, s1)"
    using start_begin_Inr [OF assms(1)] by blast
  have inv: "sv_inv good s2" using start_bind_inv [of good ?r ou] replace_existing_inv [OF assms(2)] s2 by simp
  from s2 obtain l tg bp q where q: "s2 = ?r\<lparr>sv_rtp := q\<rparr>"
      "rc_Bind l sid DefaultPayloadType tg bp (sv_rtp ?r) = (Inr port, q)"
    by (cases rule: start_bind_cases [of ou ?r]) (auto simp: sid)
  from Bind_effect [OF q(2)] q(1) obtain x where
    "rc_streams (sv_rtp s2) sid = Some (rc_next (sv_rtp ?r))" "rc_heap (sv_rtp s2) (rc_next (sv_rtp ?r)) = Some x" "sb_port x = port"
    by auto
  moreover have "sv_live_ids s1 d = sv_live_ids ?r d - {sid} \<union> (if d = dev then {sid} else {})" for d
    using register_live [OF inv, of ou dev d] reg q(1) by (simp add: sid)
  moreover have "sid \<notin> sv_live_ids ?r d" for d
    using replace_existing_frame(1) [OF assms(6)] by (simp add: live_ids_iff)
  moreover have "sv_inv good s1" using start_register_inv [OF inv, of ou dev] reg by simp
  moreover have "s1 = add_stream ou sid dev s2" "p = sv_next s2" using reg by (auto simp: start_register_def sid)
  then have "sv_rtp s1 = sv_rtp s2" "reg_streams (sv_stream s1) sid = Some p"
      "sv_streamHeap s1 p = Some (new_stream ou (sv_cfg s) sid dev)"
    by (simp_all add: add_stream_def save_stream_def Let_def reg_Add_def q(1) cfg)
  ultimately show ?thesis
    using lookup_clears [OF assms(2-4), of dev] replace_existing_others [OF assms(2,4)] by auto
qed

lemma moved_live_ids:
  assumes "sv_inv good s" and "reg_streams (sv_stream s) sid = Some p" and "sv_streamHeap s p = Some st"
    and "live_for_device (sm_state st)" and "live_for_device (sm_state (f st))" and "stream_method f"
    and "sv_stream s' = sv_stream s" and "sv_streamHeap s' = (sv_streamHeap s)(p \<mapsto> f st)"
  shows "sv_live_ids s' d = sv_live_ids s d"
proof (rule set_eqI)
  fix k
  have "streams_ok (sv_stream s) (sv_streamHeap s) (sv_next s)" using assms(1) by (simp add: sv_inv_def)
  note once = filed_once [OF this _ assms(2)]
  show "k \<in> sv_live_ids s' d \<longleftrightarrow> k \<in> sv_live_ids s d"
  proof (cases "reg_streams (sv_stream s) k = Some p")
    case True
    then show ?thesis using assms(3-8) by (auto simp: live_ids_iff stream_method_def)
  next
    case False
    then show ?thesis using assms(7,8) by (auto simp: live_ids_iff)
  qed
qed


end
