(* ===== verification/Server_Recordings.thy ===== *)
theory Server_Recordings
  imports Server_Streams
begin

text \<open>
  What becomes of the recordings: stopping a stream, a second stream while one is recorded, and the
  Opus callback the receiver holds.
\<close>

section \<open>Stopping\<close>

lemma finalize_object_effect:
  "q \<noteq> ref \<Longrightarrow> sv_recHeap (finalize_object t k ref s) q = sv_recHeap s q"
  "j \<noteq> k \<Longrightarrow> db_recordings (sv_db (finalize_object t k ref s)) j = db_recordings (sv_db s) j"
  "sv_stream (finalize_object t k ref s) = sv_stream s" "sv_streamHeap (finalize_object t k ref s) = sv_streamHeap s"
  by (auto simp: finalize_object_def RecordingRepo_Finalize_def split: option.split prod.split)

lemma finalizeRecorder_effect:
  "sv_recordings s sid \<noteq> Some q \<Longrightarrow> sv_recHeap (finalizeRecorder t sid s) q = sv_recHeap s q"
  "j \<noteq> sid @ ''-rec'' \<Longrightarrow> db_recordings (sv_db (finalizeRecorder t sid s)) j = db_recordings (sv_db s) j"
  "sv_stream (finalizeRecorder t sid s) = sv_stream s" "sv_streamHeap (finalizeRecorder t sid s) = sv_streamHeap s"
  by (auto simp: finalizeRecorder_def Let_def finalize_object_effect split: option.split)

lemma keep_final_stats_effect [simp]:
  "sv_recHeap (keep_final_stats marshal sid dev st s) = sv_recHeap s"
  "sv_recordings (keep_final_stats marshal sid dev st s) = sv_recordings s"
  "sv_stream (keep_final_stats marshal sid dev st s) = sv_stream s" "sv_rtp (keep_final_stats marshal sid dev st s) = sv_rtp s"
  "sv_streamHeap (keep_final_stats marshal sid dev st s) = sv_streamHeap s"
  "db_recordings (sv_db (keep_final_stats marshal sid dev st s)) = db_recordings (sv_db s)"
  by (simp_all add: keep_final_stats_def DeviceStatsRepo_Save_def stats_put_def split: option.split)

lemma save_stream_recordings [simp]:
  "db_recordings (sv_db (save_stream sid dev st rs x t s)) = db_recordings (sv_db s)"
  by (simp add: save_stream_def StreamRepo_Save_def split: option.split)

lemma close_rtp_stream [simp]:
  "sv_stream (close_rtp sid s) = sv_stream s" "sv_streamHeap (close_rtp sid s) = sv_streamHeap s"
  by (simp_all add: close_rtp_eq cancel_worker_eq)

text \<open>C26. A stream that was stopped on request leaves its Opus recording open: the recorder stays in
  the table, unfinalized and unchanged, its row is never completed, and the stream stays registered
  as COMPLETE. (\<open>StopStream\<close> finalizes the WAV recorder only; \<open>replace_existing\<close>, the monitor and
  \<open>OnDeviceDisconnect\<close>, which would finalize it, skip a stream that is COMPLETE.) Nothing else
  happens meanwhile; \<open>ref\<close> is not the stream's WAV recorder.\<close>

theorem stopped_stream_keeps_opus_recorder:
  assumes "sv_StopStream ou marshal during (\<lambda>s. s) oc sid s = (Some None, s')"
    and "sv_recordings s (sid @ ''-opus'') = Some ref" and "sv_recordings s sid \<noteq> Some ref"
  shows "sv_recordings s' (sid @ ''-opus'') = Some ref \<and> sv_recHeap s' ref = sv_recHeap s ref \<and>
    db_recordings (sv_db s') (sid @ ''-opus'') = db_recordings (sv_db s) (sid @ ''-opus'') \<and>
    rc_streams (sv_rtp s') sid = None \<and> saved_state sid (sv_db s') = Some (''COMPLETE'', '''') \<and>
    (\<exists>p st. GetStream sid s' = Inr p \<and> sv_streamHeap s' p = Some st \<and> sm_state st = StateComplete)"
proof -
  obtain dev p s1 reply m where b: "stop_begin sid s = (Inr (dev, p), s1)"
    and f: "stop_finish ou marshal sid dev p reply (s1\<lparr>sv_ctrl := m\<rparr>) = (None, s')"
    using assms(1) by (auto simp: sv_StopStream_def split: prod.splits sum.splits option.splits)
  obtain st where st: "GetStream sid s = Inr p" "sv_streamHeap s p = Some st" "sm_state st = StateActive"
    and s1: "s1 = on_stream p (\<lambda>st. snd (sm_StopRequested st)) s"
    using b by (auto simp: stop_begin_def GetStream_def split: sum.splits option.splits if_splits)
  obtain stats where s': "s' = save_stream sid dev StateComplete FailureNone 0 (ou_clock ou 1)
      (on_stream p (\<lambda>st. snd (sm_Stopped st)) (keep_final_stats marshal sid dev stats
        (finalizeRecorder (ou_clock ou 0) sid (close_rtp sid (s1\<lparr>sv_ctrl := m\<rparr>)))))"
    using f by (auto simp: stop_finish_def Let_def split: sum.splits message.splits)
  have rec: "sv_recHeap (finalizeRecorder (ou_clock ou 0) sid (close_rtp sid (s1\<lparr>sv_ctrl := m\<rparr>))) ref = sv_recHeap s ref"
    using assms(3) by (simp add: finalizeRecorder_effect s1)
  have "sm_state (snd (sm_Stopped (snd (sm_StopRequested st)))) = StateComplete"
    using st(3) by (simp add: sm_Stopped_def sm_StopRequested_def)
  then show ?thesis
    using assms(2) rec st(1,2) by (simp add: s' s1 finalizeRecorder_effect GetStream_def)
qed


section \<open>The compressed path\<close>

lemma on_packet_frame:
  "sv_recHeap (on_packet now sid s) = sv_recHeap s" "sv_opusTarget (on_packet now sid s) = sv_opusTarget s"
  by (simp_all add: on_packet_def on_stream_eq split: sum.split)

lemma emit_page_ch [simp]: "or_ch (emit_page pg r) = or_ch r"
  by (simp add: emit_page_def split: prod.split)

lemma start_opus_created:
  assumes "ou_mkdir ou 1 = None" and "ou_create ou 1 = Inr room"
  shows "\<exists>r. sv_recordings (start_opus ou sid s) = (sv_recordings s)(sid @ ''-opus'' \<mapsto> sv_next s) \<and>
    sv_recHeap (start_opus ou sid s) = (sv_recHeap s)(sv_next s \<mapsto> OpusRec r) \<and>
    sv_opusTarget (start_opus ou sid s) = Some (sv_next s) \<and> sv_stream (start_opus ou sid s) = sv_stream s \<and>
    rc_onCompressed (sv_rtp (start_opus ou sid s)) \<and> or_ch r = [] \<and> \<not> or_closed r \<and> \<not> or_chClosed r"
proof -
  obtain r where "NewOpusRecorder None (Inr room) (ou_clock ou 8) (cf_RecordingsDir (sv_cfg s)) sid 48000 2 312 = Inr r"
    "or_ch r = []" "\<not> or_closed r" "\<not> or_chClosed r"
    by (simp add: NewOpusRecorder_def writeOpusTags_def writeOpusHead_def writePage_def)
  with assms show ?thesis
    by (intro exI [of _ r]) (simp add: start_opus_def add_recorder_def rc_SetOnCompressed_def)
qed

text \<open>C25. Once a second stream is recorded, its recorder gets the packets of every stream. After
  \<open>start_opus\<close> for a stream \<open>new\<close>, a packet the receiver accepts for any stream (it reports
  \<open>OnCompressed other\<close>) is queued for the recording of \<open>new\<close>, and no other recorder, the one of its own
  stream included, receives anything: the \<open>onCompressed\<close> callback, of which the receiver holds one
  for all streams, ignores the stream it is called for.\<close>

theorem newest_recorder_takes_all_streams:
  assumes "ou_mkdir ou 1 = None" and "ou_create ou 1 = Inr room"
    and "read_step pion now rd b (sv_rtp (start_opus ou new s)) = (ctl, [OnPacket other first, OnCompressed other ts payload], r')"
    and "rtp_turn pion now rd b (start_opus ou new s) = Some s'"
  shows "\<exists>ref r. sv_recordings s' (new @ ''-opus'') = Some ref \<and> sv_recHeap s' ref = Some (OpusRec r) \<and>
    or_ch r = [\<lparr>op_ts = ts, op_payload = payload\<rparr>] \<and> (\<forall>q. q \<noteq> ref \<longrightarrow> sv_recHeap s' q = sv_recHeap s q)"
proof -
  obtain r where R: "sv_recordings (start_opus ou new s) = (sv_recordings s)(new @ ''-opus'' \<mapsto> sv_next s)"
    "sv_recHeap (start_opus ou new s) = (sv_recHeap s)(sv_next s \<mapsto> OpusRec r)"
    "sv_opusTarget (start_opus ou new s) = Some (sv_next s)" "or_ch r = []" "\<not> or_closed r" "\<not> or_chClosed r"
    using start_opus_created [OF assms(1,2)] by blast
  have rec: "sv_recordings (on_packet now sid t) = sv_recordings t" for sid and t :: "'a server"
    by (simp add: on_packet_def split: sum.split)
  from assms(4) have "s' = (on_packet now other ((start_opus ou new s)\<lparr>sv_rtp := r'\<rparr>))\<lparr>sv_recHeap :=
      (sv_recHeap s)(sv_next s \<mapsto> OpusRec (r\<lparr>or_ch := [\<lparr>op_ts = ts, op_payload = payload\<rparr>]\<rparr>))\<rparr>"
    by (simp add: rtp_turn_def assms(3) on_compressed_def on_packet_frame R WritePacket_def ch_cap_def)
  then show ?thesis by (simp add: R rec)
qed

end
