(* ===== verification/Server_Monitor.thy ===== *)
theory Server_Monitor
  imports Server_Recordings
begin

text \<open>
  The two places that fail streams on their own account: a tick of \<open>streamMonitor\<close> and
  \<open>OnDeviceDisconnect\<close>. Both walk the registry, fail what is due, and clean up what they failed.
\<close>

section \<open>A walk that fails streams\<close>

definition fail_step ::
  "(stream \<Rightarrow> bool) \<Rightarrow> (stream \<Rightarrow> stream) \<Rightarrow> stream_ref \<Rightarrow> 'd server \<times> string list \<Rightarrow> 'd server \<times> string list" where
  "fail_step due kill p acc =
     (case sv_streamHeap (fst acc) p of
        None \<Rightarrow> acc
      | Some st \<Rightarrow>
          if due st then (on_stream p kill (fst acc), snd acc @ [sm_StreamID st]) else acc)"

definition failed_heap :: "(stream \<Rightarrow> bool) \<Rightarrow> (stream \<Rightarrow> stream) \<Rightarrow> stream_ref set \<Rightarrow> stream_heap \<Rightarrow> stream_heap" where
  "failed_heap due kill ps h =
     (\<lambda>p. map_option (\<lambda>st. if p \<in> ps \<and> due st then kill st else st) (h p))"

definition due_ids :: "(stream \<Rightarrow> bool) \<Rightarrow> stream_heap \<Rightarrow> stream_ref list \<Rightarrow> string list" where
  "due_ids due h ps = map sm_StreamID (filter due (List.map_filter h ps))"

lemma failed_heap_step:
  "h p = Some st \<Longrightarrow> failed_heap due kill (insert p ps) h =
     failed_heap due kill ps (h(p := Some (if due st then (if p \<in> ps then st else kill st) else st)))"
  by (auto simp: failed_heap_def fun_eq_iff map_option_case split: option.split)

lemma map_filter_cong: "(\<And>x. x \<in> set xs \<Longrightarrow> f x = g x) \<Longrightarrow> List.map_filter f xs = List.map_filter g xs"
  by (induction xs) (auto simp: List.map_filter_simps split: option.split)

lemma fail_walk:
  assumes "distinct ps" and "\<And>p. p \<in> set ps \<Longrightarrow> sv_streamHeap s p \<noteq> None"
  shows "foldl (\<lambda>acc p. fail_step due kill p acc) (s, ids) ps =
    (s\<lparr>sv_streamHeap := failed_heap due kill (set ps) (sv_streamHeap s)\<rparr>, ids @ due_ids due (sv_streamHeap s) ps)"
  using assms
proof (induction ps arbitrary: s ids)
  case Nil
  have "failed_heap due kill {} h = h" for h by (simp add: failed_heap_def fun_eq_iff option.map_ident)
  then show ?case by (simp add: due_ids_def List.map_filter_simps)
next
  case (Cons p ps)
  obtain st where st: "sv_streamHeap s p = Some st" using Cons.prems(2)[of p] by auto
  define h where "h = (sv_streamHeap s)(p := Some (if due st then kill st else st))"
  define new where "new = (if due st then [sm_StreamID st] else [])"
  have step: "fail_step due kill p (s, ids) = (s\<lparr>sv_streamHeap := h\<rparr>, ids @ new)"
    using st by (simp add: fail_step_def on_stream_eq h_def new_def fun_upd_idem)
  have "h q \<noteq> None" if "q \<in> set ps" for q using Cons.prems that by (auto simp: h_def)
  then have walk: "foldl (\<lambda>acc p. fail_step due kill p acc) (s\<lparr>sv_streamHeap := h\<rparr>, ids @ new) ps =
      (s\<lparr>sv_streamHeap := failed_heap due kill (set ps) h\<rparr>, (ids @ new) @ due_ids due h ps)"
    using Cons.IH [of "s\<lparr>sv_streamHeap := h\<rparr>" "ids @ new"] Cons.prems(1) by simp
  have "List.map_filter h ps = List.map_filter (sv_streamHeap s) ps"
    using Cons.prems(1) by (intro map_filter_cong) (auto simp: h_def)
  then have "due_ids due (sv_streamHeap s) (p # ps) = new @ due_ids due h ps"
    using st by (simp add: due_ids_def List.map_filter_simps new_def)
  moreover have "failed_heap due kill (set (p # ps)) (sv_streamHeap s) = failed_heap due kill (set ps) h"
    using failed_heap_step [where h = "sv_streamHeap s", OF st] Cons.prems(1) by (simp add: h_def)
  ultimately show ?case using step walk by simp
qed


definition timed_out :: "time \<Rightarrow> stream \<Rightarrow> bool" where
  "timed_out now st \<longleftrightarrow> sm_RTPWaitTimedOut now st \<or> sm_RTPDisappeared now st"

definition time_out :: "time \<Rightarrow> stream \<Rightarrow> stream" where
  "time_out now st =
     (if sm_RTPWaitTimedOut now st then snd (sm_RTPWaitTimeout now st) else snd (sm_RTPTimeout now st))"

definition active_on :: "string \<Rightarrow> stream \<Rightarrow> bool" where
  "active_on dev st \<longleftrightarrow> sm_DeviceID st = dev \<and> sm_state st = StateActive"

lemma timeout_stream_eq: "timeout_stream now = fail_step (timed_out now) (time_out now)"
  by (auto simp: fun_eq_iff timeout_stream_def fail_step_def timed_out_def time_out_def on_stream_eq
      split: option.split)

lemma disconnect_stream_eq: "disconnect_stream dev = fail_step (active_on dev) (\<lambda>st. snd (sm_DeviceDisconnected st))"
  by (auto simp: fun_eq_iff disconnect_stream_def fail_step_def active_on_def split: option.split)

lemma time_out_failed:
  "timed_out now st \<Longrightarrow> time_out now st = st\<lparr>sm_state := StateFailed,
     sm_Reason := (if sm_state st = StateRTPWait then FailureRTPWaitTimeout else FailureRTPTimeout)\<rparr>"
  by (auto simp: timed_out_def time_out_def sm_RTPWaitTimedOut_def sm_RTPDisappeared_def sm_RTPWaitTimeout_def
      sm_RTPTimeout_def split: if_splits)

section \<open>Cleaning up\<close>

lemma finalizers_elsewhere [simp]:
  "sv_device (finalize_object t k ref s) = sv_device s" "sv_device (finalizeRecorder t sid s) = sv_device s"
  "sv_device (finalizeOpusRecorder t sid s) = sv_device s"
  "sv_ctrl (finalize_object t k ref s) = sv_ctrl s" "sv_ctrl (finalizeRecorder t sid s) = sv_ctrl s"
  "sv_ctrl (finalizeOpusRecorder t sid s) = sv_ctrl s" "sv_ctrl (close_rtp sid s) = sv_ctrl s"
  by (simp_all add: finalizeRecorder_def finalizeOpusRecorder_def finalize_object_def Let_def close_rtp_eq cancel_worker_eq
      split: option.split prod.split)

lemma cleanup_effect [simp]:
  "reg_streams (sv_stream (cleanupStreamByID clk sid s)) = (reg_streams (sv_stream s))(sid := None)"
  "rc_streams (sv_rtp (cleanupStreamByID clk sid s)) = (rc_streams (sv_rtp s))(sid := None)"
  "sv_recordings (cleanupStreamByID clk sid s) = (sv_recordings s)(sid := None, sid @ ''-opus'' := None)"
  "sv_streamHeap (cleanupStreamByID clk sid s) = sv_streamHeap s"
  "sv_device (cleanupStreamByID clk sid s) = sv_device s" "sv_ctrl (cleanupStreamByID clk sid s) = sv_ctrl s"
  "db_streams (sv_db (cleanupStreamByID clk sid s)) = db_streams (sv_db s)"
  by (simp_all add: cleanupStreamByID_def drop_tracking_def remove_stream_def reg_Remove_def)

lemma cleanup_all_effect:
  "reg_streams (sv_stream (cleanup_all clk ids s)) = (reg_streams (sv_stream s)) |` (- set ids)"
  "rc_streams (sv_rtp (cleanup_all clk ids s)) = (rc_streams (sv_rtp s)) |` (- set ids)"
  "sv_recordings (cleanup_all clk ids s) = sv_recordings s |` (- (set ids \<union> (\<lambda>i. i @ ''-opus'') ` set ids))"
  "sv_streamHeap (cleanup_all clk ids s) = sv_streamHeap s" "sv_device (cleanup_all clk ids s) = sv_device s"
  "sv_ctrl (cleanup_all clk ids s) = sv_ctrl s"
  "db_streams (sv_db (cleanup_all clk ids s)) = db_streams (sv_db s)"
proof -
  have "reg_streams (sv_stream (cleanup_all clk ids s)) = (reg_streams (sv_stream s)) |` (- set ids) \<and>
    rc_streams (sv_rtp (cleanup_all clk ids s)) = (rc_streams (sv_rtp s)) |` (- set ids) \<and>
    sv_recordings (cleanup_all clk ids s) = sv_recordings s |` (- (set ids \<union> (\<lambda>i. i @ ''-opus'') ` set ids)) \<and>
    sv_streamHeap (cleanup_all clk ids s) = sv_streamHeap s \<and> sv_device (cleanup_all clk ids s) = sv_device s \<and>
    sv_ctrl (cleanup_all clk ids s) = sv_ctrl s \<and>
    db_streams (sv_db (cleanup_all clk ids s)) = db_streams (sv_db s)"
  proof (induction ids arbitrary: s)
    case (Cons a ids)
    show ?case
      using Cons.IH [of "cleanupStreamByID (clk a) a s"] by (auto simp: cleanup_all_def restrict_map_def fun_eq_iff)
  qed (simp add: cleanup_all_def restrict_map_def)
  then show
    "reg_streams (sv_stream (cleanup_all clk ids s)) = (reg_streams (sv_stream s)) |` (- set ids)"
    "rc_streams (sv_rtp (cleanup_all clk ids s)) = (rc_streams (sv_rtp s)) |` (- set ids)"
    "sv_recordings (cleanup_all clk ids s) = sv_recordings s |` (- (set ids \<union> (\<lambda>i. i @ ''-opus'') ` set ids))"
    "sv_streamHeap (cleanup_all clk ids s) = sv_streamHeap s" "sv_device (cleanup_all clk ids s) = sv_device s"
  "sv_ctrl (cleanup_all clk ids s) = sv_ctrl s"
    "db_streams (sv_db (cleanup_all clk ids s)) = db_streams (sv_db s)"
    by blast+
qed


section \<open>Failing what is due\<close>

lemma listed_refs:
  assumes "sv_inv good s" and "visits order (sv_stream s)"
  shows "distinct (reg_List order (sv_stream s))" "set (reg_List order (sv_stream s)) = ran (reg_streams (sv_stream s))"
    "p \<in> ran (reg_streams (sv_stream s)) \<Longrightarrow> sv_streamHeap s p \<noteq> None"
proof -
  have filed: "streams_ok (sv_stream s) (sv_streamHeap s) (sv_next s)"
    using assms(1) by (simp add: sv_inv_def)
  have inj: "i = j" if "reg_streams (sv_stream s) i = Some p" "reg_streams (sv_stream s) j = Some p" for i j p
    using filedD [OF filed that(1)] filedD [OF filed that(2)] by auto
  have "distinct (List.map_filter (reg_streams (sv_stream s)) ids)" if "distinct ids" for ids
    using that inj by (induction ids) (auto simp: List.map_filter_simps set_map_filter split: option.split)
  then show "distinct (reg_List order (sv_stream s))" using assms(2) by (simp add: reg_List_def visits_def)
  show "set (reg_List order (sv_stream s)) = ran (reg_streams (sv_stream s))" by (rule reg_List_refs [OF assms(2)])
  show "sv_streamHeap s p \<noteq> None" if "p \<in> ran (reg_streams (sv_stream s))"
    using that filedD [OF filed] by (auto simp: ran_def)
qed

definition fail_due ::
  "(string \<Rightarrow> nat \<Rightarrow> time) \<Rightarrow> string list \<Rightarrow> (stream \<Rightarrow> bool) \<Rightarrow> (stream \<Rightarrow> stream) \<Rightarrow> 'd server \<Rightarrow> 'd server" where
  "fail_due clk order due kill s =
     (case reg_ForEach order (fail_step due kill) (sv_stream s) (s, []) of (s1, ids) \<Rightarrow> cleanup_all clk ids s1)"

lemma fail_due_effect:
  assumes inv: "sv_inv good s" and "visits order (sv_stream s)"
    and st: "reg_streams (sv_stream s) sid = Some p" "sv_streamHeap s p = Some st"
  shows "sv_streamHeap (fail_due clk order due kill s) p = Some (if due st then kill st else st)"
    "reg_streams (sv_stream (fail_due clk order due kill s)) sid = (if due st then None else Some p)"
    "rc_streams (sv_rtp (fail_due clk order due kill s)) sid = (if due st then None else rc_streams (sv_rtp s) sid)"
    "due st \<Longrightarrow> sv_recordings (fail_due clk order due kill s) sid = None \<and>
      sv_recordings (fail_due clk order due kill s) (sid @ ''-opus'') = None"
    "sv_device (fail_due clk order due kill s) = sv_device s"
    "db_streams (sv_db (fail_due clk order due kill s)) = db_streams (sv_db s)"
    "sv_ctrl (fail_due clk order due kill s) = sv_ctrl s"
proof -
  let ?ps = "reg_List order (sv_stream s)"
  let ?s = "s\<lparr>sv_streamHeap := failed_heap due kill (set ?ps) (sv_streamHeap s)\<rparr>"
  let ?ids = "due_ids due (sv_streamHeap s) ?ps"
  note refs = listed_refs [OF inv assms(2)]
  have "reg_ForEach order (fail_step due kill) (sv_stream s) (s, []) = (?s, ?ids)"
    using fail_walk [OF refs(1), of s due kill "[]"] refs(2,3) by (simp add: reg_ForEach_def)
  then have eq: "fail_due clk order due kill s = cleanup_all clk ?ids ?s" by (simp add: fail_due_def)
  have filed: "streams_ok (sv_stream s) (sv_streamHeap s) (sv_next s)"
    using inv by (simp add: sv_inv_def)
  have sid: "sm_StreamID st = sid" using filedD [OF filed st(1)] st(2) by simp
  have p: "p \<in> set ?ps" using st(1) refs(2) by (auto simp: ran_def)
  have "q = p" if q: "q \<in> set ?ps" "sv_streamHeap s q = Some su" "sm_StreamID su = sid" for q su
  proof -
    obtain k where "reg_streams (sv_stream s) k = Some q" using q(1) refs(2) by (auto simp: ran_def)
    with filedD [OF filed this] q(2,3) st(1) show ?thesis by simp
  qed
  moreover have "sid \<in> set ?ids \<longleftrightarrow> (\<exists>q su. q \<in> set ?ps \<and> sv_streamHeap s q = Some su \<and> due su \<and> sm_StreamID su = sid)"
    by (auto simp: due_ids_def set_map_filter image_iff)
  ultimately have ids: "sid \<in> set ?ids \<longleftrightarrow> due st" using p st(2) sid by force
  show "sv_streamHeap (fail_due clk order due kill s) p = Some (if due st then kill st else st)"
    using p st(2) by (simp add: eq cleanup_all_effect failed_heap_def)
  show "reg_streams (sv_stream (fail_due clk order due kill s)) sid = (if due st then None else Some p)"
    "rc_streams (sv_rtp (fail_due clk order due kill s)) sid = (if due st then None else rc_streams (sv_rtp s) sid)"
    "due st \<Longrightarrow> sv_recordings (fail_due clk order due kill s) sid = None \<and>
      sv_recordings (fail_due clk order due kill s) (sid @ ''-opus'') = None"
    "sv_device (fail_due clk order due kill s) = sv_device s"
    "db_streams (sv_db (fail_due clk order due kill s)) = db_streams (sv_db s)"
    "sv_ctrl (fail_due clk order due kill s) = sv_ctrl s"
    using ids st(1) by (simp_all add: eq cleanup_all_effect restrict_map_def)
qed


lemma push_active_frame:
  "sv_stream (push_active now ids s) = sv_stream s" "sv_streamHeap (push_active now ids s) = sv_streamHeap s"
  "rc_streams (sv_rtp (push_active now ids s)) = rc_streams (sv_rtp s)"
  "sv_db (push_active now ids s) = sv_db s"
proof -
  have "sv_stream (push_active now ids s) = sv_stream s \<and> sv_streamHeap (push_active now ids s) = sv_streamHeap s \<and>
    rc_streams (sv_rtp (push_active now ids s)) = rc_streams (sv_rtp s) \<and> sv_db (push_active now ids s) = sv_db s"
    unfolding push_active_def
  proof (induction ids arbitrary: s)
    case (Cons a ids)
    have "sv_stream (pushStreamMetrics sid st now s) = sv_stream s \<and>
        sv_streamHeap (pushStreamMetrics sid st now s) = sv_streamHeap s \<and>
        rc_streams (sv_rtp (pushStreamMetrics sid st now s)) = rc_streams (sv_rtp s) \<and>
        sv_db (pushStreamMetrics sid st now s) = sv_db s" for sid st
      by (simp add: pushStreamMetrics_def Let_def on_metrics_def)
    with Cons.IH show ?case by (simp split: prod.split)
  qed simp
  then show "sv_stream (push_active now ids s) = sv_stream s" "sv_streamHeap (push_active now ids s) = sv_streamHeap s"
    "rc_streams (sv_rtp (push_active now ids s)) = rc_streams (sv_rtp s)" "sv_db (push_active now ids s) = sv_db s"
    by blast+
qed

section \<open>Properties\<close>

text \<open>C9. A stream that runs out of time does not outlive the next tick of the monitor, and no other
  stream is touched. In every reachable state, with the registry walked in whatever order: a stream
  that has waited in RTP_WAIT, or been silent while ACTIVE, for its time-out is FAILED with the reason
  of that time-out after the tick, is no longer registered or bound and has no recorder left, while
  its row in the database still says what it said; a stream that is in time is registered, bound and
  in the state it was in.\<close>

theorem monitor_fails_exactly_the_timed_out:
  assumes "pcm_decoder decode good" and "sv_reach decode good cfg db s"
    and "visits order2 (sv_stream s)" and "s' = monitor_tick order1 order2 clk now s"
    and "GetStream sid s = Inr p" and "sv_streamHeap s p = Some st"
  shows "(if sm_RTPWaitTimedOut now st \<or> sm_RTPDisappeared now st
     then sv_streamHeap s' p = Some (st\<lparr>sm_state := StateFailed,
            sm_Reason := (if sm_state st = StateRTPWait then FailureRTPWaitTimeout else FailureRTPTimeout)\<rparr>) \<and>
          GetStream sid s' = Inl (Sentinel ErrStreamNotFound) \<and> rc_streams (sv_rtp s') sid = None \<and>
          sv_recordings s' sid = None \<and> sv_recordings s' (sid @ ''-opus'') = None
     else sv_streamHeap s' p = Some st \<and> GetStream sid s' = Inr p \<and>
          rc_streams (sv_rtp s') sid = rc_streams (sv_rtp s) sid) \<and>
    db_streams (sv_db s') = db_streams (sv_db s)"
proof -
  let ?s1 = "push_active now (active_ids order1 s) s"
  have inv: "sv_inv good ?s1" by (rule push_active_inv [OF reach_inv [OF assms(1,2)]])
  have s': "s' = fail_due clk order2 (timed_out now) (time_out now) ?s1"
    by (simp add: assms(4) monitor_tick_def timeout_stream_eq fail_due_def Let_def)
  have reg: "reg_streams (sv_stream s) sid = Some p" using assms(5) by (simp add: GetStream_def reg_Get_iff)
  have "visits order2 (sv_stream ?s1)" "reg_streams (sv_stream ?s1) sid = Some p" "sv_streamHeap ?s1 p = Some st"
    using assms(3,6) reg by (simp_all add: push_active_frame)
  from fail_due_effect [OF inv this, where clk = clk and due = "timed_out now" and kill = "time_out now"] show ?thesis
    using time_out_failed [of now st] reg
    by (simp add: s' timed_out_def push_active_frame GetStream_def reg_Get_def split: option.split)
qed

text \<open>C21. The end of a device's session fails its ACTIVE streams and only those. When the session that
  ends is the device's current one, every ACTIVE stream of the device is FAILED with DEVICE_DISCONNECTED
  afterwards and no longer registered, bound or recorded; every other stream, waiting streams of the
  same device included, is as before; and the device is offline. When the session has been replaced
  by a newer one nothing changes.\<close>

theorem disconnect_fails_active_streams_only:
  assumes "pcm_decoder decode good" and "sv_reach decode good cfg db s"
    and "visits order (sv_stream s)" and "s' = sv_OnClose order clk ref dev s" and "dev \<noteq> ''''"
    and "GetStream sid s = Inr p" and "sv_streamHeap s p = Some st"
  shows "if mg_sessions (sv_ctrl s) dev \<noteq> Some ref then s' = s
     else \<not> dr_Online (sv_device s') dev \<and> mg_sessions (sv_ctrl s') dev = None \<and>
       (if sm_DeviceID st = dev \<and> sm_state st = StateActive
        then sv_streamHeap s' p = Some (st\<lparr>sm_state := StateFailed, sm_Reason := FailureDeviceDisc\<rparr>) \<and>
          GetStream sid s' = Inl (Sentinel ErrStreamNotFound) \<and> rc_streams (sv_rtp s') sid = None \<and>
          sv_recordings s' sid = None \<and> sv_recordings s' (sid @ ''-opus'') = None
        else sv_streamHeap s' p = Some st \<and> GetStream sid s' = Inr p \<and>
          rc_streams (sv_rtp s') sid = rc_streams (sv_rtp s) sid)"
proof (cases "mg_sessions (sv_ctrl s) dev = Some ref")
  case True
  let ?s1 = "s\<lparr>sv_ctrl := (sv_ctrl s)\<lparr>mg_sessions := (mg_sessions (sv_ctrl s))(dev := None)\<rparr>\<rparr>"
  let ?s2 = "fail_due clk order (active_on dev) (\<lambda>st. snd (sm_DeviceDisconnected st)) ?s1"
  have s': "s' = ?s2\<lparr>sv_device := dr_SetOffline dev (sv_device ?s2)\<rparr>"
    using True assms(5)
    by (simp add: assms(4) sv_OnClose_def mg_UnregisterIf_def OnDeviceDisconnect_def disconnect_stream_eq fail_due_def
        Let_def split: prod.split)
  have inv: "sv_inv good ?s1" using set_ctrl_inv reach_inv [OF assms(1,2)] by blast
  have reg: "reg_streams (sv_stream s) sid = Some p" using assms(6) by (simp add: GetStream_def reg_Get_iff)
  have "visits order (sv_stream ?s1)" "reg_streams (sv_stream ?s1) sid = Some p" "sv_streamHeap ?s1 p = Some st"
    using assms(3,7) reg by simp_all
  note E = fail_due_effect [OF inv this, where clk = clk and due = "active_on dev" and
      kill = "\<lambda>st. snd (sm_DeviceDisconnected st)"]
  have "mg_sessions (sv_ctrl ?s2) dev = None" using E(7) by simp
  with True E show ?thesis
    using reg
    by (simp add: s' active_on_def GetStream_def reg_Get_def dr_Online_def dr_SetOffline_def sm_DeviceDisconnected_def
        split: option.split)
next
  case False
  then show ?thesis by (simp add: assms(4) sv_OnClose_def mg_UnregisterIf_def)
qed

end
