(* ===== verification/Server_Metrics.thy ===== *)
theory Server_Metrics
  imports Server_Monitor
begin

text \<open>
  \<open>pushStreamMetrics\<close>: the per-stream statistics become global counters, as differences to the
  statistics last pushed for the stream.
\<close>

lemma funpow_counters:
  "(IncRTPPacketsDuplicate ^^ n) m = m\<lparr>rtpPacketsDuplicate := rtpPacketsDuplicate m + of_nat n\<rparr>"
  "(IncRTPPacketsReordered ^^ n) m = m\<lparr>rtpPacketsReordered := rtpPacketsReordered m + of_nat n\<rparr>"
  "(IncRTPPacketsLate ^^ n) m = m\<lparr>rtpPacketsLate := rtpPacketsLate m + of_nat n\<rparr>"
  by (induction n) (simp_all add: IncRTPPacketsDuplicate_def IncRTPPacketsReordered_def IncRTPPacketsLate_def add_ac)

lemma AddLost_difference:
  "(if d > 0 then AddRTPPacketsLost (sint d) m else m) = m\<lparr>rtpPacketsLost := rtpPacketsLost m + d\<rparr>" for d :: u64
  by (auto simp: AddRTPPacketsLost_def word_gt_0)

lemma push_counters_eq:
  "push_counters st lst m = m\<lparr>rtpPacketsLost := rtpPacketsLost m + (Lost st - Lost lst),
     rtpPacketsDuplicate := rtpPacketsDuplicate m + (Duplicate st - Duplicate lst),
     rtpPacketsReordered := rtpPacketsReordered m + (Reordered st - Reordered lst),
     rtpPacketsLate := rtpPacketsLate m + (Late st - Late lst),
     rtpJitterMS := word_of_int (f64_to_int (f64_mul (JitterMS st) 1000))\<rparr>"
  by (simp add: push_counters_def Let_def AddLost_difference funpow_counters SetRTPJitterMS_def)

text \<open>The four counters and the statistics they add up.\<close>

definition loss_counters :: "((metrics \<Rightarrow> i64) \<times> (stats \<Rightarrow> u64)) list" where
  "loss_counters = [(rtpPacketsLost, Lost), (rtpPacketsDuplicate, Duplicate), (rtpPacketsReordered, Reordered),
     (rtpPacketsLate, Late)]"

lemma push_last_stats [simp]: "sv_lastStats (pushStreamMetrics sid st now s) = (sv_lastStats s)(sid \<mapsto> st)"
  by (simp add: pushStreamMetrics_def Let_def on_metrics_def)

lemma push_effect:
  assumes "rc_metrics (sv_rtp s) = Some m"
  shows "\<exists>m'. rc_metrics (sv_rtp (pushStreamMetrics sid st now s)) = Some m' \<and>
    (\<forall>(count, stat)\<in>set loss_counters. count m' = count m + (stat st - stat (stat_or_zero (sv_lastStats s) sid)))"
  using assms
  by (auto simp: pushStreamMetrics_def Let_def on_metrics_def push_counters_eq loss_counters_def SetRTPBitrateBPS_def)

definition push_all_metrics :: "(string \<times> stats \<times> time) list \<Rightarrow> 'd server \<Rightarrow> 'd server" where
  "push_all_metrics pushes s = foldl (\<lambda>s (sid, st, now). pushStreamMetrics sid st now s) s pushes"

text \<open>The statistics last pushed for a stream.\<close>

definition latest_stats :: "(string \<times> stats \<times> time) list \<Rightarrow> 'd server \<Rightarrow> string \<Rightarrow> stats" where
  "latest_stats pushes s k =
     (case map_of (rev (map (\<lambda>(sid, st, now). (sid, st)) pushes)) k of
        Some st \<Rightarrow> st
      | None \<Rightarrow> stat_or_zero (sv_lastStats s) k)"

lemma push_all_latest: "stat_or_zero (sv_lastStats (push_all_metrics pushes s)) k = latest_stats pushes s k"
proof (induction pushes rule: rev_induct)
  case (snoc e pushes)
  then show ?case
    by (cases e) (simp add: push_all_metrics_def latest_stats_def stat_or_zero_def)
qed (simp add: push_all_metrics_def latest_stats_def)


text \<open>Every loss, duplicate, reordering and late packet is counted once. Over any sequence of
  pushes, for whatever streams in whatever order, each of the four counters grows by exactly the sum
  over the streams of what was last pushed minus what was known before (modulo 2^64): nothing is
  counted twice when the same statistics are pushed again, and nothing is missed.\<close>

theorem pushes_count_each_event_once:
  assumes "rc_metrics (sv_rtp s) = Some m" and "finite S" and "fst ` set pushes \<subseteq> S"
    and "(count, stat) \<in> set loss_counters"
  shows "\<exists>m'. rc_metrics (sv_rtp (push_all_metrics pushes s)) = Some m' \<and>
    count m' - count m = (\<Sum>k\<in>S. stat (latest_stats pushes s k) - stat (stat_or_zero (sv_lastStats s) k))"
  using assms(3)
proof (induction pushes rule: rev_induct)
  case Nil
  then show ?case using assms(1) by (simp add: push_all_metrics_def latest_stats_def)
next
  case (snoc e pushes)
  obtain sid st now where e: "e = (sid, st, now)" by (rule prod_cases3)
  let ?s = "push_all_metrics pushes s"
  obtain m1 where m1: "rc_metrics (sv_rtp ?s) = Some m1"
      "count m1 - count m = (\<Sum>k\<in>S. stat (latest_stats pushes s k) - stat (stat_or_zero (sv_lastStats s) k))"
    using snoc by auto
  obtain m2 where m2: "rc_metrics (sv_rtp (pushStreamMetrics sid st now ?s)) = Some m2"
      "count m2 = count m1 + (stat st - stat (latest_stats pushes s sid))"
    using push_effect [OF m1(1), of sid st now] assms(4) by (force simp: push_all_latest)
  have sid: "sid \<in> S" using snoc.prems e by simp
  have latest: "latest_stats (pushes @ [e]) s k = (if k = sid then st else latest_stats pushes s k)" for k
    by (simp add: latest_stats_def e)
  have "(\<Sum>k\<in>S. stat (latest_stats (pushes @ [e]) s k) - stat (stat_or_zero (sv_lastStats s) k)) =
      (stat st - stat (latest_stats pushes s sid)) +
      (\<Sum>k\<in>S. stat (latest_stats pushes s k) - stat (stat_or_zero (sv_lastStats s) k))"
    using assms(2) sid by (simp add: latest sum.remove [OF assms(2) sid])
  moreover have "count m2 - count m = (stat st - stat (latest_stats pushes s sid)) + (count m1 - count m)"
    using m2(2) by simp
  moreover have "push_all_metrics (pushes @ [e]) s = pushStreamMetrics sid st now ?s"
    by (simp add: push_all_metrics_def e)
  ultimately show ?case using m1(2) m2(1) by simp
qed

end
