(* ===== verification/Server_Boot.thy ===== *)
theory Server_Boot
  imports Server_Metrics Server_Database
begin

text \<open>
  Enrolment, and what a new process of the server makes of the database an old one left.
\<close>

section \<open>Enrolment\<close>

lemma str_bytes_inj: "str_bytes x = str_bytes y \<longleftrightarrow> x = y"
proof -
  have "unat (byte_of_char c) = of_char c" for c
    using nat_of_char_less_256 [of c] by (simp add: byte_of_char_def unat_of_nat take_bit_eq_mod)
  then have "inj byte_of_char" by (metis injI of_char_eq_iff)
  then show ?thesis by (simp add: str_bytes_def inj_map_eq_map)
qed

text \<open>With a credential configured, only its holder gets in, and nothing happens otherwise. A device
  that presents another credential is refused with ErrAuthFailed and the server is unchanged. Everyone
  else is accepted: the device is online afterwards, a known one otherwise as it was, an unknown one
  enrolled under its own name; other devices, streams and recordings are untouched, and the database
  changes for an unknown device at most. (\<open>dr_inv\<close>: the registry files devices under their own names.)\<close>

theorem credential_guards_enrolment:
  assumes "sv_Authenticate nil_blob now dev credential s = (res, s')" and "now \<noteq> time_zero" and "dr_inv (sv_device s)"
  shows "if cf_DeviceCredential (sv_cfg s) \<notin> {'''', credential} then res = Some (Sentinel ErrAuthFailed) \<and> s' = s
    else res = None \<and>
      dr_Get (sv_device s') dev = Inr ((case dr_Get (sv_device s) dev of Inr d \<Rightarrow> d | Inl e \<Rightarrow> tofu_device dev)
        \<lparr>dv_Online := True, dv_Status := ''online''\<rparr>) \<and>
      (\<forall>k. k \<noteq> dev \<longrightarrow> dr_Get (sv_device s') k = dr_Get (sv_device s) k) \<and>
      sv_stream s' = sv_stream s \<and> sv_streamHeap s' = sv_streamHeap s \<and> sv_recordings s' = sv_recordings s \<and>
      (dr_Get (sv_device s) dev \<noteq> Inl (Sentinel ErrDeviceNotFound) \<longrightarrow> sv_db s' = sv_db s) \<and>
      (\<forall>k. k \<noteq> dev \<longrightarrow> DeviceRepo_Load k (sv_db s') = DeviceRepo_Load k (sv_db s))"
proof -
  have other: "dr_Get (dr_SetOnline dev now (sv_device s)) k = dr_Get (sv_device s) k"
    "dr_Get (dr_SetOnline dev now (dr_Register (tofu_device dev) h (sv_device s))) k = dr_Get (sv_device s) k"
    if "k \<noteq> dev" for k h
    using that assms(3)
    by (auto simp: dr_Get_def dr_SetOnline_def dr_Register_def tofu_device_def with_presence_def online_at_def dr_inv_def
        split: option.split)
  have row: "DeviceRepo_Load k (snd (DeviceRepo_Save nil_blob (tofu_device dev) None db)) = DeviceRepo_Load k db"
    if "k \<noteq> dev" for k db
    using that by (simp add: DeviceRepo_Load_def DeviceRepo_Save_def tofu_device_def split: option.split)
  have allowed: "cf_DeviceCredential (sv_cfg s) \<notin> {'''', credential} \<longleftrightarrow> cf_DeviceCredential (sv_cfg s) \<noteq> '''' \<and>
      ConstantTimeCompare (str_bytes credential) (str_bytes (cf_DeviceCredential (sv_cfg s))) \<noteq> 1"
    by (auto simp: ConstantTimeCompare_def str_bytes_inj)
  show ?thesis
  proof (cases "dr_devices (sv_device s) dev")
    case None
    then have "dr_Get (sv_device s) dev = Inl (Sentinel ErrDeviceNotFound)" by (simp add: dr_Get_def)
    moreover have "dr_Get (dr_SetOnline dev now (dr_Register (tofu_device dev) h r)) dev =
        Inr ((tofu_device dev)\<lparr>dv_Online := True, dv_Status := ''online''\<rparr>)" for h r
      using assms(2) by (simp add: dr_Get_def dr_SetOnline_def dr_Register_def tofu_device_def with_presence_def online_at_def
          statusFromOnline_def Let_def)
    ultimately show ?thesis
      using assms(1) other row unfolding allowed by (auto simp: sv_Authenticate_def Let_def)
  next
    case (Some d)
    then have "dr_Get (sv_device s) dev = Inr (with_presence (sv_device s) d)" by (simp add: dr_Get_def)
    moreover have "dr_Get (dr_SetOnline dev now (sv_device s)) dev =
        Inr ((with_presence (sv_device s) d)\<lparr>dv_Online := True, dv_Status := ''online''\<rparr>)"
      using assms(2,3) Some by (auto simp: dr_Get_def dr_SetOnline_def with_presence_def online_at_def dr_inv_def
          statusFromOnline_def Let_def)
    ultimately show ?thesis
      using assms(1) other unfolding allowed by (auto simp: sv_Authenticate_def)
  qed
qed

section \<open>Restart\<close>

lemma restore_streams_frame:
  "k \<notin> fst ` set rows \<Longrightarrow>
     reg_streams (sv_stream (snd (restore_streams rows s))) k = reg_streams (sv_stream s) k \<and>
     db_streams (sv_db (snd (restore_streams rows s))) k = db_streams (sv_db s) k"
  "p < sv_next s \<Longrightarrow> sv_streamHeap (snd (restore_streams rows s)) p = sv_streamHeap s p"
  "sv_device (snd (restore_streams rows s)) = sv_device s"
  "db_stats (sv_db (snd (restore_streams rows s))) = db_stats (sv_db s)"
  "sv_deviceStats (snd (restore_streams rows s)) = sv_deviceStats s"
  "fst (restore_streams rows s) = None"
  by (induction rows s rule: restore_streams.induct)
    (auto simp: mark_new_stream reg_Add_def save_stream_def StreamRepo_Save_def split: if_splits)

lemma restore_streams_effect:
  assumes "distinct (map fst rows)" and "(sid, row) \<in> set rows" and "db_streams (sv_db s) sid = Some row"
    and "reg_streams (sv_stream s) sid = None"
  shows "if stale_state (rs_State row)
    then \<exists>p st. reg_streams (sv_stream (snd (restore_streams rows s))) sid = Some p \<and>
        sv_streamHeap (snd (restore_streams rows s)) p = Some st \<and> sm_state st = StateFailed \<and>
        sm_Reason st = FailureServerRestart \<and> sm_DeviceID st = rs_DeviceID row \<and> sm_SSRC st = rs_SSRC row \<and>
        db_streams (sv_db (snd (restore_streams rows s))) sid =
          Some (row\<lparr>rs_State := ''FAILED'', rs_Reason := reason_string FailureServerRestart\<rparr>)
    else reg_streams (sv_stream (snd (restore_streams rows s))) sid = None \<and>
        db_streams (sv_db (snd (restore_streams rows s))) sid = Some row"
  using assms
proof (induction rows arbitrary: s)
  case (Cons x rows)
  obtain k r where x: "x = (k, r)" by force
  define s1 where "s1 = (if stale_state (rs_State r)
      then save_stream k (rs_DeviceID r) StateFailed FailureServerRestart (rs_SSRC r) (time_of_null (rs_Started r))
        (s\<lparr>sv_streamHeap := (sv_streamHeap s)(sv_next s \<mapsto>
            snd (sm_MarkServerRestartFailed (WithTimeoutConfig (timeouts (sv_cfg s))
                (stream_New k (rs_DeviceID r) (rs_SSRC r) (time_of_null (rs_Started r)))))),
           sv_stream := reg_Add k (sv_next s) (sv_stream s), sv_next := Suc (sv_next s)\<rparr>) else s)"
  have step: "restore_streams (x # rows) s = restore_streams rows s1"
    by (simp add: x s1_def mark_new_stream)
  show ?case
  proof (cases "k = sid")
    case True
    then have "r = row" "sid \<notin> fst ` set rows" using Cons.prems(1,2) x by (force simp: image_iff)+
    with restore_streams_frame(1) [where k = sid and s = s1 and rows = rows] restore_streams_frame(2) [where p = "sv_next s" and s = s1 and rows = rows] show ?thesis
      using Cons.prems(3,4) True
      by (simp add: step) (auto simp: s1_def sm_MarkServerRestartFailed_def WithTimeoutConfig_def stream_New_def reg_Add_def
          save_stream_def StreamRepo_Save_def)
  next
    case False
    then have "db_streams (sv_db s1) sid = Some row" "reg_streams (sv_stream s1) sid = None"
      using Cons.prems(3,4) by (simp_all add: s1_def reg_Add_def save_stream_def StreamRepo_Save_def)
    moreover have "(sid, row) \<in> set rows" using Cons.prems(2) x False by auto
    moreover have "distinct (map fst rows)" using Cons.prems(1) by simp
    ultimately show ?thesis unfolding step by (intro Cons.IH)
  qed
qed simp


lemma restore_devices:
  "sv_stream (foldl restore_device s ds) = sv_stream s" "sv_db (foldl restore_device s ds) = sv_db s"
  "sv_deviceStats (foldl restore_device s ds) = sv_deviceStats s"
  "dr_online (sv_device (foldl restore_device s ds)) = dr_online (sv_device s)"
  by (induction ds arbitrary: s) (simp_all add: restore_device_def dr_Register_def split: prod.split)

lemma restore_devices_known:
  "dr_devices (sv_device (foldl restore_device s ds)) k = None \<longleftrightarrow>
     dr_devices (sv_device s) k = None \<and> k \<notin> (\<lambda>(d, h). dv_DeviceID d) ` set ds"
  by (induction ds arbitrary: s) (auto simp: restore_device_def dr_Register_def split: prod.splits)

lemma loaded_devices: "(\<lambda>(d, h). dv_DeviceID d) ` set (DeviceRepo_LoadAll ids db) = set ids \<inter> dom (db_devices db)"
  by (induction ids) (auto simp: DeviceRepo_LoadAll_def List.map_filter_simps device_of_row_def split: option.split)

lemma stream_rows:
  assumes "distinct ids" and "set ids = dom (db_streams db)"
  shows "distinct (map fst (StreamRepo_LoadAll ids db))"
    "(sid, row) \<in> set (StreamRepo_LoadAll ids db) \<longleftrightarrow> db_streams db sid = Some row"
proof -
  have "distinct ids \<Longrightarrow> distinct (map fst (StreamRepo_LoadAll ids db)) \<and> fst ` set (StreamRepo_LoadAll ids db) \<subseteq> set ids" for ids
    by (induction ids) (auto simp: StreamRepo_LoadAll_def List.map_filter_simps split: option.split)
  with assms(1) show "distinct (map fst (StreamRepo_LoadAll ids db))" by blast
  show "(sid, row) \<in> set (StreamRepo_LoadAll ids db) \<longleftrightarrow> db_streams db sid = Some row"
    using assms(2) by (auto simp: StreamRepo_LoadAll_def set_map_filter)
qed

text \<open>C20. A restart fails the streams the old process left running and resurrects nothing. The restored
  server knows exactly the devices of the database, none of them online. A stream that was ACTIVE,
  STARTING or RTP_WAIT is registered as FAILED with reason SERVER_RESTART, under its device and SSRC,
  and its row now says so; every other row is as it was, and its stream is not registered; \<open>Restore\<close>
  reports no error.\<close>

theorem restart_fails_stale_streams:
  assumes "distinct streamIDs" and "set streamIDs = dom (db_streams db)" and "set deviceIDs = dom (db_devices db)"
    and "Restore deviceIDs streamIDs (sv_New cfg db :: 'd server) = (e, s)"
  shows "e = None \<and>
    (dr_devices (sv_device s) dev = None \<longleftrightarrow> db_devices db dev = None) \<and> \<not> dr_Online (sv_device s) dev \<and>
    (case db_streams db sid of
       None \<Rightarrow> GetStream sid s = Inl (Sentinel ErrStreamNotFound)
     | Some row \<Rightarrow>
         if rs_State row \<in> {''ACTIVE'', ''STARTING'', ''RTP_WAIT''}
         then \<exists>p st. GetStream sid s = Inr p \<and> sv_streamHeap s p = Some st \<and> sm_state st = StateFailed \<and>
           sm_Reason st = FailureServerRestart \<and> sm_DeviceID st = rs_DeviceID row \<and> sm_SSRC st = rs_SSRC row \<and>
           saved_state sid (sv_db s) = Some (''FAILED'', reason_string FailureServerRestart)
         else GetStream sid s = Inl (Sentinel ErrStreamNotFound) \<and> db_streams (sv_db s) sid = Some row)"
proof -
  let ?rows = "StreamRepo_LoadAll streamIDs db"
  let ?s1 = "foldl restore_device (sv_New cfg db :: 'd server) (DeviceRepo_LoadAll deviceIDs db)"
  have new: "sv_db ?s1 = db" "reg_streams (sv_stream ?s1) = Map.empty"
    by (simp_all add: restore_devices sv_New_def reg_New_def)
  have "sv_db (sv_New cfg db :: 'd server) = db" by (simp add: sv_New_def)
  with assms(4) new(1) have s: "(e, s) = restore_streams ?rows ?s1" by (simp add: Restore_def Let_def)
  then have es: "e = fst (restore_streams ?rows ?s1)" "s = snd (restore_streams ?rows ?s1)"
    by (metis fst_conv, metis snd_conv)
  note rows = stream_rows [OF assms(1,2)]
  have dev: "dr_devices (sv_device s) dev = None \<longleftrightarrow> db_devices db dev = None" "\<not> dr_Online (sv_device s) dev"
    using assms(3) unfolding es(2) restore_streams_frame(3) restore_devices_known loaded_devices
    by (auto simp: dr_Online_def restore_devices sv_New_def dr_New_def)
  have stale: "stale_state st \<longleftrightarrow> st \<in> {''ACTIVE'', ''STARTING'', ''RTP_WAIT''}" for st
    by (auto simp: stale_state_def)
  show ?thesis
  proof (cases "db_streams db sid")
    case None
    then have "sid \<notin> fst ` set ?rows" using rows(2) by force
    with None dev new show ?thesis
      using restore_streams_frame(1) [where k = sid and rows = ?rows and s = ?s1]
      by (simp add: es restore_streams_frame GetStream_def reg_Get_def)
  next
    case (Some row)
    have "(sid, row) \<in> set ?rows" "db_streams (sv_db ?s1) sid = Some row" "reg_streams (sv_stream ?s1) sid = None"
      using Some rows(2) new by simp_all
    from restore_streams_effect [OF rows(1) this] Some dev stale [of "rs_State row"] show ?thesis
      by (auto simp: es restore_streams_frame GetStream_def reg_Get_def saved_state_def split: if_splits)
  qed
qed


section \<open>Final statistics\<close>

lemma stats_finalizers:
  "db_stats (sv_db (finalizeRecorder t sid s)) = db_stats (sv_db s)"
  "db_stats (sv_db (save_stream sid dev st rs x t s)) = db_stats (sv_db s)"
  "sv_deviceStats (save_stream sid dev st rs x t s) = sv_deviceStats s" "sv_deviceStats (on_stream p f s) = sv_deviceStats s"
  by (auto simp: finalizeRecorder_def finalize_object_def RecordingRepo_Finalize_def save_stream_def StreamRepo_Save_def
      on_stream_eq Let_def split: option.split prod.split)

lemma Restore_stats:
  "db_stats (sv_db (snd (Restore o1 o2 s))) = db_stats (sv_db s)"
  "sv_deviceStats (snd (Restore o1 o2 s)) = sv_deviceStats s"
  by (simp_all add: Restore_def Let_def restore_streams_frame restore_devices)

text \<open>What a device reports at the end of a stream outlives the server. After a stream was stopped
  with final statistics, asking for them gives exactly these, and so does a new process started on
  the database the old one left, the free-form part included, provided \<open>Marshal\<close> can write it and
  \<open>Unmarshal\<close> reads back what it wrote (keys in the order \<open>Marshal\<close> writes them);
  the counters are below 2^63.\<close>

theorem final_stats_survive_restart:
  fixes s2 :: "'d server"
  assumes "stop_finish ou marshal sid dev p (Inr (StreamStopped rid k (Some st))) s = (res, s1)"
    and "distinct (map fst (sp_Extra st))"
    and "sp_Extra st \<noteq> [] \<Longrightarrow> marshal (JObj (sp_Extra st)) = Inr b" and "b \<noteq> []"
    and "parse b = Some (JObj (sp_Extra st))"
    and "Restore deviceIDs streamIDs (sv_New cfg (sv_db s1)) = (e, s2)"
    and "stats_storable (stats_row_of marshal dev st)"
  shows "res = None \<and> fst (DeviceFinalStats parse sid s1) = Some st \<and> fst (DeviceFinalStats parse sid s2) = Some st"
proof -
  have res: "res = None" and s1: "sv_deviceStats s1 sid = Some st" "db_stats (sv_db s1) sid = Some (stats_row_of marshal dev st)"
    using assms(1) by (auto simp: stop_finish_def Let_def keep_final_stats_def DeviceStatsRepo_Save_def stats_put_def assms(7) stats_finalizers)
  have "s2 = snd (Restore deviceIDs streamIDs (sv_New cfg (sv_db s1)))" by (simp add: assms(6))
  then have "db_stats (sv_db s2) = db_stats (sv_db s1)" "sv_deviceStats s2 sid = None"
    by (simp_all add: Restore_stats sv_New_def)
  moreover have "into_map [] (JObj (sp_Extra st)) = Some (sp_Extra st)" using assms(2) by simp
  ultimately show ?thesis
    using res s1 assms(3-5)
    by (auto simp: DeviceFinalStats_def DeviceStatsRepo_Load_def stats_row_of_def Let_def)
qed

end
