(* ===== verification/Server_Frame.thy ===== *)
theory Server_Frame
  imports Server_Reach
begin

text \<open>
  The control side of the server (configuration, session manager, device registry) and the handlers
  that leave it alone: everything but the control connections and the renaming of a device.
\<close>

definition control_of :: "'d server \<Rightarrow> config \<times> session_manager \<times> device_registry" where
  "control_of s = (sv_cfg s, sv_ctrl s, sv_device s)"

named_theorems aside \<open>operations that leave the control side alone\<close>

lemma control_eq: "control_of s' = control_of s \<longleftrightarrow> sv_cfg s' = sv_cfg s \<and> sv_ctrl s' = sv_ctrl s \<and> sv_device s' = sv_device s"
  by (simp add: control_of_def)

section \<open>Building blocks\<close>

lemma finalize_object_aside: "control_of (finalize_object t k ref s) = control_of s"
  by (simp add: control_eq finalize_object_def split: option.split prod.split)

lemma blocks_aside [aside]:
  "control_of (on_stream p f s) = control_of s" "control_of (remove_stream sid s) = control_of s"
  "control_of (drop_tracking sid s) = control_of s" "control_of (on_metrics g s) = control_of s"
  "control_of (close_rtp sid s) = control_of s" "control_of (start_worker dec sid b s) = control_of s"
  "control_of (save_stream sid dev st rs y t s) = control_of s" "control_of (s\<lparr>sv_rtp := r\<rparr>) = control_of s"
  "control_of (add_recorder key recID sid codec t obj s) = control_of s"
  "control_of (keep_final_stats marshal sid dev stats s) = control_of s"
  by (simp_all add: control_eq on_stream_eq remove_stream_def drop_tracking_def on_metrics_def close_rtp_eq cancel_worker_eq
      start_worker_def save_stream_def add_recorder_def keep_final_stats_def split: option.split)

lemma fields_aside [aside]:
  "control_of (s\<lparr>sv_recordings := rs\<rparr>) = control_of s" "control_of (s\<lparr>sv_recHeap := h\<rparr>) = control_of s"
  "control_of (s\<lparr>sv_bus := b\<rparr>) = control_of s" "control_of (s\<lparr>sv_live := l\<rparr>) = control_of s"
  "control_of (s\<lparr>sv_workers := w\<rparr>) = control_of s"
  by (simp_all add: control_of_def)

lemma finalizers_aside [aside]:
  "control_of (finalizeRecorder t sid s) = control_of s" "control_of (finalizeOpusRecorder t sid s) = control_of s"
  by (simp_all add: finalizeRecorder_def finalizeOpusRecorder_def Let_def finalize_object_aside aside split: option.split)

lemma cleanup_aside [aside]: "control_of (cleanupStreamByID clk sid s) = control_of s"
  by (simp add: cleanupStreamByID_def aside)

lemma cleanup_all_aside [aside]: "control_of (cleanup_all clk ids s) = control_of s"
  unfolding cleanup_all_def by (induction ids arbitrary: s) (simp_all add: aside)

lemma recorders_aside [aside]:
  "control_of (start_wav ou rg sid s) = control_of s" "control_of (start_opus ou sid s) = control_of s"
  by (simp_all add: start_wav_def start_opus_def Let_def aside control_of_def add_recorder_def
      split: sum.split option.split prod.split)

section \<open>Handlers\<close>

lemma replace_existing_aside [aside]: "control_of (replace_existing ou dev s) = control_of s"
  by (simp add: replace_existing_def Let_def aside split: option.split)

lemma start_aside:
  "control_of (snd (start_lookup ou dev s)) = control_of s" "control_of (snd (start_bind ou s)) = control_of s"
  "control_of (snd (start_register ou dev s)) = control_of s"
  by (simp_all add: start_lookup_def start_bind_def start_register_def add_stream_def Let_def aside
      split: sum.split prod.split) (simp add: control_of_def save_stream_def)

lemma start_finish_aside: "control_of (snd (start_finish ou dec rg dev port p reply s)) = control_of s"
  by (simp add: start_finish_def reject_stream_def stream_accepted_def Let_def aside
      split: sum.split message.split option.split)

lemma stop_aside:
  "control_of (snd (stop_begin sid s)) = control_of s"
  "control_of (snd (stop_finish ou marshal sid dev p reply s)) = control_of s"
  by (simp_all add: stop_begin_def stop_finish_def Let_def aside split: sum.split option.split message.split)

lemma walk_aside:
  assumes "\<And>p acc. control_of (fst (f p acc)) = control_of (fst acc)"
  shows "control_of (fst (reg_ForEach order f r (s, ids))) = control_of s"
proof -
  have "control_of (fst (foldl (\<lambda>s p. f p s) acc ps)) = control_of (fst acc)" for ps acc
    by (induction ps arbitrary: acc) (simp_all add: assms)
  then show ?thesis by (simp add: reg_ForEach_def)
qed

text \<open>The streams of \<open>OnDeviceDisconnect\<close>, before it sets the device offline.\<close>

lemma disconnect_walk_aside: "control_of (fst (reg_ForEach order (disconnect_stream dev) r (s, []))) = control_of s"
  by (rule walk_aside) (simp add: disconnect_stream_def aside split: prod.split option.split)

lemma push_active_aside [aside]: "control_of (push_active now ids s) = control_of s"
proof -
  have "control_of (pushStreamMetrics sid st now s) = control_of s" for sid st and s :: "'a server"
    by (simp add: pushStreamMetrics_def Let_def control_of_def on_metrics_def)
  then show ?thesis unfolding push_active_def by (induction ids arbitrary: s) (simp_all split: prod.split)
qed

lemma monitor_aside: "control_of (monitor_tick o1 o2 clk now s) = control_of s"
proof -
  have "control_of (fst (timeout_stream now p acc)) = control_of (fst acc)"
    for p and acc :: "'a server \<times> string list"
    by (simp add: timeout_stream_def aside split: prod.split option.split)
  from walk_aside [where f = "timeout_stream now", OF this] show ?thesis by (simp add: monitor_tick_def Let_def aside split_beta)
qed

section \<open>The data path\<close>

lemma on_compressed_aside: "on_compressed ts payload s = Some s' \<Longrightarrow> control_of s' = control_of s"
  by (auto simp: on_compressed_def aside split: option.splits rec_object.splits)

lemma run_callbacks_aside: "run_callbacks now cbs s = Some s' \<Longrightarrow> control_of s' = control_of s"
proof (induction now cbs s rule: run_callbacks.induct)
  case (2 now sid first cs s)
  then show ?case by (simp add: on_packet_def aside split: sum.splits)
next
  case (3 now sid ts payload cs s)
  then show ?case by (auto simp: bind_eq_Some_conv dest: on_compressed_aside)
qed simp

lemma rtp_turn_aside: "rtp_turn pion now rd ref s = Some s' \<Longrightarrow> control_of s' = control_of s"
  by (auto simp: rtp_turn_def aside dest!: run_callbacks_aside split: prod.splits)

lemma on_pcm_all_aside: "on_pcm_all f ls s = Some s' \<Longrightarrow> control_of s' = control_of s"
proof (induction f ls s rule: on_pcm_all.induct)
  case (3 f l ls s)
  then show ?case by (simp add: on_pcm_def aside split: option.splits rec_object.splits)
qed simp_all

lemma publish_events_aside: "publish_events evs s = Some s' \<Longrightarrow> control_of s' = control_of s"
proof (induction evs s rule: publish_events.induct)
  case (3 f es s)
  then obtain a where a: "publish f s = Some a" "publish_events es a = Some s'" by (auto simp: bind_eq_Some_conv)
  from a(1) have "control_of a = control_of s" by (auto simp: publish_def aside dest: on_pcm_all_aside split: prod.splits)
  with 3(1) a show ?case by simp
qed simp_all

lemma worker_turn_aside: "worker_turn iter decode takeDone now h s = Some s' \<Longrightarrow> control_of s' = control_of s"
  by (auto simp: worker_turn_def aside control_of_def dest!: publish_events_aside split: option.splits if_splits)

lemma side_aside:
  "control_of (opus_writer_turn ref s) = control_of s" "control_of (live_connect grow s) = control_of s"
  "control_of (live_turn c w l s) = control_of s" "control_of (snd (DeviceFinalStats parse sid s)) = control_of s"
  by (simp_all add: control_eq opus_writer_turn_def live_connect_def live_turn_def DeviceFinalStats_def Let_def
      split: option.split rec_object.split sum.split prod.split)

section \<open>Steps\<close>

text \<open>A step outside the control plane keeps the configuration, the sessions, who is online and which
  devices are known.\<close>

lemma inner_step:
  assumes "sv_step decode good e s s'" and "e \<noteq> Control"
  shows "sv_cfg s' = sv_cfg s \<and> mg_sessions (sv_ctrl s') = mg_sessions (sv_ctrl s) \<and>
    dr_online (sv_device s') = dr_online (sv_device s) \<and>
    dom (dr_devices (sv_device s')) = dom (dr_devices (sv_device s))"
proof -
  have same: ?thesis if "control_of s' = control_of s" using that by (simp add: control_eq)
  show ?thesis
    using assms(1)
  proof cases
    case (manager m)
    then show ?thesis by simp
  next
    case (rename dev name)
    then show ?thesis
      by (auto simp: SetDeviceDisplayName_def dr_SetDisplayName_def split: prod.splits option.splits)
  next
    case (lookup ou dev)
    then show ?thesis using start_aside(1) [of ou dev s] same by simp
  next
    case (bind ou port)
    then show ?thesis using start_aside(2) [of ou s] same by simp
  next
    case (bind_failed ou e dev)
    then show ?thesis using start_aside(2) [of ou s] same by simp
  qed ((rule same, use assms(2) in \<open>simp add: start_aside start_finish_aside stop_aside monitor_aside rtp_turn_aside
      worker_turn_aside side_aside\<close>)+)
qed

end
