(* ===== verification/Server_Control.thy ===== *)
theory Server_Control
  imports Server_Boot Server_Frame Session
begin

text \<open>
  The control plane: \<open>controlLoop\<close> of \<open>internal/server/server.go\<close> puts the sessions of
  \<open>internal/control/session.go\<close> in front of the server. A connection is a session and the \<open>hello\<close>
  its \<open>Run\<close> has accepted; its callbacks run on the server. Connections interleave with each other
  and with every step of the server.
\<close>

section \<open>Connections\<close>

record conn =
  cn_session :: session
  cn_hello :: "hello option"

record 'd process =
  pc_server :: "'d server"
  pc_conns :: "session_ref \<rightharpoonup> conn"

definition newSessionID :: "bytes \<Rightarrow> string" where
  "newSessionID b = ''sess-'' @ hex b"

text \<open>An accepted connection. What the peer sends reaches the reads of its session later.\<close>

definition conn_accept :: "session_ref \<Rightarrow> 'd process \<Rightarrow> 'd process" where
  "conn_accept ref x = x\<lparr>pc_conns := (pc_conns x)(ref \<mapsto> \<lparr>cn_session = NewSession [], cn_hello = None\<rparr>)\<rparr>"

definition conn_input :: "session_ref \<Rightarrow> conn_read \<Rightarrow> 'd process \<Rightarrow> 'd process" where
  "conn_input ref rd x =
     (case pc_conns x ref of
        None \<Rightarrow> x
      | Some c \<Rightarrow> x\<lparr>pc_conns := (pc_conns x)(ref \<mapsto>
          c\<lparr>cn_session := (cn_session c)\<lparr>se_reads := se_reads (cn_session c) @ [rd]\<rparr>\<rparr>)\<rparr>)"

text \<open>The callbacks \<open>controlLoop\<close> sets on a session, run for what the session has called since: the
  readiness, the messages and the end of \<open>se'\<close> that \<open>se\<close> did not have.\<close>

definition since :: "'a list \<Rightarrow> 'a list \<Rightarrow> 'a list" where
  "since old new = drop (length old) new"

definition run_onReady :: "session_ref \<Rightarrow> string list \<Rightarrow> 'd server \<Rightarrow> 'd server" where
  "run_onReady ref devs s = foldl (\<lambda>s dev. sv_OnReady ref dev s) s devs"

definition run_onMsg :: "message list \<Rightarrow> 'd server \<Rightarrow> 'd server" where
  "run_onMsg ms s = s\<lparr>sv_ctrl := foldl (\<lambda>m msg. mg_Handler msg m) (sv_ctrl s) ms\<rparr>"

definition run_onClose ::
  "string list \<Rightarrow> (string \<Rightarrow> nat \<Rightarrow> time) \<Rightarrow> session_ref \<Rightarrow> string list \<Rightarrow> 'd server \<Rightarrow> 'd server" where
  "run_onClose order clk ref devs s = foldl (\<lambda>s dev. sv_OnClose order clk ref dev s) s devs"

definition conn_callbacks ::
  "string list \<Rightarrow> (string \<Rightarrow> nat \<Rightarrow> time) \<Rightarrow> session_ref \<Rightarrow> session \<Rightarrow> session \<Rightarrow> 'd server \<Rightarrow> 'd server" where
  "conn_callbacks order clk ref se se' s =
     run_onClose order clk ref (since (se_onClose se) (se_onClose se'))
       (run_onMsg (since (se_onMsg se) (se_onMsg se'))
         (run_onReady ref (since (se_onReady se) (se_onReady se')) s))"

text \<open>The three parts of \<open>Run\<close>. Between the second and the third, and between any two events of the
  third, the rest of the process runs.\<close>

definition conn_hello ::
  "(bytes \<Rightarrow> json option) \<Rightarrow> writer \<Rightarrow> bytes option \<Rightarrow> time \<Rightarrow> string list \<Rightarrow> (string \<Rightarrow> nat \<Rightarrow> time) \<Rightarrow>
     session_ref \<Rightarrow> 'd process \<Rightarrow> 'd process" where
  "conn_hello parse write nil_blob now order clk ref x =
     (case pc_conns x ref of
        None \<Rightarrow> x
      | Some c \<Rightarrow>
          if cn_hello c \<noteq> None \<or> se_result (cn_session c) \<noteq> None then x
          else (case run_hello parse (cn_session c) of
              (None, se) \<Rightarrow>
                \<lparr>pc_server = conn_callbacks order clk ref (cn_session c) se (pc_server x),
                 pc_conns = (pc_conns x)(ref \<mapsto> c\<lparr>cn_session := se\<rparr>)\<rparr>
            | (Some hello, se) \<Rightarrow>
                (case sv_Authenticate nil_blob now (hl_DeviceID hello) (hl_Credential hello) (pc_server x) of
                   (e, s1) \<Rightarrow>
                     (case run_auth write (Some (\<lambda>_ _. e)) hello se of
                        (ok, se1) \<Rightarrow>
                          \<lparr>pc_server = conn_callbacks order clk ref (cn_session c) se1 s1,
                           pc_conns = (pc_conns x)(ref \<mapsto>
                             \<lparr>cn_session = se1, cn_hello = (if ok then Some hello else None)\<rparr>)\<rparr>))))"

definition awaits_ack :: "conn \<Rightarrow> hello \<Rightarrow> bool" where
  "awaits_ack c hello \<longleftrightarrow>
     cn_hello c = Some hello \<and> se_result (cn_session c) = None \<and> se_onReady (cn_session c) = []"

definition conn_ack ::
  "writer \<Rightarrow> bytes \<Rightarrow> int \<Rightarrow> string list \<Rightarrow> (string \<Rightarrow> nat \<Rightarrow> time) \<Rightarrow> session_ref \<Rightarrow> 'd process \<Rightarrow> 'd process" where
  "conn_ack write rnd nowMs order clk ref x =
     (case pc_conns x ref of
        None \<Rightarrow> x
      | Some c \<Rightarrow>
          (case cn_hello c of
             None \<Rightarrow> x
           | Some hello \<Rightarrow>
               if \<not> awaits_ack c hello then x
               else (let se = run_ack write (newSessionID rnd) nowMs hello (cn_session c)
                     in \<lparr>pc_server = conn_callbacks order clk ref (cn_session c) se (pc_server x),
                         pc_conns = (pc_conns x)(ref \<mapsto> c\<lparr>cn_session := se\<rparr>)\<rparr>)))"

definition conn_event ::
  "(bytes \<Rightarrow> json option) \<Rightarrow> writer \<Rightarrow> string list \<Rightarrow> (string \<Rightarrow> nat \<Rightarrow> time) \<Rightarrow> session_ref \<Rightarrow> session_event \<Rightarrow>
     'd process \<Rightarrow> 'd process" where
  "conn_event parse write order clk ref e x =
     (case pc_conns x ref of
        None \<Rightarrow> x
      | Some c \<Rightarrow>
          if se_onReady (cn_session c) = [] then x
          else (let se = session_step parse write (cn_session c) e
                in \<lparr>pc_server = conn_callbacks order clk ref (cn_session c) se (pc_server x),
                    pc_conns = (pc_conns x)(ref \<mapsto> c\<lparr>cn_session := se\<rparr>)\<rparr>))"

section \<open>Runs of the process\<close>

text \<open>What a step means for the presence of a device: a connection got past authentication for it, was
  registered or failed before that, or ended while it was the device's current one. Steps of the server
  other than the control plane's keep their label.\<close>

datatype process_event =
  Welcomed string | Joined string | Lost string | Left string | Quiet | Inner sv_event

definition conn_label :: "session_ref \<Rightarrow> 'd process \<Rightarrow> 'd process \<Rightarrow> process_event" where
  "conn_label ref x x' =
     (case (pc_conns x ref, pc_conns x' ref) of
        (Some c, Some c') \<Rightarrow>
          (case (cn_hello c, cn_hello c') of
             (None, Some hello) \<Rightarrow> Welcomed (hl_DeviceID hello)
           | (Some hello, _) \<Rightarrow>
               if se_onReady (cn_session c) = [] \<and> se_onReady (cn_session c') \<noteq> [] then Joined (hl_DeviceID hello)
               else if se_result (cn_session c) \<noteq> None \<or> se_result (cn_session c') = None then Quiet
               else if se_onReady (cn_session c') = [] then Lost (hl_DeviceID hello)
               else if mg_sessions (sv_ctrl (pc_server x)) (hl_DeviceID hello) = Some ref then Left (hl_DeviceID hello)
               else Quiet
           | _ \<Rightarrow> Quiet)
      | _ \<Rightarrow> Quiet)"

text \<open>What the goroutine of a connection may do.\<close>

inductive conn_step :: "session_ref \<Rightarrow> 'd process \<Rightarrow> 'd process \<Rightarrow> bool" where
  accept: "pc_conns x ref = None \<Longrightarrow> conn_step ref x (conn_accept ref x)"
| input: "conn_step ref x (conn_input ref rd x)"
| hello: "conn_step ref x (conn_hello parse write nil_blob now order clk ref x)"
| ack: "conn_step ref x (conn_ack write rnd nowMs order clk ref x)"
| event: "conn_step ref x (conn_event parse write order clk ref e x)"

inductive process_step ::
  "'d decode_fn \<Rightarrow> ('d \<Rightarrow> bool) \<Rightarrow> process_event \<Rightarrow> 'd process \<Rightarrow> 'd process \<Rightarrow> bool" for decode good where
  conn: "conn_step ref x x' \<Longrightarrow> process_step decode good (conn_label ref x x') x x'"
| inner: "sv_step decode good e (pc_server x) s' \<Longrightarrow> e \<noteq> Control \<Longrightarrow>
    process_step decode good (Inner e) x (x\<lparr>pc_server := s'\<rparr>)"

definition process_boot :: "'d server \<Rightarrow> 'd process" where
  "process_boot s = \<lparr>pc_server = s, pc_conns = Map.empty\<rparr>"

inductive process_run ::
  "'d decode_fn \<Rightarrow> ('d \<Rightarrow> bool) \<Rightarrow> config \<Rightarrow> database \<Rightarrow> process_event list \<Rightarrow> 'd process \<Rightarrow> bool"
  for decode good cfg db where
  p_boot: "process_run decode good cfg db [] (process_boot (snd (Restore o1 o2 (sv_New cfg db))))"
| p_step: "process_run decode good cfg db tr x \<Longrightarrow> process_step decode good e x x' \<Longrightarrow>
    process_run decode good cfg db (tr @ [e]) x'"

section \<open>What a connection does to its session\<close>

lemma run_hello_frame:
  assumes "run_hello parse se = (r, se')" and "se_result se = None"
  shows "se_deviceID se' = se_deviceID se \<and> se_onReady se' = se_onReady se \<and> se_onMsg se' = se_onMsg se \<and>
    se_out se' = se_out se \<and> (se_result se' = None \<and> se_onClose se' = se_onClose se \<or>
     r = None \<and> se_result se' \<noteq> None \<and> se_onClose se' = se_onClose se @ [se_deviceID se])"
  using assms
  by (auto simp: run_hello_def run_return_def Let_def split: prod.splits option.splits sum.splits message.splits)

lemma run_auth_frame:
  assumes "run_auth write auth h se = (ok, se')"
  shows "ok = (Option.bind auth (\<lambda>a. a (hl_DeviceID h) (hl_Credential h)) = None) \<and> (ok \<longrightarrow> se' = se) \<and>
    (\<not> ok \<longrightarrow> se_deviceID se' = se_deviceID se \<and> se_onReady se' = se_onReady se \<and> se_onMsg se' = se_onMsg se \<and>
       se_result se' \<noteq> None \<and> se_onClose se' = se_onClose se @ [se_deviceID se])"
  using assms by (auto simp: run_auth_def run_return_def split: option.splits)

lemma run_ack_frame:
  assumes "run_ack write newID nowMs h se = se'" and "se_result se = None"
  shows "se_deviceID se' = hl_DeviceID h \<and> se_onMsg se' = se_onMsg se \<and>
    (if write (HelloAck newID (hl_DeviceID h) nowMs) = None
     then se_onReady se' = se_onReady se @ [hl_DeviceID h] \<and> se_onClose se' = se_onClose se \<and> se_result se' = None \<and>
       HelloAck newID (hl_DeviceID h) nowMs \<in> set (se_out se')
     else se_onReady se' = se_onReady se \<and> se_onClose se' = se_onClose se @ [hl_DeviceID h] \<and> se_result se' \<noteq> None)"
  using assms by (auto simp: run_ack_def run_return_def writeMsg_def Let_def split: option.splits)

lemma handle_message_frame:
  "se_deviceID (handle_message write m se) = se_deviceID se \<and> se_onReady (handle_message write m se) = se_onReady se \<and>
    set (se_out se) \<subseteq> set (se_out (handle_message write m se)) \<and>
    (\<exists>ms. se_onMsg (handle_message write m se) = se_onMsg se @ ms) \<and>
    se_result (handle_message write m se) = se_result se \<and> se_onClose (handle_message write m se) = se_onClose se"
  by (cases m) (auto simp: handle_message_def writeMsg_out)

lemma read_pass_cases:
  obtains b rs ec where "read_pass parse write se = se\<lparr>se_buf := b, se_reads := rs, se_errCh := ec\<rparr>"
  | m b rs where "read_pass parse write se = handle_message write m (se\<lparr>se_buf := b, se_reads := rs\<rparr>)"
proof (cases "se_errCh se")
  case None
  obtain r b rs where rf: "readFrame (se_buf se) (se_reads se) = (r, b, rs)" by (metis prod_cases3)
  show ?thesis
  proof (cases r)
    case None
    then show ?thesis using that(1) [of "se_errCh se" rs b] rf \<open>se_errCh se = None\<close> by (simp add: read_pass_def)
  next
    case (Some r')
    then show ?thesis
    proof (cases r')
      case (Inl e)
      with Some show ?thesis using that(1) [of "Some e" rs b] rf \<open>se_errCh se = None\<close> by (simp add: read_pass_def)
    next
      case (Inr p)
      then show ?thesis
        using that(1) [of "se_errCh se" rs b] that(2) rf Some \<open>se_errCh se = None\<close>
        by (cases "DecodePayload parse p") (simp_all add: read_pass_def)
    qed
  qed
next
  case (Some e)
  then show ?thesis using that(1) [of "se_errCh se" "se_reads se" "se_buf se"] by (simp add: read_pass_def)
qed

lemma session_step_frame:
  assumes "session_step parse write se e = se'"
  shows "se_deviceID se' = se_deviceID se \<and> se_onReady se' = se_onReady se \<and> set (se_out se) \<subseteq> set (se_out se') \<and>
    (\<exists>ms. se_onMsg se' = se_onMsg se @ ms) \<and>
    (se_result se' = se_result se \<and> se_onClose se' = se_onClose se \<or>
     se_result se = None \<and> se_result se' \<noteq> None \<and> se_onMsg se' = se_onMsg se \<and>
       se_onClose se' = se_onClose se @ [se_deviceID se])"
proof (cases e)
  case ReadPass
  with assms have se': "se' = read_pass parse write se" by simp
  show ?thesis
  proof (cases rule: read_pass_cases [of parse "write" se])
    case (2 m b rs)
    then show ?thesis using handle_message_frame [of "write" m "se\<lparr>se_buf := b, se_reads := rs\<rparr>"] by (simp add: se')
  qed (simp add: se')
next
  case Tick
  with assms show ?thesis by (auto simp: heartbeat_def run_return_def writeMsg_def Let_def split: option.splits if_splits)
qed (use assms in \<open>auto simp: run_return_def split: option.splits if_splits\<close>)

section \<open>What it does to the server\<close>

lemma since_simps [simp]: "since xs xs = []" "since xs (xs @ ys) = ys"
  by (simp_all add: since_def)

lemma callbacks_simps [simp]:
  "run_onReady ref [] s = s" "run_onReady ref [dev] s = sv_OnReady ref dev s" "run_onMsg [] s = s"
  "run_onClose order clk ref [] s = s" "run_onClose order clk ref [dev] s = sv_OnClose order clk ref dev s"
  by (simp_all add: run_onReady_def run_onMsg_def run_onClose_def)

lemma Handler_sessions [simp]: "mg_sessions (mg_Handler msg m) = mg_sessions m"
  by (auto simp: mg_Handler_def deliverRequest_def deliverStream_def split: prod.splits bool.splits)

lemma run_onMsg_control [simp]:
  "mg_sessions (sv_ctrl (run_onMsg ms s)) = mg_sessions (sv_ctrl s)" "sv_cfg (run_onMsg ms s) = sv_cfg s"
  "sv_device (run_onMsg ms s) = sv_device s"
proof -
  have "mg_sessions (foldl (\<lambda>m msg. mg_Handler msg m) m ms) = mg_sessions m" for m
    by (induction ms arbitrary: m) simp_all
  then show "mg_sessions (sv_ctrl (run_onMsg ms s)) = mg_sessions (sv_ctrl s)" "sv_cfg (run_onMsg ms s) = sv_cfg s"
    "sv_device (run_onMsg ms s) = sv_device s" by (simp_all add: run_onMsg_def)
qed

lemma run_onMsg_ctrl: "run_onMsg ms s = s\<lparr>sv_ctrl := sv_ctrl (run_onMsg ms s)\<rparr>"
  by (simp add: run_onMsg_def)

lemma OnClose_stale: "mg_sessions (sv_ctrl s) dev \<noteq> Some ref \<Longrightarrow> sv_OnClose order clk ref dev s = s"
  by (simp add: sv_OnClose_def mg_UnregisterIf_def)

lemma OnClose_control:
  assumes "mg_sessions (sv_ctrl s) dev = Some ref" and "dev \<noteq> ''''"
  shows "sv_cfg (sv_OnClose order clk ref dev s) = sv_cfg s \<and>
    mg_sessions (sv_ctrl (sv_OnClose order clk ref dev s)) = (mg_sessions (sv_ctrl s))(dev := None) \<and>
    sv_device (sv_OnClose order clk ref dev s) = dr_SetOffline dev (sv_device s)"
proof -
  let ?m = "(sv_ctrl s)\<lparr>mg_sessions := (mg_sessions (sv_ctrl s))(dev := None)\<rparr>"
  obtain s1 ids where walk:
    "reg_ForEach order (disconnect_stream dev) (sv_stream s) (s\<lparr>sv_ctrl := ?m\<rparr>, []) = (s1, ids)" by force
  have "control_of s1 = control_of (s\<lparr>sv_ctrl := ?m\<rparr>)"
    using disconnect_walk_aside [of order dev "sv_stream s" "s\<lparr>sv_ctrl := ?m\<rparr>"] by (simp add: walk)
  then have "control_of (cleanup_all clk ids s1) = control_of (s\<lparr>sv_ctrl := ?m\<rparr>)" by (simp add: aside)
  then have same: "sv_cfg (cleanup_all clk ids s1) = sv_cfg s" "sv_ctrl (cleanup_all clk ids s1) = ?m"
    "sv_device (cleanup_all clk ids s1) = sv_device s" by (simp_all add: control_eq)
  have "mg_UnregisterIf dev ref (sv_ctrl s) = (True, ?m)" using assms(1) by (simp add: mg_UnregisterIf_def)
  then have "sv_OnClose order clk ref dev s = (cleanup_all clk ids s1)
      \<lparr>sv_device := dr_SetOffline dev (sv_device (cleanup_all clk ids s1))\<rparr>"
    using assms(2) walk by (simp add: sv_OnClose_def OnDeviceDisconnect_def Let_def)
  with same show ?thesis by simp
qed

lemma OnReady_control [simp]:
  "sv_cfg (sv_OnReady ref dev s) = sv_cfg s" "sv_device (sv_OnReady ref dev s) = sv_device s"
  "dev \<noteq> '''' \<Longrightarrow> mg_sessions (sv_ctrl (sv_OnReady ref dev s)) = (mg_sessions (sv_ctrl s))(dev \<mapsto> ref)"
  "sv_OnReady ref '''' s = s"
  by (simp_all add: sv_OnReady_def mg_OnReady_def)

lemma Authenticate_control:
  assumes "sv_Authenticate nil_blob now dev cred s = (e, s')"
  shows "if e = None then cf_DeviceCredential (sv_cfg s) \<in> {'''', cred} \<and> sv_cfg s' = sv_cfg s \<and> sv_ctrl s' = sv_ctrl s \<and>
      dr_online (sv_device s') = (dr_online (sv_device s))(dev \<mapsto> now) \<and>
      dom (dr_devices (sv_device s')) = insert dev (dom (dr_devices (sv_device s)))
    else s' = s"
proof (cases "cf_DeviceCredential (sv_cfg s) \<in> {'''', cred}")
  case True
  then have allowed: "\<not> (cf_DeviceCredential (sv_cfg s) \<noteq> '''' \<and>
      ConstantTimeCompare (str_bytes cred) (str_bytes (cf_DeviceCredential (sv_cfg s))) \<noteq> 1)"
    by (auto simp: ConstantTimeCompare_def)
  show ?thesis
  proof (cases "dr_devices (sv_device s) dev")
    case None
    have "sv_Authenticate nil_blob now dev cred s =
        (None, s\<lparr>sv_device := dr_SetOnline dev now (dr_Register (tofu_device dev) [] (sv_device s)),
                 sv_db := snd (DeviceRepo_Save nil_blob (tofu_device dev) None (sv_db s))\<rparr>)"
      unfolding sv_Authenticate_def if_not_P [OF allowed] by (simp add: dr_Get_def None Let_def)
    with assms True show ?thesis by (auto simp: dr_SetOnline_def dr_Register_def tofu_device_def)
  next
    case (Some d)
    have "sv_Authenticate nil_blob now dev cred s = (None, s\<lparr>sv_device := dr_SetOnline dev now (sv_device s)\<rparr>)"
      unfolding sv_Authenticate_def if_not_P [OF allowed] by (simp add: dr_Get_def Some)
    with assms True Some show ?thesis by (auto simp: dr_SetOnline_def)
  qed
next
  case False
  then have "ConstantTimeCompare (str_bytes cred) (str_bytes (cf_DeviceCredential (sv_cfg s))) \<noteq> 1"
    by (auto simp: ConstantTimeCompare_def str_bytes_inj)
  with False assms show ?thesis by (auto simp: sv_Authenticate_def)
qed

section \<open>The invariant of the control plane\<close>

text \<open>A connection before its \<open>hello\<close> is accepted has no device; afterwards its credential is the
  configured one, and once it is announced the device has had its acknowledgement.\<close>

definition conn_ok :: "'d server \<Rightarrow> conn \<Rightarrow> bool" where
  "conn_ok s c \<longleftrightarrow>
     (case cn_hello c of
        None \<Rightarrow> se_deviceID (cn_session c) = '''' \<and> se_onReady (cn_session c) = []
      | Some h \<Rightarrow> cf_DeviceCredential (sv_cfg s) \<in> {'''', hl_Credential h} \<and>
          hl_DeviceID h \<in> dom (dr_devices (sv_device s)) \<and>
          (se_onReady (cn_session c) \<noteq> [] \<longrightarrow> se_deviceID (cn_session c) = hl_DeviceID h \<and>
            (\<exists>i ms. HelloAck i (hl_DeviceID h) ms \<in> set (se_out (cn_session c)))))"

text \<open>Announced and still running.\<close>

definition announced :: "string \<Rightarrow> conn \<Rightarrow> bool" where
  "announced dev c \<longleftrightarrow> (\<exists>h. cn_hello c = Some h \<and> hl_DeviceID h = dev) \<and> se_onReady (cn_session c) \<noteq> [] \<and>
     se_result (cn_session c) = None"

definition process_inv :: "config \<Rightarrow> 'd process \<Rightarrow> bool" where
  "process_inv cfg x \<longleftrightarrow> sv_cfg (pc_server x) = cfg \<and>
     (\<forall>ref c. pc_conns x ref = Some c \<longrightarrow> conn_ok (pc_server x) c) \<and>
     (\<forall>dev ref. mg_sessions (sv_ctrl (pc_server x)) dev = Some ref \<longrightarrow>
        dev \<noteq> '''' \<and> (\<exists>c. pc_conns x ref = Some c \<and> announced dev c))"

lemma conn_ok_mono:
  "conn_ok s c \<Longrightarrow> sv_cfg s' = sv_cfg s \<Longrightarrow> dom (dr_devices (sv_device s)) \<subseteq> dom (dr_devices (sv_device s')) \<Longrightarrow>
    conn_ok s' c"
  unfolding conn_ok_def by (cases "cn_hello c") auto

text \<open>How one connection moves: it, the server and the sessions.\<close>

lemma process_inv_update:
  assumes "process_inv cfg x" and "conn_ok s' c'"
    and "sv_cfg s' = sv_cfg (pc_server x)"
    and "dom (dr_devices (sv_device (pc_server x))) \<subseteq> dom (dr_devices (sv_device s'))"
    and "\<And>dev r. mg_sessions (sv_ctrl s') dev = Some r \<Longrightarrow>
      r \<noteq> ref \<and> mg_sessions (sv_ctrl (pc_server x)) dev = Some r \<or> r = ref \<and> dev \<noteq> '''' \<and> announced dev c'"
  shows "process_inv cfg \<lparr>pc_server = s', pc_conns = (pc_conns x)(ref \<mapsto> c')\<rparr>"
  unfolding process_inv_def
proof (intro conjI allI impI)
  show "sv_cfg (pc_server \<lparr>pc_server = s', pc_conns = (pc_conns x)(ref \<mapsto> c')\<rparr>) = cfg"
    using assms(1,3) by (simp add: process_inv_def)
next
  fix r c
  assume "pc_conns \<lparr>pc_server = s', pc_conns = (pc_conns x)(ref \<mapsto> c')\<rparr> r = Some c"
  then have "((pc_conns x)(ref \<mapsto> c')) r = Some c" by simp
  then consider "c = c'" | "pc_conns x r = Some c" by (cases "r = ref") simp_all
  then show "conn_ok (pc_server \<lparr>pc_server = s', pc_conns = (pc_conns x)(ref \<mapsto> c')\<rparr>) c"
  proof cases
    case 2
    then have "conn_ok (pc_server x) c" using assms(1) by (simp add: process_inv_def)
    from conn_ok_mono [OF this assms(3,4)] show ?thesis by simp
  qed (use assms(2) in simp)
next
  fix dev r
  assume "mg_sessions (sv_ctrl (pc_server \<lparr>pc_server = s', pc_conns = (pc_conns x)(ref \<mapsto> c')\<rparr>)) dev = Some r"
  then consider "r \<noteq> ref" "mg_sessions (sv_ctrl (pc_server x)) dev = Some r" | "r = ref" "dev \<noteq> ''''" "announced dev c'"
    using assms(5) [of dev r] by fastforce
  then have "dev \<noteq> '''' \<and> (\<exists>c. ((pc_conns x)(ref \<mapsto> c')) r = Some c \<and> announced dev c)"
  proof cases
    case 1
    then show ?thesis using assms(1) by (simp add: process_inv_def)
  qed simp
  then show "dev \<noteq> ''''" "\<exists>c. pc_conns \<lparr>pc_server = s', pc_conns = (pc_conns x)(ref \<mapsto> c')\<rparr> r = Some c \<and> announced dev c"
    by simp_all
qed

text \<open>The abstract moves of a connection, and that its goroutine makes no others.\<close>

definition same_standing :: "conn \<Rightarrow> conn \<Rightarrow> bool" where
  "same_standing c c' \<longleftrightarrow> cn_hello c' = cn_hello c \<and> se_onReady (cn_session c') = se_onReady (cn_session c) \<and>
     se_deviceID (cn_session c') = se_deviceID (cn_session c) \<and> se_result (cn_session c') = se_result (cn_session c) \<and>
     set (se_out (cn_session c)) \<subseteq> set (se_out (cn_session c'))"

inductive control_move :: "session_ref \<Rightarrow> 'd process \<Rightarrow> 'd process \<Rightarrow> bool" for ref x where
  none: "control_move ref x x"
| fresh: "pc_conns x ref = None \<Longrightarrow> c' = \<lparr>cn_session = NewSession [], cn_hello = None\<rparr> \<Longrightarrow>
    control_move ref x \<lparr>pc_server = pc_server x, pc_conns = (pc_conns x)(ref \<mapsto> c')\<rparr>"
| stay: "pc_conns x ref = Some c \<Longrightarrow> same_standing c c' \<Longrightarrow> ms = [] \<or> se_onReady (cn_session c) \<noteq> [] \<Longrightarrow>
    control_move ref x \<lparr>pc_server = run_onMsg ms (pc_server x), pc_conns = (pc_conns x)(ref \<mapsto> c')\<rparr>"
| refused: "pc_conns x ref = Some c \<Longrightarrow> cn_hello c = None \<Longrightarrow> cn_hello c' = None \<Longrightarrow>
    se_onReady (cn_session c') = [] \<Longrightarrow> se_deviceID (cn_session c') = '''' \<Longrightarrow> se_result (cn_session c') \<noteq> None \<Longrightarrow>
    control_move ref x \<lparr>pc_server = pc_server x, pc_conns = (pc_conns x)(ref \<mapsto> c')\<rparr>"
| welcomed: "pc_conns x ref = Some c \<Longrightarrow> cn_hello c = None \<Longrightarrow> cn_hello c' = Some h \<Longrightarrow>
    se_onReady (cn_session c) = [] \<Longrightarrow> se_onReady (cn_session c') = [] \<Longrightarrow> se_result (cn_session c') = None \<Longrightarrow>
    sv_Authenticate nil_blob now (hl_DeviceID h) (hl_Credential h) (pc_server x) = (None, s') \<Longrightarrow>
    control_move ref x \<lparr>pc_server = s', pc_conns = (pc_conns x)(ref \<mapsto> c')\<rparr>"
| joined: "pc_conns x ref = Some c \<Longrightarrow> awaits_ack c h \<Longrightarrow> cn_hello c' = Some h \<Longrightarrow>
    se_onReady (cn_session c') \<noteq> [] \<Longrightarrow> se_result (cn_session c') = None \<Longrightarrow>
    se_deviceID (cn_session c') = hl_DeviceID h \<Longrightarrow> HelloAck i (hl_DeviceID h) t \<in> set (se_out (cn_session c')) \<Longrightarrow>
    control_move ref x
      \<lparr>pc_server = sv_OnReady ref (hl_DeviceID h) (pc_server x), pc_conns = (pc_conns x)(ref \<mapsto> c')\<rparr>"
| lost: "pc_conns x ref = Some c \<Longrightarrow> awaits_ack c h \<Longrightarrow> cn_hello c' = Some h \<Longrightarrow>
    se_onReady (cn_session c') = [] \<Longrightarrow> se_result (cn_session c') \<noteq> None \<Longrightarrow>
    control_move ref x \<lparr>pc_server = pc_server x, pc_conns = (pc_conns x)(ref \<mapsto> c')\<rparr>"
| ended: "pc_conns x ref = Some c \<Longrightarrow> cn_hello c = Some h \<Longrightarrow> cn_hello c' = Some h \<Longrightarrow>
    se_onReady (cn_session c) \<noteq> [] \<Longrightarrow> se_onReady (cn_session c') = se_onReady (cn_session c) \<Longrightarrow>
    se_result (cn_session c) = None \<Longrightarrow> se_result (cn_session c') \<noteq> None \<Longrightarrow>
    se_deviceID (cn_session c') = hl_DeviceID h \<Longrightarrow> set (se_out (cn_session c)) \<subseteq> set (se_out (cn_session c')) \<Longrightarrow>
    control_move ref x
      \<lparr>pc_server = sv_OnClose order clk ref (hl_DeviceID h) (pc_server x), pc_conns = (pc_conns x)(ref \<mapsto> c')\<rparr>"

lemma invD:
  assumes "process_inv cfg x" and "pc_conns x ref = Some c"
  shows "conn_ok (pc_server x) c"
    and "mg_sessions (sv_ctrl (pc_server x)) dev = Some ref \<Longrightarrow> dev \<noteq> '''' \<and> announced dev c"
  using assms unfolding process_inv_def by force+

lemma hello_move:
  assumes "process_inv cfg x"
  shows "control_move ref x (conn_hello parse write nil_blob now order clk ref x)"
proof (cases "pc_conns x ref")
  case None
  then show ?thesis by (simp add: conn_hello_def control_move.none)
next
  case (Some c)
  show ?thesis
  proof (cases "cn_hello c \<noteq> None \<or> se_result (cn_session c) \<noteq> None")
    case True
    then show ?thesis by (simp add: conn_hello_def Some control_move.none)
  next
    case False
    then have c: "cn_hello c = None" "se_result (cn_session c) = None" by auto
    with invD(1) [OF assms Some] have idle: "se_deviceID (cn_session c) = ''''" "se_onReady (cn_session c) = []"
      by (simp_all add: conn_ok_def)
    have close: "sv_OnClose order clk ref '''' (pc_server x) = pc_server x"
      using invD(2) [OF assms Some, of "''''"] by (intro OnClose_stale) blast
    obtain r se where hello: "run_hello parse (cn_session c) = (r, se)" by force
    note F = run_hello_frame [OF hello c(2)]
    show ?thesis
    proof (cases r)
      case None
      have x': "conn_hello parse write nil_blob now order clk ref x =
          \<lparr>pc_server = conn_callbacks order clk ref (cn_session c) se (pc_server x),
           pc_conns = (pc_conns x)(ref \<mapsto> c\<lparr>cn_session := se\<rparr>)\<rparr>"
        using Some c hello None by (simp add: conn_hello_def)
      have "conn_callbacks order clk ref (cn_session c) se (pc_server x) = pc_server x"
        using F idle close by (auto simp: conn_callbacks_def)
      then show ?thesis
        unfolding x' using control_move.refused [OF Some c(1), of "c\<lparr>cn_session := se\<rparr>"] F idle c
          control_move.stay [OF Some, of "c\<lparr>cn_session := se\<rparr>" "[]"]
        by (cases "se_result se") (simp_all add: same_standing_def)
    next
      case (Some h)
      obtain e s1 where auth: "sv_Authenticate nil_blob now (hl_DeviceID h) (hl_Credential h) (pc_server x) = (e, s1)"
        by force
      obtain ok se1 where ra: "run_auth write (Some (\<lambda>_ _. e)) h se = (ok, se1)" by force
      have x': "conn_hello parse write nil_blob now order clk ref x =
          \<lparr>pc_server = conn_callbacks order clk ref (cn_session c) se1 s1,
           pc_conns = (pc_conns x)(ref \<mapsto> \<lparr>cn_session = se1, cn_hello = (if ok then Some h else None)\<rparr>)\<rparr>"
        using \<open>pc_conns x ref = Some c\<close> c hello Some auth ra by (simp add: conn_hello_def)
      note R = run_auth_frame [OF ra]
      show ?thesis
      proof (cases ok)
        case True
        with R have "e = None" "se1 = se" by auto
        moreover have "conn_callbacks order clk ref (cn_session c) se s1 = s1"
          using F Some by (auto simp: conn_callbacks_def)
        ultimately show ?thesis
          unfolding x' using control_move.welcomed [OF \<open>pc_conns x ref = Some c\<close> c(1), of "\<lparr>cn_session = se, cn_hello = Some h\<rparr>" h]
            auth True F Some idle by simp
      next
        case False
        with R auth Authenticate_control [OF auth] have "s1 = pc_server x" by (auto split: if_splits)
        moreover have "conn_callbacks order clk ref (cn_session c) se1 (pc_server x) = pc_server x"
          using F R False Some idle close by (auto simp: conn_callbacks_def)
        ultimately show ?thesis
          unfolding x' using control_move.refused [OF \<open>pc_conns x ref = Some c\<close> c(1), of "\<lparr>cn_session = se1, cn_hello = None\<rparr>"]
            False F R Some idle by auto
      qed
    qed
  qed
qed

lemma ack_effect:
  assumes "process_inv cfg x" and "pc_conns x ref = Some c" and "awaits_ack c h"
  shows "\<exists>se. se = run_ack write (newSessionID rnd) nowMs h (cn_session c) \<and>
    conn_ack write rnd nowMs order clk ref x =
      \<lparr>pc_server = (if write (HelloAck (newSessionID rnd) (hl_DeviceID h) nowMs) = None
                    then sv_OnReady ref (hl_DeviceID h) (pc_server x) else pc_server x),
       pc_conns = (pc_conns x)(ref \<mapsto> c\<lparr>cn_session := se\<rparr>)\<rparr>"
proof -
  have se: "se_result (cn_session c) = None" "se_onReady (cn_session c) = []" "cn_hello c = Some h"
    using assms(3) by (simp_all add: awaits_ack_def)
  have close: "sv_OnClose order clk ref dev (pc_server x) = pc_server x" for dev
    using invD(2) [OF assms(1,2), of dev] se(2) by (intro OnClose_stale) (auto simp: announced_def)
  have "conn_callbacks order clk ref (cn_session c) (run_ack write (newSessionID rnd) nowMs h (cn_session c)) (pc_server x) =
      (if write (HelloAck (newSessionID rnd) (hl_DeviceID h) nowMs) = None then sv_OnReady ref (hl_DeviceID h) (pc_server x)
       else pc_server x)"
    using run_ack_frame [OF refl se(1), of "write" "newSessionID rnd" nowMs h] close
    by (auto simp: conn_callbacks_def split: if_splits)
  then show ?thesis using assms(3) by (simp add: conn_ack_def assms(2) se Let_def)
qed

lemma ack_move:
  assumes "process_inv cfg x"
  shows "control_move ref x (conn_ack write rnd nowMs order clk ref x)"
proof (cases "\<exists>c h. pc_conns x ref = Some c \<and> awaits_ack c h")
  case True
  then obtain c h where c: "pc_conns x ref = Some c" and h: "awaits_ack c h" by blast
  then have se: "se_result (cn_session c) = None" "se_onReady (cn_session c) = []" "cn_hello c = Some h"
    by (simp_all add: awaits_ack_def)
  let ?se = "run_ack write (newSessionID rnd) nowMs h (cn_session c)"
  note F = run_ack_frame [OF refl se(1), of "write" "newSessionID rnd" nowMs h]
  note x' = ack_effect [OF assms c h, of "write" rnd nowMs order clk, simplified]
  show ?thesis
  proof (cases "write (HelloAck (newSessionID rnd) (hl_DeviceID h) nowMs)")
    case None
    then show ?thesis
      unfolding x' using control_move.joined [OF c h, of "c\<lparr>cn_session := ?se\<rparr>" "newSessionID rnd" nowMs] F se by simp
  next
    case (Some e)
    then show ?thesis
      unfolding x' using control_move.lost [OF c h, of "c\<lparr>cn_session := ?se\<rparr>"] F se by simp
  qed
next
  case False
  then have "conn_ack write rnd nowMs order clk ref x = x"
    by (auto simp: conn_ack_def split: option.split)
  then show ?thesis by (simp add: control_move.none)
qed

lemma event_move:
  assumes "process_inv cfg x"
  shows "control_move ref x (conn_event parse write order clk ref e x)"
proof (cases "\<exists>c. pc_conns x ref = Some c \<and> se_onReady (cn_session c) \<noteq> []")
  case True
  then obtain c where c: "pc_conns x ref = Some c" and ready: "se_onReady (cn_session c) \<noteq> []" by blast
  with invD(1) [OF assms c] obtain h where h: "cn_hello c = Some h" "se_deviceID (cn_session c) = hl_DeviceID h"
    by (cases "cn_hello c") (auto simp: conn_ok_def)
  obtain se where step: "session_step parse write (cn_session c) e = se" by blast
  note F = session_step_frame [OF step]
  obtain ms where ms: "se_onMsg se = se_onMsg (cn_session c) @ ms" using F by blast
  have x': "conn_event parse write order clk ref e x =
      \<lparr>pc_server = conn_callbacks order clk ref (cn_session c) se (pc_server x),
       pc_conns = (pc_conns x)(ref \<mapsto> c\<lparr>cn_session := se\<rparr>)\<rparr>"
    using ready step by (simp add: conn_event_def c Let_def)
  show ?thesis
  proof (cases "se_onClose se = se_onClose (cn_session c)")
    case True
    then have res: "se_result se = se_result (cn_session c)" using F by auto
    have "conn_callbacks order clk ref (cn_session c) se (pc_server x) = run_onMsg ms (pc_server x)"
      using F True ms by (simp add: conn_callbacks_def)
    then show ?thesis
      unfolding x' using control_move.stay [OF c, of "c\<lparr>cn_session := se\<rparr>" ms] F res ready
      by (simp add: same_standing_def)
  next
    case False
    then have E: "se_result (cn_session c) = None" "se_result se \<noteq> None" "se_onMsg se = se_onMsg (cn_session c)"
      "se_onClose se = se_onClose (cn_session c) @ [hl_DeviceID h]"
      using F h(2) by auto
    then have "conn_callbacks order clk ref (cn_session c) se (pc_server x) =
        sv_OnClose order clk ref (hl_DeviceID h) (pc_server x)"
      using F by (simp add: conn_callbacks_def)
    then show ?thesis
      unfolding x' using control_move.ended [OF c h(1), of "c\<lparr>cn_session := se\<rparr>"] E F h ready by simp
  qed
next
  case False
  then have "conn_event parse write order clk ref e x = x"
    by (auto simp: conn_event_def split: option.split)
  then show ?thesis by (simp add: control_move.none)
qed

lemma conn_step_move:
  assumes "conn_step ref x x'" and "process_inv cfg x"
  shows "control_move ref x x'"
  using assms(1)
proof cases
  case accept
  then show ?thesis using control_move.fresh [OF accept(2) refl] by (cases x) (simp add: conn_accept_def)
next
  case (input rd)
  show ?thesis
  proof (cases "pc_conns x ref")
    case None
    then show ?thesis by (simp add: input conn_input_def control_move.none)
  next
    case (Some c)
    have "conn_input ref rd x = \<lparr>pc_server = run_onMsg [] (pc_server x), pc_conns = (pc_conns x)(ref \<mapsto>
        c\<lparr>cn_session := (cn_session c)\<lparr>se_reads := se_reads (cn_session c) @ [rd]\<rparr>\<rparr>)\<rparr>"
      by (simp add: conn_input_def Some)
    moreover have "same_standing c (c\<lparr>cn_session := (cn_session c)\<lparr>se_reads := se_reads (cn_session c) @ [rd]\<rparr>\<rparr>)"
      by (simp add: same_standing_def)
    ultimately show ?thesis using control_move.stay [OF Some, of _ "[]"] input by simp
  qed
qed (use assms(2) in \<open>simp_all add: hello_move ack_move event_move\<close>)

section \<open>The invariant holds\<close>

lemma announced_update:
  assumes "process_inv cfg x" and "pc_conns x ref = Some c" and "mg_sessions (sv_ctrl (pc_server x)) dev = Some r"
    and "announced dev c \<Longrightarrow> announced dev c'"
  shows "r \<noteq> ref \<and> mg_sessions (sv_ctrl (pc_server x)) dev = Some r \<or> r = ref \<and> dev \<noteq> '''' \<and> announced dev c'"
  using invD(2) [OF assms(1,2), of dev] assms(3,4) by (cases "r = ref") auto

lemma control_move_inv:
  assumes "control_move ref x x'" and "process_inv cfg x"
  shows "process_inv cfg x'"
  using assms(1)
proof cases
  case none
  with assms(2) show ?thesis by simp
next
  case (fresh c')
  have "mg_sessions (sv_ctrl (pc_server x)) dev \<noteq> Some ref" for dev
    using assms(2) fresh(2) unfolding process_inv_def by force
  then show ?thesis
    unfolding fresh(1) using fresh(3) assms(2)
    by (intro process_inv_update) (auto simp: conn_ok_def NewSession_def)
next
  case (stay c c' ms)
  have "conn_ok (pc_server x) c'"
    using invD(1) [OF assms(2) stay(2)] stay(3) by (auto simp: conn_ok_def same_standing_def split: option.splits)
  then have "conn_ok (run_onMsg ms (pc_server x)) c'" by (rule conn_ok_mono) simp_all
  moreover have "announced dev c \<Longrightarrow> announced dev c'" for dev
    using stay(3) by (auto simp: announced_def same_standing_def)
  note announced_update [OF assms(2) stay(2) _ this]
  ultimately show ?thesis
    unfolding stay(1) by (intro process_inv_update [OF assms(2)]) simp_all
next
  case (refused c c')
  have "\<not> announced dev c" for dev using refused(3) by (simp add: announced_def)
  then show ?thesis
    unfolding refused(1) using refused announced_update [OF assms(2) refused(2)]
    by (intro process_inv_update [OF assms(2)]) (auto simp: conn_ok_def)
next
  case (welcomed c c' h nil_blob now s')
  have A: "cf_DeviceCredential (sv_cfg (pc_server x)) \<in> {'''', hl_Credential h}" "sv_cfg s' = sv_cfg (pc_server x)"
    "sv_ctrl s' = sv_ctrl (pc_server x)" "dom (dr_devices (sv_device s')) = insert (hl_DeviceID h) (dom (dr_devices (sv_device (pc_server x))))"
    using Authenticate_control [OF welcomed(8)] by simp_all
  have "\<not> announced dev c" for dev using welcomed(3) by (simp add: announced_def)
  then show ?thesis
    unfolding welcomed(1) using A welcomed announced_update [OF assms(2) welcomed(2)]
    by (intro process_inv_update [OF assms(2)]) (auto simp: conn_ok_def)
next
  case (joined c h c' i t)
  have "conn_ok (pc_server x) c'"
    using invD(1) [OF assms(2) joined(2)] joined(3-8) by (auto simp: conn_ok_def awaits_ack_def)
  then have ok: "conn_ok (sv_OnReady ref (hl_DeviceID h) (pc_server x)) c'" by (rule conn_ok_mono) simp_all
  have old: "\<not> announced dev c" for dev using joined(3) by (simp add: announced_def awaits_ack_def)
  have new: "announced (hl_DeviceID h) c'" using joined by (simp add: announced_def)
  show ?thesis
  proof (cases "hl_DeviceID h = ''''")
    case True
    then show ?thesis
      unfolding joined(1) using ok old announced_update [OF assms(2) joined(2)]
      by (intro process_inv_update [OF assms(2)]) (auto simp: joined)
  next
    case False
    then show ?thesis
      unfolding joined(1) using ok old new announced_update [OF assms(2) joined(2)]
      by (intro process_inv_update [OF assms(2)]) (auto simp: joined split: if_splits)
  qed
next
  case (lost c h c')
  have "conn_ok (pc_server x) c'"
    using invD(1) [OF assms(2) lost(2)] lost(3-5) by (auto simp: conn_ok_def awaits_ack_def)
  moreover have "\<not> announced dev c" for dev using lost(3) by (simp add: announced_def awaits_ack_def)
  ultimately show ?thesis
    unfolding lost(1) using announced_update [OF assms(2) lost(2)]
    by (intro process_inv_update [OF assms(2)]) auto
next
  case (ended c h c' order clk)
  have ok: "conn_ok (pc_server x) c'"
    using invD(1) [OF assms(2) ended(2)] ended by (auto simp: conn_ok_def)
  show ?thesis
  proof (cases "mg_sessions (sv_ctrl (pc_server x)) (hl_DeviceID h) = Some ref")
    case True
    then have dev: "hl_DeviceID h \<noteq> ''''" using invD(2) [OF assms(2) ended(2)] by blast
    note C = OnClose_control [OF True dev, of order clk]
    have "conn_ok (sv_OnClose order clk ref (hl_DeviceID h) (pc_server x)) c'"
      using C by (intro conn_ok_mono [OF ok]) (simp_all add: dr_SetOffline_def)
    moreover have "d = hl_DeviceID h" if "mg_sessions (sv_ctrl (pc_server x)) d = Some ref" for d
      using invD(2) [OF assms(2) ended(2) that] ended(3) by (simp add: announced_def)
    ultimately show ?thesis
      unfolding ended(1) using C by (intro process_inv_update [OF assms(2)]) (auto simp: dr_SetOffline_def split: if_splits)
  next
    case False
    have "mg_sessions (sv_ctrl (pc_server x)) d \<noteq> Some ref" for d
      using invD(2) [OF assms(2) ended(2), of d] ended(3) False by (auto simp: announced_def)
    then show ?thesis
      unfolding ended(1) OnClose_stale [OF False] using ok
      by (intro process_inv_update [OF assms(2)]) auto
  qed
qed

lemma process_step_inv:
  assumes "process_step decode good e x x'" and "process_inv cfg x"
  shows "process_inv cfg x'"
  using assms(1)
proof cases
  case (conn ref)
  then show ?thesis using control_move_inv [OF conn_step_move [OF conn(2) assms(2)] assms(2)] by simp
next
  case (inner e s')
  note F = inner_step [OF inner(3,4)]
  have "conn_ok (pc_server x) c \<Longrightarrow> conn_ok s' c" for c by (erule conn_ok_mono) (simp_all add: F)
  with assms(2) F show ?thesis unfolding process_inv_def inner(2) by auto
qed

lemma Restore_control:
  "sv_cfg (snd (Restore o1 o2 s)) = sv_cfg s" "sv_ctrl (snd (Restore o1 o2 s)) = sv_ctrl s"
  "dr_online (sv_device (snd (Restore o1 o2 s))) = dr_online (sv_device s)"
proof -
  have rows: "control_of (snd (restore_streams rows s)) = control_of s" for rows and s :: "'a server"
  proof (induction rows arbitrary: s)
    case (Cons y rows)
    obtain sid row where y: "y = (sid, row)" by force
    show ?case
      unfolding y restore_streams.simps
      by (auto simp: Cons.IH aside split: prod.split option.split) (simp add: control_of_def)
  qed simp
  have devices: "sv_cfg (foldl restore_device s ds) = sv_cfg s \<and> sv_ctrl (foldl restore_device s ds) = sv_ctrl s \<and>
      dr_online (sv_device (foldl restore_device s ds)) = dr_online (sv_device s)" for ds and s :: "'a server"
    by (induction ds arbitrary: s) (simp_all add: restore_device_def dr_Register_def split: prod.split)
  show "sv_cfg (snd (Restore o1 o2 s)) = sv_cfg s" "sv_ctrl (snd (Restore o1 o2 s)) = sv_ctrl s"
    "dr_online (sv_device (snd (Restore o1 o2 s))) = dr_online (sv_device s)"
    using rows [unfolded control_eq] devices by (simp_all add: Restore_def Let_def)
qed

lemma process_boot_inv: "process_inv cfg (process_boot (snd (Restore o1 o2 (sv_New cfg db))))"
  by (simp add: process_inv_def process_boot_def Restore_control sv_New_def NewSessionManager_def)

lemma process_run_inv: "process_run decode good cfg db tr x \<Longrightarrow> process_inv cfg x"
  by (induction rule: process_run.induct) (simp_all add: process_boot_inv process_step_inv)

section \<open>The control plane implements the server's steps\<close>

lemma control_moves_server:
  assumes "control_move ref x x'" and "sv_run decode good cfg db tr (pc_server x)"
  shows "\<exists>es. set es \<subseteq> {Control, Other} \<and> sv_run decode good cfg db (tr @ es) (pc_server x')"
proof -
  have same: ?thesis if "pc_server x' = pc_server x"
    using assms(2) that by (intro exI [of _ "[]"]) simp
  have one: ?thesis if "sv_step decode good e (pc_server x) (pc_server x')" "e \<in> {Control, Other}" for e
    using sv_run.run_step [OF assms(2) that(1)] that(2) by (intro exI [of _ "[e]"]) auto
  from assms(1) show ?thesis
  proof cases
    case (stay c c' ms)
    have "sv_step decode good Other (pc_server x) (run_onMsg ms (pc_server x))"
      using sv_step.manager [OF run_onMsg_control(1)] by (metis run_onMsg_def run_onMsg_ctrl)
    then have "sv_step decode good Other (pc_server x) (pc_server x')" by (simp add: stay)
    then show ?thesis by (rule one) simp
  next
    case (welcomed c c' h nil_blob now s')
    have "sv_step decode good Control (pc_server x) (pc_server x')"
      using sv_step.auth [of decode good "pc_server x" nil_blob now "hl_DeviceID h" "hl_Credential h"] by (simp add: welcomed)
    then show ?thesis by (rule one) simp
  next
    case (joined c h c' i t)
    then have "sv_step decode good Control (pc_server x) (pc_server x')" by (simp add: sv_step.ready)
    then show ?thesis by (rule one) simp
  next
    case (ended c h c' order clk)
    then have "sv_step decode good Control (pc_server x) (pc_server x')" by (simp add: sv_step.closed)
    then show ?thesis by (rule one) simp
  qed (use same in simp_all)
qed

text \<open>The steps of starts, which the invariants over runs depend on.\<close>

definition start_event :: "sv_event \<Rightarrow> bool" where
  "start_event e \<longleftrightarrow> e \<notin> {Control, Other}"

lemma starting_filter: "starting (filter start_event tr) = starting tr"
proof -
  have "foldl track_start P (filter start_event tr) = foldl track_start P tr" for P
  proof (induction tr arbitrary: P)
    case (Cons e tr)
    then show ?case by (cases P; cases e) (simp_all add: start_event_def)
  qed simp
  then show ?thesis by (simp add: starting_def)
qed

fun inner_start :: "process_event \<Rightarrow> sv_event list" where
  "inner_start (Inner e) = (if start_event e then [e] else [])"
| "inner_start _ = []"

lemma control_label: "inner_start (conn_label ref x x') = []"
  by (simp add: conn_label_def split: option.split)


section \<open>Who gets in\<close>

text \<open>C3. A registered session is an authenticated one. In every reachable state of the process, the
  session filed for a device belongs to a connection that is still running, whose \<open>hello\<close> named this
  device and carried the configured credential (when there is one), which has been sent its
  acknowledgement, and the device is in the registry. So a command never goes to a connection that is
  gone, is another device's, or did not authenticate.\<close>

theorem sessions_are_authenticated:
  assumes "process_run decode good cfg db tr x" and "mg_sessions (sv_ctrl (pc_server x)) dev = Some ref"
  shows "\<exists>c h d. pc_conns x ref = Some c \<and> cn_hello c = Some h \<and> hl_DeviceID h = dev \<and> dev \<noteq> '''' \<and>
    cf_DeviceCredential cfg \<in> {'''', hl_Credential h} \<and> se_result (cn_session c) = None \<and>
    se_deviceID (cn_session c) = dev \<and> (\<exists>i ms. HelloAck i dev ms \<in> set (se_out (cn_session c))) \<and>
    dr_Get (sv_device (pc_server x)) dev = Inr d"
proof -
  note inv = process_run_inv [OF assms(1)]
  obtain c where c: "dev \<noteq> ''''" "pc_conns x ref = Some c" "announced dev c"
    using inv assms(2) unfolding process_inv_def by blast
  have "conn_ok (pc_server x) c" "sv_cfg (pc_server x) = cfg"
    using inv c(2) unfolding process_inv_def by blast+
  with c show ?thesis by (auto simp: announced_def conn_ok_def dr_Get_def)
qed

text \<open>C14. A peer without the credential changes nothing. Whatever a connection sends, however it is cut
  into reads and whenever it ends, a step of its goroutine changes the server only if the connection has
  by then presented a \<open>hello\<close> that carries the configured credential.\<close>

theorem unauthenticated_peer_is_inert:
  assumes "process_run decode good cfg db tr x" and "conn_step ref x x'" and "pc_server x' \<noteq> pc_server x"
  shows "\<exists>c h. pc_conns x' ref = Some c \<and> cn_hello c = Some h \<and> cf_DeviceCredential cfg \<in> {'''', hl_Credential h}"
proof -
  note inv = process_run_inv [OF assms(1)]
  have inv': "process_inv cfg x'" using control_move_inv [OF conn_step_move [OF assms(2) inv] inv] .
  have "\<exists>c h. pc_conns x' ref = Some c \<and> cn_hello c = Some h"
    using conn_step_move [OF assms(2) inv]
  proof cases
    case (stay c c' ms)
    with assms(3) have "se_onReady (cn_session c) \<noteq> []" by auto
    with invD(1) [OF inv stay(2)] obtain h where "cn_hello c = Some h" by (cases "cn_hello c") (auto simp: conn_ok_def)
    with stay show ?thesis by (simp add: same_standing_def)
  qed (use assms(3) in simp_all)
  then obtain c h where c: "pc_conns x' ref = Some c" "cn_hello c = Some h" by blast
  moreover have "conn_ok (pc_server x') c" "sv_cfg (pc_server x') = cfg"
    using inv' c(1) unfolding process_inv_def by blast+
  ultimately show ?thesis by (auto simp: conn_ok_def)
qed

section \<open>Presence\<close>

text \<open>The devices with a connection between authentication and registration; \<open>None\<close> once a device
  reconnected or lost its session meanwhile, or an acknowledgement could not be written.\<close>

fun track_presence :: "string set option \<Rightarrow> process_event \<Rightarrow> string set option" where
  "track_presence None e = None"
| "track_presence (Some P) (Welcomed dev) = (if dev \<in> P then None else Some (insert dev P))"
| "track_presence (Some P) (Joined dev) = (if dev \<in> P then Some (P - {dev}) else None)"
| "track_presence (Some P) (Lost dev) = None"
| "track_presence (Some P) (Left dev) = (if dev \<in> P then None else Some P)"
| "track_presence (Some P) Quiet = Some P"
| "track_presence (Some P) (Inner e) = Some P"

definition arriving :: "process_event list \<Rightarrow> string set option" where
  "arriving tr = foldl track_presence (Some {}) tr"

definition presence_inv :: "string set \<Rightarrow> 'd server \<Rightarrow> bool" where
  "presence_inv P s \<longleftrightarrow>
     (\<forall>dev. dev \<noteq> '''' \<longrightarrow> dr_Online (sv_device s) dev = (dev \<in> P \<or> mg_IsConnected (sv_ctrl s) dev))"

lemma presence_inv_same:
  assumes "presence_inv P s" and "dr_online (sv_device s') = dr_online (sv_device s)"
    and "mg_sessions (sv_ctrl s') = mg_sessions (sv_ctrl s)"
  shows "presence_inv P s'"
  using assms by (simp add: presence_inv_def dr_Online_def mg_IsConnected_def)

lemma control_move_presence:
  assumes "control_move ref x x'" and "process_inv cfg x" and "presence_inv P (pc_server x)"
    and "track_presence (Some P) (conn_label ref x x') = Some Q"
  shows "presence_inv Q (pc_server x')"
  using assms(1)
proof cases
  case none
  then have "conn_label ref x x' = Quiet" by (auto simp: conn_label_def split: option.split)
  with none assms(3,4) show ?thesis by simp
next
  case (fresh c')
  then have "conn_label ref x x' = Quiet" by (simp add: conn_label_def)
  with fresh assms(3,4) show ?thesis by simp
next
  case (stay c c' ms)
  then have "conn_label ref x x' = Quiet" by (auto simp: conn_label_def same_standing_def split: option.split)
  with assms(4) have "Q = P" by simp
  with assms(3) show ?thesis by (auto simp: stay intro: presence_inv_same)
next
  case (refused c c')
  then have "conn_label ref x x' = Quiet" by (simp add: conn_label_def)
  with refused assms(3,4) show ?thesis by simp
next
  case (welcomed c c' h nil_blob now s')
  then have "conn_label ref x x' = Welcomed (hl_DeviceID h)" by (simp add: conn_label_def)
  with assms(4) have "Q = insert (hl_DeviceID h) P" by (simp split: if_splits)
  then show ?thesis
    using assms(3) Authenticate_control [OF welcomed(8)]
    by (simp add: welcomed presence_inv_def dr_Online_def mg_IsConnected_def)
next
  case (joined c h c' i t)
  then have "conn_label ref x x' = Joined (hl_DeviceID h)" by (simp add: conn_label_def awaits_ack_def)
  with assms(4) have Q: "Q = P - {hl_DeviceID h}" "hl_DeviceID h \<in> P" by (simp_all split: if_splits)
  show ?thesis
  proof (cases "hl_DeviceID h = ''''")
    case True
    then show ?thesis using assms(3) Q by (simp add: joined presence_inv_def)
  next
    case False
    then show ?thesis using assms(3) Q by (auto simp: joined presence_inv_def mg_IsConnected_def)
  qed
next
  case (lost c h c')
  then have "conn_label ref x x' = Lost (hl_DeviceID h)" by (auto simp: conn_label_def awaits_ack_def)
  with assms(4) show ?thesis by simp
next
  case (ended c h c' order clk)
  show ?thesis
  proof (cases "mg_sessions (sv_ctrl (pc_server x)) (hl_DeviceID h) = Some ref")
    case True
    with ended have "conn_label ref x x' = Left (hl_DeviceID h)" by (auto simp: conn_label_def)
    with assms(4) have Q: "Q = P" "hl_DeviceID h \<notin> P" by (simp_all split: if_splits)
    have "hl_DeviceID h \<noteq> ''''" using invD(2) [OF assms(2) ended(2) True] by simp
    from OnClose_control [OF True this, of order clk] Q assms(3) show ?thesis
      by (simp add: ended presence_inv_def dr_Online_def mg_IsConnected_def dr_SetOffline_def)
  next
    case False
    with ended have "conn_label ref x x' = Quiet" by (auto simp: conn_label_def)
    with assms(3,4) show ?thesis by (simp add: ended OnClose_stale [OF False])
  qed
qed

text \<open>C15. A device is shown online exactly while it is connected. In every run in which no device
  reconnects, and no current session ends, between the authentication and the registration of a
  connection of the same device, and every acknowledgement is written, each device outside that window
  is online if and only if a session is registered for it, whatever else happens in between.\<close>

theorem presence_matches_sessions:
  assumes "process_run decode good cfg db tr x" and "arriving tr = Some P" and "dev \<noteq> ''''" and "dev \<notin> P"
  shows "dr_Online (sv_device (pc_server x)) dev = mg_IsConnected (sv_ctrl (pc_server x)) dev"
proof -
  have "presence_inv P (pc_server x)"
    using assms(1,2)
  proof (induction arbitrary: P)
    case (p_boot o1 o2)
    then show ?case
      by (simp add: arriving_def presence_inv_def process_boot_def Restore_control sv_New_def dr_New_def dr_Online_def
          mg_IsConnected_def NewSessionManager_def)
  next
    case (p_step tr x e x')
    from p_step.prems obtain R where R: "arriving tr = Some R" "track_presence (Some R) e = Some P"
      by (cases "arriving tr") (simp_all add: arriving_def)
    note inv = process_run_inv [OF p_step.hyps(1)] p_step.IH [OF R(1)]
    from p_step.hyps(2) show ?case
    proof cases
      case (conn ref)
      with R(2) show ?thesis using control_move_presence [OF conn_step_move [OF conn(2) inv(1)] inv] by simp
    next
      case (inner f s')
      with R(2) have "P = R" by simp
      with inv(2) inner_step [OF inner(3,4)] show ?thesis by (auto simp: inner intro: presence_inv_same)
    qed
  qed
  with assms(3,4) show ?thesis by (simp add: presence_inv_def)
qed

text \<open>Outside those runs presence goes wrong. A device that reconnects is set online by its
  authentication and registered after its acknowledgement: if its old connection ends in between, however
  it ends, the device is connected and shown offline from then on.\<close>

theorem reconnect_race_shows_offline:
  assumes "process_run decode good cfg db tr x" and "pc_conns x ref = Some c" and "awaits_ack c h"
    and "mg_sessions (sv_ctrl (pc_server x)) (hl_DeviceID h) = Some old" and "conn_step old x x1"
    and "pc_conns x1 old = Some o1" and "se_result (cn_session o1) \<noteq> None"
    and "write (HelloAck (newSessionID rnd) (hl_DeviceID h) t) = None" and "x2 = conn_ack write rnd t order clk ref x1"
  shows "mg_IsConnected (sv_ctrl (pc_server x2)) (hl_DeviceID h) \<and>
    mg_sessions (sv_ctrl (pc_server x2)) (hl_DeviceID h) = Some ref \<and>
    \<not> dr_Online (sv_device (pc_server x2)) (hl_DeviceID h)"
proof -
  note inv = process_run_inv [OF assms(1)]
  obtain co where co: "hl_DeviceID h \<noteq> ''''" "pc_conns x old = Some co" "announced (hl_DeviceID h) co"
    using inv assms(4) unfolding process_inv_def by blast
  then have "ref \<noteq> old" using assms(2,3) by (auto simp: announced_def awaits_ack_def)
  have "pc_conns x1 ref = Some c \<and> mg_sessions (sv_ctrl (pc_server x1)) (hl_DeviceID h) = None \<and>
      \<not> dr_Online (sv_device (pc_server x1)) (hl_DeviceID h)"
    using conn_step_move [OF assms(5) inv]
  proof cases
    case (ended k hk k' order' clk')
    with co have "hl_DeviceID hk = hl_DeviceID h" by (simp add: announced_def)
    with OnClose_control [OF assms(4) co(1), of order' clk'] show ?thesis
      using ended(1) \<open>ref \<noteq> old\<close> assms(2) by (simp add: dr_SetOffline_def dr_Online_def)
  qed (use co assms(6,7) in \<open>auto simp: announced_def same_standing_def awaits_ack_def\<close>)
  moreover have inv1: "process_inv cfg x1" using control_move_inv [OF conn_step_move [OF assms(5) inv] inv] .
  ultimately show ?thesis
    using ack_effect [OF inv1 _ assms(3), of ref "write" rnd t order clk] assms(8,9) co(1) by (auto simp: mg_IsConnected_def)
qed

text \<open>And the other way round: when the acknowledgement cannot be written, the connection is over
  before it was registered, nobody takes the device offline, and it is shown online without a
  connection.\<close>

theorem lost_ack_shows_online:
  assumes "process_run decode good cfg db tr x" and "pc_conns x ref = Some c" and "awaits_ack c h"
    and "write (HelloAck (newSessionID rnd) (hl_DeviceID h) t) = Some e" and "x' = conn_ack write rnd t order clk ref x"
  shows "pc_server x' = pc_server x \<and> (\<exists>d. pc_conns x' ref = Some d \<and> se_result (cn_session d) \<noteq> None) \<and>
    (\<forall>x1. conn_step ref x' x1 \<longrightarrow> pc_server x1 = pc_server x)"
proof -
  note inv = process_run_inv [OF assms(1)]
  note E = ack_effect [OF inv assms(2,3), of "write" rnd t order clk, simplified]
  let ?c = "c\<lparr>cn_session := run_ack write (newSessionID rnd) t h (cn_session c)\<rparr>"
  have x': "pc_server x' = pc_server x" "pc_conns x' ref = Some ?c" using E assms(4,5) by simp_all
  have c: "se_result (cn_session ?c) \<noteq> None" "se_onReady (cn_session ?c) = []" "cn_hello ?c = Some h"
    using run_ack_frame [OF refl, of "cn_session c" "write" "newSessionID rnd" t h] assms(3,4) by (auto simp: awaits_ack_def)
  have "pc_server x1 = pc_server x" if "conn_step ref x' x1" for x1
  proof -
    have "process_inv cfg x'" using control_move_inv [OF ack_move [OF inv] inv] by (simp add: assms(5))
    from conn_step_move [OF that this] show ?thesis
      by cases (use c x' in \<open>auto simp: awaits_ack_def\<close>)
  qed
  with x' c(1) show ?thesis by blast
qed

end
