(* ===== verification/Api.thy ===== *)
theory Api
  imports Server_Runtime
begin

text \<open>
  \<open>internal/api/api.go\<close>: the HTTP handlers, on the server itself (the code reaches it through the
  interface \<open>Server\<close>). A reply is its status and the Go value handed to \<open>writeJSON\<close>, before
  \<open>encoding/json\<close> renders it. \<open>decode\<close> is the text layer of \<open>json.Decoder\<close>: the first value of the
  body, if it is well formed. A handler that waits for a device has no reply (\<open>None\<close>) until then;
  its five seconds appear as the outcome \<open>CtxDone\<close> of the wait.
\<close>

section \<open>Requests and replies\<close>

datatype go_any =
    GStr string
  | GInt int
  | GU16 u16
  | GU64 u64
  | GFloat rat
  | GTime time
  | GErr goerr
  | GMap "(string \<times> go_any) list"
  | GList "go_any list"
  | GDevice device
  | GStreamInfo stream_info
  | GMessage message
  | GStats stopped_stats

text \<open>\<open>GTime\<close> is a time formatted as RFC 3339 in UTC, \<open>GErr\<close> the text of an error. The other
  kind of reply is \<open>http.ServeFile\<close> of a path, with the content type set before.\<close>

datatype http_reply =
    Json int go_any
  | ServeFile "string option" string

record http_request =
  rq_Method :: string
  rq_ID :: string
  rq_Body :: bytes

definition writeJSON :: "int \<Rightarrow> go_any \<Rightarrow> http_reply" where
  "writeJSON code body = Json code body"

definition error_body :: "string \<Rightarrow> go_any" where
  "error_body msg = GMap [(''error'', GStr msg)]"

definition error_text :: "goerr \<Rightarrow> go_any" where
  "error_text e = GMap [(''error'', GErr e)]"

section \<open>Routes\<close>

datatype endpoint =
    Health | Devices | Device | DeviceStatus | DeviceStart | DeviceConfig | StreamStop | StreamInfo
  | Streams | StreamStats | Recordings | Recording | RecordingDownload | DeviceRename | MetricsAll

datatype path_segment = Lit string | IdVar

definition routes :: "(string \<times> path_segment list \<times> endpoint) list" where
  "routes =
     [(''GET'', [Lit ''health''], Health),
      (''GET'', [Lit ''api'', Lit ''devices''], Devices),
      (''GET'', [Lit ''api'', Lit ''devices'', IdVar], Device),
      (''GET'', [Lit ''api'', Lit ''devices'', IdVar, Lit ''status''], DeviceStatus),
      (''POST'', [Lit ''api'', Lit ''devices'', IdVar, Lit ''stream''], DeviceStart),
      (''POST'', [Lit ''api'', Lit ''devices'', IdVar, Lit ''config''], DeviceConfig),
      (''DELETE'', [Lit ''api'', Lit ''streams'', IdVar], StreamStop),
      (''GET'', [Lit ''api'', Lit ''streams'', IdVar], StreamInfo),
      (''GET'', [Lit ''api'', Lit ''streams''], Streams),
      (''GET'', [Lit ''api'', Lit ''streams'', IdVar, Lit ''stats''], StreamStats),
      (''GET'', [Lit ''api'', Lit ''recordings''], Recordings),
      (''GET'', [Lit ''api'', Lit ''recordings'', IdVar], Recording),
      (''GET'', [Lit ''api'', Lit ''recordings'', IdVar, Lit ''download''], RecordingDownload),
      (''PATCH'', [Lit ''api'', Lit ''devices'', IdVar], DeviceRename),
      (''GET'', [Lit ''api'', Lit ''metrics''], MetricsAll)]"

text \<open>The handler \<open>ServeMux\<close> picks for a method and the segments of a path: a variable takes one
  segment, which is not empty; \<open>HEAD\<close> is served as \<open>GET\<close>.\<close>

fun match_path :: "path_segment list \<Rightarrow> string list \<Rightarrow> string list option" where
  "match_path [] [] = Some []"
| "match_path (Lit l # ps) (x # xs) = (if x = l then match_path ps xs else None)"
| "match_path (IdVar # ps) (x # xs) = (if x = '''' then None else map_option ((#) x) (match_path ps xs))"
| "match_path _ _ = None"

definition RegisterRoutes :: "string \<Rightarrow> string list \<Rightarrow> (endpoint \<times> string list) option" where
  "RegisterRoutes meth path =
     (case List.map_filter (\<lambda>(m, p, e). if m = meth \<or> m = ''GET'' \<and> meth = ''HEAD''
              then map_option (Pair e) (match_path p path) else None) routes of
        [] \<Rightarrow> None
      | r # rs \<Rightarrow> Some r)"

section \<open>Reading\<close>

definition handleHealth :: "string \<Rightarrow> string \<Rightarrow> string \<Rightarrow> http_reply" where
  "handleHealth version commit date =
     writeJSON 200 (GMap [(''status'', GStr ''ok''), (''version'', GStr version), (''commit'', GStr commit),
       (''date'', GStr date)])"

definition handleDevices :: "string list \<Rightarrow> 'd server \<Rightarrow> http_reply" where
  "handleDevices order s = writeJSON 200 (GList (map GDevice (DeviceList order s)))"

definition handleDevice :: "http_request \<Rightarrow> 'd server \<Rightarrow> http_reply" where
  "handleDevice r s =
     (if rq_ID r = '''' then writeJSON 400 (error_body ''missing id'')
      else case DeviceGet (rq_ID r) s of
          Inl e \<Rightarrow> writeJSON 404 (error_body ''device not found'')
        | Inr d \<Rightarrow> writeJSON 200 (GDevice d))"

definition handleStream :: "http_request \<Rightarrow> 'd server \<Rightarrow> http_reply" where
  "handleStream r s =
     (if rq_ID r = '''' then writeJSON 400 (error_body ''missing id'')
      else case Option.bind (case GetStream (rq_ID r) s of Inl e \<Rightarrow> None | Inr p \<Rightarrow> Some p) (sv_streamHeap s) of
          None \<Rightarrow> writeJSON 404 (error_body ''stream not found'')
        | Some st \<Rightarrow>
            (let (port, ok) = StreamPort (rq_ID r) s
             in writeJSON 200 (GMap [(''stream_id'', GStr (sm_StreamID st)), (''device_id'', GStr (sm_DeviceID st)),
                  (''state'', GStr (state_string (sm_state st))), (''port'', GU16 port),
                  (''started_at'', GTime (sm_StartedAt st))])))"

definition handleStreams :: "string list \<Rightarrow> 'd server \<Rightarrow> http_reply" where
  "handleStreams order s = writeJSON 200 (GList (map GStreamInfo (StreamList order s)))"

definition rtp_members :: "stats \<Rightarrow> (string \<times> go_any) list" where
  "rtp_members st =
     [(''packets_received'', GU64 (Received st)), (''packets_lost'', GU64 (Lost st)),
      (''packets_duplicate'', GU64 (Duplicate st)), (''packets_reordered'', GU64 (Reordered st)),
      (''packets_late'', GU64 (Late st)), (''jitter_ms'', GFloat (JitterMS st))]"

definition handleStreamStats ::
  "(bytes \<Rightarrow> json option) \<Rightarrow> http_request \<Rightarrow> 'd server \<Rightarrow> http_reply \<times> 'd server" where
  "handleStreamStats parse r s =
     (if rq_ID r = '''' then (writeJSON 400 (error_body ''missing id''), s)
      else case RTPStreamStats (rq_ID r) s of
          (st, False) \<Rightarrow> (writeJSON 404 (error_body ''stream not found''), s)
        | (st, True) \<Rightarrow>
            (case DeviceFinalStats parse (rq_ID r) s of
               (fin, s') \<Rightarrow>
                 (writeJSON 200 (GMap ((''stream_id'', GStr (rq_ID r)) # rtp_members st @ [(''rtp'', GMap (rtp_members st))] @
                    (case fin of Some f \<Rightarrow> [(''device_final'', GStats f)] | None \<Rightarrow> []))), s')))"

definition recording_map :: "string \<Rightarrow> recording_row \<Rightarrow> go_any" where
  "recording_map recID row =
     GMap ([(''recording_id'', GStr recID), (''stream_id'', GStr (rr_StreamID row)),
            (''sample_rate'', GInt (rr_SampleRate row)), (''channels'', GInt (rr_Channels row)),
            (''codec'', GStr (rr_Codec row)), (''bytes_stored'', GInt (rr_Bytes row)),
            (''start_time'', GTime (of_UnixMilli (rr_Start row)))] @
           (case rr_End row of Some t \<Rightarrow> [(''end_time'', GTime (of_UnixMilli t))] | None \<Rightarrow> []) @
           (case rr_Uri row of Some u \<Rightarrow> [(''uri'', GStr u)] | None \<Rightarrow> []))"

definition handleRecordings :: "string list \<Rightarrow> 'd server \<Rightarrow> http_reply" where
  "handleRecordings ids s = writeJSON 200 (GList (map (\<lambda>(k, row). recording_map k row) (ListRecordings ids s)))"

definition handleRecording :: "http_request \<Rightarrow> 'd server \<Rightarrow> http_reply" where
  "handleRecording r s =
     (if rq_ID r = '''' then writeJSON 400 (error_body ''missing id'')
      else case GetRecording (rq_ID r) s of
          Inl e \<Rightarrow> writeJSON 404 (error_body ''recording not found'')
        | Inr row \<Rightarrow> writeJSON 200 (recording_map (rq_ID r) row))"

definition HasSuffix :: "string \<Rightarrow> string \<Rightarrow> bool" where
  "HasSuffix s t \<longleftrightarrow> length t \<le> length s \<and> drop (length s - length t) s = t"

definition handleRecordingDownload :: "(string \<Rightarrow> bool) \<Rightarrow> http_request \<Rightarrow> 'd server \<Rightarrow> http_reply" where
  "handleRecordingDownload exists r s =
     (if rq_ID r = '''' then writeJSON 400 (error_body ''missing id'')
      else case DownloadRecording exists (rq_ID r) s of
          Inl e \<Rightarrow> writeJSON 404 (error_body ''recording not found'')
        | Inr path \<Rightarrow> ServeFile (if HasSuffix path ''.opus'' then Some ''audio/ogg'' else None) path)"

definition handleMetrics :: "'d server \<Rightarrow> http_reply" where
  "handleMetrics s = writeJSON 200 (GMap (map (\<lambda>(l, n). (l, GInt n)) (MetricsSurface s)))"


section \<open>Commands\<close>

text \<open>The body of \<open>handleStartStream\<close>. A \<open>null\<close> leaves a field at its zero.\<close>

definition into_recording :: "recording_config into" where
  "into_recording = into_struct (\<lambda>a ms. do {
     e \<leftarrow> into_member ''enabled'' into_bool (rg_Enabled a) ms;
     f \<leftarrow> into_member ''format'' into_string (rg_Format a) ms;
     Some \<lparr>rg_Enabled = e, rg_Format = f\<rparr> })"

definition decode_start :: "json \<Rightarrow> (string \<times> recording_config) option" where
  "decode_start = into_struct (\<lambda>a ms. do {
     p \<leftarrow> into_member ''purpose'' into_string (fst a) ms;
     r \<leftarrow> into_member ''recording'' into_recording (snd a) ms;
     Some (p, r) }) ('''', \<lparr>rg_Enabled = False, rg_Format = ''''\<rparr>)"

definition start_error :: "goerr \<Rightarrow> http_reply" where
  "start_error e =
     (if errors_is e ErrStreamNotFound \<or> errors_is e ErrIllegalTransition then writeJSON 409 (error_text e)
      else if errors_is e ErrNotConnected then writeJSON 404 (error_body ''device not connected'')
      else if errors_is e CtxDeadlineExceeded then writeJSON 504 (error_body ''device did not respond to start_stream'')
      else writeJSON 500 (error_text e))"

definition handleStartStream ::
  "(bytes \<Rightarrow> json option) \<Rightarrow> outside \<Rightarrow> (session_manager \<Rightarrow> session_manager) \<Rightarrow> ('d server \<Rightarrow> 'd server) \<Rightarrow>
     await_outcome \<Rightarrow> 'd \<Rightarrow> http_request \<Rightarrow> 'd server \<Rightarrow> http_reply option \<times> 'd server" where
  "handleStartStream decode ou during others oc dec r s =
     (if rq_Method r \<noteq> ''POST'' then (Some (writeJSON 405 (error_body ''method not allowed'')), s)
      else if rq_ID r = '''' then (Some (writeJSON 400 (error_body ''missing device id'')), s)
      else case Option.bind (decode (rq_Body r)) decode_start of
          None \<Rightarrow> (Some (writeJSON 400 (error_body ''invalid JSON body'')), s)
        | Some (purpose, rg) \<Rightarrow>
            if rg_Enabled rg \<and> rg_Format rg = ''flac''
            then (Some (writeJSON 400 (error_body ''FLAC format not supported; use WAV'')), s)
            else (case sv_StartStream ou during others oc dec (rq_ID r) rg s of
                (None, s') \<Rightarrow> (None, s')
              | (Some (Inl e), s') \<Rightarrow> (Some (start_error e), s')
              | (Some (Inr (sid, port, st)), s') \<Rightarrow>
                  (Some (writeJSON 200 (GMap [(''stream_id'', GStr sid), (''port'', GU16 port),
                     (''state'', GStr (state_string st))])), s')))"

definition stop_error :: "goerr \<Rightarrow> http_reply" where
  "stop_error e =
     (if errors_is e ErrStreamNotFound then writeJSON 404 (error_text e)
      else if errors_is e ErrIllegalTransition then writeJSON 409 (error_text e)
      else if errors_is e ErrNotConnected then writeJSON 404 (error_body ''device not connected'')
      else if errors_is e CtxDeadlineExceeded then writeJSON 504 (error_body ''device did not respond to stop_stream'')
      else writeJSON 500 (error_text e))"

definition handleStopStream ::
  "outside \<Rightarrow> (json \<Rightarrow> goerr + bytes) \<Rightarrow> (session_manager \<Rightarrow> session_manager) \<Rightarrow> ('d server \<Rightarrow> 'd server) \<Rightarrow>
     await_outcome \<Rightarrow> http_request \<Rightarrow> 'd server \<Rightarrow> http_reply option \<times> 'd server" where
  "handleStopStream ou marshal during others oc r s =
     (if rq_ID r = '''' then (Some (writeJSON 400 (error_body ''missing id'')), s)
      else case sv_StopStream ou marshal during others oc (rq_ID r) s of
          (None, s') \<Rightarrow> (None, s')
        | (Some (Some e), s') \<Rightarrow> (Some (stop_error e), s')
        | (Some None, s') \<Rightarrow>
            (Some (writeJSON 200 (GMap [(''stream_id'', GStr (rq_ID r)), (''state'', GStr ''stopped'')])), s'))"

definition handleDeviceStatus ::
  "outside \<Rightarrow> (session_manager \<Rightarrow> session_manager) \<Rightarrow> await_outcome \<Rightarrow> http_request \<Rightarrow> 'd server \<Rightarrow>
     http_reply option \<times> 'd server" where
  "handleDeviceStatus ou during oc r s =
     (if rq_Method r \<noteq> ''GET'' then (Some (writeJSON 405 (error_body ''method not allowed'')), s)
      else if rq_ID r = '''' then (Some (writeJSON 400 (error_body ''missing device id'')), s)
      else case GetDeviceStatus ou during oc (rq_ID r) s of
          (None, s') \<Rightarrow> (None, s')
        | (Some (Inr msg), s') \<Rightarrow> (Some (writeJSON 200 (GMessage msg)), s')
        | (Some (Inl e), s') \<Rightarrow>
            (Some (if errors_is e ErrNotConnected then writeJSON 404 (error_body ''device not connected'')
                   else if errors_is e CtxDeadlineExceeded
                   then writeJSON 504 (error_body ''device did not respond to get_status'')
                   else writeJSON 500 (error_text e)), s'))"

text \<open>\<open>newRequestID\<close> falls back to the clock when there are no random bytes. The \<open>type\<close> member of
  the body is overwritten, but it must be a string.\<close>

definition api_newRequestID :: "bytes option \<Rightarrow> time \<Rightarrow> string" where
  "api_newRequestID rnd now = (case rnd of None \<Rightarrow> ''cfg-'' @ Itoa now | Some b \<Rightarrow> ''cfg-'' @ hex b)"

definition decode_config :: "json \<Rightarrow> set_config option" where
  "decode_config v =
     (case v of
        JNull \<Rightarrow> Some (NewSetConfig '''')
      | JObj ms \<Rightarrow>
          (case (get FType into_string '''' ms, decode_set_config ms) of
             (Some t, Some (SetConfig c)) \<Rightarrow> Some c
           | _ \<Rightarrow> None)
      | _ \<Rightarrow> None)"

definition handleConfig ::
  "(bytes \<Rightarrow> json option) \<Rightarrow> string \<Rightarrow> (set_config \<Rightarrow> (string \<times> int option) list) \<Rightarrow>
     (session_manager \<Rightarrow> session_manager) \<Rightarrow> await_outcome \<Rightarrow> http_request \<Rightarrow> 'd server \<Rightarrow>
     http_reply option \<times> 'd server" where
  "handleConfig decode reqID pins during oc r s =
     (if rq_Method r \<noteq> ''POST'' then (Some (writeJSON 405 (error_body ''method not allowed'')), s)
      else if rq_ID r = '''' then (Some (writeJSON 400 (error_body ''missing device id'')), s)
      else case Option.bind (decode (rq_Body r)) decode_config of
          None \<Rightarrow> (Some (writeJSON 400 (error_body ''invalid JSON body'')), s)
        | Some req0 \<Rightarrow>
            (let req = req0\<lparr>sc_RequestID := reqID\<rparr>
             in case Validate (pins req) req of
                  Some e \<Rightarrow> (Some (writeJSON 400 (error_text e)), s)
                | None \<Rightarrow>
                    (case PushConfig during oc (pins req) (rq_ID r) req s of
                       (None, s') \<Rightarrow> (None, s')
                     | (Some (Inl e), s') \<Rightarrow>
                         (Some (if errors_is e ErrNotConnected then writeJSON 404 (error_body ''device not connected'')
                                else if errors_is e CtxDeadlineExceeded
                                then writeJSON 504 (error_body ''device did not respond'')
                                else writeJSON 500 (error_text e)), s')
                     | (Some (Inr (ErrorMsg em)), s') \<Rightarrow> (Some (writeJSON 502 (GMessage (ErrorMsg em))), s')
                     | (Some (Inr msg), s') \<Rightarrow> (Some (writeJSON 200 (GMessage msg)), s'))))"

section \<open>Renaming\<close>

text \<open>\<open>strings.TrimSpace\<close>: the UTF-8 encodings of Unicode's white space are cut at both ends.\<close>

definition spaces :: "string list" where
  "spaces =
     map (\<lambda>n. [char_of n]) [9, 10, 11, 12, 13, 32 :: nat] @
     map (map char_of) ([[194, 133], [194, 160], [225, 154, 128], [226, 128, 168], [226, 128, 169], [226, 128, 175],
       [226, 129, 159], [227, 128, 128]] @ map (\<lambda>n. [226, 128, n]) [128 ..< 139 :: nat])"

definition space_prefix :: "string list \<Rightarrow> string \<Rightarrow> nat" where
  "space_prefix sps s = (case find (\<lambda>sp. take (length sp) s = sp) sps of Some sp \<Rightarrow> length sp | None \<Rightarrow> 0)"

function trim_left :: "string list \<Rightarrow> string \<Rightarrow> string" where
  "trim_left sps s =
     (if space_prefix sps s = 0 \<or> s = [] then s else trim_left sps (drop (space_prefix sps s) s))"
  by pat_completeness auto
termination by (relation "measure (length \<circ> snd)") auto

declare trim_left.simps [simp del]

definition TrimSpace :: "string \<Rightarrow> string" where
  "TrimSpace s = rev (trim_left (map rev spaces) (rev (trim_left spaces s)))"

definition decode_rename :: "json \<Rightarrow> string option" where
  "decode_rename = into_struct (\<lambda>a ms. into_member ''display_name'' into_string a ms) ''''"

definition handleDeviceRename :: "(bytes \<Rightarrow> json option) \<Rightarrow> http_request \<Rightarrow> 'd server \<Rightarrow> http_reply \<times> 'd server" where
  "handleDeviceRename decode r s =
     (if rq_Method r \<noteq> ''PATCH'' \<and> rq_Method r \<noteq> ''POST'' then (writeJSON 405 (error_body ''method not allowed''), s)
      else if rq_ID r = '''' then (writeJSON 400 (error_body ''missing device id''), s)
      else case Option.bind (decode (rq_Body r)) decode_rename of
          None \<Rightarrow> (writeJSON 400 (error_body ''invalid JSON body''), s)
        | Some display \<Rightarrow>
            (let name = TrimSpace display
             in if name = '''' then (writeJSON 400 (error_body ''display_name cannot be empty''), s)
                else if length name > 64 then (writeJSON 400 (error_body ''display_name too long (max 64)''), s)
                else case SetDeviceDisplayName (rq_ID r) name s of
                    (Some e, s') \<Rightarrow>
                      (if errors_is e ErrDeviceNotFound then writeJSON 404 (error_body ''device not found'')
                       else writeJSON 500 (error_text e), s')
                  | (None, s') \<Rightarrow>
                      (writeJSON 200 (GMap [(''status'', GStr ''ok''), (''display_name'', GStr name)]), s')))"

end
