(* ===== verification/Server_Process.thy ===== *)
theory Server_Process
  imports Server_Control Api
begin

text \<open>
  The process around the server: \<open>New\<close>, \<open>Start\<close>, \<open>ControlAddr\<close> and \<open>Close\<close> of
  \<open>internal/server/server.go\<close>, \<open>Open\<close> of \<open>internal/persistence/db.go\<close>, and \<open>cmd/server/main.go\<close>.
  Sockets, certificates, the database driver and signals are parameters.
\<close>

section \<open>The server's own life\<close>

text \<open>\<open>en_ready\<close> is the channel \<open>controlLnReady\<close> being closed, \<open>en_cancelled\<close> the context of the
  server, \<open>en_loops\<close> that the goroutines of \<open>streamMonitor\<close> and \<open>controlLoop\<close> were started.\<close>

record listening_socket =
  ls_addr :: string
  ls_tls :: bool
  ls_open :: bool

record 'd entry =
  en_server :: "'d server"
  en_controlLn :: "listening_socket option"
  en_controlAddr :: string
  en_ready :: bool
  en_loops :: bool
  en_cancelled :: bool
  en_dbOpen :: bool

definition db_Open ::
  "(string \<Rightarrow> goerr + database) \<Rightarrow> (database \<Rightarrow> goerr option) \<Rightarrow> string \<Rightarrow> goerr + database" where
  "db_Open sqlOpen migrate path =
     (case sqlOpen path of
        Inl e \<Rightarrow> Inl e
      | Inr db \<Rightarrow> (case migrate db of Some e \<Rightarrow> Inl e | None \<Rightarrow> Inr db))"

definition en_New :: "(string \<Rightarrow> goerr + database) \<Rightarrow> config \<Rightarrow> goerr + 'd entry" where
  "en_New Open cfg =
     (case Open (cf_DBPath cfg) of
        Inl e \<Rightarrow> Inl e
      | Inr db \<Rightarrow> Inr \<lparr>en_server = sv_New cfg db, en_controlLn = None, en_controlAddr = '''', en_ready = False,
                      en_loops = False, en_cancelled = False, en_dbOpen = True\<rparr>)"

text \<open>\<open>ControlAddr\<close> blocks (\<open>None\<close>) until \<open>Start\<close> has published the address.\<close>

definition ControlAddr :: "'d entry \<Rightarrow> string option" where
  "ControlAddr en = (if en_ready en then Some (en_controlAddr en) else None)"

definition close_listener :: "'d entry \<Rightarrow> 'd entry" where
  "close_listener en = en\<lparr>en_controlLn := map_option (\<lambda>l. l\<lparr>ls_open := False\<rparr>) (en_controlLn en)\<rparr>"

definition uses_tls :: "config \<Rightarrow> bool" where
  "uses_tls cfg \<longleftrightarrow> cf_TLSCertFile cfg \<noteq> '''' \<and> cf_TLSKeyFile cfg \<noteq> ''''"

text \<open>\<open>Start\<close> up to its wait: the error it returns, if any. \<open>None\<close> is the panic of closing the ready
  channel twice.\<close>

definition start_control ::
  "(string \<Rightarrow> goerr + string) \<Rightarrow> (string \<Rightarrow> string \<Rightarrow> goerr option) \<Rightarrow> string list \<Rightarrow> string list \<Rightarrow> 'd entry \<Rightarrow>
     (goerr option \<times> 'd entry) option" where
  "start_control listen loadKeyPair devOrder streamOrder en =
     (let cfg = sv_cfg (en_server en) in
      case listen (cf_ControlAddr cfg) of
        Inl e \<Rightarrow> Some (Some e, en)
      | Inr addr \<Rightarrow>
          (let en1 = en\<lparr>en_controlLn := Some \<lparr>ls_addr = addr, ls_tls = False, ls_open = True\<rparr>\<rparr> in
           case (if uses_tls cfg then loadKeyPair (cf_TLSCertFile cfg) (cf_TLSKeyFile cfg) else None) of
             Some e \<Rightarrow> Some (Some e, close_listener en1)
           | None \<Rightarrow>
               if en_ready en then None
               else (let en2 = en1\<lparr>en_controlLn := Some \<lparr>ls_addr = addr, ls_tls = uses_tls cfg, ls_open = True\<rparr>,
                                   en_controlAddr := addr, en_ready := True\<rparr> in
                     case Restore devOrder streamOrder (en_server en2) of
                       (Some e, s) \<Rightarrow> Some (Some (Wrap ''restore'' e), close_listener (en2\<lparr>en_server := s\<rparr>))
                     | (None, s) \<Rightarrow> Some (None, en2\<lparr>en_server := s, en_loops := True\<rparr>))))"

text \<open>The end of \<open>Start\<close>, on a signal or when the server's context is done.\<close>

definition start_return :: "'d entry \<Rightarrow> 'd entry" where
  "start_return en = (close_listener en)\<lparr>en_cancelled := True\<rparr>"

text \<open>The accept loop of \<open>controlLoop\<close> hands out connections while its listener is open.\<close>

definition accepting :: "'d entry \<Rightarrow> bool" where
  "accepting en \<longleftrightarrow> en_loops en \<and> (\<exists>l. en_controlLn en = Some l \<and> ls_open l)"

text \<open>A tick of \<open>streamMonitor\<close>, unless its \<open>select\<close> takes the finished context.\<close>

definition monitor_pass ::
  "string list \<Rightarrow> string list \<Rightarrow> (string \<Rightarrow> nat \<Rightarrow> time) \<Rightarrow> bool \<Rightarrow> time \<Rightarrow> 'd entry \<Rightarrow> bool \<times> 'd entry" where
  "monitor_pass order1 order2 clk takeDone now en =
     (if en_cancelled en \<and> takeDone then (True, en)
      else (False, en\<lparr>en_server := monitor_tick order1 order2 clk now (en_server en)\<rparr>))"

text \<open>\<open>Close\<close>; the field \<open>httpServer\<close> is never set.\<close>

definition en_Close :: "goerr option \<Rightarrow> 'd entry \<Rightarrow> goerr option \<times> 'd entry" where
  "en_Close dbClose en = (dbClose, (close_listener (en\<lparr>en_cancelled := True\<rparr>))\<lparr>en_dbOpen := False\<rparr>)"

section \<open>main\<close>

datatype log_level = LevelDebug | LevelInfo

text \<open>\<open>strings.ToLower\<close> on ASCII: no other letter is lowered to one of the two words compared with, but
  for the dotted capital I, which makes a word the default takes as well.\<close>

definition parseLogLevel :: "string \<Rightarrow> log_level" where
  "parseLogLevel s =
     (if map lower s = ''debug'' then LevelDebug else if map lower s = ''info'' then LevelInfo else LevelInfo)"

text \<open>What the process serves on HTTP: the API, the live audio, and files for every other \<open>GET\<close>. A
  method no pattern has for the path is refused.\<close>

datatype http_target = ApiCall endpoint "string list" | LiveAudio | Asset "string list" | MethodNotAllowed

definition main_mux :: "string \<Rightarrow> string list \<Rightarrow> http_target" where
  "main_mux meth path =
     (case RegisterRoutes meth path of
        Some (e, ids) \<Rightarrow> ApiCall e ids
      | None \<Rightarrow>
          if meth = ''GET'' \<or> meth = ''HEAD'' then (if path = [''api'', ''live''] then LiveAudio else Asset path)
          else MethodNotAllowed)"

record 'd running =
  rn_level :: log_level
  rn_entry :: "'d entry"
  rn_version :: "string \<times> string \<times> string"
  rn_httpAddr :: string

text \<open>\<open>main\<close> up to its wait; \<open>Inl\<close> is \<open>log.Fatalf\<close>. An error of \<open>Start\<close> is only logged.\<close>

definition main_start ::
  "environ \<Rightarrow> string \<times> string \<times> string \<Rightarrow> (string \<Rightarrow> goerr + database) \<Rightarrow> (string \<Rightarrow> goerr + string) \<Rightarrow>
     (string \<Rightarrow> string \<Rightarrow> goerr option) \<Rightarrow> string list \<Rightarrow> string list \<Rightarrow> (goerr + 'd running) option" where
  "main_start env build Open listen loadKeyPair devOrder streamOrder =
     (let cfg = Load env in
      case en_New Open cfg of
        Inl e \<Rightarrow> Some (Inl (Wrap ''server'' e))
      | Inr en \<Rightarrow>
          map_option (\<lambda>(err, en'). Inr \<lparr>rn_level = parseLogLevel (cf_LogLevel cfg), rn_entry = en',
              rn_version = build, rn_httpAddr = cf_HTTPAddr cfg\<rparr>)
            (start_control listen loadKeyPair devOrder streamOrder en))"

definition main_stop :: "goerr option \<Rightarrow> goerr option \<Rightarrow> 'd running \<Rightarrow> 'd running" where
  "main_stop close1 close2 r =
     r\<lparr>rn_entry := snd (en_Close close2 (snd (en_Close close1 (start_return (rn_entry r)))))\<rparr>"

section \<open>Lemmas\<close>

text \<open>Restoring stops at no stream: a stream made for it is in CREATED, from where the transition is
  allowed.\<close>

lemma Restore_succeeds: "fst (Restore o1 o2 s) = None"
proof -
  have "fst (restore_streams rows s) = None" for rows and s :: "'a server"
  proof (induction rows arbitrary: s)
    case (Cons y rows)
    obtain sid row where y: "y = (sid, row)" by force
    show ?case using Cons by (simp add: y mark_new_stream)
  qed simp
  then show ?thesis by (simp add: Restore_def Let_def)
qed

text \<open>Two patterns that no path matches both: of different length, or different in a literal.\<close>

fun segments_differ :: "path_segment \<Rightarrow> path_segment \<Rightarrow> bool" where
  "segments_differ (Lit a) (Lit b) \<longleftrightarrow> a \<noteq> b"
| "segments_differ p q \<longleftrightarrow> False"

fun apart :: "path_segment list \<Rightarrow> path_segment list \<Rightarrow> bool" where
  "apart [] [] \<longleftrightarrow> False"
| "apart [] (q # qs) \<longleftrightarrow> True"
| "apart (p # ps) [] \<longleftrightarrow> True"
| "apart (p # ps) (q # qs) \<longleftrightarrow> segments_differ p q \<or> apart ps qs"

lemma apart_match: "apart p q \<Longrightarrow> match_path p path = Some ids \<Longrightarrow> match_path q path = None"
proof (induction p q arbitrary: path ids rule: apart.induct)
  case (4 p ps q qs)
  then show ?case by (cases path; cases p; cases q) (auto split: if_splits)
qed (auto elim: match_path.elims)

definition method_serves :: "string \<Rightarrow> string \<Rightarrow> bool" where
  "method_serves m meth \<longleftrightarrow> m = meth \<or> m = ''GET'' \<and> meth = ''HEAD''"

lemma routes_apart:
  "\<forall>(m, p, e)\<in>set routes. m \<noteq> ''HEAD'' \<and> (\<forall>(m', p', e')\<in>set routes. (m, p, e) = (m', p', e') \<or> m \<noteq> m' \<or> apart p p')"
  by code_simp

lemma map_filter_only:
  "x \<in> set xs \<Longrightarrow> f x = Some y \<Longrightarrow> \<forall>z\<in>set xs. z = x \<or> f z = None \<Longrightarrow>
    \<exists>ys. List.map_filter f xs = y # ys"
  by (induction xs) (auto simp: List.map_filter_simps split: option.split)

abbreviation serve :: "string \<Rightarrow> string list \<Rightarrow> string \<times> path_segment list \<times> endpoint \<Rightarrow> (endpoint \<times> string list) option" where
  "serve meth path \<equiv> \<lambda>(m, p, e). if m = meth \<or> m = ''GET'' \<and> meth = ''HEAD'' then map_option (Pair e) (match_path p path) else None"

lemma route_served:
  assumes "(m, p, e) \<in> set routes" and "method_serves m meth" and "match_path p path = Some ids"
  shows "RegisterRoutes meth path = Some (e, ids)"
proof -
  have others: "\<forall>z\<in>set routes. z = (m, p, e) \<or> serve meth path z = None"
  proof
    fix z
    assume that: "z \<in> set routes"
    obtain m' p' e' where z: "z = (m', p', e')" by (metis prod_cases3)
    note R = bspec [OF routes_apart assms(1), unfolded split_conv] and R' = bspec [OF routes_apart that [unfolded z], unfolded split_conv]
    have "m \<noteq> ''HEAD''" "m' \<noteq> ''HEAD''" by (rule conjunct1 [OF R], rule conjunct1 [OF R'])
    moreover have "(m, p, e) = (m', p', e') \<or> m \<noteq> m' \<or> apart p p'"
      using bspec [OF conjunct2 [OF R] that [unfolded z]] by simp
    ultimately show "z = (m, p, e) \<or> serve meth path z = None"
      using assms(2) apart_match [OF _ assms(3)] by (auto simp: z method_serves_def)
  qed
  have "serve meth path (m, p, e) = Some (e, ids)" using assms(2,3) by (auto simp: method_serves_def)
  from map_filter_only [OF assms(1) this others] show ?thesis by (auto simp: RegisterRoutes_def)
qed

lemma RegisterRoutes_route:
  assumes "RegisterRoutes meth path = Some (e, ids)"
  shows "\<exists>m p. (m, p, e) \<in> set routes \<and> method_serves m meth \<and> match_path p path = Some ids"
proof -
  obtain rs where "List.map_filter (serve meth path) routes = (e, ids) # rs"
    using assms by (auto simp: RegisterRoutes_def split: list.splits)
  then have "(e, ids) \<in> set (List.map_filter (serve meth path) routes)" by simp
  then show ?thesis by (auto simp: List.map_filter_def method_serves_def split: if_splits) blast+
qed

section \<open>Properties\<close>


text \<open>Requests are routed by their pattern, not by the order of registration. A request whose method
  and path a route of the API serves reaches that route with the values of its variables: no other route
  matches it as well, and neither the live audio nor the file server at the root takes it away. What no
  route serves is live audio or a file for \<open>GET\<close> and \<open>HEAD\<close>, and refused otherwise.\<close>

theorem requests_reach_their_route:
  "(main_mux meth path = ApiCall e ids \<longleftrightarrow>
      (\<exists>m p. (m, p, e) \<in> set routes \<and> method_serves m meth \<and> match_path p path = Some ids)) \<and>
    (main_mux meth path = LiveAudio \<longleftrightarrow> meth \<in> {''GET'', ''HEAD''} \<and> path = [''api'', ''live'']) \<and>
    (main_mux meth path = MethodNotAllowed \<longleftrightarrow> meth \<notin> {''GET'', ''HEAD''} \<and>
      \<not> (\<exists>m p e ids. (m, p, e) \<in> set routes \<and> method_serves m meth \<and> match_path p path = Some ids))"
proof -
  have served: "main_mux meth path = ApiCall e ids \<longleftrightarrow>
      (\<exists>m p. (m, p, e) \<in> set routes \<and> method_serves m meth \<and> match_path p path = Some ids)" for e ids
  proof -
    have "main_mux meth path = ApiCall e ids \<longleftrightarrow> RegisterRoutes meth path = Some (e, ids)"
      by (simp add: main_mux_def split: option.split)
    also have "\<dots> \<longleftrightarrow> (\<exists>m p. (m, p, e) \<in> set routes \<and> method_serves m meth \<and> match_path p path = Some ids)"
      by (blast intro: route_served dest: RegisterRoutes_route)
    finally show ?thesis .
  qed
  have "RegisterRoutes meth [''api'', ''live''] = None" if "meth \<in> {''GET'', ''HEAD''}"
    using that by (auto simp: RegisterRoutes_def routes_def List.map_filter_simps)
  then have "main_mux meth path = LiveAudio \<longleftrightarrow> meth \<in> {''GET'', ''HEAD''} \<and> path = [''api'', ''live'']"
    by (auto simp: main_mux_def split: option.split)
  moreover have "main_mux meth path = MethodNotAllowed \<longleftrightarrow> meth \<notin> {''GET'', ''HEAD''} \<and>
      \<not> (\<exists>e ids. main_mux meth path = ApiCall e ids)"
    by (auto simp: main_mux_def split: option.split)
  moreover have "(\<exists>e ids. main_mux meth path = ApiCall e ids) \<longleftrightarrow>
      (\<exists>m p e ids. (m, p, e) \<in> set routes \<and> method_serves m meth \<and> match_path p path = Some ids)"
    unfolding served by blast
  ultimately show ?thesis unfolding served by simp
qed

text \<open>The process \<open>main\<close> starts is the one the runs of the control plane are about: with a database that
  opens, it serves HTTP at the configured address, and when the control address can be bound as well its
  server is the start of a run; an error of \<open>Start\<close> leaves it serving HTTP without a control plane.\<close>

theorem main_boots_process:
  assumes "Open (cf_DBPath (Load env)) = Inr db"
    and "main_start env build Open listen loadKeyPair o1 o2 = Some res"
  shows "\<exists>r :: 'd running. res = Inr r \<and> rn_httpAddr r = cf_HTTPAddr (Load env) \<and>
    (\<forall>addr. listen (cf_ControlAddr (Load env)) = Inr addr \<longrightarrow> \<not> uses_tls (Load env) \<longrightarrow>
       accepting (rn_entry r) \<and> process_run decode good (Load env) db [] (process_boot (en_server (rn_entry r)))) \<and>
    (\<forall>e. listen (cf_ControlAddr (Load env)) = Inl e \<longrightarrow> \<not> accepting (rn_entry r))"
proof -
  let ?en = "\<lparr>en_server = sv_New (Load env) db :: 'd server, en_controlLn = None, en_controlAddr = '''', en_ready = False,
      en_loops = False, en_cancelled = False, en_dbOpen = True\<rparr>"
  have cfg: "sv_cfg (sv_New (Load env) db :: 'd server) = Load env" by (simp add: sv_New_def)
  obtain err en' where run: "start_control listen loadKeyPair o1 o2 ?en = Some (err, en')" and
    res: "res = Inr \<lparr>rn_level = parseLogLevel (cf_LogLevel (Load env)), rn_entry = en', rn_version = build,
      rn_httpAddr = cf_HTTPAddr (Load env)\<rparr>"
    using assms by (auto simp: main_start_def en_New_def Let_def)
  have boot: "process_run decode good (Load env) db [] (process_boot (snd (Restore o1 o2 (sv_New (Load env) db :: 'd server))))"
    by (rule process_run.p_boot)
  obtain s where s: "Restore o1 o2 (sv_New (Load env) db :: 'd server) = (None, s)"
    using Restore_succeeds by (metis prod.collapse)
  have up: "accepting en' \<and> en_server en' = s"
    if "listen (cf_ControlAddr (Load env)) = Inr addr" "\<not> uses_tls (Load env)" for addr
    using run that s by (auto simp: start_control_def cfg Let_def accepting_def)
  have down: "\<not> accepting en'" if "listen (cf_ControlAddr (Load env)) = Inl e" for e
    using run that by (auto simp: start_control_def cfg Let_def accepting_def)
  show ?thesis using up down boot by (auto simp: res s)
qed

section \<open>Witness\<close>


end
