(* ===== verification/Api_Replies.thy ===== *)
theory Api_Replies
  imports Api Server_Boot
begin

text \<open>
  What a client of the HTTP API can conclude from the replies.
\<close>

section \<open>Start and stop\<close>

text \<open>Errors that come from outside carry none of the server's own stream errors.\<close>

definition no_stream_error :: "goerr \<Rightarrow> bool" where
  "no_stream_error e \<longleftrightarrow> \<not> errors_is e ErrStreamNotFound \<and> \<not> errors_is e ErrIllegalTransition"

fun outcome_ok :: "await_outcome \<Rightarrow> bool" where
  "outcome_ok (SendFailed e) \<longleftrightarrow> no_stream_error e"
| "outcome_ok (CtxDone e) \<longleftrightarrow> no_stream_error e"
| "outcome_ok ReplyTaken \<longleftrightarrow> True"

lemma await_stream_errors:
  "await_stream during oc rid m = (Some (Inl e), m') \<Longrightarrow> outcome_ok oc \<Longrightarrow> no_stream_error e"
  by (cases oc) (auto simp: await_stream_def await_result_def fail_def Let_def no_stream_error_def
      split: if_splits option.splits)

lemma SendStartStream_errors:
  "SendStartStream during oc dev req m = (Some (Inl e), m') \<Longrightarrow> outcome_ok oc \<Longrightarrow> no_stream_error e"
  using await_stream_errors
  by (fastforce simp: SendStartStream_def fail_def no_stream_error_def split: option.splits if_splits)

lemma Bind_errors:
  "rc_Bind l sid pt tg port r = (Inl e, r') \<Longrightarrow> (\<And>a e. l a = Inl e \<Longrightarrow> no_stream_error e) \<Longrightarrow> no_stream_error e"
  by (auto simp: rc_Bind_def Let_def no_stream_error_def split: option.splits sum.splits)

lemma start_begin_errors:
  assumes "start_begin ou dev s = (Inl e, s')" and "\<And>a e. ou_listen ou a = Inl e \<Longrightarrow> no_stream_error e"
  shows "no_stream_error e"
  using assms
  by (auto simp: start_begin_defs no_stream_error_def dr_Get_def dest!: Bind_errors split: sum.splits prod.splits option.splits)

lemma start_finish_errors:
  "start_finish ou dec rg dev port p reply s = (Inl e, s') \<Longrightarrow> (\<And>x. reply = Inl x \<Longrightarrow> no_stream_error x) \<Longrightarrow> no_stream_error e"
  by (auto simp: start_finish_def stream_accepted_def Let_def no_stream_error_def split: sum.splits message.splits option.splits)


lemma StartStream_errors:
  assumes "sv_StartStream ou during others oc dec dev rg s = (Some (Inl e), s')"
    and "\<And>a e. ou_listen ou a = Inl e \<Longrightarrow> no_stream_error e" and "outcome_ok oc"
  shows "no_stream_error e"
proof (cases "start_begin ou dev s")
  case (Pair b s1)
  show ?thesis
  proof (cases b)
    case (Inl e1)
    with assms(1) Pair have "e = e1" by (simp add: sv_StartStream_def)
    with start_begin_errors [OF Pair [unfolded Inl] assms(2)] show ?thesis by simp
  next
    case (Inr x)
    obtain port p where x: "x = (port, p)" by force
    obtain reply m where send: "SendStartStream during oc dev
        (Some (start_request ou (newStreamID (ou_random ou 0)) port dev s1)) (sv_ctrl s1) = (reply, m)" by force
    with assms(1) Pair Inr x obtain msg where msg: "reply = Some msg"
        "start_finish ou dec rg dev port p msg ((others s1)\<lparr>sv_ctrl := m\<rparr>) = (Inl e, s')"
      by (cases reply) (auto simp: sv_StartStream_def split: prod.splits)
    have "no_stream_error y" if "msg = Inl y" for y
      using SendStartStream_errors [OF send [unfolded msg(1) that] assms(3)] .
    with start_finish_errors [OF msg(2)] show ?thesis by blast
  qed
qed

text \<open>The JSON object of an error reply.\<close>

fun reply_code :: "http_reply \<Rightarrow> int" where
  "reply_code (Json code body) = code"
| "reply_code (ServeFile ctype path) = 200"

lemma start_error_codes:
  "no_stream_error e \<Longrightarrow> reply_code (start_error e) \<in> {404, 500, 504}"
  by (auto simp: start_error_def no_stream_error_def writeJSON_def)

definition start_reply :: "start_result \<Rightarrow> http_reply" where
  "start_reply res =
     (case res of
        Inl e \<Rightarrow> start_error e
      | Inr (sid, port, st) \<Rightarrow>
          writeJSON 200 (GMap [(''stream_id'', GStr sid), (''port'', GU16 port), (''state'', GStr (state_string st))]))"

lemma start_reply_simps [simp]:
  "start_reply (Inl e) = start_error e"
  "start_reply (Inr (sid, port, st)) =
     Json 200 (GMap [(''stream_id'', GStr sid), (''port'', GU16 port), (''state'', GStr (state_string st))])"
  by (simp_all add: start_reply_def writeJSON_def)

lemma handleStartStream_eq:
  "handleStartStream decode ou during others oc dec r s =
     (if rq_Method r \<noteq> ''POST'' then (Some (writeJSON 405 (error_body ''method not allowed'')), s)
      else if rq_ID r = '''' then (Some (writeJSON 400 (error_body ''missing device id'')), s)
      else case Option.bind (decode (rq_Body r)) decode_start of
          None \<Rightarrow> (Some (writeJSON 400 (error_body ''invalid JSON body'')), s)
        | Some (purpose, rg) \<Rightarrow>
            if rg_Enabled rg \<and> rg_Format rg = ''flac''
            then (Some (writeJSON 400 (error_body ''FLAC format not supported; use WAV'')), s)
            else (case sv_StartStream ou during others oc dec (rq_ID r) rg s of
                (res, s') \<Rightarrow> (map_option start_reply res, s')))"
  unfolding handleStartStream_def start_reply_def
  by (intro if_cong option.case_cong prod.case_cong refl) (simp split: prod.split option.split sum.split)

lemma handleStartStream_cases:
  assumes "handleStartStream decode ou during others oc dec r s = (Some reply, s')"
  obtains (early) "s' = s" "reply_code reply \<in> {400, 405}"
  | (run) rg res where "sv_StartStream ou during others oc dec (rq_ID r) rg s = (Some res, s')" "reply = start_reply res"
proof -
  have code: "reply_code (writeJSON c b) = c" for c b by (simp add: writeJSON_def)
  show ?thesis
  proof (cases "rq_Method r \<noteq> ''POST'' \<or> rq_ID r = ''''")
    case True
    then show ?thesis
      using assms by (intro early) (auto simp: handleStartStream_eq code split: if_splits)
  next
    case False
    show ?thesis
    proof (cases "Option.bind (decode (rq_Body r)) decode_start")
      case None
      then show ?thesis using assms False by (intro early) (auto simp: handleStartStream_eq code)
    next
      case (Some x)
      obtain purpose rg where x: "x = (purpose, rg)" by force
      obtain res t where start: "sv_StartStream ou during others oc dec (rq_ID r) rg s = (res, t)" by force
      show ?thesis
      proof (cases "rg_Enabled rg \<and> rg_Format rg = ''flac''")
        case True
        then show ?thesis using assms False Some by (intro early) (auto simp: handleStartStream_eq code x)
      next
        case normal: False
        have m: "\<not> rq_Method r \<noteq> ''POST''" "rq_ID r \<noteq> ''''" using False by simp_all
        have "map_option start_reply res = Some reply" "t = s'"
          using assms unfolding handleStartStream_eq if_not_P [OF m(1)] if_not_P [OF m(2)] Some x option.case prod.case
            if_not_P [OF normal] start by simp_all
        then show ?thesis using run [of rg] start by auto
      qed
    qed
  qed
qed

lemma refused_codes:
  "c \<in> {400, 405} \<Longrightarrow> c \<noteq> 200 \<and> c \<in> {200, 400, 404, 405, 500, 504} \<and> c \<in> {400, 405, 500}" for c :: int
  by auto

lemma failed_codes:
  "c \<in> {404, 500, 504} \<Longrightarrow> c \<noteq> 200 \<and> c \<in> {200, 400, 404, 405, 500, 504} \<and> c \<notin> {400, 405}"
  "c = 500 \<Longrightarrow> c \<in> {400, 405, 500}" for c :: int
  by auto

text \<open>What the status of a start says. A request that is refused with 400 or 405 has changed nothing;
  200 means that a stream of the device was started and is waiting for packets; a device the server
  does not know gives 500, not 404; and the status 409 the handler provides for is never sent: no
  error of \<open>StartStream\<close> wraps one of the stream errors it is meant for. (Sockets and the wait for
  the device report none of those either.)\<close>

theorem start_reply_codes:
  assumes "handleStartStream decode ou during others oc dec r s = (Some reply, s')"
    and "\<And>a e. ou_listen ou a = Inl e \<Longrightarrow> no_stream_error e" and "outcome_ok oc"
  shows "reply_code reply \<in> {200, 400, 404, 405, 500, 504} \<and>
    (reply_code reply \<in> {400, 405} \<longrightarrow> s' = s) \<and>
    (reply_code reply = 200 \<longrightarrow> (\<exists>rg sid port st. sv_StartStream ou during others oc dec (rq_ID r) rg s =
        (Some (Inr (sid, port, st)), s') \<and>
      reply = Json 200 (GMap [(''stream_id'', GStr sid), (''port'', GU16 port), (''state'', GStr (state_string st))]))) \<and>
    (dr_Get (sv_device s) (rq_ID r) = Inl (Sentinel ErrDeviceNotFound) \<longrightarrow> reply_code reply \<in> {400, 405, 500} \<and> s' = s)"
proof -
  have unknown: "sv_StartStream ou during others oc dec dev rg s =
      (Some (Inl (Wrap ''device not found'' (Sentinel ErrDeviceNotFound))), s)"
    if "dr_Get (sv_device s) dev = Inl (Sentinel ErrDeviceNotFound)" for dev rg
    using that by (simp add: sv_StartStream_def start_begin_def start_lookup_def)
  have err: "reply_code (start_error (Wrap ''device not found'' (Sentinel ErrDeviceNotFound))) = 500"
    by (simp add: start_error_def writeJSON_def)
  from assms(1) show ?thesis
  proof (cases rule: handleStartStream_cases)
    case early
    then show ?thesis using refused_codes [OF early(2)] by blast
  next
    case (run rg res)
    show ?thesis
    proof (cases res)
      case (Inl e)
      then have "reply_code reply \<in> {404, 500, 504}"
        using run(2) start_error_codes [OF StartStream_errors [OF run(1) [unfolded Inl] assms(2,3)]] by simp
      moreover have "reply_code reply = 500 \<and> s' = s" if "dr_Get (sv_device s) (rq_ID r) = Inl (Sentinel ErrDeviceNotFound)"
        using unknown [OF that, of rg] run err by simp
      ultimately show ?thesis using failed_codes by blast
    next
      case (Inr y)
      obtain sid port st where y: "y = (sid, port, st)" by (metis prod_cases3)
      have "dr_Get (sv_device s) (rq_ID r) \<noteq> Inl (Sentinel ErrDeviceNotFound)"
        using unknown [of "rq_ID r" rg] run(1) Inr by auto
      with run Inr y show ?thesis by simp blast
    qed
  qed
qed

lemma SendStopStream_errors:
  "SendStopStream during oc dev req m = (Some (Inl e), m') \<Longrightarrow> outcome_ok oc \<Longrightarrow> no_stream_error e"
  using await_stream_errors
  by (fastforce simp: SendStopStream_def fail_def no_stream_error_def split: option.splits if_splits)

lemma stop_finish_effect:
  assumes "stop_finish ou marshal sid dev p reply s = (res, s')" and "sv_streamHeap s p = Some st"
    and "sm_state st = StateStopping" and "\<And>x. reply = Inl x \<Longrightarrow> no_stream_error x"
  shows "map_option sm_state (sv_streamHeap s' p) = Some StateComplete \<and> rc_streams (sv_rtp s') sid = None \<and>
    (\<forall>e. res = Some e \<longrightarrow> no_stream_error e)"
  using assms
  by (auto simp: stop_finish_def Let_def sm_Stopped_def finalizeRecorder_effect no_stream_error_def
      split: sum.splits message.splits)

lemma stop_error_codes: "no_stream_error e \<Longrightarrow> reply_code (stop_error e) \<in> {404, 500, 504}"
  by (auto simp: stop_error_def no_stream_error_def writeJSON_def)

text \<open>What the status of a stop says. 200 means the device confirmed, and the stream is COMPLETE; a
  stream that is not registered gives 404; a stream that is not ACTIVE gives 500 and nothing happens,
  although the handler has a 409 for illegal transitions: \<open>StopStream\<close> refuses it with a plain error.
  (The wait for the device reports no stream error.)\<close>

theorem stop_reply_codes:
  assumes "handleStopStream ou marshal during (\<lambda>s. s) oc r s = (Some reply, s')" and "rq_ID r \<noteq> ''''" and "outcome_ok oc"
  shows "case GetStream (rq_ID r) s of
      Inl e \<Rightarrow> reply_code reply = 404 \<and> s' = s
    | Inr p \<Rightarrow> (\<forall>st. sv_streamHeap s p = Some st \<longrightarrow>
        (if sm_state st \<noteq> StateActive then reply_code reply = 500 \<and> s' = s
         else reply_code reply \<in> {200, 404, 500, 504} \<and> map_option sm_state (sv_streamHeap s' p) = Some StateComplete \<and>
           rc_streams (sv_rtp s') (rq_ID r) = None))"
proof -
  have reply: "case sv_StopStream ou marshal during (\<lambda>s. s) oc (rq_ID r) s of
      (Some (Some e), t) \<Rightarrow> reply = stop_error e \<and> t = s' | (Some None, t) \<Rightarrow> reply_code reply = 200 \<and> t = s' | _ \<Rightarrow> False"
    using assms(1,2) by (auto simp: handleStopStream_def writeJSON_def split: option.splits prod.splits)
  show ?thesis
  proof (cases "GetStream (rq_ID r) s")
    case (Inl e)
    then have "e = Sentinel ErrStreamNotFound" by (simp add: GetStream_def reg_Get_def split: option.splits)
    with Inl reply show ?thesis
      by (simp add: sv_StopStream_def stop_begin_def GetStream_def stop_error_def writeJSON_def)
  next
    case (Inr p)
    have "reply_code reply = 500 \<and> s' = s" if "sv_streamHeap s p = Some st" "sm_state st \<noteq> StateActive" for st
      using Inr reply that by (simp add: sv_StopStream_def stop_begin_def GetStream_def stop_error_def writeJSON_def)
    moreover have "reply_code reply \<in> {200, 404, 500, 504} \<and> map_option sm_state (sv_streamHeap s' p) = Some StateComplete \<and>
        rc_streams (sv_rtp s') (rq_ID r) = None" if st: "sv_streamHeap s p = Some st" "sm_state st = StateActive" for st
    proof -
      let ?s1 = "on_stream p (\<lambda>st. snd (sm_StopRequested st)) s"
      have b: "stop_begin (rq_ID r) s = (Inr (sm_DeviceID st, p), ?s1)"
        using Inr st by (simp add: stop_begin_def GetStream_def)
      obtain a m where a: "SendStopStream during oc (sm_DeviceID st) (Some (newRequestID (ou_random ou 0), rq_ID r)) (sv_ctrl ?s1) = (a, m)"
        by force
      obtain x where x: "a = Some x" using reply b a by (cases a) (simp_all add: sv_StopStream_def)
      obtain res t where f: "stop_finish ou marshal (rq_ID r) (sm_DeviceID st) p x (?s1\<lparr>sv_ctrl := m\<rparr>) = (res, t)" by force
      have "t = s'" "reply = (case res of Some e \<Rightarrow> stop_error e | None \<Rightarrow> reply) \<and> (res = None \<longrightarrow> reply_code reply = 200)"
        using reply b a x f by (auto simp: sv_StopStream_def split: option.splits)
      moreover have "no_stream_error y" if "x = Inl y" for y using SendStopStream_errors [OF _ assms(3)] a x that by blast
      then have E: "map_option sm_state (sv_streamHeap t p) = Some StateComplete" "rc_streams (sv_rtp t) (rq_ID r) = None"
          "\<And>e. res = Some e \<Longrightarrow> no_stream_error e"
        using stop_finish_effect [OF f, of "snd (sm_StopRequested st)"] st by (simp_all add: sm_StopRequested_def)
      ultimately show ?thesis using stop_error_codes by (cases res) auto
    qed
    ultimately show ?thesis using Inr by simp
  qed
qed


section \<open>Renaming\<close>

lemma restore_devices_other:
  "k \<notin> (\<lambda>(d, h). dv_DeviceID d) ` set ds \<Longrightarrow>
    dr_devices (sv_device (foldl restore_device s ds)) k = dr_devices (sv_device s) k"
  by (induction ds arbitrary: s) (auto simp: restore_device_def dr_Register_def split: prod.splits)

lemma restore_devices_row:
  assumes "k \<in> set ids" and "db_devices db k = Some row"
  shows "dr_devices (sv_device (foldl restore_device s (DeviceRepo_LoadAll ids db))) k =
    Some ((device_of_row k row)\<lparr>dv_Status := ''offline''\<rparr>)"
  using assms(1)
proof (induction ids arbitrary: s)
  case (Cons i ids)
  show ?case
  proof (cases "k \<in> set ids")
    case True
    with Cons.IH show ?thesis by (simp add: DeviceRepo_LoadAll_def List.map_filter_simps split: option.split)
  next
    case False
    then have "k \<notin> (\<lambda>(d, h). dv_DeviceID d) ` set (DeviceRepo_LoadAll ids db)" by (simp add: loaded_devices)
    moreover have "k = i" using Cons.prems False by simp
    moreover have "foldl restore_device s (DeviceRepo_LoadAll (k # ids) db) =
        foldl restore_device (restore_device s (device_of_row k row, rw_Hash row)) (DeviceRepo_LoadAll ids db)"
      using assms(2) by (simp add: DeviceRepo_LoadAll_def List.map_filter_simps)
    moreover have "dr_devices (sv_device (restore_device s (device_of_row k row, rw_Hash row))) k =
        Some ((device_of_row k row)\<lparr>dv_Status := ''offline''\<rparr>)"
      by (simp add: restore_device_def dr_Register_def device_of_row_def)
    ultimately show ?thesis by (simp only: restore_devices_other not_False_eq_True)
  qed
qed simp

lemma Restore_device:
  "sv_device (snd (Restore o1 o2 s)) = sv_device (foldl restore_device s (DeviceRepo_LoadAll o1 (sv_db s)))"
  by (simp add: Restore_def Let_def restore_streams_frame)

definition renamed :: "string \<Rightarrow> string \<Rightarrow> device \<Rightarrow> 'd server \<Rightarrow> 'd server" where
  "renamed dev name d s = s\<lparr>sv_device := (sv_device s)\<lparr>dr_devices := (dr_devices (sv_device s))(dev \<mapsto> d\<lparr>dv_DisplayName := name\<rparr>)\<rparr>,
     sv_db := DeviceRepo_UpdateDisplayName dev name (sv_db s)\<rparr>"

lemma SetDeviceDisplayName_eq:
  "SetDeviceDisplayName dev name s =
     (case dr_devices (sv_device s) dev of
        None \<Rightarrow> (Some (Sentinel ErrDeviceNotFound), s)
      | Some d \<Rightarrow> (None, renamed dev name d s))"
  by (simp add: SetDeviceDisplayName_def dr_SetDisplayName_def renamed_def split: option.split)

lemma rename_outcome:
  assumes "handleDeviceRename decode r s = (reply, s1)"
  shows "reply_code reply \<noteq> 200 \<and> s1 = s \<or>
    (\<exists>name d. reply = Json 200 (GMap [(''status'', GStr ''ok''), (''display_name'', GStr name)]) \<and>
      0 < length name \<and> length name \<le> 64 \<and> dr_devices (sv_device s) (rq_ID r) = Some d \<and> s1 = renamed (rq_ID r) name d s)"
proof (cases "Option.bind (decode (rq_Body r)) decode_rename")
  case None
  with assms show ?thesis by (auto simp: handleDeviceRename_def writeJSON_def split: if_splits)
next
  case (Some display)
  with assms show ?thesis
    by (cases "dr_devices (sv_device s) (rq_ID r)")
      (auto simp: handleDeviceRename_def SetDeviceDisplayName_eq writeJSON_def Let_def split: if_splits)
qed

text \<open>A rename that is answered with 200 sticks. The device is shown under the new name at once, and
  under the same name, offline, by a new process started on the database, if the device has a row
  there; the name is not empty and has at most 64 bytes; no other device changes. Any other answer
  leaves the server as it was.\<close>

theorem rename_survives_restart:
  fixes s2 :: "'d server"
  assumes "handleDeviceRename decode r s = (reply, s1)"
    and "Restore deviceIDs streamIDs (sv_New cfg (sv_db s1)) = (e, s2)"
    and "set deviceIDs = dom (db_devices (sv_db s1))"
  shows "if reply_code reply = 200
    then \<exists>name d. reply = Json 200 (GMap [(''status'', GStr ''ok''), (''display_name'', GStr name)]) \<and>
      0 < length name \<and> length name \<le> 64 \<and> DeviceGet (rq_ID r) s1 = Inr d \<and> dv_DisplayName d = name \<and>
      (k \<noteq> rq_ID r \<longrightarrow> DeviceGet k s1 = DeviceGet k s) \<and>
      (db_devices (sv_db s) (rq_ID r) \<noteq> None \<longrightarrow>
        (\<exists>d2. DeviceGet (rq_ID r) s2 = Inr d2 \<and> dv_DisplayName d2 = name \<and> dv_Status d2 = ''offline''))
    else s1 = s"
proof (cases "reply_code reply = 200")
  case False
  then show ?thesis using rename_outcome [OF assms(1)] by auto
next
  case True
  then obtain name d where reply: "reply = Json 200 (GMap [(''status'', GStr ''ok''), (''display_name'', GStr name)])"
    and name: "0 < length name" "length name \<le> 64" and d: "dr_devices (sv_device s) (rq_ID r) = Some d"
    and s1: "s1 = renamed (rq_ID r) name d s"
    using rename_outcome [OF assms(1)] by blast
  have now: "\<exists>d. DeviceGet (rq_ID r) s1 = Inr d \<and> dv_DisplayName d = name" "k \<noteq> rq_ID r \<longrightarrow> DeviceGet k s1 = DeviceGet k s"
    by (auto simp: s1 renamed_def DeviceGet_def dr_Get_def with_presence_def online_at_def Let_def split: option.split)
  have "\<exists>d2. DeviceGet (rq_ID r) s2 = Inr d2 \<and> dv_DisplayName d2 = name \<and> dv_Status d2 = ''offline''"
    if "db_devices (sv_db s) (rq_ID r) = Some row" for row
  proof -
    have row: "db_devices (sv_db s1) (rq_ID r) = Some (row\<lparr>rw_DisplayName := name\<rparr>)"
      using that by (simp add: s1 renamed_def DeviceRepo_UpdateDisplayName_def)
    then have ids: "rq_ID r \<in> set deviceIDs" using assms(3) by auto
    have db: "sv_db (sv_New cfg (sv_db s1) :: 'd server) = sv_db s1" by (simp add: sv_New_def)
    have "s2 = snd (Restore deviceIDs streamIDs (sv_New cfg (sv_db s1)))" by (simp only: assms(2) snd_conv)
    then have "sv_device s2 = sv_device (foldl restore_device (sv_New cfg (sv_db s1) :: 'd server) (DeviceRepo_LoadAll deviceIDs (sv_db s1)))"
      using Restore_device [of deviceIDs streamIDs "sv_New cfg (sv_db s1) :: 'd server"] by (simp only: db)
    moreover have "dr_online (sv_device (sv_New cfg (sv_db s1) :: 'd server)) = Map.empty"
      by (simp add: sv_New_def dr_New_def)
    ultimately have "dr_devices (sv_device s2) (rq_ID r) = Some ((device_of_row (rq_ID r) (row\<lparr>rw_DisplayName := name\<rparr>))\<lparr>dv_Status := ''offline''\<rparr>)"
      "dr_online (sv_device s2) = Map.empty"
      using restore_devices_row [OF ids row] by (simp_all add: restore_devices)
    then show ?thesis
      by (simp add: DeviceGet_def dr_Get_def with_presence_def online_at_def statusFromOnline_def device_of_row_def Let_def)
  qed
  with True reply name now show ?thesis by auto
qed

end
