(* ===== verification/Server_Demo.thy ===== *)
theory Server_Demo
  imports Api_Replies
begin

text \<open>
  A small run of the server: a device enrols and connects, a stream is started on it and its first
  packet arrives. The theorems about the server are applied to it.
\<close>

definition demo :: outside where
  "demo = \<lparr>ou_clock = int, ou_order = [], ou_random = (\<lambda>i. [1]), ou_listen = (\<lambda>addr. Inr 5000),
     ou_addr = (\<lambda>ref. None), ou_mkdir = (\<lambda>i. None), ou_create = (\<lambda>i. Inl (Errorf ''read-only file system'')),
     ou_join = concat, ou_grow = (\<lambda>n. n)\<rparr>"

lemma demo_outside [simp]:
  "ou_order demo = []" "ou_random demo i = [1]" "ou_listen demo a = Inr 5000" "ou_clock demo i = int i"
  "ou_create demo i = Inl (Errorf ''read-only file system'')" "ou_mkdir demo i = None"
  by (simp_all add: demo_def)

definition demo_boot :: "stub_decoder server" where
  "demo_boot = snd (Restore [] [] (sv_New (Load Map.empty) db_empty))"

definition demo_enrolled :: "stub_decoder server" where
  "demo_enrolled = snd (sv_Authenticate None 10 ''mic'' '''' demo_boot)"

definition demo_idle :: "stub_decoder server" where
  "demo_idle = sv_OnReady 0 ''mic'' demo_enrolled"

definition demo_waiting :: "stub_decoder server" where
  "demo_waiting = snd (start_begin demo ''mic'' demo_idle)"

definition demo_live :: "stub_decoder server" where
  "demo_live = snd (start_finish demo (NewStubDecoder 960 2) \<lparr>rg_Enabled = False, rg_Format = ''''\<rparr> ''mic'' 5000 0
     (Inr (StreamStarted ''req-01'' ''strm-01'')) demo_waiting)"

abbreviation stub_good :: "stub_decoder \<Rightarrow> bool" where
  "stub_good d \<equiv> sd_channels d = Channels \<and> sd_samples d < 2 ^ 32"

lemma demo_ids: "newStreamID [1] = ''strm-01''" "newRequestID [1] = ''req-01''"
  by code_simp+

lemma demo_boot: "demo_boot = sv_New (Load Map.empty) db_empty"
  by (simp add: demo_boot_def Restore_def DeviceRepo_LoadAll_def StreamRepo_LoadAll_def List.map_filter_simps)

lemma demo_enrolled_parts:
  "dr_Get (sv_device demo_enrolled) ''mic'' = Inr ((tofu_device ''mic'')\<lparr>dv_Online := True\<rparr>)"
  "sv_stream demo_enrolled = reg_New" "sv_rtp demo_enrolled = NewReceiver (Some m_New)"
  "sv_streamHeap demo_enrolled = Map.empty" "sv_ctrl demo_enrolled = NewSessionManager"
  "sv_cfg demo_enrolled = Load Map.empty" "sv_next demo_enrolled = 0"
  "sv_recordings demo_enrolled = Map.empty" "sv_recHeap demo_enrolled = Map.empty"
  "sv_workers demo_enrolled = Map.empty" "sv_live demo_enrolled = Map.empty"
  unfolding demo_enrolled_def demo_boot
  by (simp_all add: sv_Authenticate_def sv_New_def Load_def envStr_def dr_Get_def dr_New_def dr_SetOnline_def
      dr_Register_def tofu_device_def with_presence_def online_at_def time_zero_def statusFromOnline_def Let_def)


lemma demo_idle_parts:
  "dr_Get (sv_device demo_idle) ''mic'' = Inr ((tofu_device ''mic'')\<lparr>dv_Online := True\<rparr>)"
  "sv_stream demo_idle = reg_New" "sv_rtp demo_idle = NewReceiver (Some m_New)"
  "sv_streamHeap demo_idle = Map.empty" "mg_sessions (sv_ctrl demo_idle) = [''mic'' \<mapsto> 0]"
  "mg_streamCh (sv_ctrl demo_idle) = Map.empty" "mg_pending (sv_ctrl demo_idle) = Map.empty"
  "sv_cfg demo_idle = Load Map.empty" "sv_next demo_idle = 0"
  "sv_recordings demo_idle = Map.empty" "sv_recHeap demo_idle = Map.empty"
  "sv_workers demo_idle = Map.empty" "sv_live demo_idle = Map.empty"
  unfolding demo_idle_def
  by (simp_all add: sv_OnReady_def demo_enrolled_parts mg_OnReady_def NewSessionManager_def)

lemma demo_idle_run: "sv_run decode stub_good (Load Map.empty) db_empty [Control, Control] demo_idle"
proof -
  have "sv_run decode stub_good (Load Map.empty) db_empty [] demo_boot"
    unfolding demo_boot_def by (rule sv_run.run_boot)
  then have "sv_run decode stub_good (Load Map.empty) db_empty [Control] demo_enrolled"
    unfolding demo_enrolled_def using sv_run.run_step sv_step.auth by fastforce
  then show ?thesis
    unfolding demo_idle_def using sv_run.run_step sv_step.ready by fastforce
qed

lemmas demo_idle_reach = run_reach [OF demo_idle_run]

lemma demo_replace: "replace_existing demo ''mic'' demo_idle = demo_idle"
  by (simp add: replace_existing_def reg_GetByDevice_def demo_idle_parts reg_New_def reg_List_def
      List.map_filter_simps)

definition demo_binding :: stream_binding where
  "demo_binding = \<lparr>sb_streamID = ''strm-01'', sb_ssrc = 0, sb_ssrcLearned = False,
     sb_firstSeen = False, sb_pt = ucast DefaultPayloadType, sb_port = 5000,
     sb_jb = jb_New (milliseconds 60) False, sb_cancelled = False, sb_closed = False, sb_workerCancel = None\<rparr>"

definition demo_bound :: "stub_decoder server" where
  "demo_bound = demo_idle\<lparr>sv_rtp := (sv_rtp demo_idle)\<lparr>rc_streams := [''strm-01'' \<mapsto> 0], rc_heap := [0 \<mapsto> demo_binding],
     rc_next := 1\<rparr>\<rparr>"

lemma demo_lookup: "start_lookup demo ''mic'' demo_idle = (None, demo_idle)"
  by (simp add: start_lookup_def demo_idle_parts demo_replace)

lemma demo_bind: "start_bind demo demo_idle = (Inr 5000, demo_bound)"
  by (simp add: start_bind_def demo_bound_def demo_idle_parts)
    (simp add: demo_ids rc_Bind_def demo_idle_parts NewReceiver_def Load_def envInt_def times_unit_def
      milliseconds_def demo_binding_def Let_def)

lemma demo_begin: "start_begin demo ''mic'' demo_idle = (Inr (5000, 0), add_stream demo ''strm-01'' ''mic'' demo_bound)"
  by (simp add: start_begin_def demo_lookup demo_bind start_register_def demo_ids)
    (simp add: demo_bound_def demo_idle_parts)

lemma demo_register: "start_register demo ''mic'' demo_bound = (0, demo_waiting)"
  by (simp add: demo_waiting_def demo_begin start_register_def demo_ids)
    (simp add: demo_bound_def demo_idle_parts)

lemma demo_waiting_parts:
  "reg_streams (sv_stream demo_waiting) = [''strm-01'' \<mapsto> 0]"
  "sv_streamHeap demo_waiting = [0 \<mapsto> new_stream demo (Load Map.empty) ''strm-01'' ''mic'']"
  "rc_streams (sv_rtp demo_waiting) = [''strm-01'' \<mapsto> 0]" "rc_heap (sv_rtp demo_waiting) 0 = Some demo_binding"
  "sv_cfg demo_waiting = Load Map.empty" "sv_next demo_waiting = 1"
  "sv_ctrl demo_waiting = sv_ctrl demo_idle" "sv_recordings demo_waiting = Map.empty"
  "rc_onCompressed (sv_rtp demo_waiting) = False"
  unfolding demo_waiting_def demo_begin demo_bound_def
  by (simp_all add: add_stream_def reg_Add_def reg_New_def demo_idle_parts NewReceiver_def Let_def)

lemma demo_new_stream:
  "sm_state (new_stream demo (Load Map.empty) ''strm-01'' ''mic'') = StateStarting"
  "sm_DeviceID (new_stream demo (Load Map.empty) ''strm-01'' ''mic'') = ''mic''"
  "sm_StreamID (new_stream demo (Load Map.empty) ''strm-01'' ''mic'') = ''strm-01''"
  by (simp_all add: new_stream_def stream_New_def WithTimeoutConfig_def sm_Start_def sm_DeviceCommandSent_def)

lemma demo_bound_run:
  "sv_run decode stub_good (Load Map.empty) db_empty [Control, Control, LookedUp ''mic'', Other] demo_bound"
proof -
  have "visits (ou_order demo) (sv_stream demo_idle)"
    by (simp add: visits_def demo_idle_parts reg_New_def)
  from sv_run.run_step [OF demo_idle_run sv_step.lookup [OF this demo_lookup]]
  have "sv_run decode stub_good (Load Map.empty) db_empty [Control, Control, LookedUp ''mic''] demo_idle" by simp
  from sv_run.run_step [OF this sv_step.bind [OF demo_bind]] show ?thesis by simp
qed

lemma demo_register_step: "sv_step decode good (Registered ''mic'') demo_bound demo_waiting"
  using sv_step.register [of decode good "''mic''" demo_bound demo] by (simp add: demo_register)

definition demo_trace :: "sv_event list" where
  "demo_trace = [Control, Control, LookedUp ''mic'', Other, Registered ''mic'', Other]"

lemma demo_live_run: "sv_run decode stub_good (Load Map.empty) db_empty demo_trace demo_live"
proof -
  have "sv_step decode stub_good Other demo_waiting demo_live"
    unfolding demo_live_def by (rule sv_step.reply) (simp add: NewStubDecoder_def Channels_def)
  from sv_run.run_step [OF sv_run.run_step [OF demo_bound_run demo_register_step] this] show ?thesis
    by (simp add: demo_trace_def)
qed

lemmas demo_live_reach = run_reach [OF demo_live_run]

lemma demo_starting: "starting demo_trace = Some {}" "starting [Control, Control] = Some {}"
    "starting [Control, Control, LookedUp ''mic'', Other, Registered ''mic''] = Some {}"
  by (simp_all add: demo_trace_def starting_def)

definition demo_mic_stream :: stream where
  "demo_mic_stream = snd (sm_StreamStarted 5 (new_stream demo (Load Map.empty) ''strm-01'' ''mic''))"

lemma demo_accepted:
  "fst (start_finish demo (NewStubDecoder 960 2) \<lparr>rg_Enabled = False, rg_Format = ''''\<rparr> ''mic'' 5000 0
     (Inr (StreamStarted ''req-01'' ''strm-01'')) demo_waiting) = Inr (''strm-01'', 5000, StateRTPWait)"
  "reg_streams (sv_stream demo_live) = [''strm-01'' \<mapsto> 0]" "sv_streamHeap demo_live = [0 \<mapsto> demo_mic_stream]"
  "rc_streams (sv_rtp demo_live) = [''strm-01'' \<mapsto> 0]"
  "rc_heap (sv_rtp demo_live) 0 = Some (demo_binding\<lparr>sb_workerCancel := Some 1\<rparr>)"
  "rc_onPacket (sv_rtp demo_live)" "rc_onCompressed (sv_rtp demo_live) = False"
  "sv_ctrl demo_live = sv_ctrl demo_idle" "sv_recordings demo_live = Map.empty"
proof -
  obtain r s' where st: "start_finish demo (NewStubDecoder 960 2) \<lparr>rg_Enabled = False, rg_Format = ''''\<rparr> ''mic'' 5000 0
     (Inr (StreamStarted ''req-01'' ''strm-01'')) demo_waiting = (r, s')"
    by (rule prod.exhaust)
  then have live: "demo_live = s'" by (simp add: demo_live_def)
  from st have run: "stream_accepted demo (NewStubDecoder 960 2) \<lparr>rg_Enabled = False, rg_Format = ''''\<rparr>
      ''strm-01'' ''mic'' 0 5000 demo_waiting = (r, s')"
    by (simp add: start_finish_def demo_ids Let_def)
  then have "r \<in> range Inr"
    by (auto simp: stream_accepted_def rc_GetStreamBinding_def demo_waiting_parts Let_def)
  then obtain res where res: "r = Inr res" by blast
  from stream_accepted_effect [OF run [unfolded res], of 0 demo_binding "new_stream demo (Load Map.empty) ''strm-01'' ''mic''"]
  show "fst (start_finish demo (NewStubDecoder 960 2) \<lparr>rg_Enabled = False, rg_Format = ''''\<rparr> ''mic'' 5000 0
      (Inr (StreamStarted ''req-01'' ''strm-01'')) demo_waiting) = Inr (''strm-01'', 5000, StateRTPWait)"
    "reg_streams (sv_stream demo_live) = [''strm-01'' \<mapsto> 0]" "sv_streamHeap demo_live = [0 \<mapsto> demo_mic_stream]"
    by (simp_all add: st live demo_waiting_parts demo_binding_def demo_new_stream res demo_mic_stream_def)
  have "s' = start_opus demo ''strm-01'' (start_wav demo \<lparr>rg_Enabled = False, rg_Format = ''''\<rparr> ''strm-01''
      (start_worker (NewStubDecoder 960 2) ''strm-01'' 0
      (save_stream ''strm-01'' ''mic'' StateRTPWait FailureNone 0 (sm_StartedAt demo_mic_stream)
        (on_stream 0 (\<lambda>st. snd (sm_StreamStarted 5 st)) demo_waiting))))"
    using run by (simp add: stream_accepted_def rc_GetStreamBinding_def demo_waiting_parts demo_mic_stream_def Let_def)
  then show "rc_streams (sv_rtp demo_live) = [''strm-01'' \<mapsto> 0]"
    "rc_heap (sv_rtp demo_live) 0 = Some (demo_binding\<lparr>sb_workerCancel := Some 1\<rparr>)"
    "rc_onPacket (sv_rtp demo_live)" "rc_onCompressed (sv_rtp demo_live) = False"
    "sv_ctrl demo_live = sv_ctrl demo_idle" "sv_recordings demo_live = Map.empty"
    by (simp_all add: live start_opus_def NewOpusRecorder_def start_wav_def start_worker_def rc_SetOnPacket_def
        rc_SetWorkerCancel_def rc_binding_def rc_update_def demo_waiting_parts)
qed


section \<open>Witnesses\<close>


theorem one_live_stream_per_device_witness:
  "reg_streams (sv_stream demo_live) ''strm-01'' = Some 0 \<and> ''strm-01'' = ''strm-01'' \<and> (0::nat) = 0"
proof -
  have "GetStream ''strm-01'' demo_live = Inr 0" "sv_streamHeap demo_live 0 = Some demo_mic_stream"
    "live_for_device (sm_state demo_mic_stream)"
    by (simp_all add: GetStream_def reg_Get_iff demo_accepted demo_mic_stream_def sm_StreamStarted_def
        demo_new_stream live_for_device_def terminal_def)
  from one_live_stream_per_device [OF stub.pcm_decoder_axioms demo_live_run _ this this refl] show ?thesis
    by (simp add: demo_accepted demo_starting)
qed

theorem live_slot_refines_witness:
  "slot_step ''mic'' (Registered ''mic'') (device_slot [] ''mic'' demo_bound) (device_slot [''strm-01''] ''mic'' demo_waiting)"
proof -
  have "visits [] (sv_stream demo_bound)" "visits [''strm-01''] (sv_stream demo_waiting)"
    by (simp_all add: visits_def demo_bound_def demo_idle_parts reg_New_def demo_waiting_parts)
  from live_slot_refines [OF stub.pcm_decoder_axioms demo_bound_run demo_register_step _ this] show ?thesis
    by (simp add: demo_starting)
qed

theorem reachable_server_well_formed_witness:
  "\<exists>st. sv_streamHeap demo_live 0 = Some st \<and> sm_StreamID st = ''strm-01''"
  using reachable_server_well_formed [OF stub.pcm_decoder_axioms demo_live_reach, of "''strm-01''" 0]
  by (auto simp: GetStream_def reg_Get_iff demo_accepted)

lemma demo_start:
  "start_begin demo ''mic'' demo_idle = (Inr (5000, 0), demo_waiting)"
  by (simp add: demo_waiting_def demo_begin)

lemma demo_sends:
  "SendStartStream during oc ''mic'' (Some (start_request demo ''strm-01'' 5000 ''mic'' demo_waiting)) (sv_ctrl demo_waiting) =
    await_stream during oc ''req-01'' (sv_ctrl demo_idle)"
  by (simp add: SendStartStream_def start_request_def NewStartStream_def demo_ids demo_waiting_parts demo_idle_parts Let_def)

theorem failed_start_leaves_nothing_witness:
  "\<exists>e s'. sv_StartStream demo (\<lambda>m. m) (\<lambda>s. s) (CtxDone (Errorf ''context deadline exceeded'')) (NewStubDecoder 960 2) ''mic''
      \<lparr>rg_Enabled = False, rg_Format = ''''\<rparr> demo_idle = (Some (Inl e), s') \<and>
    saved_state ''strm-01'' (sv_db s') = Some (''FAILED'', ''STARTING->FAILED'')"
proof -
  obtain e s' where run: "sv_StartStream demo (\<lambda>m. m) (\<lambda>s. s) (CtxDone (Errorf ''context deadline exceeded''))
      (NewStubDecoder 960 2) ''mic'' \<lparr>rg_Enabled = False, rg_Format = ''''\<rparr> demo_idle = (Some (Inl e), s')"
    by (simp add: sv_StartStream_def demo_start demo_ids demo_sends await_stream_def await_result_def start_finish_def
        demo_idle_parts Let_def)
  have "saved_state ''strm-01'' (sv_db s') = Some (state_string StateFailed, reason_string FailureStartRejected)"
    using failed_start_leaves_nothing [OF run, of "''strm-01''"]
    by (simp add: demo_ids demo_idle_parts reg_New_def NewReceiver_def demo_start)
  with run show ?thesis by auto
qed

lemma demo_accept:
  "\<exists>s'. start_finish demo (NewStubDecoder 960 2) \<lparr>rg_Enabled = False, rg_Format = ''''\<rparr> ''mic'' 5000 0
     (Inr (StreamStarted ''req-01'' ''strm-01'')) (demo_waiting\<lparr>sv_ctrl := m\<rparr>) = (Inr (''strm-01'', 5000, StateRTPWait), s')"
  by (simp add: start_finish_def stream_accepted_def rc_GetStreamBinding_def demo_waiting_parts demo_ids Let_def
      start_opus_def NewOpusRecorder_def start_wav_def start_worker_def sm_StreamStarted_def demo_new_stream)


text \<open>A second client starts the same device in between.\<close>

definition demo2 :: outside where
  "demo2 = demo\<lparr>ou_random := (\<lambda>i. [2]), ou_order := [''strm-01'', ''strm-02'']\<rparr>"

theorem overlapping_starts_leave_two_streams_witness:
  "\<exists>p1 s5 p2 s6. start_register demo ''mic'' (snd (start_bind demo2 demo_bound)) = (p1, s5) \<and>
    start_register demo2 ''mic'' s5 = (p2, s6) \<and> {''strm-01'', ''strm-02''} \<subseteq> sv_live_ids s6 ''mic''"
proof -
  have out: "ou_random demo2 i = [2]" "ou_listen demo2 a = Inr 5000" "ou_order demo2 = [''strm-01'', ''strm-02'']" for i a
    by (simp_all add: demo2_def)
  have id2: "newStreamID [2] = ''strm-02''" by code_simp
  have lookup: "start_lookup demo2 ''mic'' demo_idle = (None, demo_idle)"
    by (simp add: start_lookup_def demo_idle_parts replace_existing_def reg_GetByDevice_def reg_New_def reg_List_def
        out List.map_filter_simps)
  obtain s4 where bind: "start_bind demo2 demo_bound = (Inr 5000, s4)" and s4: "sv_stream s4 = reg_New" "sv_next s4 = 0"
    by (simp add: start_bind_def out id2 rc_Bind_def demo_bound_def demo_idle_parts Load_def envInt_def Let_def)
  obtain p1 s5 p2 s6 where reg: "start_register demo ''mic'' s4 = (p1, s5)" "start_register demo2 ''mic'' s5 = (p2, s6)"
    by fastforce
  have "visits (ou_order demo2) (sv_stream s6)"
    using reg s4 by (auto simp: start_register_def add_stream_def save_stream_def Let_def demo_ids id2 out visits_def
        reg_Add_def reg_New_def split: if_splits)
  from overlapping_starts_leave_two_streams [OF stub.pcm_decoder_axioms demo_idle_reach demo_lookup lookup demo_bind bind
      reg _ this] have "{''strm-01'', ''strm-02''} \<subseteq> sv_live_ids s6 ''mic''" by (simp add: demo_ids id2 out)
  with reg bind show ?thesis by (intro exI [of _ p1] exI [of _ s5] exI [of _ p2] exI [of _ s6]) simp
qed


section \<open>A stream that is ACTIVE\<close>

definition demo_active :: "stub_decoder server" where
  "demo_active = the (rtp_turn demo_pion 20 (Datagram [1, 7, 42]) 0 demo_live)"

lemma demo_active_turn: "rtp_turn demo_pion 20 (Datagram [1, 7, 42]) 0 demo_live = Some demo_active"
  by (simp add: demo_active_def rtp_turn_def read_step_def demo_accepted demo_binding_def read_buffer_def
      demo_pion_def ParseFor_def DefaultPayloadType_def learn_ssrc_def Let_def)

lemma demo_active_reach: "sv_reach decode stub_good (Load Map.empty) db_empty demo_active"
  by (rule sv_reach.step [OF demo_live_reach sv_step.datagram [OF demo_active_turn]])

lemma demo_mic_state:
  "sm_state demo_mic_stream = StateRTPWait" "sm_DeviceID demo_mic_stream = ''mic''" "sm_StreamID demo_mic_stream = ''strm-01''"
  "sm_streamStartedAt demo_mic_stream = 5" "cfg_wait (sm_cfg demo_mic_stream) = 5000000000"
  by (simp_all add: demo_mic_stream_def sm_StreamStarted_def demo_new_stream)
    (simp add: new_stream_def stream_New_def WithTimeoutConfig_def sm_Start_def sm_DeviceCommandSent_def timeouts_def
      Load_def envInt_def times_unit_def cfg_wait_def Let_def)

lemma demo_active_parts:
  "sv_streamHeap demo_active = [0 \<mapsto> demo_mic_stream\<lparr>sm_state := StateActive, sm_lastPacketAt := 20\<rparr>]"
  "reg_streams (sv_stream demo_active) = [''strm-01'' \<mapsto> 0]" "rc_streams (sv_rtp demo_active) = [''strm-01'' \<mapsto> 0]"
  "sv_ctrl demo_active = sv_ctrl demo_idle" "sv_recordings demo_active = Map.empty"
proof -
  obtain r where "read_step demo_pion 20 (Datagram [1, 7, 42]) 0 (sv_rtp demo_live) =
      (LoopContinue, [OnPacket ''strm-01'' True], r)" and r: "rc_streams r = [''strm-01'' \<mapsto> 0]"
    by (simp add: read_step_def demo_accepted demo_binding_def read_buffer_def demo_pion_def ParseFor_def
        DefaultPayloadType_def learn_ssrc_def Let_def)
  then have act: "demo_active = on_packet 20 ''strm-01'' (demo_live\<lparr>sv_rtp := r\<rparr>)"
    using demo_active_turn by (simp add: rtp_turn_def)
  show "sv_streamHeap demo_active = [0 \<mapsto> demo_mic_stream\<lparr>sm_state := StateActive, sm_lastPacketAt := 20\<rparr>]"
    "reg_streams (sv_stream demo_active) = [''strm-01'' \<mapsto> 0]" "rc_streams (sv_rtp demo_active) = [''strm-01'' \<mapsto> 0]"
    "sv_ctrl demo_active = sv_ctrl demo_idle" "sv_recordings demo_active = Map.empty"
    by (simp_all add: act r on_packet_def reg_Get_def demo_accepted demo_mic_state sm_FirstPacket_def)
qed

lemma demo_orders: "visits [''strm-01''] (sv_stream demo_active)" "visits [''strm-01''] (sv_stream demo_live)"
  by (simp_all add: visits_def demo_active_parts demo_accepted)

theorem monitor_fails_exactly_the_timed_out_witness:
  "GetStream ''strm-01'' (monitor_tick [] [''strm-01''] (\<lambda>_. int) 5000000005 demo_live) = Inl (Sentinel ErrStreamNotFound)"
proof -
  have "GetStream ''strm-01'' demo_live = Inr 0" "sv_streamHeap demo_live 0 = Some demo_mic_stream"
    by (simp_all add: GetStream_def reg_Get_def demo_accepted)
  from monitor_fails_exactly_the_timed_out [OF stub.pcm_decoder_axioms demo_live_reach demo_orders(2) refl this] show ?thesis
    by (simp add: sm_RTPWaitTimedOut_def demo_mic_state time_sub_def)
qed

theorem disconnect_fails_active_streams_only_witness:
  "GetStream ''strm-01'' (sv_OnClose [''strm-01''] (\<lambda>_. int) 0 ''mic'' demo_active) = Inl (Sentinel ErrStreamNotFound)"
proof -
  have "GetStream ''strm-01'' demo_active = Inr 0"
      "sv_streamHeap demo_active 0 = Some (demo_mic_stream\<lparr>sm_state := StateActive, sm_lastPacketAt := 20\<rparr>)"
    by (simp_all add: GetStream_def reg_Get_def demo_active_parts)
  from disconnect_fails_active_streams_only [OF stub.pcm_decoder_axioms demo_active_reach demo_orders(1) refl _ this]
  show ?thesis by (simp add: demo_active_parts demo_idle_parts demo_mic_state)
qed

theorem pushes_count_each_event_once_witness:
  "\<exists>m'. rc_metrics (sv_rtp (push_all_metrics [(''a'', stats_zero\<lparr>Lost := 3\<rparr>, 1), (''b'', stats_zero\<lparr>Lost := 2\<rparr>, 2),
      (''a'', stats_zero\<lparr>Lost := 3\<rparr>, 3)] (sv_New (Load Map.empty) db_empty))) = Some m' \<and> rtpPacketsLost m' = 5"
proof -
  have "rc_metrics (sv_rtp (sv_New (Load Map.empty) db_empty)) = Some m_New"
    by (simp add: sv_New_def NewReceiver_def)
  from pushes_count_each_event_once [OF this, of "{''a'', ''b''}" "[(''a'', stats_zero\<lparr>Lost := 3\<rparr>, 1),
      (''b'', stats_zero\<lparr>Lost := 2\<rparr>, 2), (''a'', stats_zero\<lparr>Lost := 3\<rparr>, 3)]" rtpPacketsLost Lost]
  show ?thesis
    by (simp add: loss_counters_def latest_stats_def stat_or_zero_def sv_New_def stats_zero_def m_New_def)
qed


section \<open>Stopping and recording\<close>

definition demo_recorded :: "stub_decoder server" where
  "demo_recorded = demo_active\<lparr>sv_recordings := [''strm-01-opus'' \<mapsto> 7], sv_recHeap := [7 \<mapsto> OpusRec demo_opus]\<rparr>"

lemma demo_stop_begin:
  "stop_begin ''strm-01'' demo_recorded = (Inr (''mic'', 0), on_stream 0 (\<lambda>st. snd (sm_StopRequested st)) demo_recorded)"
  by (simp add: stop_begin_def reg_Get_def demo_recorded_def demo_active_parts demo_mic_state)

lemma demo_stopped_reply:
  "\<exists>m. SendStopStream (inbound [StreamStopped ''req-01'' ''strm-01'' None]) ReplyTaken ''mic'' (Some (''req-01'', ''strm-01''))
      (sv_ctrl demo_idle) = (Some (Inr (StreamStopped ''req-01'' ''strm-01'' None)), m)"
  by (simp add: SendStopStream_def await_stream_def await_result_def inbound_def mg_Handler_def deliverStream_def
      deliverRequest_def offer_def demo_idle_parts Let_def)

lemma demo_stop:
  "\<exists>s'. sv_StopStream demo (\<lambda>j. Inl json_error) (inbound [StreamStopped ''req-01'' ''strm-01'' None]) (\<lambda>s. s) ReplyTaken
    ''strm-01'' demo_recorded = (Some None, s')"
proof -
  have "sv_ctrl demo_recorded = sv_ctrl demo_idle" by (simp add: demo_recorded_def demo_active_parts)
  then show ?thesis
    using demo_stopped_reply
    by (auto simp: sv_StopStream_def demo_stop_begin demo_ids stop_finish_def Let_def)
qed

theorem stopped_stream_keeps_opus_recorder_witness:
  "\<exists>s'. sv_StopStream demo (\<lambda>j. Inl json_error) (inbound [StreamStopped ''req-01'' ''strm-01'' None]) (\<lambda>s. s) ReplyTaken
      ''strm-01'' demo_recorded = (Some None, s') \<and> sv_recHeap s' 7 = Some (OpusRec demo_opus)"
proof -
  obtain s' where run: "sv_StopStream demo (\<lambda>j. Inl json_error) (inbound [StreamStopped ''req-01'' ''strm-01'' None]) (\<lambda>s. s)
      ReplyTaken ''strm-01'' demo_recorded = (Some None, s')" using demo_stop by blast
  from stopped_stream_keeps_opus_recorder [OF run, of 7] run show ?thesis by (simp add: demo_recorded_def)
qed

definition demo_disk :: outside where
  "demo_disk = demo\<lparr>ou_create := (\<lambda>i. Inr 4096)\<rparr>"

theorem newest_recorder_takes_all_streams_witness:
  "\<exists>s' ref r. rtp_turn demo_pion 20 (Datagram [1, 7, 42]) 0 (start_opus demo_disk ''strm-02'' demo_live) = Some s' \<and>
    sv_recordings s' (''strm-02'' @ ''-opus'') = Some ref \<and> sv_recHeap s' ref = Some (OpusRec r) \<and> or_ch r = [\<lparr>op_ts = 0, op_payload = [42]\<rparr>]"
proof -
  have disk: "ou_mkdir demo_disk 1 = None" "ou_create demo_disk 1 = Inr 4096" by (simp_all add: demo_disk_def)
  obtain s' where turn: "rtp_turn demo_pion 20 (Datagram [1, 7, 42]) 0 (start_opus demo_disk ''strm-02'' demo_live) = Some s'"
    using rtp_turn_ok [OF start_opus_inv [OF reach_inv [OF stub.pcm_decoder_axioms demo_live_reach]]] by blast
  have "sv_rtp (start_opus demo_disk ''strm-02'' demo_live) = rc_SetOnCompressed True (sv_rtp demo_live)"
    using disk by (simp add: start_opus_def NewOpusRecorder_def add_recorder_def)
  then obtain r' where "read_step demo_pion 20 (Datagram [1, 7, 42]) 0 (sv_rtp (start_opus demo_disk ''strm-02'' demo_live)) =
      (LoopContinue, [OnPacket ''strm-01'' True, OnCompressed ''strm-01'' 0 [42]], r')"
    by (simp add: read_step_def demo_accepted demo_binding_def read_buffer_def demo_pion_def ParseFor_def
        DefaultPayloadType_def learn_ssrc_def rc_SetOnCompressed_def Let_def)
  from newest_recorder_takes_all_streams [OF disk this turn] turn
  obtain ref r where "sv_recordings s' (''strm-02'' @ ''-opus'') = Some ref" "sv_recHeap s' ref = Some (OpusRec r)"
    "or_ch r = [\<lparr>op_ts = 0, op_payload = [42]\<rparr>]" by blast
  with turn show ?thesis by blast
qed

section \<open>Enrolment and restart\<close>

theorem credential_guards_enrolment_witness:
  "dr_Get (sv_device demo_enrolled) ''mic'' = Inr ((tofu_device ''mic'')\<lparr>dv_Online := True, dv_Status := ''online''\<rparr>)"
proof -
  have "dr_inv (sv_device demo_boot)" by (simp add: demo_boot sv_New_def dr_New_def dr_inv_def)
  from credential_guards_enrolment [OF surjective_pairing _ this, where now = 10 and nil_blob = None and dev = "''mic''" and credential = "''''"] show ?thesis
    by (simp add: demo_enrolled_def demo_boot sv_New_def Load_def envStr_def dr_Get_def dr_New_def time_zero_def)
qed

definition demo_db :: database where
  "demo_db = db_empty\<lparr>db_streams := [''strm-09'' \<mapsto> \<lparr>rs_DeviceID = ''mic'', rs_SSRC = 7, rs_State = ''ACTIVE'',
     rs_Started = None, rs_Reason = ''''\<rparr>]\<rparr>"

theorem restart_fails_stale_streams_witness:
  "saved_state ''strm-09'' (sv_db (snd (Restore [] [''strm-09''] (sv_New (Load Map.empty) demo_db)))) =
    Some (''FAILED'', reason_string FailureServerRestart)"
  using restart_fails_stale_streams [OF _ _ _ surjective_pairing, where streamIDs = "[''strm-09'']" and db = demo_db and
      deviceIDs = "[]" and cfg = "Load Map.empty" and sid = "''strm-09''"]
  by (auto simp: demo_db_def db_empty_def)


definition demo_final :: stopped_stats where
  "demo_final = \<lparr>sp_PacketsSent = 5, sp_BytesSent = 900, sp_DurationMS = 100, sp_EncoderErrors = 0,
     sp_Extra = [(''heap'', JBool True)]\<rparr>"

theorem final_stats_survive_restart_witness:
  "fst (DeviceFinalStats (\<lambda>b. Some (JObj (sp_Extra demo_final))) ''strm-01'' (snd (Restore [] [] (sv_New (Load Map.empty)
      (sv_db (snd (stop_finish demo (\<lambda>j. Inr [1]) ''strm-01'' ''mic'' 0
        (Inr (StreamStopped ''req-01'' ''strm-01'' (Some demo_final))) demo_active))) :: stub_decoder server)))) =
    Some demo_final"
proof -
  have "distinct (map fst (sp_Extra demo_final))"
    "(\<lambda>j :: json. Inr [1] :: goerr + bytes) (JObj (sp_Extra demo_final)) = Inr [1]" "[1 :: byte] \<noteq> []"
    "(\<lambda>b :: bytes. Some (JObj (sp_Extra demo_final))) [1] = Some (JObj (sp_Extra demo_final))"
    by (simp_all add: demo_final_def)
  note stats = final_stats_survive_restart [OF surjective_pairing this surjective_pairing]
  have "stats_storable (stats_row_of (\<lambda>j. Inr [1]) ''mic'' demo_final)"
    by (simp add: stats_storable_def stats_row_of_def demo_final_def)
  from stats [OF this, THEN conjunct2, THEN conjunct2] show ?thesis .
qed


section \<open>The HTTP API\<close>

definition demo_request :: "string \<Rightarrow> string \<Rightarrow> http_request" where
  "demo_request meth dev = \<lparr>rq_Method = meth, rq_ID = dev, rq_Body = [0]\<rparr>"

theorem start_reply_codes_witness:
  "\<exists>reply. fst (handleStartStream (\<lambda>b. Some JNull) demo (\<lambda>m. m) (\<lambda>s. s) ReplyTaken (NewStubDecoder 960 2)
      (demo_request ''POST'' ''nobody'') demo_idle) = Some reply \<and> reply_code reply = 500"
proof -
  have dev: "dr_Get (sv_device demo_idle) ''nobody'' = Inl (Sentinel ErrDeviceNotFound)"
    by (simp add: demo_idle_def demo_enrolled_def demo_boot sv_OnReady_def sv_Authenticate_def sv_New_def Load_def
        envStr_def dr_Get_def dr_New_def dr_SetOnline_def dr_Register_def tofu_device_def Let_def)
  have body: "decode_start JNull = Some ('''', \<lparr>rg_Enabled = False, rg_Format = ''''\<rparr>)"
    by (simp add: decode_start_def into_struct_def)
  obtain e s' where run: "handleStartStream (\<lambda>b. Some JNull) demo (\<lambda>m. m) (\<lambda>s. s) ReplyTaken (NewStubDecoder 960 2)
      (demo_request ''POST'' ''nobody'') demo_idle = (Some (start_error e), s')"
    by (simp add: handleStartStream_def demo_request_def body sv_StartStream_def start_begin_def start_lookup_def dev)
  have "reply_code (start_error e) \<in> {400, 405, 500}" "reply_code (start_error e) \<notin> {400, 405}"
    using start_reply_codes [OF run] dev by (auto simp: demo_request_def start_error_def writeJSON_def)
  with run show ?thesis by auto
qed

theorem stop_reply_codes_witness:
  "\<exists>reply. fst (handleStopStream demo (\<lambda>j. Inl json_error) (\<lambda>m. m) (\<lambda>s. s) ReplyTaken (demo_request ''DELETE'' ''strm-01'')
      demo_live) = Some reply \<and> reply_code reply = 500"
proof -
  obtain e s' where run: "handleStopStream demo (\<lambda>j. Inl json_error) (\<lambda>m. m) (\<lambda>s. s) ReplyTaken (demo_request ''DELETE'' ''strm-01'')
      demo_live = (Some (stop_error e), s')"
    by (simp add: handleStopStream_def demo_request_def sv_StopStream_def stop_begin_def reg_Get_def demo_accepted demo_mic_state)
  have "GetStream ''strm-01'' demo_live = Inr 0" by (simp add: GetStream_def reg_Get_def demo_accepted)
  then have "reply_code (stop_error e) = 500"
    using stop_reply_codes [OF run] by (simp add: demo_request_def demo_accepted demo_mic_state)
  with run show ?thesis by auto
qed

theorem rename_survives_restart_witness:
  "\<exists>body s1. handleDeviceRename (\<lambda>b. Some (JObj [(''display_name'', JStr '' Desk '')])) (demo_request ''PATCH'' ''mic'') demo_idle =
      (Json 200 body, s1) \<and> map_option dv_DisplayName (dr_devices (sv_device s1) ''mic'') = Some ''Desk''"
proof -
  let ?run = "handleDeviceRename (\<lambda>b. Some (JObj [(''display_name'', JStr '' Desk '')])) (demo_request ''PATCH'' ''mic'') demo_idle"
  have body: "decode_rename (JObj [(''display_name'', JStr '' Desk '')]) = Some '' Desk ''" by code_simp
  have trim: "TrimSpace '' Desk '' = ''Desk''" by code_simp
  obtain d where d: "dr_devices (sv_device demo_idle) ''mic'' = Some d"
    using demo_idle_parts(1) by (auto simp: dr_Get_def split: option.splits)
  have db: "sv_db demo_idle = db_empty"
    by (simp add: demo_idle_def demo_enrolled_def demo_boot sv_OnReady_def sv_Authenticate_def sv_New_def Load_def envStr_def
        dr_Get_def dr_New_def DeviceRepo_Save_def Let_def)
  obtain s1 where run: "?run = (Json 200 (GMap [(''status'', GStr ''ok''), (''display_name'', GStr ''Desk'')]), s1)"
      and s1: "s1 = renamed ''mic'' ''Desk'' d demo_idle"
    by (simp add: handleDeviceRename_def demo_request_def body trim SetDeviceDisplayName_eq d writeJSON_def Let_def)
  have "set [] = dom (db_devices (sv_db s1))"
    by (simp add: s1 renamed_def db DeviceRepo_UpdateDisplayName_def db_empty_def)
  from rename_survives_restart [OF run surjective_pairing this, where k = "''mic''" and streamIDs = "[]" and
      cfg = "Load Map.empty"]
  have "\<exists>d. DeviceGet ''mic'' s1 = Inr d \<and> dv_DisplayName d = ''Desk''" by (auto simp: demo_request_def)
  then have "map_option dv_DisplayName (dr_devices (sv_device s1) ''mic'') = Some ''Desk''"
    by (auto simp: DeviceGet_def dr_Get_def with_presence_def Let_def split: option.splits)
  with run show ?thesis by blast
qed

end
