(* ===== verification/Server_Control_Demo.thy ===== *)
theory Server_Control_Demo
  imports Server_Control
begin

text \<open>
  A concrete process: a device enrols over a first connection and reconnects over a second one. The
  properties of the control plane at these states.
\<close>

section \<open>Two connections of one device\<close>

definition hello_parse :: "bytes \<Rightarrow> json option" where
  "hello_parse bs = (if bs = [9] then Some (message_json demo_hello) else None)"

definition hello_sent :: "session_ref \<Rightarrow> 'd process \<Rightarrow> 'd process" where
  "hello_sent ref x = conn_input ref (segment [[9]]) (conn_accept ref x)"

definition arrive :: "session_ref \<Rightarrow> 'd process \<Rightarrow> 'd process" where
  "arrive ref x = conn_hello hello_parse (\<lambda>_. None) None 5 [] (\<lambda>_ _. 0) ref (hello_sent ref x)"

definition acknowledge :: "session_ref \<Rightarrow> 'd process \<Rightarrow> 'd process" where
  "acknowledge ref x = conn_ack (\<lambda>_. None) [1] 7 [] (\<lambda>_ _. 0) ref x"

definition demo_greeting :: hello where
  "demo_greeting = \<lparr>hl_DeviceID = ''dev-1'', hl_Credential = ''k'', hl_Firmware = ''1.0'', hl_Capabilities = None,
     hl_Protocol = 0\<rparr>"

lemma demo_decodes:
  "DecodePayload hello_parse [9] = Inr (Hello demo_greeting)"
  "readFrame \<lparr>fr_buf = []\<rparr> [segment [[9]]] = (Some (Inr [9]), \<lparr>fr_buf = []\<rparr>, [])"
proof -
  have "message_ok demo_hello" by (simp add: demo_hello_def NewHello_def in_int64_def)
  then show "DecodePayload hello_parse [9] = Inr (Hello demo_greeting)"
    by (simp add: DecodePayload_def hello_parse_def decode_json_round)
      (simp add: demo_hello_def NewHello_def demo_greeting_def)
  show "readFrame \<lparr>fr_buf = []\<rparr> [segment [[9]]] = (Some (Inr [9]), \<lparr>fr_buf = []\<rparr>, [])"
    using readFrame_segment [of "[9]" "[]" "[]"] by (simp add: MaxPayloadBytes_def)
qed

lemma demo_arrive:
  assumes "sv_Authenticate None 5 ''dev-1'' ''k'' (pc_server x) = (None, s1)"
  shows "arrive ref x = \<lparr>pc_server = s1, pc_conns = (pc_conns x)(ref \<mapsto>
    \<lparr>cn_session = NewSession [], cn_hello = Some demo_greeting\<rparr>)\<rparr>"
proof -
  have "run_hello hello_parse (NewSession [segment [[9]]]) = (Some demo_greeting, NewSession [])"
    by (simp add: run_hello_def NewSession_def demo_decodes)
  moreover have "hello_sent ref x = \<lparr>pc_server = pc_server x, pc_conns = (pc_conns x)(ref \<mapsto>
      \<lparr>cn_session = NewSession [segment [[9]]], cn_hello = None\<rparr>)\<rparr>"
    by (cases x) (simp add: hello_sent_def conn_input_def conn_accept_def NewSession_def)
  moreover have "conn_callbacks order clk r (NewSession [segment [[9]]]) (NewSession []) s = s" for order clk r s
    by (simp add: conn_callbacks_def NewSession_def)
  ultimately show ?thesis
    using assms by (simp add: arrive_def conn_hello_def run_auth_def) (simp add: NewSession_def demo_greeting_def)
qed

lemma demo_acknowledge:
  assumes "process_inv cfg x" and "pc_conns x ref = Some \<lparr>cn_session = NewSession [], cn_hello = Some demo_greeting\<rparr>"
  shows "\<exists>se. acknowledge ref x = \<lparr>pc_server = sv_OnReady ref ''dev-1'' (pc_server x), pc_conns = (pc_conns x)(ref \<mapsto>
    \<lparr>cn_session = se, cn_hello = Some demo_greeting\<rparr>)\<rparr> \<and> se_onReady se = [''dev-1''] \<and> se_result se = None"
proof -
  have se: "se_result (NewSession []) = None" "se_onReady (NewSession []) = []" "hl_DeviceID demo_greeting = ''dev-1''"
    by (simp_all add: NewSession_def demo_greeting_def)
  then have "awaits_ack \<lparr>cn_session = NewSession [], cn_hello = Some demo_greeting\<rparr> demo_greeting"
    by (simp add: awaits_ack_def)
  from ack_effect [OF assms(1,2) this, of "\<lambda>_. None" "[1]" 7 "[]" "\<lambda>_ _. 0"]
    run_ack_frame [OF refl se(1), of "\<lambda>_. None" "newSessionID [1]" 7 demo_greeting]
  show ?thesis
    by (intro exI [of _ "run_ack (\<lambda>_. None) (newSessionID [1]) 7 demo_greeting (NewSession [])"]) (simp add: acknowledge_def se)
qed

section \<open>The run\<close>

definition demo_cfg :: config where
  "demo_cfg = (Load Map.empty)\<lparr>cf_DeviceCredential := ''k''\<rparr>"

definition lobby :: "stub_decoder process" where
  "lobby = process_boot (snd (Restore [] [] (sv_New demo_cfg db_empty)))"

definition lobby1 :: "stub_decoder process" where "lobby1 = arrive 0 lobby"
definition lobby2 :: "stub_decoder process" where "lobby2 = acknowledge 0 lobby1"
definition lobby3 :: "stub_decoder process" where "lobby3 = arrive 1 lobby2"

lemma lobby_parts: "pc_server lobby = sv_New demo_cfg db_empty" "pc_conns lobby = Map.empty"
  by (simp_all add: lobby_def process_boot_def Restore_def DeviceRepo_LoadAll_def StreamRepo_LoadAll_def
      List.map_filter_simps sv_New_def)

lemma demo_allowed:
  assumes "sv_cfg s = demo_cfg"
  obtains s1 where "sv_Authenticate None 5 ''dev-1'' ''k'' s = (None, s1)"
proof -
  obtain e s1 where "sv_Authenticate None 5 ''dev-1'' ''k'' s = (e, s1)" by force
  moreover from this have "e = None"
    using assms by (auto simp: sv_Authenticate_def demo_cfg_def ConstantTimeCompare_def Let_def dr_Get_def
        split: sum.splits if_splits option.splits)
  ultimately show ?thesis using that by simp
qed

lemma lobby_run: "process_run decode good demo_cfg db_empty [] lobby"
  unfolding lobby_def by (rule process_run.p_boot)

lemma arrive_run:
  assumes "process_run decode good cfg db tr x" and "pc_conns x ref = None"
    and "sv_Authenticate None 5 ''dev-1'' ''k'' (pc_server x) = (None, s1)"
  shows "process_run decode good cfg db (tr @ [Quiet, Quiet]) (hello_sent ref x)"
    and "process_run decode good cfg db (tr @ [Quiet, Quiet, Welcomed ''dev-1'']) (arrive ref x)"
    and "conn_step ref (hello_sent ref x) (arrive ref x)"
proof -
  let ?x1 = "conn_accept ref x" and ?x2 = "hello_sent ref x"
  have "conn_label ref x ?x1 = Quiet" "conn_label ref ?x1 ?x2 = Quiet"
    using assms(2) by (simp_all add: conn_label_def conn_accept_def hello_sent_def conn_input_def)
  moreover have "process_run decode good cfg db (tr @ [conn_label ref x ?x1]) ?x1"
    by (intro process_run.p_step [OF assms(1)] process_step.conn conn_step.accept assms(2))
  moreover have "conn_step ref ?x1 ?x2" unfolding hello_sent_def by (rule conn_step.input)
  ultimately show run2: "process_run decode good cfg db (tr @ [Quiet, Quiet]) ?x2"
    using process_run.p_step [OF _ process_step.conn, of decode good cfg db "tr @ [Quiet]" ?x1 ref ?x2] by simp
  show step: "conn_step ref ?x2 (arrive ref x)" unfolding arrive_def by (rule conn_step.hello)
  have "conn_label ref ?x2 (arrive ref x) = Welcomed ''dev-1''"
    unfolding demo_arrive [OF assms(3)]
    by (simp add: conn_label_def hello_sent_def conn_input_def conn_accept_def demo_greeting_def)
  with process_run.p_step [OF run2 process_step.conn [OF step]]
  show "process_run decode good cfg db (tr @ [Quiet, Quiet, Welcomed ''dev-1'']) (arrive ref x)" by simp
qed

lemma lobby1_parts:
  "process_run decode good demo_cfg db_empty [Quiet, Quiet, Welcomed ''dev-1''] lobby1"
  "pc_conns lobby1 = [0 \<mapsto> \<lparr>cn_session = NewSession [], cn_hello = Some demo_greeting\<rparr>]"
  "sv_cfg (pc_server lobby1) = demo_cfg"
  "dr_Online (sv_device (pc_server lobby1)) ''dev-1''"
proof -
  obtain s1 where auth: "sv_Authenticate None 5 ''dev-1'' ''k'' (pc_server lobby) = (None, s1)"
    using demo_allowed [of "pc_server lobby"] by (auto simp: lobby_parts sv_New_def)
  show "process_run decode good demo_cfg db_empty [Quiet, Quiet, Welcomed ''dev-1''] lobby1"
    using arrive_run(2) [OF lobby_run _ auth] by (simp add: lobby1_def lobby_parts)
  show "pc_conns lobby1 = [0 \<mapsto> \<lparr>cn_session = NewSession [], cn_hello = Some demo_greeting\<rparr>]"
    by (simp add: lobby1_def demo_arrive [OF auth] lobby_parts)
  show "sv_cfg (pc_server lobby1) = demo_cfg" "dr_Online (sv_device (pc_server lobby1)) ''dev-1''"
    using Authenticate_control [OF auth]
    by (simp_all add: lobby1_def demo_arrive [OF auth] lobby_parts sv_New_def dr_Online_def)
qed

lemma lobby2_parts:
  "process_run decode good demo_cfg db_empty [Quiet, Quiet, Welcomed ''dev-1'', Joined ''dev-1''] lobby2"
  "\<exists>c. pc_conns lobby2 = [0 \<mapsto> c] \<and> announced ''dev-1'' c"
  "sv_cfg (pc_server lobby2) = demo_cfg" "mg_sessions (sv_ctrl (pc_server lobby2)) ''dev-1'' = Some 0"
proof -
  note inv = process_run_inv [OF lobby1_parts(1)]
  obtain se where E: "lobby2 = \<lparr>pc_server = sv_OnReady 0 ''dev-1'' (pc_server lobby1),
      pc_conns = (pc_conns lobby1)(0 \<mapsto> \<lparr>cn_session = se, cn_hello = Some demo_greeting\<rparr>)\<rparr>"
      "se_onReady se = [''dev-1'']" "se_result se = None"
    using demo_acknowledge [OF inv, of 0] lobby1_parts(2) unfolding lobby2_def by auto
  have "conn_step 0 lobby1 lobby2" unfolding lobby2_def acknowledge_def by (rule conn_step.ack)
  moreover have "conn_label 0 lobby1 lobby2 = Joined ''dev-1''"
    by (simp add: conn_label_def E lobby1_parts(2)) (simp add: NewSession_def demo_greeting_def)
  ultimately show "process_run decode good demo_cfg db_empty [Quiet, Quiet, Welcomed ''dev-1'', Joined ''dev-1''] lobby2"
    using process_run.p_step [OF lobby1_parts(1) process_step.conn] by fastforce
  show "\<exists>c. pc_conns lobby2 = [0 \<mapsto> c] \<and> announced ''dev-1'' c"
    by (intro exI [of _ "\<lparr>cn_session = se, cn_hello = Some demo_greeting\<rparr>"])
      (simp add: E lobby1_parts(2) announced_def, simp add: demo_greeting_def)
  show "sv_cfg (pc_server lobby2) = demo_cfg" "mg_sessions (sv_ctrl (pc_server lobby2)) ''dev-1'' = Some 0"
    by (simp_all add: E lobby1_parts(3))
qed

lemma lobby3_parts:
  "\<exists>tr. process_run decode good demo_cfg db_empty tr lobby3"
  "\<exists>c. pc_conns lobby3 = [0 \<mapsto> c, 1 \<mapsto> \<lparr>cn_session = NewSession [], cn_hello = Some demo_greeting\<rparr>] \<and> announced ''dev-1'' c"
  "mg_sessions (sv_ctrl (pc_server lobby3)) ''dev-1'' = Some 0"
proof -
  obtain s1 where auth: "sv_Authenticate None 5 ''dev-1'' ''k'' (pc_server lobby2) = (None, s1)"
    using demo_allowed [OF lobby2_parts(3)] .
  obtain c where c: "pc_conns lobby2 = [0 \<mapsto> c]" "announced ''dev-1'' c" using lobby2_parts(2) by blast
  have "pc_conns lobby2 1 = None" by (simp add: c)
  from arrive_run(2) [OF lobby2_parts(1) this auth] show "\<exists>tr. process_run decode good demo_cfg db_empty tr lobby3"
    unfolding lobby3_def by blast
  have E: "lobby3 = \<lparr>pc_server = s1, pc_conns = (pc_conns lobby2)(1 \<mapsto> \<lparr>cn_session = NewSession [], cn_hello = Some demo_greeting\<rparr>)\<rparr>"
    unfolding lobby3_def by (rule demo_arrive [OF auth])
  show "\<exists>c. pc_conns lobby3 = [0 \<mapsto> c, 1 \<mapsto> \<lparr>cn_session = NewSession [], cn_hello = Some demo_greeting\<rparr>] \<and> announced ''dev-1'' c"
    and "mg_sessions (sv_ctrl (pc_server lobby3)) ''dev-1'' = Some 0"
    unfolding E using c lobby2_parts(4) Authenticate_control [OF auth] by auto
qed

lemma demo_awaits: "awaits_ack \<lparr>cn_session = NewSession [], cn_hello = Some demo_greeting\<rparr> demo_greeting"
  "hl_DeviceID demo_greeting = ''dev-1''"
  by (simp_all add: awaits_ack_def NewSession_def demo_greeting_def)

section \<open>Witnesses\<close>


theorem sessions_are_authenticated_witness:
  "\<exists>c. pc_conns lobby2 0 = Some c \<and> se_result (cn_session c) = None \<and> se_deviceID (cn_session c) = ''dev-1''"
  using sessions_are_authenticated [OF lobby2_parts(1,4)] by blast

theorem unauthenticated_peer_is_inert_witness:
  "\<exists>c h. pc_conns lobby1 0 = Some c \<and> cn_hello c = Some h \<and> hl_Credential h = ''k''"
proof -
  obtain s1 where auth: "sv_Authenticate None 5 ''dev-1'' ''k'' (pc_server lobby) = (None, s1)"
    using demo_allowed [of "pc_server lobby"] by (auto simp: lobby_parts sv_New_def)
  have free: "pc_conns lobby 0 = None" by (simp add: lobby_parts)
  have "\<not> dr_Online (sv_device (pc_server (hello_sent 0 lobby))) ''dev-1''"
    by (simp add: hello_sent_def conn_input_def conn_accept_def lobby_parts sv_New_def dr_New_def dr_Online_def)
  with lobby1_parts(4) have "pc_server lobby1 \<noteq> pc_server (hello_sent 0 lobby)" by metis
  from unauthenticated_peer_is_inert [OF arrive_run(1,3) [OF lobby_run free auth] this [unfolded lobby1_def]]
  show ?thesis by (auto simp: lobby1_def demo_cfg_def)
qed

theorem presence_matches_sessions_witness:
  "dr_Online (sv_device (pc_server lobby2)) ''dev-1'' = mg_IsConnected (sv_ctrl (pc_server lobby2)) ''dev-1''"
proof -
  have "arriving [Quiet, Quiet, Welcomed ''dev-1'', Joined ''dev-1''] = Some {}" by (simp add: arriving_def)
  from presence_matches_sessions [OF lobby2_parts(1) this] show ?thesis by simp
qed

theorem reconnect_race_shows_offline_witness:
  "\<exists>x. mg_IsConnected (sv_ctrl (pc_server x)) ''dev-1'' \<and> \<not> dr_Online (sv_device (pc_server x)) ''dev-1'' \<and>
    x = acknowledge 1 (conn_event hello_parse (\<lambda>_. None) [] (\<lambda>_ _. 0) 0 Cancel lobby3)"
proof -
  obtain tr where run: "process_run stub_Decode (\<lambda>_. True) demo_cfg db_empty tr lobby3" using lobby3_parts(1) by blast
  obtain c where c: "pc_conns lobby3 = [0 \<mapsto> c, 1 \<mapsto> \<lparr>cn_session = NewSession [], cn_hello = Some demo_greeting\<rparr>]"
    "announced ''dev-1'' c" using lobby3_parts(2) by blast
  let ?x1 = "conn_event hello_parse (\<lambda>_. None) [] (\<lambda>_ _. 0) 0 Cancel lobby3"
  have waiting: "pc_conns lobby3 1 = Some \<lparr>cn_session = NewSession [], cn_hello = Some demo_greeting\<rparr>" by (simp add: c)
  have current: "mg_sessions (sv_ctrl (pc_server lobby3)) (hl_DeviceID demo_greeting) = Some 0"
    using lobby3_parts(3) by (simp add: demo_awaits)
  have "\<exists>o1. pc_conns ?x1 0 = Some o1 \<and> se_result (cn_session o1) \<noteq> None"
    using c by (simp add: conn_event_def announced_def run_return_def Let_def)
  then obtain o1 where "pc_conns ?x1 0 = Some o1" "se_result (cn_session o1) \<noteq> None" by blast
  from reconnect_race_shows_offline [OF run waiting demo_awaits(1) current conn_step.event this, of "\<lambda>_. None" "[1]" 7, OF _ refl]
  show ?thesis by (simp add: demo_awaits acknowledge_def)
qed

theorem lost_ack_shows_online_witness:
  "\<exists>x :: stub_decoder process. dr_Online (sv_device (pc_server x)) ''dev-1'' \<and> (\<exists>d. pc_conns x 0 = Some d \<and> se_result (cn_session d) \<noteq> None)"
proof -
  have waiting: "pc_conns lobby1 0 = Some \<lparr>cn_session = NewSession [], cn_hello = Some demo_greeting\<rparr>"
    by (simp add: lobby1_parts)
  let ?x = "conn_ack (\<lambda>_. Some (Sentinel NetErrClosed)) [1] 7 [] (\<lambda>_ _. 0) 0 lobby1"
  have run: "process_run stub_Decode (\<lambda>_. True) demo_cfg db_empty [Quiet, Quiet, Welcomed ''dev-1''] lobby1"
    by (rule lobby1_parts(1))
  have "pc_server ?x = pc_server lobby1 \<and> (\<exists>d. pc_conns ?x 0 = Some d \<and> se_result (cn_session d) \<noteq> None)"
    using lost_ack_shows_online [OF run waiting demo_awaits(1), of "\<lambda>_. Some (Sentinel NetErrClosed)" "[1]" 7, OF refl refl,
        of "[]" "\<lambda>_ _. 0"] by blast
  with lobby1_parts(4) show ?thesis by (intro exI [of _ ?x]) simp
qed

end
