(* ===== verification/Device_Frame.thy ===== *)
theory Device_Frame
  imports Frame
begin

text \<open>
  \<open>client/components/control_protocol/control_frame.c\<close>: the firmware's side of the control
  framing. The decoder reassembles frames in a buffer of fixed size; the lemmas show that it
  decodes the same stream as the server's readers of \<open>Frame\<close>, that its loop always ends and that
  it never writes outside its buffer. A C array is the list of its bytes, a pointer that may be
  \<open>NULL\<close> an option, and the callback's calls are the list of the payloads it got.
\<close>

section \<open>The code\<close>

definition CP_LENGTH_PREFIX_SIZE :: nat where
  "CP_LENGTH_PREFIX_SIZE = 4"

definition CP_MAX_PAYLOAD :: nat where
  "CP_MAX_PAYLOAD = 16384"

definition CP_OK :: int where "CP_OK = 0"
definition CP_ERR_ARG :: int where "CP_ERR_ARG = - 1"
definition CP_ERR_OVERSIZE :: int where "CP_ERR_OVERSIZE = - 2"
definition CP_ERR_NOSPACE :: int where "CP_ERR_NOSPACE = - 3"

definition put_be32 :: "u32 \<Rightarrow> bytes" where
  "put_be32 v = [ucast (drop_bit 24 v AND 0xFF), ucast (drop_bit 16 v AND 0xFF),
     ucast (drop_bit 8 v AND 0xFF), ucast (v AND 0xFF)]"

definition get_be32 :: "bytes \<Rightarrow> u32" where
  "get_be32 buf = push_bit 24 (ucast (buf ! 0)) OR push_bit 16 (ucast (buf ! 1)) OR
     push_bit 8 (ucast (buf ! 2)) OR ucast (buf ! 3)"

text \<open>\<open>memcpy(buf + off, data, len)\<close>\<close>

definition overwrite :: "nat \<Rightarrow> bytes \<Rightarrow> bytes \<Rightarrow> bytes" where
  "overwrite off data buf = take off buf @ data @ drop (off + length data) buf"

definition cp_frame_encode :: "bytes option \<Rightarrow> u32 \<Rightarrow> bytes option \<Rightarrow> nat \<Rightarrow> int \<times> bytes option" where
  "cp_frame_encode json json_len out out_cap =
     (if out = None \<or> (json = None \<and> 0 < json_len) then (CP_ERR_ARG, out)
      else if CP_MAX_PAYLOAD < unat json_len then (CP_ERR_OVERSIZE, out)
      else if out_cap < CP_LENGTH_PREFIX_SIZE + unat json_len then (CP_ERR_NOSPACE, out)
      else
        let buf = overwrite 0 (put_be32 json_len) (the out);
            buf' = (if 0 < json_len
                    then overwrite CP_LENGTH_PREFIX_SIZE (take (unat json_len) (the json)) buf else buf)
        in (int (CP_LENGTH_PREFIX_SIZE + unat json_len), Some buf'))"

record cp_decoder =
  cd_buf :: bytes
  cd_used :: nat
  cd_failed :: bool

definition cp_decoder_init :: "cp_decoder \<Rightarrow> cp_decoder" where
  "cp_decoder_init d = d\<lparr>cd_used := 0, cd_failed := False\<rparr>"

text \<open>The \<open>memmove\<close> that shifts the bytes of the next frame to the front.\<close>

definition cp_shift :: "nat \<Rightarrow> cp_decoder \<Rightarrow> cp_decoder" where
  "cp_shift frame_total d =
     (let remaining = cd_used d - frame_total in
      d\<lparr>cd_buf := overwrite 0 (take remaining (drop frame_total (cd_buf d))) (cd_buf d),
        cd_used := remaining\<rparr>)"

text \<open>The inner loop: every complete frame that is in the buffer.\<close>

function cp_extract :: "cp_decoder \<Rightarrow> bytes list \<Rightarrow> (int \<times> bytes list) \<times> cp_decoder" where
  "cp_extract d frames =
     (if cd_used d < CP_LENGTH_PREFIX_SIZE then ((CP_OK, frames), d)
      else
        let plen = get_be32 (cd_buf d) in
        if CP_MAX_PAYLOAD < unat plen then ((CP_ERR_OVERSIZE, frames), d\<lparr>cd_failed := True\<rparr>)
        else
          let frame_total = CP_LENGTH_PREFIX_SIZE + unat plen in
          if cd_used d < frame_total then ((CP_OK, frames), d)
          else cp_extract (cp_shift frame_total d)
                 (frames @ [take (unat plen) (drop CP_LENGTH_PREFIX_SIZE (cd_buf d))]))"
  by pat_completeness auto
termination
  by (relation "measure (\<lambda>(d, frames). cd_used d)")
    (auto simp: cp_shift_def CP_LENGTH_PREFIX_SIZE_def Let_def)

declare cp_extract.simps [simp del]

definition cp_append :: "bytes \<Rightarrow> cp_decoder \<Rightarrow> cp_decoder" where
  "cp_append data d =
     d\<lparr>cd_buf := overwrite (cd_used d) data (cd_buf d), cd_used := cd_used d + length data\<rparr>"

text \<open>
  The outer loop, over the input that is left. A full buffer takes no byte and would loop for
  ever: the value \<open>None\<close>.
\<close>

partial_function (option) cp_push_loop ::
  "cp_decoder \<Rightarrow> bytes \<Rightarrow> bytes list \<Rightarrow> ((int \<times> bytes list) \<times> cp_decoder) option" where
  "cp_push_loop d data frames =
     (if data = [] then Some ((CP_OK, frames), d)
      else
        let n = min (length data) (length (cd_buf d) - cd_used d);
            r = cp_extract (cp_append (take n data) d) frames
        in if fst (fst r) \<noteq> CP_OK then Some r
           else cp_push_loop (snd r) (drop n data) (snd (fst r)))"

definition cp_decoder_push ::
  "cp_decoder option \<Rightarrow> bytes \<Rightarrow> ((int \<times> bytes list) \<times> cp_decoder option) option" where
  "cp_decoder_push dp data =
     (case dp of
        None \<Rightarrow> Some ((CP_ERR_ARG, []), None)
      | Some d \<Rightarrow>
          if cd_failed d then Some ((CP_ERR_OVERSIZE, []), dp)
          else map_option (map_prod id Some) (cp_push_loop d data []))"

text \<open>
  \<open>cp_message_type\<close>: the scan for the bytes \<open>"type"\<close>, the white space and colons after
  them, and the quoted value, of which \<open>out_cap - 1\<close> bytes are kept. The index of the loops is
  the list of the bytes that are left.
\<close>

definition type_key :: bytes where
  "type_key = [34, 116, 121, 112, 101, 34]"

definition cp_separator :: "byte \<Rightarrow> bool" where
  "cp_separator b \<longleftrightarrow> b = 32 \<or> b = 9 \<or> b = 10 \<or> b = 13 \<or> b = 58"

fun cp_value :: "nat \<Rightarrow> bytes \<Rightarrow> bytes \<Rightarrow> bytes option" where
  "cp_value out_cap [] out = None"
| "cp_value out_cap (b # bs) out =
     (if b = 34 then Some out
      else cp_value out_cap bs (if length out + 1 < out_cap then out @ [b] else out))"

fun cp_scan :: "nat \<Rightarrow> bytes \<Rightarrow> int + bytes" where
  "cp_scan out_cap [] = Inl CP_ERR_ARG"
| "cp_scan out_cap (b # bs) =
     (if length (b # bs) < length type_key then Inl CP_ERR_ARG
      else if take (length type_key) (b # bs) = type_key then
        (case dropWhile cp_separator (drop (length type_key) (b # bs)) of
           [] \<Rightarrow> Inl CP_ERR_ARG
         | q # rest \<Rightarrow>
             if q \<noteq> 34 then Inl CP_ERR_ARG
             else (case cp_value out_cap rest [] of None \<Rightarrow> Inl CP_ERR_ARG | Some out \<Rightarrow> Inr out))
      else cp_scan out_cap bs)"

definition cp_message_type :: "bytes option \<Rightarrow> nat \<Rightarrow> int + bytes" where
  "cp_message_type json out_cap =
     (case json of
        None \<Rightarrow> Inl CP_ERR_ARG
      | Some bs \<Rightarrow> if out_cap = 0 then Inl CP_ERR_ARG else cp_scan out_cap bs)"

section \<open>The words of the prefix\<close>

lemma mask_byte: "(0xFF :: u32) = mask 8"
  by (simp add: mask_eq_exp_minus_1)

lemma put_be32_bytes: "put_be32 v = be_bytes 4 v"
  unfolding put_be32_def mask_byte
  by (simp add: be_bytes_def numeral_eq_Suc)
    (intro conjI; rule bit_word_eqI; auto simp: bit_simps)

lemma put_get_be32: "put_be32 (get_be32 [a, b, c, d]) = [a, b, c, d]"
  unfolding put_be32_def get_be32_def mask_byte list.inject
  by (intro conjI; (rule bit_word_eqI)?) (auto simp: bit_simps dest: bit_imp_le_length)

lemma get_be32_word:
  assumes "4 \<le> length buf"
  shows "get_be32 buf = be_word (take 4 buf)"
proof -
  obtain a b c d rest where buf: "buf = a # b # c # d # rest"
    using assms by (auto simp: numeral_eq_Suc Suc_le_length_iff)
  have "get_be32 buf = get_be32 [a, b, c, d]" by (simp add: buf get_be32_def)
  also have "\<dots> = be_word (be_bytes 4 (get_be32 [a, b, c, d]))"
    by (simp add: be_word_be_bytes)
  also have "\<dots> = be_word (take 4 buf)"
    unfolding put_be32_bytes [symmetric] put_get_be32 by (simp add: buf)
  finally show ?thesis .
qed

section \<open>The decoder reads the stream\<close>

text \<open>What is buffered, and that the buffer has its declared size and is not overrun.\<close>

definition cp_content :: "cp_decoder \<Rightarrow> bytes" where
  "cp_content d = take (cd_used d) (cd_buf d)"

definition cp_fits :: "cp_decoder \<Rightarrow> bool" where
  "cp_fits d \<longleftrightarrow> length (cd_buf d) = CP_LENGTH_PREFIX_SIZE + CP_MAX_PAYLOAD \<and> cd_used d \<le> length (cd_buf d)"

lemmas cp_sizes = CP_LENGTH_PREFIX_SIZE_def CP_MAX_PAYLOAD_def MaxPayloadBytes_def

lemma length_overwrite: "off + length data \<le> length buf \<Longrightarrow> length (overwrite off data buf) = length buf"
  by (simp add: overwrite_def)

lemma take_overwrite: "off \<le> length buf \<Longrightarrow> take (off + length data) (overwrite off data buf) = take off buf @ data"
  by (simp add: overwrite_def)

lemma length_content: "cp_fits d \<Longrightarrow> length (cp_content d) = cd_used d"
  by (simp add: cp_content_def cp_fits_def)

lemma header_content:
  assumes "cp_fits d" "4 \<le> cd_used d"
  shows "header_len (cp_content d) = unat (get_be32 (cd_buf d))"
proof -
  have "take 4 (cp_content d) = take 4 (cd_buf d)"
    using assms by (simp add: cp_content_def min_def)
  then show ?thesis
    using assms by (simp add: header_len_def get_be32_word cp_fits_def)
qed

lemma content_append:
  assumes "cp_fits d" "length data \<le> length (cd_buf d) - cd_used d"
  shows "cp_fits (cp_append data d)" "cp_content (cp_append data d) = cp_content d @ data"
  using assms by (auto simp: cp_fits_def cp_append_def cp_content_def length_overwrite take_overwrite)

lemma content_shift:
  assumes "cp_fits d" "n \<le> cd_used d"
  shows "cp_fits (cp_shift n d)" "cp_content (cp_shift n d) = drop n (cp_content d)"
  using assms
  by (auto simp: cp_fits_def cp_shift_def cp_content_def Let_def overwrite_def drop_take)

lemma frames_of_rest_Some:
  "take_frame s = Some (p, r) \<Longrightarrow> snd (frames_of s) = snd (frames_of r) \<and> fst (frames_of s) = p # fst (frames_of r)"
  by (simp add: frames_of_Some)

lemma cp_extract_spec:
  assumes "cp_fits d"
  shows "\<exists>d'. cp_extract d frames =
      ((if oversize (snd (frames_of (cp_content d))) then CP_ERR_OVERSIZE else CP_OK,
        frames @ fst (frames_of (cp_content d))), d') \<and>
    cp_fits d' \<and> cp_content d' = snd (frames_of (cp_content d)) \<and>
    cd_failed d' = (cd_failed d \<or> oversize (snd (frames_of (cp_content d))))"
  using assms
proof (induction d frames rule: cp_extract.induct)
  case (1 d frames)
  let ?s = "cp_content d"
  have len: "length ?s = cd_used d" using "1.prems" by (rule length_content)
  show ?case
  proof (cases "take_frame ?s")
    case None
    then have "frames_of ?s = ([], ?s)" by (rule frames_of_None)
    with None len "1.prems" header_content [of d] show ?thesis
      by (auto simp: cp_extract.simps [of d] take_frame_def oversize_def cp_sizes Let_def cp_fits_def
          cp_content_def)
  next
    case (Some x)
    let ?n = "CP_LENGTH_PREFIX_SIZE + unat (get_be32 (cd_buf d))"
    let ?p = "take (unat (get_be32 (cd_buf d))) (drop CP_LENGTH_PREFIX_SIZE (cd_buf d))"
    have used: "\<not> cd_used d < CP_LENGTH_PREFIX_SIZE" "\<not> CP_MAX_PAYLOAD < unat (get_be32 (cd_buf d))"
      "\<not> cd_used d < ?n"
      and x: "x = (?p, drop ?n ?s)"
      using Some len header_content [OF "1.prems"]
      by (auto simp: take_frame_def cp_sizes cp_content_def drop_take min_def split: if_splits)
    have "cp_extract d frames = cp_extract (cp_shift ?n d) (frames @ [?p])"
      using used by (simp add: cp_extract.simps [of d] Let_def)
    moreover have "cp_fits (cp_shift ?n d)" "cp_content (cp_shift ?n d) = drop ?n ?s"
      using content_shift [OF "1.prems", of ?n] used by simp_all
    moreover have "cd_failed (cp_shift ?n d) = cd_failed d" by (simp add: cp_shift_def Let_def)
    ultimately show ?thesis
      using "1.IH" [OF used(1) refl used(2) refl used(3)] frames_of_rest_Some [OF Some [unfolded x]] by simp
  qed
qed

text \<open>A decoder between two calls: it has not failed and holds the start of one legal frame.\<close>

definition cp_waiting :: "cp_decoder \<Rightarrow> bool" where
  "cp_waiting d \<longleftrightarrow> cp_fits d \<and> \<not> cd_failed d \<and> take_frame (cp_content d) = None \<and> \<not> oversize (cp_content d)"

lemma waiting_room:
  assumes "cp_waiting d"
  shows "cd_used d < length (cd_buf d)"
proof -
  have "length (cp_content d) < 4 + MaxPayloadBytes"
    using assms rest_bound [of "cp_content d"] by (simp add: cp_waiting_def frames_of_None)
  with assms show ?thesis by (simp add: cp_waiting_def length_content cp_fits_def cp_sizes)
qed

lemma cp_codes_distinct [simp]: "CP_ERR_OVERSIZE \<noteq> CP_OK" "CP_OK \<noteq> CP_ERR_OVERSIZE"
  by (simp_all add: CP_OK_def CP_ERR_OVERSIZE_def)

lemma cp_push_loop_spec:
  assumes "cp_waiting d"
  shows "\<exists>d'. cp_push_loop d data frames =
      Some ((if oversize (snd (frames_of (cp_content d @ data))) then CP_ERR_OVERSIZE else CP_OK,
        frames @ fst (frames_of (cp_content d @ data))), d') \<and>
    cp_fits d' \<and> cd_failed d' = oversize (snd (frames_of (cp_content d @ data))) \<and>
    (\<not> cd_failed d' \<longrightarrow> cp_waiting d' \<and> cp_content d' = snd (frames_of (cp_content d @ data)))"
  using assms
proof (induction "length data" arbitrary: d data frames rule: less_induct)
  case less
  note ok = less.prems [unfolded cp_waiting_def]
  show ?case
  proof (cases "data = []")
    case True
    with less.prems show ?thesis
      by (auto simp: cp_push_loop.simps [of d] frames_of_None cp_waiting_def)
  next
    case False
    let ?n = "min (length data) (length (cd_buf d) - cd_used d)"
    let ?a = "cp_append (take ?n data) d"
    let ?t = "cp_content d @ take ?n data"
    have split: "cp_content d @ data = ?t @ drop ?n data" by simp
    have a: "cp_fits ?a" "cp_content ?a = ?t" using content_append [of d "take ?n data"] ok by auto
    have "cd_failed ?a = False" using ok by (simp add: cp_append_def)
    with cp_extract_spec [OF a(1), of frames] obtain d' where d': "cp_extract ?a frames =
        ((if oversize (snd (frames_of ?t)) then CP_ERR_OVERSIZE else CP_OK, frames @ fst (frames_of ?t)), d')"
      "cp_fits d'" "cp_content d' = snd (frames_of ?t)" "cd_failed d' = oversize (snd (frames_of ?t))"
      unfolding a(2) by auto
    show ?thesis
    proof (cases "oversize (snd (frames_of ?t))")
      case True
      then have push: "cp_push_loop d data frames =
          Some ((CP_ERR_OVERSIZE, frames @ fst (frames_of ?t)), d')"
        using False d' by (simp add: cp_push_loop.simps [of d] Let_def)
      show ?thesis
        unfolding split using push d' True frames_of_oversize [OF True, of "drop ?n data"] by simp
    next
      case ok': False
      have w: "cp_waiting d'" using d' ok' frames_of_rest [of ?t] by (simp add: cp_waiting_def)
      have "length (drop ?n data) < length data" using False waiting_room [OF less.prems] by simp
      note IH = less.hyps [OF this w, of "frames @ fst (frames_of ?t)"]
      have "cp_push_loop d data frames = cp_push_loop d' (drop ?n data) (frames @ fst (frames_of ?t))"
        using False d' ok' by (simp add: cp_push_loop.simps [of d] Let_def)
      with IH show ?thesis
        unfolding split frames_of_append [of ?t] d'(3) by simp
    qed
  qed
qed

text \<open>What the receive loop of \<open>run_session\<close> does with its reads: it stops at the first error.\<close>

fun cp_push_all :: "cp_decoder option \<Rightarrow> bytes list \<Rightarrow> ((int \<times> bytes list) \<times> cp_decoder option) option" where
  "cp_push_all dp [] = Some ((CP_OK, []), dp)"
| "cp_push_all dp (c # cs) =
     (case cp_decoder_push dp c of
        None \<Rightarrow> None
      | Some ((rc, fs), dp') \<Rightarrow>
          if rc = CP_ERR_OVERSIZE then Some ((rc, fs), dp')
          else map_option (\<lambda>((rc', gs), dp''). ((rc', fs @ gs), dp'')) (cp_push_all dp' cs))"

lemma cp_push_all_spec:
  assumes "cp_waiting d"
  shows "\<exists>d'. cp_push_all (Some d) cs =
      Some ((if oversize (snd (frames_of (cp_content d @ concat cs))) then CP_ERR_OVERSIZE else CP_OK,
        fst (frames_of (cp_content d @ concat cs))), Some d') \<and>
    cp_fits d' \<and> cd_failed d' = oversize (snd (frames_of (cp_content d @ concat cs)))"
  using assms
proof (induction cs arbitrary: d)
  case Nil
  then show ?case by (simp add: cp_waiting_def frames_of_None)
next
  case (Cons c cs)
  let ?t = "cp_content d @ c"
  obtain d' where d': "cp_push_loop d c [] =
      Some ((if oversize (snd (frames_of ?t)) then CP_ERR_OVERSIZE else CP_OK, fst (frames_of ?t)), d')"
    "cp_fits d'" "cd_failed d' = oversize (snd (frames_of ?t))"
    "\<not> cd_failed d' \<longrightarrow> cp_waiting d' \<and> cp_content d' = snd (frames_of ?t)"
    using cp_push_loop_spec [OF Cons.prems, of c "[]"] by auto
  have "\<not> cd_failed d" using Cons.prems by (simp add: cp_waiting_def)
  with d' have push: "cp_decoder_push (Some d) c =
      Some ((if oversize (snd (frames_of ?t)) then CP_ERR_OVERSIZE else CP_OK, fst (frames_of ?t)), Some d')"
    by (simp add: cp_decoder_push_def)
  have split: "cp_content d @ concat (c # cs) = ?t @ concat cs" by simp
  show ?case
  proof (cases "oversize (snd (frames_of ?t))")
    case True
    with push d' frames_of_oversize [OF True, of "concat cs"] show ?thesis unfolding split by simp
  next
    case False
    with push d' Cons.IH [of d'] show ?thesis unfolding split frames_of_append [of ?t] by auto
  qed
qed

lemma cp_init_waiting:
  "length (cd_buf d) = CP_LENGTH_PREFIX_SIZE + CP_MAX_PAYLOAD \<Longrightarrow> cp_waiting (cp_decoder_init d)"
  "cp_content (cp_decoder_init d) = []"
  by (simp_all add: cp_waiting_def cp_fits_def cp_decoder_init_def cp_content_def take_frame_def oversize_def)

section \<open>The encoder writes the stream\<close>

lemma cp_frame_encode_ok:
  assumes "length p \<le> CP_MAX_PAYLOAD" "out_cap \<le> length out" "CP_LENGTH_PREFIX_SIZE + length p \<le> out_cap"
  shows "cp_frame_encode (Some p) (word_of_nat (length p)) (Some out) out_cap =
    (int (4 + length p), Some (encode_frame p @ drop (4 + length p) out))"
proof -
  have n: "unat (word_of_nat (length p) :: u32) = length p"
    using assms(1) by (simp add: CP_MAX_PAYLOAD_def unsigned_of_nat take_bit_nat_eq_self)
  have zero: "(word_of_nat (length p) :: u32) = 0 \<longleftrightarrow> p = []"
    using n by (metis length_0_conv unat_eq_zero)
  show ?thesis
    using assms n zero
    by (auto simp: cp_frame_encode_def put_be32_bytes encode_frame_def overwrite_def Let_def
        CP_LENGTH_PREFIX_SIZE_def word_gt_0 add.commute)
qed

lemma cp_frame_encode_oversize:
  assumes "CP_MAX_PAYLOAD < length p" "length p < 2 ^ 32"
  shows "cp_frame_encode (Some p) (word_of_nat (length p)) (Some out) out_cap = (CP_ERR_OVERSIZE, Some out)"
  using assms by (simp add: cp_frame_encode_def unsigned_of_nat take_bit_nat_eq_self)

text \<open>What \<open>send_json\<close> puts on the wire: it allocates a buffer of just the right size.\<close>

definition device_frame :: "bytes \<Rightarrow> bytes" where
  "device_frame json =
     (let cap = CP_LENGTH_PREFIX_SIZE + length json in
      case cp_frame_encode (Some json) (word_of_nat (length json)) (Some (replicate cap 0)) cap of
        (n, Some framed) \<Rightarrow> if 0 < n then take (nat n) framed else []
      | (n, None) \<Rightarrow> [])"

lemma device_frame_eq: "length p \<le> MaxPayloadBytes \<Longrightarrow> device_frame p = encode_frame p"
  using cp_frame_encode_ok [of p "4 + length p" "replicate (4 + length p) 0"]
  by (simp add: device_frame_def Let_def cp_sizes length_encode_frame nat_add_distrib)

lemma device_frame_oversize:
  "MaxPayloadBytes < length p \<Longrightarrow> length p < 2 ^ 32 \<Longrightarrow> device_frame p = []"
  using cp_frame_encode_oversize [of p]
  by (simp add: device_frame_def Let_def cp_sizes CP_ERR_OVERSIZE_def)

section \<open>Properties\<close>

lemma server_reads_stream:
  "fst (fr_push_all \<lparr>fr_buf = []\<rparr> chunks) = (fst (frames_of (concat chunks)),
     if oversize (snd (frames_of (concat chunks))) then Some (Sentinel ErrFrameTooLarge) else None)"
proof -
  have "oversize (snd (frames_of [])) = False"
    by (simp add: frames_of_None take_frame_Nil oversize_def)
  then show ?thesis
    using fr_push_all_eq [of "\<lparr>fr_buf = []\<rparr>" chunks] by (cases chunks) (simp_all add: take_frame_Nil)
qed

text \<open>C12. The firmware and the server decode the same stream: on any byte stream, cut into
  segments in any two ways, the firmware's decoder returns, delivers exactly the frames that the
  server's reader delivers, ends with \<open>CP_ERR_OVERSIZE\<close> exactly when the server refuses the
  stream, and has not left its fixed buffer.\<close>

theorem device_and_server_decoders_agree:
  assumes "length (cd_buf d) = CP_LENGTH_PREFIX_SIZE + CP_MAX_PAYLOAD"
    and "concat chunks = concat chunks'"
  shows "\<exists>d'. cp_push_all (Some (cp_decoder_init d)) chunks =
      Some ((if snd (fst (fr_push_all \<lparr>fr_buf = []\<rparr> chunks')) = None then CP_OK else CP_ERR_OVERSIZE,
        fst (fst (fr_push_all \<lparr>fr_buf = []\<rparr> chunks'))), Some d') \<and>
    length (cd_buf d') = length (cd_buf d) \<and> cd_used d' \<le> length (cd_buf d')"
  using cp_push_all_spec [OF cp_init_waiting(1) [OF assms(1)], of chunks] assms
  by (auto simp: server_reads_stream cp_init_waiting(2) cp_fits_def)

theorem device_and_server_decoders_agree_witness:
  "\<exists>d'. cp_push_all (Some (cp_decoder_init
        \<lparr>cd_buf = replicate (CP_LENGTH_PREFIX_SIZE + CP_MAX_PAYLOAD) 0, cd_used = 9, cd_failed = True\<rparr>))
      [[0, 0], [0, 1, 7, 0, 0], [0, 1, 5]] = Some ((CP_OK, [[7], [5]]), Some d')"
proof -
  let ?d = "\<lparr>cd_buf = replicate (CP_LENGTH_PREFIX_SIZE + CP_MAX_PAYLOAD) 0, cd_used = 9, cd_failed = True\<rparr>"
  have stream: "concat [[0, 0, 0, 1, 7], [0, 0, 0, 1, 5]] = concat (map encode_frame [[7], [5]])"
    by code_simp
  have run: "fst (fr_push_all \<lparr>fr_buf = []\<rparr> [[0, 0, 0, 1, 7], [0, 0, 0, 1, 5]]) = ([[7], [5]], None)"
    unfolding server_reads_stream stream
    by (subst frames_of_encode, simp add: MaxPayloadBytes_def)+ (simp add: oversize_def)
  have size: "length (cd_buf ?d) = CP_LENGTH_PREFIX_SIZE + CP_MAX_PAYLOAD" by simp
  have cut: "concat [[0, 0], [0, 1, 7, 0, 0], [0, 1, 5]] = concat [[0, 0, 0, 1, 7], [0, 0, 0, 1, 5 :: byte]]"
    by simp
  show ?thesis
    using device_and_server_decoders_agree [OF size cut] unfolding run fst_conv snd_conv
    by (simp only: if_True refl) blast
qed

text \<open>The two ends of the link understand each other's framing: what the firmware frames, up to
  16 KiB a message, the server's reader gives back unchanged and in order, and what the server
  writes with \<open>WriteFrame\<close> the firmware's decoder gives back, wherever TCP cuts the bytes. A longer
  message the firmware does not send at all.\<close>

theorem frames_cross_the_link:
  assumes "\<forall>p\<in>set ps. length p \<le> MaxPayloadBytes"
    and "length (cd_buf d) = CP_LENGTH_PREFIX_SIZE + CP_MAX_PAYLOAD"
    and "concat up = concat (map device_frame ps)" and "concat down = write_frames ps"
  shows "fst (fr_push_all \<lparr>fr_buf = []\<rparr> up) = (ps, None) \<and>
    map_option fst (cp_push_all (Some (cp_decoder_init d)) down) = Some (CP_OK, ps) \<and>
    (MaxPayloadBytes < length q \<and> length q < 2 ^ 32 \<longrightarrow> device_frame q = [])"
proof -
  have "map device_frame ps = map encode_frame ps" using assms(1) by (simp add: device_frame_eq)
  with assms have "concat up = concat (map encode_frame ps)" "concat down = concat (map encode_frame ps)"
    by (simp_all add: write_frames_encode)
  then have ends: "fst (fr_push_all \<lparr>fr_buf = []\<rparr> up) = (ps, None)"
      "fst (fr_push_all \<lparr>fr_buf = []\<rparr> down) = (ps, None)"
    by (simp_all add: server_reads_stream frames_of_encode [OF assms(1)] oversize_def)
  then show ?thesis
    using cp_push_all_spec [OF cp_init_waiting(1) [OF assms(2)], of down]
    by (auto simp: server_reads_stream cp_init_waiting(2) device_frame_oversize split: if_splits)
qed

theorem frames_cross_the_link_witness:
  "fst (fr_push_all \<lparr>fr_buf = []\<rparr> [[0, 0], [0, 2, 7], [8, 0, 0, 0, 1, 9]]) = ([[7, 8], [9]], None)"
proof -
  let ?buf = "replicate (CP_LENGTH_PREFIX_SIZE + CP_MAX_PAYLOAD) 0 :: bytes"
  have small: "\<forall>p\<in>set [[7, 8], [9]]. length (p :: bytes) \<le> MaxPayloadBytes"
    by (simp add: MaxPayloadBytes_def)
  have stream: "concat [[0, 0], [0, 2, 7], [8, 0, 0, 0, 1, 9]] = concat (map encode_frame [[7, 8], [9]])"
    by code_simp
  then have up: "concat [[0, 0], [0, 2, 7], [8, 0, 0, 0, 1, 9]] = concat (map device_frame [[7, 8], [9]])"
    by (simp add: device_frame_eq MaxPayloadBytes_def)
  have down: "concat [[0, 0, 0, 2, 7], [8, 0, 0, 0, 1, 9]] = write_frames [[7, 8], [9]]"
    unfolding write_frames_encode [OF small] stream [symmetric] by simp
  have "length (cd_buf \<lparr>cd_buf = ?buf, cd_used = 0, cd_failed = False\<rparr>) =
      CP_LENGTH_PREFIX_SIZE + CP_MAX_PAYLOAD"
    by simp
  from frames_cross_the_link [OF small this up down] show ?thesis by (rule conjunct1)
qed

section \<open>The type scanner\<close>

lemma cp_value_plain:
  assumes "34 \<notin> set v" "length out + length v < cap"
  shows "cp_value cap (v @ 34 # rest) out = Some (out @ v)"
  using assms by (induction v arbitrary: out) auto

text \<open>On a message whose text opens with its type, as \<open>encoding/json\<close> prints the server's
  messages, the scanner finds it.\<close>

lemma cp_message_type_first:
  assumes "34 \<notin> set v" "length v < cap" "json = 123 # type_key @ [58, 34] @ v @ 34 # rest"
  shows "cp_message_type (Some json) cap = Inr v"
proof -
  have scan: "cp_scan cap (type_key @ [58, 34] @ v @ 34 # rest) = Inr v"
    using cp_value_plain [OF assms(1), of "[]" cap rest] assms(2)
    by (simp add: type_key_def cp_separator_def)
  have "cp_scan cap json = cp_scan cap (type_key @ [58, 34] @ v @ 34 # rest)"
    unfolding assms(3) cp_scan.simps(2) [of cap 123] by (simp add: type_key_def del: cp_scan.simps)
  with scan assms(2) show ?thesis by (simp add: cp_message_type_def)
qed

text \<open>The scanner is not limited to the top level, nor to member names: here the member
  \<open>"type"\<close> of a nested object wins over the message's own.\<close>

theorem cp_message_type_nested:
  "cp_message_type (Some (str_bytes
      [CHR ''{'', CHR 0x22, CHR ''a'', CHR 0x22, CHR '':'', CHR ''{'', CHR 0x22, CHR ''t'', CHR ''y'', CHR ''p'',
       CHR ''e'', CHR 0x22, CHR '':'', CHR 0x22, CHR ''x'', CHR 0x22, CHR ''}'', CHR '','', CHR 0x22, CHR ''t'',
       CHR ''y'', CHR ''p'', CHR ''e'', CHR 0x22, CHR '':'', CHR 0x22, CHR ''y'', CHR 0x22, CHR ''}''])) 32 =
    Inr (str_bytes ''x'')"
  by code_simp

end
