(* ===== verification/Device_Buffers.thy ===== *)
theory Device_Buffers
  imports Device_Frame "HOL-Library.Sublist"
begin

text \<open>
  \<open>client/components/audio_buffer\<close>: the firmware's two bounded buffers, \<open>pcm_ring.c\<close> between
  capture and encoder and \<open>encoded_queue.c\<close> between encoder and sender. Both are circular over
  storage that the caller provides and both drop their oldest elements when full. The locale
  \<open>drop_oldest\<close> is that contract; the lemmas show that each implements it. A \<open>size_t\<close> is a
  natural number: heads, counts and sums of two of them stay below twice the size of an array, and
  the statistics in \<open>uint64_t\<close> are words that wrap. The buffer itself is never \<open>NULL\<close>: every
  caller passes the address of a field.
\<close>

type_synonym i32 = "32 word"

text \<open>\<open>(size_t)-1\<close> on the 32-bit target.\<close>

definition SIZE_MAX :: nat where
  "SIZE_MAX = 2 ^ 32 - 1"

section \<open>The PCM ring\<close>

record pcm_ring =
  pr_buf :: "i32 list option"
  pr_capacity :: nat
  pr_head :: nat
  pr_count :: nat
  pr_high_water :: nat
  pr_low_water :: nat
  pr_overflow_count :: u64
  pr_total_written :: u64
  pr_total_read :: u64

definition update_watermarks :: "pcm_ring \<Rightarrow> pcm_ring" where
  "update_watermarks r =
     (let r1 = (if pr_high_water r < pr_count r then r\<lparr>pr_high_water := pr_count r\<rparr> else r) in
      if 0 < pr_count r1 \<and> pr_count r1 < pr_low_water r1 then r1\<lparr>pr_low_water := pr_count r1\<rparr> else r1)"

definition pcm_ring_reset :: "pcm_ring \<Rightarrow> pcm_ring" where
  "pcm_ring_reset r = r\<lparr>pr_head := 0, pr_count := 0, pr_high_water := 0, pr_low_water := SIZE_MAX,
     pr_overflow_count := 0, pr_total_written := 0, pr_total_read := 0\<rparr>"

definition pcm_ring_init :: "pcm_ring \<Rightarrow> i32 list option \<Rightarrow> nat \<Rightarrow> pcm_ring" where
  "pcm_ring_init r storage capacity = pcm_ring_reset (r\<lparr>pr_buf := storage, pr_capacity := capacity\<rparr>)"

definition pcm_ring_count :: "pcm_ring \<Rightarrow> nat" where
  "pcm_ring_count r = pr_count r"

definition pcm_ring_free :: "pcm_ring \<Rightarrow> nat" where
  "pcm_ring_free r = pr_capacity r - pr_count r"

text \<open>The loop that appends at the tail, and the one that copies out from the head.\<close>

fun ring_store :: "nat \<Rightarrow> nat \<Rightarrow> i32 list \<Rightarrow> i32 list \<Rightarrow> i32 list" where
  "ring_store cap tail [] buf = buf"
| "ring_store cap tail (x # xs) buf = ring_store cap ((tail + 1) mod cap) xs (buf[tail := x])"

fun ring_load :: "nat \<Rightarrow> i32 list \<Rightarrow> nat \<Rightarrow> nat \<Rightarrow> i32 list \<times> nat" where
  "ring_load cap buf head 0 = ([], head)"
| "ring_load cap buf head (Suc n) =
     (case ring_load cap buf ((head + 1) mod cap) n of (xs, head') \<Rightarrow> (buf ! head # xs, head'))"

definition pcm_ring_write :: "pcm_ring \<Rightarrow> i32 list option \<Rightarrow> nat \<Rightarrow> nat \<times> pcm_ring" where
  "pcm_ring_write r samples n0 =
     (if pr_buf r = None \<or> pr_capacity r = 0 \<or> (samples = None \<and> 0 < n0) then (0, r)
      else
        let cap = pr_capacity r;
            given = (case samples of None \<Rightarrow> [] | Some xs \<Rightarrow> take n0 xs);
            (r1, xs, n) = (if cap < n0
                           then (r\<lparr>pr_overflow_count := pr_overflow_count r + word_of_nat (n0 - cap)\<rparr>,
                                 drop (n0 - cap) given, cap)
                           else (r, given, n0));
            freeslots = cap - pr_count r1;
            r2 = (if freeslots < n
                  then let dropped = n - freeslots in
                    r1\<lparr>pr_head := (pr_head r1 + dropped) mod cap, pr_count := pr_count r1 - dropped,
                       pr_overflow_count := pr_overflow_count r1 + word_of_nat dropped\<rparr>
                  else r1);
            tail = (pr_head r2 + pr_count r2) mod cap;
            r3 = r2\<lparr>pr_buf := Some (ring_store cap tail xs (the (pr_buf r2))),
                    pr_count := pr_count r2 + n,
                    pr_total_written := pr_total_written r2 + word_of_nat n\<rparr>
        in (n, update_watermarks r3))"

text \<open>The samples copied to \<open>out\<close>; their number is the return value.\<close>

definition pcm_ring_read :: "pcm_ring \<Rightarrow> bool \<Rightarrow> nat \<Rightarrow> i32 list \<times> pcm_ring" where
  "pcm_ring_read r out_null n0 =
     (if pr_buf r = None \<or> out_null then ([], r)
      else
        let n = (if pr_count r < n0 then pr_count r else n0);
            (xs, head) = ring_load (pr_capacity r) (the (pr_buf r)) (pr_head r) n;
            r1 = r\<lparr>pr_head := head, pr_count := pr_count r - n,
                   pr_total_read := pr_total_read r + word_of_nat n\<rparr>
        in (xs, update_watermarks r1))"

section \<open>The encoded queue\<close>

record encoded_queue =
  eq_arena :: "bytes option"
  eq_lengths :: "nat list option"
  eq_slots :: nat
  eq_slot_size :: nat
  eq_head :: nat
  eq_cnt :: nat
  eq_high_water :: nat
  eq_drop_count :: u64
  eq_reject_count :: u64
  eq_total_pushed :: u64
  eq_total_popped :: u64

definition eq_reset :: "encoded_queue \<Rightarrow> encoded_queue" where
  "eq_reset q = q\<lparr>eq_head := 0, eq_cnt := 0, eq_high_water := 0, eq_drop_count := 0,
     eq_reject_count := 0, eq_total_pushed := 0, eq_total_popped := 0\<rparr>"

definition eq_init ::
  "encoded_queue \<Rightarrow> bytes option \<Rightarrow> nat list option \<Rightarrow> nat \<Rightarrow> nat \<Rightarrow> encoded_queue" where
  "eq_init q arena lengths slots slot_size =
     eq_reset (q\<lparr>eq_arena := arena, eq_lengths := lengths, eq_slots := slots, eq_slot_size := slot_size\<rparr>)"

definition eq_count :: "encoded_queue \<Rightarrow> nat" where
  "eq_count q = eq_cnt q"

definition eq_is_full :: "encoded_queue \<Rightarrow> bool" where
  "eq_is_full q \<longleftrightarrow> eq_cnt q = eq_slots q"

definition eq_is_empty :: "encoded_queue \<Rightarrow> bool" where
  "eq_is_empty q \<longleftrightarrow> eq_cnt q = 0"

definition eq_push :: "encoded_queue \<Rightarrow> bytes option \<Rightarrow> nat \<Rightarrow> int \<times> encoded_queue" where
  "eq_push q data len =
     (if eq_arena q = None \<or> eq_lengths q = None \<or> eq_slots q = 0 \<or> (data = None \<and> 0 < len)
      then (- 1, q)
      else if eq_slot_size q < len then (0, q\<lparr>eq_reject_count := eq_reject_count q + 1\<rparr>)
      else
        let q1 = (if eq_cnt q = eq_slots q
                  then q\<lparr>eq_head := (eq_head q + 1) mod eq_slots q, eq_cnt := eq_cnt q - 1,
                         eq_drop_count := eq_drop_count q + 1\<rparr>
                  else q);
            tail = (eq_head q1 + eq_cnt q1) mod eq_slots q1;
            arena = (if 0 < len
                     then overwrite (tail * eq_slot_size q1) (take len (the data)) (the (eq_arena q1))
                     else the (eq_arena q1));
            q2 = q1\<lparr>eq_arena := Some arena, eq_lengths := Some ((the (eq_lengths q1))[tail := len]),
                    eq_cnt := eq_cnt q1 + 1, eq_total_pushed := eq_total_pushed q1 + 1\<rparr>
        in (1, if eq_high_water q2 < eq_cnt q2 then q2\<lparr>eq_high_water := eq_cnt q2\<rparr> else q2))"

text \<open>\<open>eq_pop\<close>: the return value, and the packet copied to \<open>out\<close> when it is 1.\<close>

definition eq_pop :: "encoded_queue \<Rightarrow> bool \<Rightarrow> nat \<Rightarrow> (int \<times> bytes) \<times> encoded_queue" where
  "eq_pop q out_null out_cap =
     (if eq_arena q = None \<or> eq_lengths q = None \<or> out_null then ((- 1, []), q)
      else if eq_cnt q = 0 then ((0, []), q)
      else
        let len = the (eq_lengths q) ! eq_head q in
        if out_cap < len then ((- 1, []), q)
        else
          ((1, take len (drop (eq_head q * eq_slot_size q) (the (eq_arena q)))),
           q\<lparr>eq_head := (eq_head q + 1) mod eq_slots q, eq_cnt := eq_cnt q - 1,
             eq_total_popped := eq_total_popped q + 1\<rparr>))"

text \<open>Zeroed memory.\<close>

definition ring_zero :: pcm_ring where
  "ring_zero = \<lparr>pr_buf = None, pr_capacity = 0, pr_head = 0, pr_count = 0, pr_high_water = 0,
     pr_low_water = 0, pr_overflow_count = 0, pr_total_written = 0, pr_total_read = 0\<rparr>"

definition queue_zero :: encoded_queue where
  "queue_zero = \<lparr>eq_arena = None, eq_lengths = None, eq_slots = 0, eq_slot_size = 0, eq_head = 0, eq_cnt = 0,
     eq_high_water = 0, eq_drop_count = 0, eq_reject_count = 0, eq_total_pushed = 0, eq_total_popped = 0\<rparr>"

section \<open>Circular storage\<close>

text \<open>The elements of a circular store of \<open>cap\<close> slots, oldest first; \<open>f\<close> reads a slot.\<close>

definition ring_view :: "(nat \<Rightarrow> 'a) \<Rightarrow> nat \<Rightarrow> nat \<Rightarrow> nat \<Rightarrow> 'a list" where
  "ring_view f cap head count = map (\<lambda>i. f ((head + i) mod cap)) [0..<count]"

lemma length_ring_view [simp]: "length (ring_view f cap head count) = count"
  by (simp add: ring_view_def)

lemma slot_distinct:
  assumes "i < count" "count < (cap :: nat)"
  shows "(head + i) mod cap \<noteq> (head + count) mod cap"
proof
  assume "(head + i) mod cap = (head + count) mod cap"
  then have "cap dvd (head + count) - (head + i)"
    by (subst mod_eq_dvd_iff_nat [symmetric]) (use assms in auto)
  then have "cap dvd count - i" by simp
  with assms show False by (auto dest: dvd_imp_le)
qed

lemma ring_view_snoc:
  assumes "count < cap" "g ((head + count) mod cap) = x"
    and "\<And>j. j < cap \<Longrightarrow> j \<noteq> (head + count) mod cap \<Longrightarrow> g j = f j"
  shows "ring_view g cap head (count + 1) = ring_view f cap head count @ [x]"
proof -
  have "g ((head + i) mod cap) = f ((head + i) mod cap)" if "i < count" for i
    using assms slot_distinct [OF that assms(1), of head] by (intro assms(3)) auto
  with assms(2) show ?thesis by (simp add: ring_view_def)
qed

lemma ring_view_drop:
  "d \<le> count \<Longrightarrow> ring_view f cap ((head + d) mod cap) (count - d) = drop d (ring_view f cap head count)"
  by (rule nth_equalityI) (auto simp: ring_view_def mod_add_left_eq add.assoc)

lemma ring_view_Cons:
  "0 < count \<Longrightarrow> ring_view f cap head count = f (head mod cap) # ring_view f cap ((head + 1) mod cap) (count - 1)"
  by (rule nth_equalityI) (auto simp: ring_view_def mod_add_left_eq nth_Cons split: nat.split)

lemma ring_store_view:
  assumes "length buf = cap" "count + length xs \<le> cap"
  shows "length (ring_store cap ((head + count) mod cap) xs buf) = cap \<and>
    ring_view (nth (ring_store cap ((head + count) mod cap) xs buf)) cap head (count + length xs) =
      ring_view (nth buf) cap head count @ xs"
  using assms
proof (induction xs arbitrary: buf count)
  case (Cons x xs)
  let ?tail = "(head + count) mod cap"
  have tail: "?tail < cap" using Cons.prems by simp
  have "ring_view (nth (buf[?tail := x])) cap head (count + 1) = ring_view (nth buf) cap head count @ [x]"
    using Cons.prems tail by (intro ring_view_snoc) auto
  with Cons.IH [of "buf[?tail := x]" "count + 1"] Cons.prems show ?case
    by (simp add: mod_Suc_eq)
qed simp

lemma ring_load_view:
  assumes "head < cap"
  shows "ring_load cap buf head n = (ring_view (nth buf) cap head n, (head + n) mod cap)"
  using assms
proof (induction n arbitrary: head)
  case 0
  then show ?case by (simp add: ring_view_def)
next
  case (Suc n)
  then have "(head + 1) mod cap < cap" by simp
  from Suc.IH [OF this] Suc.prems show ?case
    by (simp add: ring_view_Cons [of "Suc n"] mod_add_left_eq)
qed

section \<open>The contract\<close>

definition keep_newest :: "nat \<Rightarrow> 'a list \<Rightarrow> 'a list" where
  "keep_newest bound xs = drop (length xs - bound) xs"

datatype 'a fifo_op = Put "'a list" | Get nat

fun puts :: "'a fifo_op list \<Rightarrow> 'a list" where
  "puts [] = []"
| "puts (Put xs # ops) = xs @ puts ops"
| "puts (Get n # ops) = puts ops"

text \<open>Running a buffer: what its reads return, and the buffer afterwards.\<close>

fun fifo_run :: "('s \<Rightarrow> 'a list \<Rightarrow> 's) \<Rightarrow> ('s \<Rightarrow> nat \<Rightarrow> 'a list \<times> 's) \<Rightarrow> 's \<Rightarrow> 'a fifo_op list \<Rightarrow> 'a list \<times> 's" where
  "fifo_run put get s [] = ([], s)"
| "fifo_run put get s (Put xs # ops) = fifo_run put get (put s xs) ops"
| "fifo_run put get s (Get n # ops) =
     (case get s n of (xs, s') \<Rightarrow> (case fifo_run put get s' ops of (ys, s'') \<Rightarrow> (xs @ ys, s'')))"

text \<open>The specification: a list of at most \<open>bound\<close> elements.\<close>

definition spec_put :: "nat \<Rightarrow> ('a \<Rightarrow> bool) \<Rightarrow> 'a list \<Rightarrow> 'a list \<Rightarrow> 'a list" where
  "spec_put bound accepts q xs = keep_newest bound (q @ filter accepts xs)"

definition spec_get :: "'a list \<Rightarrow> nat \<Rightarrow> 'a list \<times> 'a list" where
  "spec_get q n = (take n q, drop n q)"

lemma subseq_suffix: "subseq (drop n xs) xs"
  by (metis append_take_drop_id list_emb_append2 subseq_order.order_refl)

lemma spec_run_subseq:
  "fifo_run (spec_put bound accepts) spec_get q ops = (out, q') \<Longrightarrow>
    subseq (out @ q') (q @ filter accepts (puts ops))"
proof (induction ops arbitrary: q out)
  case (Cons op ops)
  show ?case
  proof (cases op)
    case (Put xs)
    let ?q = "keep_newest bound (q @ filter accepts xs)"
    have "subseq (out @ q') (?q @ filter accepts (puts ops))"
      using Cons Put by (simp add: spec_put_def)
    also have "subseq \<dots> ((q @ filter accepts xs) @ filter accepts (puts ops))"
      unfolding keep_newest_def by (intro list_emb_append_mono subseq_suffix subseq_order.order_refl)
    finally show ?thesis using Put by simp
  next
    case (Get n)
    obtain ys where ys: "fifo_run (spec_put bound accepts) spec_get (drop n q) ops = (ys, q')"
      "out = take n q @ ys"
      using Cons.prems Get by (auto simp: spec_get_def [of q n] split: prod.splits)
    have "subseq (take n q @ ys @ q') (take n q @ drop n q @ filter accepts (puts ops))"
      by (rule list_emb_append_mono [OF subseq_order.order_refl Cons.IH [OF ys(1)]])
    then show ?thesis using Get ys by (simp add: append_assoc [symmetric] del: append_assoc)
  qed
qed simp

locale drop_oldest =
  fixes ok :: "'s \<Rightarrow> bool"
    and content :: "'s \<Rightarrow> 'a list"
    and bound :: nat
    and accepts :: "'a \<Rightarrow> bool"
    and put :: "'s \<Rightarrow> 'a list \<Rightarrow> 's"
    and get :: "'s \<Rightarrow> nat \<Rightarrow> 'a list \<times> 's"
    and lost :: "'s \<Rightarrow> u64"
    and taken :: "'s \<Rightarrow> u64"
  assumes put_ok: "ok s \<Longrightarrow> ok (put s xs)"
    and put_content: "ok s \<Longrightarrow> content (put s xs) = keep_newest bound (content s @ filter accepts xs)"
    and put_counts: "ok s \<Longrightarrow>
      lost (put s xs) = lost s + word_of_nat (length (content s) + length (filter accepts xs) - bound) \<and>
      taken (put s xs) = taken s"
    and get_ok: "ok s \<Longrightarrow> ok (snd (get s n))"
    and get_content: "ok s \<Longrightarrow> fst (get s n) = take n (content s) \<and> content (snd (get s n)) = drop n (content s)"
    and get_counts: "ok s \<Longrightarrow> lost (snd (get s n)) = lost s \<and>
      taken (snd (get s n)) = taken s + word_of_nat (min n (length (content s)))"
begin

text \<open>A run of the buffer is a run of the specification.\<close>

lemma refines:
  "ok s \<Longrightarrow> fifo_run put get s ops = (out, s') \<Longrightarrow>
    ok s' \<and> fifo_run (spec_put bound accepts) spec_get (content s) ops = (out, content s')"
proof (induction ops arbitrary: s out)
  case (Cons op ops)
  show ?case
  proof (cases op)
    case (Put xs)
    with Cons.prems Cons.IH [of "put s xs" out] show ?thesis
      by (simp add: put_ok put_content spec_put_def)
  next
    case (Get n)
    obtain xs t where get: "get s n = (xs, t)" by force
    obtain ys where ys: "fifo_run put get t ops = (ys, s')" "out = xs @ ys"
      using Cons.prems Get get by (auto split: prod.splits)
    with Cons.prems Cons.IH [of t ys] Get get get_ok [of s n] get_content [of s n] show ?thesis
      by (simp add: spec_get_def)
  qed
qed simp

text \<open>Nothing goes missing uncounted.\<close>

lemma accounts:
  "ok s \<Longrightarrow> fifo_run put get s ops = (out, s') \<Longrightarrow>
    lost s' + taken s' + word_of_nat (length (content s')) =
    lost s + taken s + word_of_nat (length (content s) + length (filter accepts (puts ops)))"
proof (induction ops arbitrary: s out)
  case (Cons op ops)
  show ?case
  proof (cases op)
    case (Put xs)
    let ?n = "length (content s) + length (filter accepts xs)"
    have "length (content (put s xs)) + (?n - bound) = ?n"
      using Cons.prems by (simp add: put_content keep_newest_def)
    then have "word_of_nat (length (content (put s xs))) + (word_of_nat (?n - bound) :: u64) = word_of_nat ?n"
      by (metis of_nat_add)
    with Cons.prems Cons.IH [of "put s xs" out] Put put_counts [of s xs] show ?thesis
      by (simp add: put_ok algebra_simps)
  next
    case (Get n)
    obtain xs t where get: "get s n = (xs, t)" by force
    obtain ys where ys: "fifo_run put get t ops = (ys, s')"
      using Cons.prems Get get by (auto split: prod.splits)
    have "length (content t) + min n (length (content s)) = length (content s)"
      using Cons.prems get get_content [of s n] by simp
    then have "word_of_nat (length (content t)) + (word_of_nat (min n (length (content s))) :: u64) =
        word_of_nat (length (content s))"
      by (metis of_nat_add)
    with Cons.prems Cons.IH [of t ys] Get get ys get_ok [of s n] get_counts [of s n] show ?thesis
      by (simp add: algebra_simps)
  qed
qed simp

end

section \<open>The PCM ring keeps the newest samples\<close>

definition ring_ok :: "nat \<Rightarrow> pcm_ring \<Rightarrow> bool" where
  "ring_ok cap r \<longleftrightarrow> (case pr_buf r of None \<Rightarrow> False | Some b \<Rightarrow> length b = cap) \<and>
     pr_capacity r = cap \<and> pr_head r < cap \<and> pr_count r \<le> cap"

definition ring_content :: "pcm_ring \<Rightarrow> i32 list" where
  "ring_content r = ring_view (nth (the (pr_buf r))) (pr_capacity r) (pr_head r) (pr_count r)"

definition ring_put :: "pcm_ring \<Rightarrow> i32 list \<Rightarrow> pcm_ring" where
  "ring_put r xs = snd (pcm_ring_write r (Some xs) (length xs))"

definition ring_get :: "pcm_ring \<Rightarrow> nat \<Rightarrow> i32 list \<times> pcm_ring" where
  "ring_get r n = pcm_ring_read r False n"

lemma watermarks_frame [simp]:
  "pr_buf (update_watermarks r) = pr_buf r" "pr_capacity (update_watermarks r) = pr_capacity r"
  "pr_head (update_watermarks r) = pr_head r" "pr_count (update_watermarks r) = pr_count r"
  "pr_overflow_count (update_watermarks r) = pr_overflow_count r"
  "pr_total_written (update_watermarks r) = pr_total_written r"
  "pr_total_read (update_watermarks r) = pr_total_read r"
  by (simp_all add: update_watermarks_def Let_def)

lemma pcm_ring_write_spec:
  assumes "ring_ok cap r"
  shows "fst (pcm_ring_write r (Some xs) (length xs)) = min (length xs) cap \<and>
    ring_ok cap (ring_put r xs) \<and> ring_content (ring_put r xs) = keep_newest cap (ring_content r @ xs) \<and>
    pr_overflow_count (ring_put r xs) =
      pr_overflow_count r + word_of_nat (length (ring_content r) + length xs - cap) \<and>
    pr_total_read (ring_put r xs) = pr_total_read r"
proof -
  obtain b where b: "pr_buf r = Some b" "length b = cap" and ok: "pr_capacity r = cap" "0 < cap"
    "pr_head r < cap" "pr_count r \<le> cap"
    using assms by (auto simp: ring_ok_def split: option.splits)
  define ys where "ys = keep_newest cap xs"
  define d where "d = pr_count r + length ys - cap"
  define h where "h = (pr_head r + d) mod cap"
  have ys: "length ys = min (length xs) cap" by (auto simp: ys_def keep_newest_def)
  have d: "d \<le> pr_count r" "pr_count r - d + length ys \<le> cap" using ok ys by (auto simp: d_def)
  have h: "h < cap" using ok by (simp add: h_def)
  have view: "ring_view (nth b) cap h (pr_count r - d) = drop d (ring_content r)"
    using ring_view_drop [OF d(1), of "nth b" cap "pr_head r"] b ok by (simp add: h_def ring_content_def)
  have newest: "drop d (ring_content r) @ ys = keep_newest cap (ring_content r @ xs)"
  proof (cases "length xs \<le> cap")
    case True
    then show ?thesis by (simp add: keep_newest_def ys_def d_def ring_content_def)
  next
    case False
    with ok show ?thesis by (simp add: keep_newest_def ys_def d_def ring_content_def)
  qed
  note store = ring_store_view [of b cap "pr_count r - d" ys h, OF b(2) d(2)]
  have stored: "pcm_ring_write r (Some xs) (length xs) = (min (length xs) cap, update_watermarks
      (r\<lparr>pr_buf := Some (ring_store cap ((h + (pr_count r - d)) mod cap) ys b), pr_head := h,
         pr_count := pr_count r - d + length ys,
         pr_overflow_count := pr_overflow_count r + word_of_nat (pr_count r + length xs - cap),
         pr_total_written := pr_total_written r + word_of_nat (min (length xs) cap)\<rparr>))"
  proof (cases "cap < length xs")
    case True
    with ok b show ?thesis
      by (cases r; cases "pr_count r = 0")
        (auto simp: pcm_ring_write_def Let_def ys_def keep_newest_def d_def h_def algebra_simps)
  next
    case False
    with ok b show ?thesis
      by (cases r; cases "pr_count r = 0")
        (auto simp: pcm_ring_write_def Let_def ys_def keep_newest_def d_def h_def algebra_simps)
  qed
  show ?thesis
    unfolding ring_put_def stored
    using store view newest b ok h d by (simp add: ring_ok_def ring_content_def)
qed

lemma pcm_ring_read_spec:
  assumes "ring_ok cap r"
  shows "fst (ring_get r n) = take n (ring_content r) \<and> ring_ok cap (snd (ring_get r n)) \<and>
    ring_content (snd (ring_get r n)) = drop n (ring_content r) \<and>
    pr_overflow_count (snd (ring_get r n)) = pr_overflow_count r \<and>
    pr_total_read (snd (ring_get r n)) = pr_total_read r + word_of_nat (min n (length (ring_content r)))"
proof -
  obtain b where b: "pr_buf r = Some b" "length b = cap" and ok: "pr_capacity r = cap"
    "pr_head r < cap" "pr_count r \<le> cap"
    using assms by (auto simp: ring_ok_def split: option.splits)
  let ?k = "min n (pr_count r)"
  have k: "(if pr_count r < n then pr_count r else n) = ?k" by simp
  have take_k: "ring_view (nth b) cap (pr_head r) ?k = take n (ring_content r)"
    using b ok by (auto simp: ring_content_def ring_view_def take_map min_def)
  have drop_k: "ring_view (nth b) cap ((pr_head r + ?k) mod cap) (pr_count r - ?k) = drop n (ring_content r)"
    using ring_view_drop [of ?k "pr_count r" "nth b" cap "pr_head r"] b ok
    by (auto simp: ring_content_def min_def)
  have "(pr_head r + ?k) mod cap < cap" using ok by simp
  with b ok take_k drop_k show ?thesis
    unfolding ring_get_def pcm_ring_read_def k
    by (simp add: ring_load_view Let_def ring_ok_def ring_content_def [of "update_watermarks s" for s])
      (simp add: ring_content_def)
qed

interpretation pcm: drop_oldest "ring_ok cap" ring_content cap "\<lambda>_. True" ring_put ring_get
  pr_overflow_count pr_total_read for cap
proof unfold_locales
  fix r :: pcm_ring and xs n
  assume ok: "ring_ok cap r"
  show "ring_ok cap (ring_put r xs)"
    and "ring_content (ring_put r xs) = keep_newest cap (ring_content r @ filter (\<lambda>_. True) xs)"
    and "pr_overflow_count (ring_put r xs) = pr_overflow_count r +
      word_of_nat (length (ring_content r) + length (filter (\<lambda>_. True) xs) - cap) \<and>
      pr_total_read (ring_put r xs) = pr_total_read r"
    using pcm_ring_write_spec [OF ok, of xs] by simp_all
  show "ring_ok cap (snd (ring_get r n))"
    and "fst (ring_get r n) = take n (ring_content r) \<and> ring_content (snd (ring_get r n)) = drop n (ring_content r)"
    and "pr_overflow_count (snd (ring_get r n)) = pr_overflow_count r \<and>
      pr_total_read (snd (ring_get r n)) = pr_total_read r + word_of_nat (min n (length (ring_content r)))"
    using pcm_ring_read_spec [OF ok, of n] by simp_all
qed

section \<open>The encoded queue keeps the newest packets\<close>

definition eq_slot :: "encoded_queue \<Rightarrow> nat \<Rightarrow> bytes" where
  "eq_slot q j =
     take (min (the (eq_lengths q) ! j) (eq_slot_size q)) (drop (j * eq_slot_size q) (the (eq_arena q)))"

definition eq_content :: "encoded_queue \<Rightarrow> bytes list" where
  "eq_content q = ring_view (eq_slot q) (eq_slots q) (eq_head q) (eq_cnt q)"

definition eq_ok :: "nat \<Rightarrow> nat \<Rightarrow> nat \<Rightarrow> encoded_queue \<Rightarrow> bool" where
  "eq_ok slots ssz out_cap q \<longleftrightarrow>
     (case eq_arena q of None \<Rightarrow> False | Some a \<Rightarrow> length a = slots * ssz) \<and>
     (case eq_lengths q of None \<Rightarrow> False | Some l \<Rightarrow> length l = slots \<and>
        (\<forall>i<eq_cnt q. l ! ((eq_head q + i) mod slots) \<le> ssz)) \<and>
     eq_slots q = slots \<and> eq_slot_size q = ssz \<and> eq_head q < slots \<and> eq_cnt q \<le> slots \<and> ssz \<le> out_cap"

definition eq_put :: "encoded_queue \<Rightarrow> bytes list \<Rightarrow> encoded_queue" where
  "eq_put q ps = foldl (\<lambda>q p. snd (eq_push q (Some p) (length p))) q ps"

fun eq_take :: "nat \<Rightarrow> encoded_queue \<Rightarrow> nat \<Rightarrow> bytes list \<times> encoded_queue" where
  "eq_take out_cap q 0 = ([], q)"
| "eq_take out_cap q (Suc n) =
     (case eq_pop q False out_cap of
        ((rc, p), q') \<Rightarrow>
          if rc = 1 then (case eq_take out_cap q' n of (ps, q'') \<Rightarrow> (p # ps, q'')) else ([], q'))"

lemma nth_overwrite:
  "off + length data \<le> length buf \<Longrightarrow> i < length buf \<Longrightarrow>
    overwrite off data buf ! i = (if off \<le> i \<and> i < off + length data then data ! (i - off) else buf ! i)"
  by (auto simp: overwrite_def nth_append min_def)

lemma other_slot:
  assumes "length a = slots * ssz" "j < slots" "t < slots" "j \<noteq> t" "length data \<le> ssz" "m \<le> ssz"
  shows "take m (drop (j * ssz) (overwrite (t * ssz) data a)) = take m (drop (j * ssz) a)"
proof (rule nth_equalityI)
  have bound: "k < slots \<Longrightarrow> k * ssz + ssz \<le> length a" for k
    using assms(1) mult_le_mono1 [of "Suc k" slots ssz] by simp
  then have len: "length (overwrite (t * ssz) data a) = length a"
    using assms by (intro length_overwrite) (metis add_le_cancel_left order_trans)
  then show "length (take m (drop (j * ssz) (overwrite (t * ssz) data a))) =
      length (take m (drop (j * ssz) a))" by simp
  fix i
  assume "i < length (take m (drop (j * ssz) (overwrite (t * ssz) data a)))"
  with assms have i: "i < ssz" "i < m" by auto
  have apart: "j * ssz + ssz \<le> t * ssz \<or> t * ssz + ssz \<le> j * ssz"
    using assms(4) mult_le_mono1 [of "Suc j" t ssz] mult_le_mono1 [of "Suc t" j ssz]
    by (cases "j < t") auto
  have "overwrite (t * ssz) data a ! (j * ssz + i) = a ! (j * ssz + i)"
    using bound [OF assms(2)] bound [OF assms(3)] assms(5) i apart by (subst nth_overwrite) auto
  then show "take m (drop (j * ssz) (overwrite (t * ssz) data a)) ! i = take m (drop (j * ssz) a) ! i"
    using bound [OF assms(2)] len i by simp
qed

lemma own_slot:
  "length a = slots * ssz \<Longrightarrow> t < slots \<Longrightarrow> length data \<le> ssz \<Longrightarrow>
    take (length data) (drop (t * ssz) (overwrite (t * ssz) data a)) = data"
  using mult_le_mono1 [of "Suc t" slots ssz] by (simp add: overwrite_def)

lemma keep_newest_twice: "keep_newest b (keep_newest b xs @ ys) = keep_newest b (xs @ ys)"
  by (cases "length xs \<le> b") (auto simp: keep_newest_def add.commute)

lemma length_eq_content [simp]: "length (eq_content q) = eq_cnt q"
  by (simp add: eq_content_def)

text \<open>The head moves on by one, as when the oldest packet is dropped or taken.\<close>

lemma eq_advance:
  assumes "eq_ok slots ssz out_cap q" "0 < eq_cnt q"
    and "q' = q\<lparr>eq_head := (eq_head q + 1) mod eq_slots q, eq_cnt := eq_cnt q - 1, eq_drop_count := c,
      eq_total_popped := d\<rparr>"
  shows "eq_ok slots ssz out_cap q'" "eq_content q' = drop 1 (eq_content q)"
proof -
  have slot: "eq_slot q' = eq_slot q" by (simp add: eq_slot_def fun_eq_iff assms(3))
  have "l ! ((Suc (eq_head q) mod slots + i) mod slots) \<le> ssz"
    if "\<forall>i<eq_cnt q. l ! ((eq_head q + i) mod slots) \<le> ssz" "i < eq_cnt q - Suc 0" for i l
    using spec [OF that(1), of "Suc i"] that(2) by (simp add: mod_simps)
  with assms show "eq_ok slots ssz out_cap q'"
    by (auto simp: eq_ok_def split: option.splits)
  show "eq_content q' = drop 1 (eq_content q)"
    using ring_view_drop [of 1 "eq_cnt q" "eq_slot q" "eq_slots q" "eq_head q"] assms
    unfolding eq_content_def slot by simp
qed

text \<open>A packet is stored behind the others.\<close>

lemma eq_store:
  assumes "eq_ok slots ssz out_cap q" "eq_cnt q < slots" "length p \<le> ssz"
    and "eq_arena q = Some a" "eq_lengths q = Some l"
    and "tail = (eq_head q + eq_cnt q) mod slots"
    and "q' = q\<lparr>eq_arena := Some (if p = [] then a else overwrite (tail * ssz) p a),
      eq_lengths := Some (l[tail := length p]), eq_cnt := eq_cnt q + 1, eq_total_pushed := c, eq_high_water := d\<rparr>"
  shows "eq_ok slots ssz out_cap q'" "eq_content q' = eq_content q @ [p]"
proof -
  have q: "length a = slots * ssz" "length l = slots" "eq_slots q = slots" "eq_slot_size q = ssz"
    using assms by (auto simp: eq_ok_def)
  have tail: "tail < slots" using assms by simp
  have "tail * ssz + length p \<le> length a"
    using q(1) tail assms(3) mult_le_mono1 [of "Suc tail" slots ssz] by simp
  then have len: "length (overwrite (tail * ssz) p a) = length a" by (rule length_overwrite)
  have "(eq_head q + i) mod slots \<noteq> tail" if "i < eq_cnt q" for i
    using slot_distinct [OF that assms(2)] assms(6) by simp
  then show "eq_ok slots ssz out_cap q'"
    using assms q tail len by (auto simp: eq_ok_def less_Suc_eq nth_list_update)
  have own: "eq_slot q' tail = p"
    using q tail assms own_slot [of a slots ssz tail p] by (simp add: eq_slot_def min_def)
  have other: "eq_slot q' j = eq_slot q j" if "j < slots" "j \<noteq> tail" for j
    using q tail assms other_slot [of a slots ssz j tail p "min (l ! j) ssz"] that by (simp add: eq_slot_def)
  have "eq_content q' = ring_view (eq_slot q') slots (eq_head q) (eq_cnt q + 1)"
    using assms(7) q by (simp add: eq_content_def)
  also have "\<dots> = eq_content q @ [p]"
    unfolding eq_content_def q(3) using own other assms(2, 6) by (intro ring_view_snoc) auto
  finally show "eq_content q' = eq_content q @ [p]" .
qed

lemma eq_push_spec:
  assumes "eq_ok slots ssz out_cap q"
  shows "fst (eq_push q (Some p) (length p)) = (if length p \<le> ssz then 1 else 0)"
    and "eq_ok slots ssz out_cap (snd (eq_push q (Some p) (length p)))"
    and "eq_content (snd (eq_push q (Some p) (length p))) =
      (if length p \<le> ssz then keep_newest slots (eq_content q @ [p]) else eq_content q)"
    and "eq_drop_count (snd (eq_push q (Some p) (length p))) = eq_drop_count q +
      word_of_nat (if length p \<le> ssz then eq_cnt q + 1 - slots else 0)"
    and "eq_total_popped (snd (eq_push q (Some p) (length p))) = eq_total_popped q"
proof -
  obtain a l where al: "eq_arena q = Some a" "eq_lengths q = Some l" and q: "eq_slots q = slots"
    "eq_slot_size q = ssz" "eq_head q < slots" "eq_cnt q \<le> slots"
    using assms by (auto simp: eq_ok_def split: option.splits)
  have empty: "length p = 0 \<longleftrightarrow> p = []" by simp
  show "fst (eq_push q (Some p) (length p)) = (if length p \<le> ssz then 1 else 0)"
    using al q by (auto simp: eq_push_def Let_def)
  consider (reject) "ssz < length p" | (room) "length p \<le> ssz" "eq_cnt q < slots"
    | (full) "length p \<le> ssz" "eq_cnt q = slots"
    using q by linarith
  then have "eq_ok slots ssz out_cap (snd (eq_push q (Some p) (length p))) \<and>
    eq_content (snd (eq_push q (Some p) (length p))) =
      (if length p \<le> ssz then keep_newest slots (eq_content q @ [p]) else eq_content q) \<and>
    eq_drop_count (snd (eq_push q (Some p) (length p))) = eq_drop_count q +
      word_of_nat (if length p \<le> ssz then eq_cnt q + 1 - slots else 0) \<and>
    eq_total_popped (snd (eq_push q (Some p) (length p))) = eq_total_popped q"
  proof cases
    case reject
    have "eq_content (q\<lparr>eq_reject_count := c\<rparr>) = eq_content q" for c
      by (simp add: eq_content_def eq_slot_def [abs_def])
    with reject assms al q show ?thesis by (auto simp: eq_push_def eq_ok_def)
  next
    case room
    have "snd (eq_push q (Some p) (length p)) =
        q\<lparr>eq_arena := Some (if p = [] then a else overwrite ((eq_head q + eq_cnt q) mod slots * ssz) p a),
          eq_lengths := Some (l[(eq_head q + eq_cnt q) mod slots := length p]), eq_cnt := eq_cnt q + 1,
          eq_total_pushed := eq_total_pushed q + 1, eq_high_water := max (eq_high_water q) (eq_cnt q + 1)\<rparr>"
      using room al q by (cases q) (auto simp: eq_push_def Let_def max_def)
    with eq_store [OF assms room(2, 1) al refl this] room q show ?thesis
      by (simp add: keep_newest_def)
  next
    case full
    let ?q = "q\<lparr>eq_head := (eq_head q + 1) mod eq_slots q, eq_cnt := eq_cnt q - 1,
      eq_drop_count := eq_drop_count q + 1, eq_total_popped := eq_total_popped q\<rparr>"
    have pos: "0 < eq_cnt q" using full q by simp
    note next_ok = eq_advance [OF assms pos refl,
        where c = "eq_drop_count q + 1" and d = "eq_total_popped q"]
    have "snd (eq_push q (Some p) (length p)) =
        ?q\<lparr>eq_arena := Some (if p = [] then a else overwrite ((eq_head ?q + eq_cnt ?q) mod slots * ssz) p a),
          eq_lengths := Some (l[(eq_head ?q + eq_cnt ?q) mod slots := length p]), eq_cnt := eq_cnt ?q + 1,
          eq_total_pushed := eq_total_pushed q + 1, eq_high_water := max (eq_high_water q) (eq_cnt q)\<rparr>"
      using full pos al q by (cases q) (auto simp: eq_push_def Let_def max_def)
    with eq_store [OF next_ok(1) _ full(1) _ _ refl this] al next_ok(2) full pos show ?thesis
      by (simp add: keep_newest_def)
  qed
  then show "eq_ok slots ssz out_cap (snd (eq_push q (Some p) (length p)))"
    and "eq_content (snd (eq_push q (Some p) (length p))) =
      (if length p \<le> ssz then keep_newest slots (eq_content q @ [p]) else eq_content q)"
    and "eq_drop_count (snd (eq_push q (Some p) (length p))) = eq_drop_count q +
      word_of_nat (if length p \<le> ssz then eq_cnt q + 1 - slots else 0)"
    and "eq_total_popped (snd (eq_push q (Some p) (length p))) = eq_total_popped q"
    by simp_all
qed

lemma eq_put_spec:
  assumes "eq_ok slots ssz out_cap q"
  shows "eq_ok slots ssz out_cap (eq_put q ps) \<and>
    eq_content (eq_put q ps) = keep_newest slots (eq_content q @ filter (\<lambda>p. length p \<le> ssz) ps) \<and>
    eq_drop_count (eq_put q ps) =
      eq_drop_count q + word_of_nat (eq_cnt q + length (filter (\<lambda>p. length p \<le> ssz) ps) - slots) \<and>
    eq_total_popped (eq_put q ps) = eq_total_popped q"
  using assms
proof (induction ps arbitrary: q)
  case Nil
  then show ?case by (simp add: eq_put_def keep_newest_def eq_ok_def)
next
  case (Cons p ps)
  let ?q = "snd (eq_push q (Some p) (length p))"
  let ?m = "length (filter (\<lambda>p. length p \<le> ssz) ps)"
  note push = eq_push_spec [OF Cons.prems, of p]
  have step: "eq_put q (p # ps) = eq_put ?q ps" by (simp add: eq_put_def)
  have cnt: "eq_cnt ?q = (if length p \<le> ssz then min (eq_cnt q + 1) slots else eq_cnt q)"
    using arg_cong [OF push(3), of length] by (auto simp: keep_newest_def)
  have small: "eq_cnt q \<le> slots" using Cons.prems by (simp add: eq_ok_def)
  have lost: "word_of_nat (eq_cnt q + 1 - slots) + (word_of_nat (min (eq_cnt q + 1) slots + ?m - slots) :: u64) =
      word_of_nat (eq_cnt q + Suc ?m - slots)"
    unfolding of_nat_add [symmetric] using small by (intro arg_cong [where f = word_of_nat]) auto
  show ?case
    unfolding step using Cons.IH [OF push(2)] push(3-) cnt lost small
    by (simp add: keep_newest_twice)
qed

lemma eq_pop_spec:
  assumes "eq_ok slots ssz out_cap q" "0 < eq_cnt q"
  shows "fst (eq_pop q False out_cap) = (1, hd (eq_content q))"
    and "eq_ok slots ssz out_cap (snd (eq_pop q False out_cap))"
    and "eq_content (snd (eq_pop q False out_cap)) = tl (eq_content q)"
    and "eq_drop_count (snd (eq_pop q False out_cap)) = eq_drop_count q"
    and "eq_total_popped (snd (eq_pop q False out_cap)) = eq_total_popped q + 1"
proof -
  obtain a l where al: "eq_arena q = Some a" "eq_lengths q = Some l" and q: "eq_slots q = slots"
    "eq_slot_size q = ssz" "eq_head q < slots" "ssz \<le> out_cap"
    and live: "\<forall>i<eq_cnt q. l ! ((eq_head q + i) mod slots) \<le> ssz"
    using assms(1) by (auto simp: eq_ok_def split: option.splits)
  have len: "l ! eq_head q \<le> ssz" using spec [OF live, of 0] assms(2) q by simp
  have pop: "eq_pop q False out_cap = ((1, take (l ! eq_head q) (drop (eq_head q * ssz) a)),
      q\<lparr>eq_head := (eq_head q + 1) mod eq_slots q, eq_cnt := eq_cnt q - 1,
        eq_drop_count := eq_drop_count q, eq_total_popped := eq_total_popped q + 1\<rparr>)"
    using al q len assms(2) by (simp add: eq_pop_def Let_def)
  have "eq_content q = eq_slot q (eq_head q) # tl (eq_content q)"
    using ring_view_Cons [OF assms(2), of "eq_slot q" slots "eq_head q"] q by (simp add: eq_content_def)
  then have "hd (eq_content q) = eq_slot q (eq_head q)" by (metis list.sel(1))
  then show "fst (eq_pop q False out_cap) = (1, hd (eq_content q))"
    unfolding pop using al q len by (simp add: eq_slot_def min_def)
  show "eq_ok slots ssz out_cap (snd (eq_pop q False out_cap))"
    unfolding pop snd_conv by (rule eq_advance(1) [OF assms refl])
  show "eq_content (snd (eq_pop q False out_cap)) = tl (eq_content q)"
    unfolding pop snd_conv using eq_advance(2) [OF assms refl, where c = "eq_drop_count q" and d = "eq_total_popped q + 1"]
    by (simp add: drop_Suc)
  show "eq_drop_count (snd (eq_pop q False out_cap)) = eq_drop_count q"
    and "eq_total_popped (snd (eq_pop q False out_cap)) = eq_total_popped q + 1"
    unfolding pop by simp_all
qed

lemma eq_pop_empty: "eq_cnt q = 0 \<Longrightarrow> fst (fst (eq_pop q False out_cap)) \<noteq> 1 \<and> snd (eq_pop q False out_cap) = q"
  by (simp add: eq_pop_def)

lemma eq_take_spec:
  assumes "eq_ok slots ssz out_cap q"
  shows "fst (eq_take out_cap q n) = take n (eq_content q) \<and> eq_ok slots ssz out_cap (snd (eq_take out_cap q n)) \<and>
    eq_content (snd (eq_take out_cap q n)) = drop n (eq_content q) \<and>
    eq_drop_count (snd (eq_take out_cap q n)) = eq_drop_count q \<and>
    eq_total_popped (snd (eq_take out_cap q n)) = eq_total_popped q + word_of_nat (min n (eq_cnt q))"
  using assms
proof (induction n arbitrary: q)
  case (Suc n)
  show ?case
  proof (cases "eq_cnt q = 0")
    case True
    with eq_pop_empty [OF True, of out_cap] Suc.prems show ?thesis
      by (auto simp: eq_content_def ring_view_def split: prod.split)
  next
    case False
    obtain q' where pop: "eq_pop q False out_cap = ((1, hd (eq_content q)), q')"
      and q': "eq_ok slots ssz out_cap q'" "eq_content q' = tl (eq_content q)"
        "eq_drop_count q' = eq_drop_count q" "eq_total_popped q' = eq_total_popped q + 1"
      using eq_pop_spec [OF Suc.prems] False by (cases "eq_pop q False out_cap") auto
    have ne: "eq_content q \<noteq> []" using False by (metis length_eq_content list.size(3))
    have cnt: "eq_cnt q' = eq_cnt q - 1" using arg_cong [OF q'(2), of length] by simp
    have "min (Suc n) (eq_cnt q) = Suc (min n (eq_cnt q'))" using False cnt by simp
    with Suc.IH [OF q'(1)] pop q' ne show ?thesis
      by (simp add: split_beta take_Suc drop_Suc algebra_simps)
  qed
qed simp

interpretation encoded: drop_oldest "eq_ok slots ssz out_cap" eq_content slots "\<lambda>p. length p \<le> ssz"
  eq_put "eq_take out_cap" eq_drop_count eq_total_popped for slots ssz out_cap
proof unfold_locales
  fix q n and ps :: "bytes list"
  assume ok: "eq_ok slots ssz out_cap q"
  let ?ps = "filter (\<lambda>p. length p \<le> ssz) ps"
  show "eq_ok slots ssz out_cap (eq_put q ps)"
    and "eq_content (eq_put q ps) = keep_newest slots (eq_content q @ ?ps)"
    and "eq_drop_count (eq_put q ps) = eq_drop_count q + word_of_nat (length (eq_content q) + length ?ps - slots) \<and>
      eq_total_popped (eq_put q ps) = eq_total_popped q"
    using eq_put_spec [OF ok, of ps] by simp_all
  show "eq_ok slots ssz out_cap (snd (eq_take out_cap q n))"
    and "fst (eq_take out_cap q n) = take n (eq_content q) \<and>
      eq_content (snd (eq_take out_cap q n)) = drop n (eq_content q)"
    and "eq_drop_count (snd (eq_take out_cap q n)) = eq_drop_count q \<and> eq_total_popped (snd (eq_take out_cap q n)) =
      eq_total_popped q + word_of_nat (min n (length (eq_content q)))"
    using eq_take_spec [OF ok, of n] by simp_all
qed

section \<open>Properties\<close>

lemma ring_init_ok:
  "0 < cap \<Longrightarrow> length storage = cap \<Longrightarrow> ring_ok cap (pcm_ring_init r (Some storage) cap)"
  "ring_content (pcm_ring_init r (Some storage) cap) = []"
  "pr_overflow_count (pcm_ring_init r s cap) = 0" "pr_total_read (pcm_ring_init r s cap) = 0"
  by (simp_all add: ring_ok_def pcm_ring_init_def pcm_ring_reset_def ring_content_def ring_view_def)

lemma eq_init_ok:
  "0 < slots \<Longrightarrow> length arena = slots * ssz \<Longrightarrow> length lengths = slots \<Longrightarrow> ssz \<le> out_cap \<Longrightarrow>
    eq_ok slots ssz out_cap (eq_init q (Some arena) (Some lengths) slots ssz)"
  "eq_content (eq_init q a l slots ssz) = []"
  "eq_drop_count (eq_init q a l slots ssz) = 0" "eq_total_popped (eq_init q a l slots ssz) = 0"
  by (simp_all add: eq_ok_def eq_init_def eq_reset_def eq_content_def ring_view_def)

text \<open>C38. The PCM ring implements a list that keeps the newest \<open>capacity\<close> samples: any sequence
  of writes, of any lengths, and reads returns what the list returns, so the encoder gets the
  microphone's samples in order, none twice; and the samples written are those overwritten, those
  read and those still held, as the two counters say.\<close>

theorem pcm_ring_keeps_newest:
  assumes "0 < cap" "length storage = cap"
    and "fifo_run ring_put ring_get (pcm_ring_init r (Some storage) cap) ops = (out, r')"
  shows "fifo_run (spec_put cap (\<lambda>_. True)) spec_get [] ops = (out, ring_content r') \<and>
    subseq (out @ ring_content r') (puts ops) \<and> length (ring_content r') \<le> cap \<and>
    pr_overflow_count r' + pr_total_read r' + word_of_nat (pr_count r') = word_of_nat (length (puts ops))"
proof -
  note ok = ring_init_ok(1) [OF assms(1, 2), of r]
  have run: "ring_ok cap r'" "fifo_run (spec_put cap (\<lambda>_. True)) spec_get [] ops = (out, ring_content r')"
    using pcm.refines [OF ok assms(3)] by (simp_all add: ring_init_ok)
  have len: "length (ring_content r') = pr_count r'" by (simp add: ring_content_def)
  have "pr_count r' \<le> cap" using run(1) by (simp add: ring_ok_def)
  then show ?thesis
    using run(2) spec_run_subseq [OF run(2)] pcm.accounts [OF ok assms(3)] len
    by (simp add: ring_init_ok)
qed

theorem pcm_ring_keeps_newest_witness:
  "fst (fifo_run ring_put ring_get (pcm_ring_init ring_zero (Some [0, 0]) 2)
     [Put [1, 2], Get 0, Put [3, 4, 5], Get 1, Put [6], Get 9]) = [4, 5, 6]"
proof -
  have spec: "fifo_run (spec_put 2 (\<lambda>_. True)) spec_get []
      [Put [1, 2], Get 0, Put [3, 4 :: i32, 5], Get 1, Put [6], Get 9] = ([4, 5, 6], [])"
    by code_simp
  obtain out r' where run: "fifo_run ring_put ring_get (pcm_ring_init ring_zero (Some [0, 0]) 2)
      [Put [1, 2], Get 0, Put [3, 4, 5], Get 1, Put [6], Get 9] = (out, r')"
    by fastforce
  from pcm_ring_keeps_newest [OF _ _ run] have "out = [4, 5, 6]" unfolding spec by simp
  with run show ?thesis by simp
qed

text \<open>C39. The encoded queue implements a list of the newest \<open>slots\<close> packets: any sequence of
  pushes and pops returns what the list returns, so the sender gets the encoder's packets whole, in
  order and none twice, whatever their lengths; a packet longer than a slot is refused and nothing
  else changes; and the packets accepted are those dropped, those taken and those still queued, as the
  counters say.\<close>

theorem encoded_queue_keeps_newest:
  assumes "0 < slots" "length arena = slots * ssz" "length lengths = slots" "ssz \<le> out_cap"
    and "fifo_run eq_put (eq_take out_cap) (eq_init q (Some arena) (Some lengths) slots ssz) ops = (out, q')"
  shows "fifo_run (spec_put slots (\<lambda>p. length p \<le> ssz)) spec_get [] ops = (out, eq_content q') \<and>
    subseq (out @ eq_content q') (filter (\<lambda>p. length p \<le> ssz) (puts ops)) \<and> eq_cnt q' \<le> slots \<and>
    eq_drop_count q' + eq_total_popped q' + word_of_nat (eq_cnt q') =
      word_of_nat (length (filter (\<lambda>p. length p \<le> ssz) (puts ops)))"
proof -
  note ok = eq_init_ok(1) [OF assms(1-4), of q]
  have run: "eq_ok slots ssz out_cap q'"
    "fifo_run (spec_put slots (\<lambda>p. length p \<le> ssz)) spec_get [] ops = (out, eq_content q')"
    using encoded.refines [OF ok assms(5)] by (simp_all add: eq_init_ok)
  have "eq_cnt q' \<le> slots" using run(1) by (simp add: eq_ok_def)
  then show ?thesis
    using run(2) spec_run_subseq [OF run(2)] encoded.accounts [OF ok assms(5)] length_eq_content [of q']
      length_eq_content [of "eq_init q (Some arena) (Some lengths) slots ssz"]
    by (simp add: eq_init_ok del: length_eq_content)
qed

theorem encoded_queue_keeps_newest_witness:
  "fst (fifo_run eq_put (eq_take 3) (eq_init queue_zero (Some [0, 0, 0, 0]) (Some [0, 0]) 2 2)
     [Put [[1], [2], [7, 7, 7], []], Get 1, Put [[5]], Get 9]) = [[2], [], [5]]"
proof -
  have spec: "fifo_run (spec_put 2 (\<lambda>p. length p \<le> 2)) spec_get []
      [Put [[1], [2], [7, 7, 7], [] :: bytes], Get 1, Put [[5]], Get 9] = ([[2], [], [5]], [])"
    by code_simp
  obtain out q' where run: "fifo_run eq_put (eq_take 3)
      (eq_init queue_zero (Some [0, 0, 0, 0]) (Some [0, 0]) 2 2)
      [Put [[1], [2], [7, 7, 7], []], Get 1, Put [[5]], Get 9] = (out, q')"
    by fastforce
  from encoded_queue_keeps_newest [OF _ _ _ _ run] have "out = [[2], [], [5]]" unfolding spec by simp
  with run show ?thesis by simp
qed

end
