(* ===== verification/Device_Rtp.thy ===== *)
theory Device_Rtp
  imports Rtp_Packet Device_Frame
begin

text \<open>
  \<open>client/components/rtp/rtp_packet.c\<close>: the firmware's RTP packetizer. The lemmas show that
  the server's parser accepts what it emits, field by field, and that the streams of one boot have
  different synchronisation sources. What \<open>pion/rtp\<close> does with a packet that has neither padding,
  extension nor contributing sources (RFC 3550, section 5.1) is the hypothesis \<open>reads_plain_rtp\<close>.
\<close>

section \<open>The code\<close>

definition RTP_HEADER_SIZE :: nat where
  "RTP_HEADER_SIZE = 12"

definition RTP_VERSION :: u32 where
  "RTP_VERSION = 2"

definition RTP_DEFAULT_PAYLOAD_TYPE :: byte where
  "RTP_DEFAULT_PAYLOAD_TYPE = 111"

definition RTP_TIMESTAMP_INCREMENT :: u32 where
  "RTP_TIMESTAMP_INCREMENT = 960"

record rtp_state =
  rs_payload_type :: byte
  rs_sequence :: u16
  rs_timestamp :: u32
  rs_ssrc :: u32

definition put_be16 :: "u16 \<Rightarrow> bytes" where
  "put_be16 v = [ucast (drop_bit 8 v AND 0xFF), ucast (v AND 0xFF)]"

definition mix32 :: "u32 \<Rightarrow> u32" where
  "mix32 x =
     (let x1 = x + 0x9E3779B9;
          x2 = x1 XOR drop_bit 16 x1;
          x3 = x2 * 0x21F0AAAD;
          x4 = x3 XOR drop_bit 15 x3;
          x5 = x4 * 0x735A2D97
      in x5 XOR drop_bit 15 x5)"

definition rtp_init :: "rtp_state option \<Rightarrow> byte \<Rightarrow> u32 \<Rightarrow> rtp_state option" where
  "rtp_init st payload_type seed =
     (case st of
        None \<Rightarrow> None
      | Some s \<Rightarrow>
          let pt = (if 127 < payload_type then RTP_DEFAULT_PAYLOAD_TYPE else payload_type);
              a = mix32 seed; b = mix32 a; c = mix32 b
          in Some (s\<lparr>rs_payload_type := pt AND 0x7F, rs_sequence := ucast (a AND 0xFFFF),
                     rs_timestamp := b, rs_ssrc := c\<rparr>))"

text \<open>The twelve header bytes; \<open>marker\<close> is the C truth value of the argument.\<close>

definition rtp_header :: "rtp_state \<Rightarrow> bool \<Rightarrow> bytes" where
  "rtp_header st marker =
     [ucast (push_bit 6 RTP_VERSION),
      push_bit 7 (if marker then 1 else 0) OR (rs_payload_type st AND 0x7F)] @
     put_be16 (rs_sequence st) @ put_be32 (rs_timestamp st) @ put_be32 (rs_ssrc st)"

definition rtp_advance :: "rtp_state \<Rightarrow> rtp_state" where
  "rtp_advance st = st\<lparr>rs_sequence := rs_sequence st + 1,
     rs_timestamp := rs_timestamp st + RTP_TIMESTAMP_INCREMENT\<rparr>"

text \<open>The result is the return value, the state and the output buffer.\<close>

definition rtp_serialize ::
  "rtp_state option \<Rightarrow> bytes option \<Rightarrow> nat \<Rightarrow> bool \<Rightarrow> bytes option \<Rightarrow> nat \<Rightarrow>
     int \<times> rtp_state option \<times> bytes option" where
  "rtp_serialize st opus opus_len marker out out_cap =
     (if st = None \<or> out = None then (- 1, st, out)
      else if opus = None \<and> 0 < opus_len then (- 1, st, out)
      else if out_cap < RTP_HEADER_SIZE + opus_len then (- 2, st, out)
      else
        let payload = (case opus of None \<Rightarrow> [] | Some p \<Rightarrow> take opus_len p);
            out' = overwrite RTP_HEADER_SIZE payload (overwrite 0 (rtp_header (the st) marker) (the out))
        in (int (RTP_HEADER_SIZE + opus_len), map_option rtp_advance st, Some out'))"

section \<open>The packets on the wire\<close>

lemma put_be16_bytes: "put_be16 v = be_bytes 2 v"
proof -
  have byte: "(0xFF :: u16) = mask 8" by (simp add: mask_eq_exp_minus_1)
  show ?thesis
    unfolding put_be16_def byte
    by (simp add: be_bytes_def numeral_eq_Suc)
      (intro conjI; rule bit_word_eqI; auto simp: bit_simps)
qed

lemma length_rtp_header: "length (rtp_header st m) = RTP_HEADER_SIZE"
  by (simp add: rtp_header_def put_be16_bytes put_be32_bytes RTP_HEADER_SIZE_def)

lemma rtp_serialize_ok:
  assumes "RTP_HEADER_SIZE + length p \<le> out_cap" "out_cap \<le> length out"
  shows "rtp_serialize (Some st) (Some p) (length p) m (Some out) out_cap =
    (int (RTP_HEADER_SIZE + length p), Some (rtp_advance st),
     Some (rtp_header st m @ p @ drop (RTP_HEADER_SIZE + length p) out))"
  using assms by (simp add: rtp_serialize_def overwrite_def length_rtp_header Let_def add.commute)

text \<open>Errors leave the packetizer as it was, so the next packet continues the sequence.\<close>

lemma rtp_serialize_error:
  "fst (rtp_serialize st opus n m out cap) < 0 \<Longrightarrow>
    fst (snd (rtp_serialize st opus n m out cap)) = st \<and> snd (snd (rtp_serialize st opus n m out cap)) = out"
  by (auto simp: rtp_serialize_def Let_def split: if_splits)

lemma rtp_first_byte: "ucast (push_bit 6 RTP_VERSION) = (128 :: byte)"
  by (simp add: RTP_VERSION_def push_bit_eq_mult)

text \<open>
  The send loop over the packets it pops: the marker bit is set until the first packet has been
  serialised, and every packet is serialised into the same buffer of \<open>RTP_SEND_BUF\<close> bytes.
\<close>

definition RTP_MAX_PAYLOAD :: nat where
  "RTP_MAX_PAYLOAD = 1500"

definition RTP_SEND_BUF :: nat where
  "RTP_SEND_BUF = RTP_HEADER_SIZE + RTP_MAX_PAYLOAD"

fun rtp_send_all :: "rtp_state \<Rightarrow> bool \<Rightarrow> bytes \<Rightarrow> bytes list \<Rightarrow> bytes list \<times> rtp_state" where
  "rtp_send_all st first out [] = ([], st)"
| "rtp_send_all st first out (p # ps) =
     (case rtp_serialize (Some st) (Some p) (length p) first (Some out) RTP_SEND_BUF of
        (n, Some st', Some out') \<Rightarrow>
          if n < 0 then rtp_send_all st' first out' ps
          else (case rtp_send_all st' False out' ps of (ds, st'') \<Rightarrow> (take (nat n) out' # ds, st''))
      | r \<Rightarrow> ([], st))"

lemma rtp_send_all_Cons:
  assumes "length p \<le> RTP_MAX_PAYLOAD" "length out = RTP_SEND_BUF"
  shows "\<exists>out'. length out' = RTP_SEND_BUF \<and>
    fst (rtp_send_all st m out (p # ps)) =
      (rtp_header st m @ p) # fst (rtp_send_all (rtp_advance st) False out' ps)"
  using rtp_serialize_ok [of p RTP_SEND_BUF out st m] assms
  by (intro exI [of _ "rtp_header st m @ p @ drop (RTP_HEADER_SIZE + length p) out"])
    (simp add: RTP_SEND_BUF_def length_rtp_header nat_add_distrib split: prod.split)

section \<open>The server's side\<close>

text \<open>The RFC's plain packet: \<open>pion\<close> reads its fields.\<close>

definition reads_plain_rtp :: "(bytes \<Rightarrow> pion_packet option) \<Rightarrow> bool" where
  "reads_plain_rtp pion \<longleftrightarrow>
     (\<forall>m pt seq ts ssrc p. pt < 128 \<longrightarrow>
        pion (128 # (push_bit 7 (if m then 1 else 0) OR pt) # be_bytes 2 (seq :: u16) @
              be_bytes 4 (ts :: u32) @ be_bytes 4 (ssrc :: u32) @ p) =
          Some \<lparr>pion_Version = 2, pion_PayloadType = pt, pion_SequenceNumber = seq,
                pion_Timestamp = ts, pion_SSRC = ssrc, pion_Payload = p\<rparr>)"

lemma payload_type_7bit: "(pt :: byte) < 128 \<Longrightarrow> pt AND 0x7F = pt"
proof -
  assume small: "pt < 128"
  have "(0x7F :: byte) = mask 7" by (simp add: mask_eq_exp_minus_1)
  moreover have "take_bit 7 pt = pt"
    using small by (simp add: word_unat_eq_iff unsigned_take_bit_eq take_bit_nat_eq_self word_less_nat_alt)
  ultimately show ?thesis by (metis take_bit_eq_mask)
qed

lemma pion_reads_device:
  assumes "reads_plain_rtp pion" "rs_payload_type st < 128"
  shows "pion (rtp_header st m @ p) = Some \<lparr>pion_Version = 2, pion_PayloadType = rs_payload_type st,
    pion_SequenceNumber = rs_sequence st, pion_Timestamp = rs_timestamp st, pion_SSRC = rs_ssrc st,
    pion_Payload = p\<rparr>"
  using assms
  by (simp add: reads_plain_rtp_def rtp_header_def rtp_first_byte put_be16_bytes put_be32_bytes payload_type_7bit)

text \<open>What the server makes of the \<open>i\<close>-th packet of a stream.\<close>

definition received_as :: "rtp_state \<Rightarrow> nat \<Rightarrow> bytes \<Rightarrow> goerr + packet" where
  "received_as st i p =
     (if p = [] then Inl (Sentinel ErrEmptyPayload)
      else Inr \<lparr>Version = 2, PayloadType = rs_payload_type st,
        SequenceNumber = rs_sequence st + word_of_nat i,
        Timestamp = rs_timestamp st + 960 * word_of_nat i, SSRC = rs_ssrc st, Payload = p\<rparr>)"

lemma received_as_Suc: "received_as (rtp_advance st) i p = received_as st (Suc i) p"
  by (simp add: received_as_def rtp_advance_def RTP_TIMESTAMP_INCREMENT_def algebra_simps)

lemma rtp_send_all_received:
  assumes "reads_plain_rtp pion" "rs_payload_type st < 128" "length out = RTP_SEND_BUF"
    and "\<forall>p\<in>set ps. length p \<le> RTP_MAX_PAYLOAD"
  shows "map (\<lambda>raw. ParseFor pion raw (rs_payload_type st)) (fst (rtp_send_all st m out ps)) =
    map (\<lambda>(i, p). received_as st i p) (enumerate 0 ps)"
  using assms(2-)
proof (induction ps arbitrary: st m out)
  case (Cons p ps)
  then obtain out' where out': "length out' = RTP_SEND_BUF"
      "fst (rtp_send_all st m out (p # ps)) =
        (rtp_header st m @ p) # fst (rtp_send_all (rtp_advance st) False out' ps)"
    using rtp_send_all_Cons [of p out st m ps] by auto
  have pt: "rs_payload_type (rtp_advance st) = rs_payload_type st" by (simp add: rtp_advance_def)
  have head: "ParseFor pion (rtp_header st m @ p) (rs_payload_type st) = received_as st 0 p"
    using pion_reads_device [OF assms(1) Cons.prems(1)] by (simp add: ParseFor_def received_as_def)
  have "enumerate (Suc 0) ps = map (map_prod Suc id) (enumerate 0 ps)"
    by (rule nth_equalityI) (simp_all add: nth_enumerate_eq)
  with Cons.IH [of "rtp_advance st" out' False] Cons.prems out' head show ?case
    by (simp add: pt received_as_Suc case_prod_unfold o_def)
qed simp

lemma rtp_init_payload_type:
  assumes "rtp_init (Some s) pt seed = Some st"
  shows "rs_payload_type st < 128" "pt < 128 \<Longrightarrow> rs_payload_type st = pt"
    "127 < pt \<Longrightarrow> rs_payload_type st = RTP_DEFAULT_PAYLOAD_TYPE"
proof -
  have "(x AND 0x7F :: byte) < 128" for x
    using word_and_le1 [of x "0x7F"] by (rule le_less_trans) simp
  with assms show "rs_payload_type st < 128" by (auto simp: rtp_init_def Let_def)
  show "pt < 128 \<Longrightarrow> rs_payload_type st = pt"
    using assms by (auto simp: rtp_init_def Let_def payload_type_7bit word_less_nat_alt)
  show "127 < pt \<Longrightarrow> rs_payload_type st = RTP_DEFAULT_PAYLOAD_TYPE"
    using assms by (auto simp: rtp_init_def Let_def RTP_DEFAULT_PAYLOAD_TYPE_def)
qed

section \<open>The mixing function loses nothing\<close>

lemma xor_cancel: "a XOR (a XOR b) = (b :: u32)" "(x XOR a) XOR (a XOR b) XOR b = (x :: u32)"
  by (rule bit_word_eqI, unfold bit_xor_iff, blast)+

definition undo_xor_shift :: "nat \<Rightarrow> u32 \<Rightarrow> u32" where
  "undo_xor_shift k y = y XOR drop_bit k y XOR drop_bit (k + k) y"

lemma xor_shift_undone:
  assumes "32 \<le> 3 * k"
  shows "undo_xor_shift k (x XOR drop_bit k x) = x"
proof -
  have "drop_bit (k + k + k) x = 0"
    using assms by (intro bit_word_eqI) (auto simp: bit_drop_bit_eq dest: bit_imp_le_length)
  then have "undo_xor_shift k (x XOR drop_bit k x) =
      (x XOR drop_bit k x) XOR (drop_bit k x XOR drop_bit (k + k) x) XOR drop_bit (k + k) x"
    by (simp add: undo_xor_shift_def drop_bit_xor drop_bit_drop_bit add.assoc)
  also have "\<dots> = x" by (rule xor_cancel)
  finally show ?thesis .
qed

lemma xor_shift_inj: "32 \<le> 3 * k \<Longrightarrow> (x :: u32) XOR drop_bit k x = y XOR drop_bit k y \<Longrightarrow> x = y"
  by (drule arg_cong [where f = "undo_xor_shift k"]) (simp add: xor_shift_undone)

lemma times_inj: "(x :: u32) * a = y * a \<Longrightarrow> a * b = 1 \<Longrightarrow> x = y"
  by (drule arg_cong [where f = "\<lambda>z. z * b"]) (simp only: mult.assoc mult_1_right)

lemma mix32_inj: "mix32 x = mix32 y \<Longrightarrow> x = y"
proof -
  let ?s = "\<lambda>x. (x + 0x9E3779B9) XOR drop_bit 16 (x + 0x9E3779B9)"
  let ?t = "\<lambda>x. ?s x * 0x21F0AAAD XOR drop_bit 15 (?s x * 0x21F0AAAD)"
  assume "mix32 x = mix32 y"
  then have "?t x * 0x735A2D97 = ?t y * 0x735A2D97"
    unfolding mix32_def Let_def by (rule xor_shift_inj [rotated]) simp
  then have "?t x = ?t y" by (rule times_inj [where b = "0x97132227"]) simp
  then have "?s x * 0x21F0AAAD = ?s y * 0x21F0AAAD" by (rule xor_shift_inj [rotated]) simp
  then have "?s x = ?s y" by (rule times_inj [where b = "0x333c4925"]) simp
  then have "x + 0x9E3779B9 = y + 0x9E3779B9" by (rule xor_shift_inj [rotated]) simp
  then show "x = y" by simp
qed

text \<open>\<open>audio_manager_start_stream\<close> seeds the packetizer with the number of the stream.\<close>

definition ssrc_seed :: "u32 \<Rightarrow> u32" where
  "ssrc_seed stream_seq = 0xA5A50000 XOR stream_seq"

lemma ssrc_seed_inj: "ssrc_seed m = ssrc_seed n \<Longrightarrow> m = n"
  by (drule arg_cong [where f = "\<lambda>z. 0xA5A50000 XOR z"]) (simp only: ssrc_seed_def xor_cancel)

section \<open>Properties\<close>

text \<open>The server reads the firmware's RTP stream as it was sent: for every decoder that reads
  plain RTP packets as RFC 3550 lays them out, the parser set to the stream's payload type returns
  each packet with its payload, consecutive sequence numbers from the first one, timestamps 960
  apart (both modulo the width of their fields) and the one synchronisation source, whatever the
  marker bit; only an empty payload is refused.\<close>

theorem server_reads_device_stream:
  assumes "reads_plain_rtp pion" and "rtp_init (Some s) pt seed = Some st"
    and "length out = RTP_SEND_BUF" and "\<forall>p\<in>set ps. length p \<le> RTP_MAX_PAYLOAD"
  shows "map (\<lambda>raw. ParseFor pion raw (if 127 < pt then DefaultPayloadType else pt))
      (fst (rtp_send_all st True out ps)) =
    map (\<lambda>(i, p). if p = [] then Inl (Sentinel ErrEmptyPayload)
       else Inr \<lparr>Version = 2, PayloadType = (if 127 < pt then DefaultPayloadType else pt),
         SequenceNumber = rs_sequence st + word_of_nat i,
         Timestamp = rs_timestamp st + 960 * word_of_nat i, SSRC = rs_ssrc st, Payload = p\<rparr>)
      (enumerate 0 ps)"
proof -
  note pt = rtp_init_payload_type [OF assms(2)]
  have type: "rs_payload_type st = (if 127 < pt then DefaultPayloadType else pt)"
    using pt(2, 3) by (auto simp: DefaultPayloadType_def RTP_DEFAULT_PAYLOAD_TYPE_def word_less_nat_alt not_less)
  show ?thesis
    using rtp_send_all_received [OF assms(1) pt(1) assms(3, 4), of True] unfolding received_as_def type .
qed

text \<open>A decoder of the required kind.\<close>

definition plain_rtp :: "bytes \<Rightarrow> pion_packet option" where
  "plain_rtp raw =
     (if length raw < 12 \<or> raw ! 0 \<noteq> 128 then None
      else Some \<lparr>pion_Version = 2, pion_PayloadType = raw ! 1 AND 0x7F,
        pion_SequenceNumber = be_word (take 2 (drop 2 raw)), pion_Timestamp = be_word (take 4 (drop 4 raw)),
        pion_SSRC = be_word (take 4 (drop 8 raw)), pion_Payload = drop 12 raw\<rparr>)"

lemma plain_rtp_reads: "reads_plain_rtp plain_rtp"
proof -
  have mask: "(0x7F :: byte) = mask 7" by (simp add: mask_eq_exp_minus_1)
  have "(push_bit 7 (if m then 1 else 0) OR pt) AND 0x7F = pt" if "pt < 128" for m and pt :: byte
  proof -
    have "push_bit 7 (if m then 1 else 0) AND (0x7F :: byte) = 0"
      unfolding mask by (rule bit_word_eqI) (auto simp: bit_simps)
    with payload_type_7bit [OF that] show ?thesis by (simp add: bit.conj_disj_distrib2)
  qed
  then show ?thesis
    by (simp add: reads_plain_rtp_def plain_rtp_def codec_simps)
qed

theorem server_reads_device_stream_witness:
  "map (\<lambda>raw. ParseFor plain_rtp raw DefaultPayloadType)
     (fst (rtp_send_all \<lparr>rs_payload_type = 111, rs_sequence = ucast (mix32 5 AND 0xFFFF),
        rs_timestamp = mix32 (mix32 5), rs_ssrc = mix32 (mix32 (mix32 5))\<rparr> True (replicate RTP_SEND_BUF 0)
        [[1, 2], []])) =
   [Inr \<lparr>Version = 2, PayloadType = DefaultPayloadType, SequenceNumber = ucast (mix32 5 AND 0xFFFF),
      Timestamp = mix32 (mix32 5), SSRC = mix32 (mix32 (mix32 5)), Payload = [1, 2]\<rparr>,
    Inl (Sentinel ErrEmptyPayload)]"
proof -
  have "rtp_init (Some \<lparr>rs_payload_type = 0, rs_sequence = 0, rs_timestamp = 0, rs_ssrc = 0\<rparr>) 200 5 =
      Some \<lparr>rs_payload_type = 111, rs_sequence = ucast (mix32 5 AND 0xFFFF),
        rs_timestamp = mix32 (mix32 5), rs_ssrc = mix32 (mix32 (mix32 5))\<rparr>"
    by (simp add: rtp_init_def Let_def RTP_DEFAULT_PAYLOAD_TYPE_def)
  from server_reads_device_stream [OF plain_rtp_reads this, of "replicate RTP_SEND_BUF 0" "[[1, 2], []]"]
  show ?thesis by (simp add: RTP_MAX_PAYLOAD_def)
qed

text \<open>The streams of one boot are told apart by their synchronisation source until the stream
  counter wraps: the three rounds of \<open>mix32\<close> are a bijection of the seed.\<close>

theorem streams_have_their_own_ssrc:
  assumes "rtp_init (Some s) pt (ssrc_seed m) = Some st" "rtp_init (Some s') pt' (ssrc_seed n) = Some st'"
  shows "rs_ssrc st = rs_ssrc st' \<longleftrightarrow> m = n"
  using assms by (auto simp: rtp_init_def Let_def dest!: mix32_inj ssrc_seed_inj)

text \<open>The seed holds nothing of the device: the \<open>n\<close>-th stream of any device has the same
  initial sequence number, timestamp and source as the \<open>n\<close>-th of any other, and as after a
  reboot.\<close>

theorem ssrc_is_not_of_the_device:
  assumes "rtp_init (Some s) pt (ssrc_seed n) = Some st" "rtp_init (Some s') pt' (ssrc_seed n) = Some st'"
  shows "rs_ssrc st = rs_ssrc st' \<and> rs_sequence st = rs_sequence st' \<and> rs_timestamp st = rs_timestamp st'"
  using assms by (auto simp: rtp_init_def Let_def)

end
