(* ===== verification/Device_Audio.thy ===== *)
theory Device_Audio
  imports Device_Buffers Device_Rtp Device_Dsp
begin

text \<open>
  \<open>client/components/audio_manager/audio_manager.c\<close> with the tasks it starts
  (\<open>i2s_capture.c\<close>, \<open>opus_encoder_task.c\<close>, \<open>rtp_sender.c\<close>): the firmware's pipeline from
  the microphone to the datagrams. A task handle is the context it points to, a storage pointer or a
  lock a flag: what is stored is in the ring and in the queue. The heap, the sockets, the I2S driver
  and FreeRTOS are the record \<open>platform\<close>, libopus is the parameter \<open>encode\<close>, and every iteration of
  a task's loop is one step that takes what the driver, the lock and the socket did as arguments.
\<close>

section \<open>Configuration\<close>

datatype esp_err = ESP_OK | ESP_FAIL | ESP_ERR_NO_MEM | ESP_ERR_INVALID_ARG | ESP_ERR_INVALID_STATE | ESP_ERR int

record audio_config =
  ac_bclk_gpio :: int
  ac_ws_gpio :: int
  ac_din_gpio :: int
  ac_default_bitrate :: u32
  ac_complexity :: int

record stream_params =
  ap_stream_id :: string
  ap_dest_ip :: string
  ap_dest_port :: u16
  ap_payload_type :: byte
  ap_sample_rate :: u32
  ap_channels :: byte
  ap_frame_ms :: u16
  ap_bitrate :: u32
  ap_vbr :: bool
  ap_fec :: bool
  ap_dtx :: bool

definition I2S_CAP_SAMPLE_RATE :: u32 where "I2S_CAP_SAMPLE_RATE = 48000"
definition I2S_CAP_CHANNELS :: byte where "I2S_CAP_CHANNELS = 2"
definition OPUS_FRAME_SAMPLES :: nat where "OPUS_FRAME_SAMPLES = 960 * 2"

text \<open>The buffer sizes with and without PSRAM: ring samples, queue slots and bytes of a slot.\<close>

definition ring_samples :: "bool \<Rightarrow> nat" where
  "ring_samples psram = (48000 * (if psram then 200 else 80) div 1000) * 2"

definition queue_slots :: "bool \<Rightarrow> nat" where
  "queue_slots psram = (if psram then 64 else 32)"

definition queue_slot_sz :: "bool \<Rightarrow> nat" where
  "queue_slot_sz psram = (if psram then 1500 else 512)"

section \<open>State\<close>

record rtp_ctx =
  rx_dest_ip :: string
  rx_dest_port :: u16
  rx_rtp :: rtp_state
  rx_first_packet :: bool
  rx_packets_sent :: u64
  rx_bytes_sent :: u64
  rx_send_errors :: u64
  rx_last_sequence :: u16
  rx_last_timestamp :: u32

record opus_ctx =
  ox_sample_rate :: u32
  ox_channels :: int
  ox_bitrate :: int
  ox_complexity :: int
  ox_gain_q8 :: int
  ox_agc :: bool
  ox_vbr :: bool
  ox_fec :: bool
  ox_dtx :: bool
  ox_dsp :: dsp

record i2s_ctx =
  ix_bclk_gpio :: int
  ix_ws_gpio :: int
  ix_din_gpio :: int
  ix_sample_rate :: u32

record amgr =
  am_inited :: bool
  am_cfg :: audio_config
  am_psram :: bool
  am_streaming :: bool
  am_stream_id :: string
  am_ring_storage :: bool
  am_eq_arena :: bool
  am_eq_lengths :: bool
  am_ring_lock :: bool
  am_queue_lock :: bool
  am_ring :: pcm_ring
  am_queue :: encoded_queue
  am_i2s :: "i2s_ctx option"
  am_opus :: "opus_ctx option"
  am_rtp :: "rtp_ctx option"
  am_capture_late :: u64
  am_encoder_late :: u64
  am_stream_seq :: u32

text \<open>
  What the platform answers while a stream is started: the three allocations (the memory they
  return), the two locks, and the outcome of the driver calls in the three task starts.
\<close>

record platform =
  pf_ring :: "i32 list option"
  pf_arena :: "bytes option"
  pf_lengths :: "nat list option"
  pf_ring_lock :: bool
  pf_queue_lock :: bool
  pf_rtp :: "string \<Rightarrow> u16 \<Rightarrow> esp_err"
  pf_opus :: esp_err
  pf_i2s :: esp_err
  pf_s3 :: bool

definition amgr_zero :: amgr where
  "amgr_zero = \<lparr>am_inited = False,
     am_cfg = \<lparr>ac_bclk_gpio = 0, ac_ws_gpio = 0, ac_din_gpio = 0, ac_default_bitrate = 0, ac_complexity = 0\<rparr>,
     am_psram = False, am_streaming = False, am_stream_id = '''', am_ring_storage = False,
     am_eq_arena = False, am_eq_lengths = False, am_ring_lock = False, am_queue_lock = False,
     am_ring = ring_zero, am_queue = queue_zero, am_i2s = None, am_opus = None, am_rtp = None,
     am_capture_late = 0, am_encoder_late = 0, am_stream_seq = 0\<rparr>"

section \<open>Start and stop\<close>

definition audio_manager_init :: "bool \<Rightarrow> audio_config \<Rightarrow> amgr" where
  "audio_manager_init psram cfg =
     amgr_zero\<lparr>am_inited := True, am_psram := psram,
       am_cfg := cfg\<lparr>ac_complexity := (if ac_complexity cfg = 0 then 5 else ac_complexity cfg),
         ac_default_bitrate := (if ac_default_bitrate cfg = 0 then 128000 else ac_default_bitrate cfg)\<rparr>\<rparr>"

definition validate :: "stream_params \<Rightarrow> esp_err" where
  "validate p =
     (if ap_sample_rate p \<noteq> I2S_CAP_SAMPLE_RATE then ESP_ERR_INVALID_ARG
      else if ap_channels p \<noteq> I2S_CAP_CHANNELS then ESP_ERR_INVALID_ARG
      else if ap_frame_ms p \<noteq> 20 then ESP_ERR_INVALID_ARG
      else if ap_dest_ip p = '''' \<or> ap_dest_port p = 0 then ESP_ERR_INVALID_ARG
      else ESP_OK)"

definition free_storage :: "amgr \<Rightarrow> amgr" where
  "free_storage m = m\<lparr>am_ring_storage := False, am_eq_arena := False, am_eq_lengths := False,
     am_ring_lock := False, am_queue_lock := False\<rparr>"

definition rtp_sender_start :: "platform \<Rightarrow> string \<Rightarrow> u16 \<Rightarrow> byte \<Rightarrow> u32 \<Rightarrow> esp_err \<times> rtp_ctx option" where
  "rtp_sender_start pf ip port payload_type seed =
     (let pt = (if payload_type \<noteq> 0 then payload_type else RTP_DEFAULT_PAYLOAD_TYPE);
          rtp = rtp_init (Some \<lparr>rs_payload_type = 0, rs_sequence = 0, rs_timestamp = 0, rs_ssrc = 0\<rparr>) pt seed
      in if pf_rtp pf ip port = ESP_OK
         then (ESP_OK, Some \<lparr>rx_dest_ip = ip, rx_dest_port = port, rx_rtp = the rtp,
             rx_first_packet = True, rx_packets_sent = 0, rx_bytes_sent = 0, rx_send_errors = 0,
             rx_last_sequence = 0, rx_last_timestamp = 0\<rparr>)
         else (pf_rtp pf ip port, None))"

text \<open>The encoder is created with the defaults for fields that are zero, and at unity gain.\<close>

definition opus_task_start :: "platform \<Rightarrow> opus_ctx \<Rightarrow> esp_err \<times> opus_ctx option" where
  "opus_task_start pf cfg =
     (if pf_opus pf = ESP_OK
      then (ESP_OK, Some (cfg\<lparr>
          ox_sample_rate := (if ox_sample_rate cfg = 0 then 48000 else ox_sample_rate cfg),
          ox_channels := (if ox_channels cfg = 0 then 2 else ox_channels cfg),
          ox_bitrate := (if ox_bitrate cfg = 0 then 128000 else ox_bitrate cfg),
          ox_complexity := (if ox_complexity cfg = 0 then 5 else ox_complexity cfg),
          ox_gain_q8 := (if ox_gain_q8 cfg = 0 then 1024 else ox_gain_q8 cfg),
          ox_dsp := dsp_start\<rparr>))
      else (pf_opus pf, None))"

definition i2s_capture_start :: "platform \<Rightarrow> i2s_ctx \<Rightarrow> esp_err \<times> i2s_ctx option" where
  "i2s_capture_start pf cfg =
     (if pf_i2s pf = ESP_OK
      then (ESP_OK, Some (cfg\<lparr>ix_sample_rate :=
          (if ix_sample_rate cfg = 0 then I2S_CAP_SAMPLE_RATE else ix_sample_rate cfg)\<rparr>))
      else (pf_i2s pf, None))"

text \<open>The bitrate of a stream: the default when it is 0, capped except on the ESP32-S3.\<close>

definition stream_bitrate :: "platform \<Rightarrow> amgr \<Rightarrow> stream_params \<Rightarrow> u32" where
  "stream_bitrate pf m p =
     (let b = (if ap_bitrate p \<noteq> 0 then ap_bitrate p else ac_default_bitrate (am_cfg m)) in
      if \<not> pf_s3 pf \<and> 64000 < b then 64000 else b)"

definition opus_config :: "platform \<Rightarrow> amgr \<Rightarrow> stream_params \<Rightarrow> opus_ctx" where
  "opus_config pf m p = \<lparr>ox_sample_rate = ap_sample_rate p, ox_channels = uint (ap_channels p),
     ox_bitrate = sint (stream_bitrate pf m p), ox_complexity = ac_complexity (am_cfg m), ox_gain_q8 = 0,
     ox_agc = True, ox_vbr = ap_vbr p, ox_fec = ap_fec p, ox_dtx = ap_dtx p, ox_dsp = dsp_start\<rparr>"

definition i2s_config :: "amgr \<Rightarrow> stream_params \<Rightarrow> i2s_ctx" where
  "i2s_config m p = \<lparr>ix_bclk_gpio = ac_bclk_gpio (am_cfg m), ix_ws_gpio = ac_ws_gpio (am_cfg m),
     ix_din_gpio = ac_din_gpio (am_cfg m), ix_sample_rate = ap_sample_rate p\<rparr>"

text \<open>The allocations, and the buffers set up over them.\<close>

definition allocate :: "platform \<Rightarrow> amgr \<Rightarrow> amgr" where
  "allocate pf m = m\<lparr>am_ring_storage := pf_ring pf \<noteq> None, am_eq_arena := pf_arena pf \<noteq> None,
     am_eq_lengths := pf_lengths pf \<noteq> None, am_ring_lock := pf_ring_lock pf, am_queue_lock := pf_queue_lock pf\<rparr>"

definition set_up :: "platform \<Rightarrow> amgr \<Rightarrow> amgr" where
  "set_up pf m = m\<lparr>am_ring := pcm_ring_init (am_ring m) (pf_ring pf) (ring_samples (am_psram m)),
     am_queue := eq_init (am_queue m) (pf_arena pf) (pf_lengths pf) (queue_slots (am_psram m))
       (queue_slot_sz (am_psram m)),
     am_capture_late := 0, am_encoder_late := 0, am_stream_seq := am_stream_seq m + 1\<rparr>"

definition audio_manager_start_stream :: "platform \<Rightarrow> stream_params \<Rightarrow> amgr \<Rightarrow> esp_err \<times> amgr" where
  "audio_manager_start_stream pf p m =
     (if \<not> am_inited m then (ESP_ERR_INVALID_ARG, m)
      else if am_streaming m then (ESP_ERR_INVALID_STATE, m)
      else if validate p \<noteq> ESP_OK then (validate p, m)
      else
        let m1 = allocate pf m in
        if \<not> (am_ring_storage m1 \<and> am_eq_arena m1 \<and> am_eq_lengths m1 \<and> am_ring_lock m1 \<and> am_queue_lock m1)
        then (ESP_ERR_NO_MEM, free_storage m1)
        else
          let m2 = set_up pf m1;
              pt = (if ap_payload_type p \<noteq> 0 then ap_payload_type p else 111)
              in case rtp_sender_start pf (take 45 (ap_dest_ip p)) (ap_dest_port p) pt (ssrc_seed (am_stream_seq m2)) of
            (err, rtp) \<Rightarrow>
              if err \<noteq> ESP_OK then (err, free_storage m2)
              else let m3 = m2\<lparr>am_rtp := rtp\<rparr> in
                case opus_task_start pf (opus_config pf m p) of
                  (err, opus) \<Rightarrow>
                    if err \<noteq> ESP_OK then (err, free_storage (m3\<lparr>am_rtp := None\<rparr>))
                    else let m4 = m3\<lparr>am_opus := opus\<rparr> in
                      case i2s_capture_start pf (i2s_config m p) of
                        (err, i2s) \<Rightarrow>
                          if err \<noteq> ESP_OK
                          then (err, free_storage (m4\<lparr>am_opus := None, am_rtp := None\<rparr>))
                          else (ESP_OK, m4\<lparr>am_i2s := i2s, am_streaming := True,
                                  am_stream_id := take 63 (ap_stream_id p)\<rparr>))"

definition audio_manager_stop_stream :: "amgr \<Rightarrow> amgr" where
  "audio_manager_stop_stream m =
     (if \<not> am_streaming m then m
      else (free_storage (m\<lparr>am_i2s := None, am_opus := None, am_rtp := None\<rparr>))
        \<lparr>am_streaming := False, am_stream_id := ''''\<rparr>)"

definition audio_manager_apply_config :: "u32 \<Rightarrow> amgr \<Rightarrow> esp_err \<times> amgr" where
  "audio_manager_apply_config default_bitrate m =
     (if \<not> am_inited m then (ESP_ERR_INVALID_STATE, m)
      else (ESP_OK, if default_bitrate \<noteq> 0
                    then m\<lparr>am_cfg := (am_cfg m)\<lparr>ac_default_bitrate := default_bitrate\<rparr>\<rparr> else m))"

section \<open>The tasks\<close>

text \<open>
  One iteration of \<open>capture_task\<close>: what the driver returned (\<open>None\<close> for an error or nothing read)
  and whether the ring's lock was taken in time.
\<close>

definition capture_step :: "i32 list option \<Rightarrow> bool \<Rightarrow> amgr \<Rightarrow> amgr" where
  "capture_step got locked m =
     (case got of
        None \<Rightarrow> m\<lparr>am_capture_late := am_capture_late m + 1\<rparr>
      | Some slots \<Rightarrow>
          if slots = [] \<or> \<not> locked then m\<lparr>am_capture_late := am_capture_late m + 1\<rparr>
          else m\<lparr>am_ring := snd (pcm_ring_write (am_ring m)
                  (Some (map word_of_int (capture slots))) (length slots))\<rparr>)"

text \<open>\<open>take_frame\<close>: a whole frame from the ring, or nothing.\<close>

definition take_frame_of :: "bool \<Rightarrow> amgr \<Rightarrow> int list option \<times> amgr" where
  "take_frame_of locked m =
     (if \<not> locked then (None, m\<lparr>am_encoder_late := am_encoder_late m + 1\<rparr>)
      else if pcm_ring_count (am_ring m) < OPUS_FRAME_SAMPLES then (None, m)
      else case pcm_ring_read (am_ring m) False OPUS_FRAME_SAMPLES of
        (xs, r) \<Rightarrow> (if length xs = OPUS_FRAME_SAMPLES then Some (map sint xs) else None, m\<lparr>am_ring := r\<rparr>))"

text \<open>
  One iteration of \<open>opus_task\<close>: \<open>encode\<close> is \<open>opus_encode\<close>, with its negative code or its packet,
  and the flags say whether the two locks were taken in time. The second component is the packet
  handed to the queue.
\<close>

definition opus_step ::
  "(opus_ctx \<Rightarrow> int list \<Rightarrow> int + bytes) \<Rightarrow> bool \<Rightarrow> bool \<Rightarrow> amgr \<Rightarrow> amgr \<times> bytes option" where
  "opus_step encode ring_locked queue_locked m =
     (case am_opus m of
        None \<Rightarrow> (m, None)
      | Some ox \<Rightarrow>
          (case take_frame_of ring_locked m of
             (None, m1) \<Rightarrow> (m1, None)
           | (Some frame, m1) \<Rightarrow>
               (case process_frame (ox_channels ox) (ox_agc ox) (ox_gain_q8 ox) (ox_dsp ox) frame of
                  (pcm16, d) \<Rightarrow>
                    let ox1 = ox\<lparr>ox_dsp := d\<rparr>; m2 = m1\<lparr>am_opus := Some ox1\<rparr> in
                    (case encode ox1 pcm16 of
                       Inl e \<Rightarrow> (m2\<lparr>am_encoder_late := am_encoder_late m2 + 1\<rparr>, None)
                     | Inr packet \<Rightarrow>
                         if length packet \<le> 2 then (m2, None)
                         else if \<not> queue_locked then (m2\<lparr>am_encoder_late := am_encoder_late m2 + 1\<rparr>, None)
                         else (m2\<lparr>am_queue := snd (eq_push (am_queue m2) (Some packet) (length packet))\<rparr>,
                               Some packet)))))"

text \<open>
  One iteration of \<open>rtp_task\<close>: whether the queue's lock was taken, and what \<open>send\<close> returned. The
  second component is the datagram handed to the socket.
\<close>

definition rtp_step :: "bool \<Rightarrow> int \<Rightarrow> amgr \<Rightarrow> amgr \<times> bytes option" where
  "rtp_step locked sent m =
     (case am_rtp m of
        None \<Rightarrow> (m, None)
      | Some x \<Rightarrow>
          if \<not> locked then (m, None)
          else
            (case eq_pop (am_queue m) False RTP_MAX_PAYLOAD of
               ((rc, opus), q) \<Rightarrow>
                 let m1 = m\<lparr>am_queue := q\<rparr> in
                 if rc \<noteq> 1 then (m1, None)
                 else
                   (case rtp_serialize (Some (rx_rtp x)) (Some opus) (length opus) (rx_first_packet x)
                           (Some (replicate RTP_SEND_BUF 0)) RTP_SEND_BUF of
                      (n, Some rtp, Some out) \<Rightarrow>
                        if n < 0 then (m1\<lparr>am_rtp := Some (x\<lparr>rx_send_errors := rx_send_errors x + 1\<rparr>)\<rparr>, None)
                        else
                          let x1 = x\<lparr>rx_rtp := rtp, rx_first_packet := False\<rparr>;
                              x2 = (if sent < 0 then x1\<lparr>rx_send_errors := rx_send_errors x1 + 1\<rparr>
                                    else x1\<lparr>rx_packets_sent := rx_packets_sent x1 + 1,
                                      rx_bytes_sent := rx_bytes_sent x1 + word_of_int sent,
                                      rx_last_sequence := rs_sequence rtp, rx_last_timestamp := rs_timestamp rtp\<rparr>)
                          in (m1\<lparr>am_rtp := Some x2\<rparr>, Some (take (nat n) out))
                    | _ \<Rightarrow> (m1, None))))"

section \<open>Resources\<close>

text \<open>A stream holds all its resources, and without one none is held.\<close>

definition all_held :: "amgr \<Rightarrow> bool" where
  "all_held m \<longleftrightarrow> am_ring_storage m \<and> am_eq_arena m \<and> am_eq_lengths m \<and> am_ring_lock m \<and>
     am_queue_lock m \<and> am_i2s m \<noteq> None \<and> am_opus m \<noteq> None \<and> am_rtp m \<noteq> None"

definition none_held :: "amgr \<Rightarrow> bool" where
  "none_held m \<longleftrightarrow> \<not> am_ring_storage m \<and> \<not> am_eq_arena m \<and> \<not> am_eq_lengths m \<and> \<not> am_ring_lock m \<and>
     \<not> am_queue_lock m \<and> am_i2s m = None \<and> am_opus m = None \<and> am_rtp m = None"

definition amgr_ok :: "amgr \<Rightarrow> bool" where
  "amgr_ok m \<longleftrightarrow> (if am_streaming m then am_inited m \<and> all_held m else none_held m \<and> am_stream_id m = '''')"

text \<open>What a failed start may have changed.\<close>

definition scratch_only :: "amgr \<Rightarrow> amgr \<Rightarrow> bool" where
  "scratch_only m m' \<longleftrightarrow> m' = m\<lparr>am_ring := am_ring m', am_queue := am_queue m',
     am_capture_late := am_capture_late m', am_encoder_late := am_encoder_late m',
     am_stream_seq := am_stream_seq m'\<rparr>"

definition stream_payload_type :: "stream_params \<Rightarrow> byte" where
  "stream_payload_type p = (if ap_payload_type p \<noteq> 0 then ap_payload_type p else 111)"

lemma audio_manager_init_ok: "amgr_ok (audio_manager_init psram cfg)"
  by (simp add: amgr_ok_def none_held_def audio_manager_init_def amgr_zero_def)

lemma stop_stream_ok: "amgr_ok m \<Longrightarrow> amgr_ok (audio_manager_stop_stream m) \<and> \<not> am_streaming (audio_manager_stop_stream m)"
  by (auto simp: amgr_ok_def none_held_def audio_manager_stop_stream_def free_storage_def)

text \<open>Giving everything back leaves only scratch data changed.\<close>

lemma give_back:
  assumes "none_held m"
  shows "scratch_only m (free_storage (allocate pf m))"
    and "scratch_only m (free_storage (set_up pf (allocate pf m)))"
    and "scratch_only m (free_storage (set_up pf (allocate pf m)\<lparr>am_rtp := None\<rparr>))"
    and "scratch_only m (free_storage (set_up pf (allocate pf m)\<lparr>am_opus := None, am_rtp := None\<rparr>))"
  using assms
  by (cases m; simp add: none_held_def scratch_only_def free_storage_def set_up_def allocate_def)+

lemma scratch_ok:
  "scratch_only m m' \<Longrightarrow> amgr_ok m \<Longrightarrow> amgr_ok m' \<and> am_streaming m' = am_streaming m"
proof -
  assume scratch: "scratch_only m m'" and ok: "amgr_ok m"
  have "am_streaming m' = am_streaming m" "am_inited m' = am_inited m" "am_stream_id m' = am_stream_id m"
    "all_held m' = all_held m" "none_held m' = none_held m"
    unfolding all_held_def none_held_def by (subst scratch [unfolded scratch_only_def], simp)+
  with ok show ?thesis by (simp add: amgr_ok_def)
qed

definition start_parts :: "platform \<Rightarrow> stream_params \<Rightarrow> amgr \<Rightarrow> amgr" where
  "start_parts pf p m =
     (let m2 = set_up pf (allocate pf m) in
      m2\<lparr>am_rtp := snd (rtp_sender_start pf (take 45 (ap_dest_ip p)) (ap_dest_port p) (stream_payload_type p)
           (ssrc_seed (am_stream_seq m2))),
         am_opus := snd (opus_task_start pf (opus_config pf m p)),
         am_i2s := snd (i2s_capture_start pf (i2s_config m p)), am_streaming := True,
         am_stream_id := take 63 (ap_stream_id p)\<rparr>)"

lemma start_stream_cases:
  assumes "amgr_ok m" "audio_manager_start_stream pf p m = (e, m')"
  shows "e = ESP_OK \<and> am_inited m \<and> \<not> am_streaming m \<and> validate p = ESP_OK \<and>
      pf_rtp pf (take 45 (ap_dest_ip p)) (ap_dest_port p) = ESP_OK \<and> pf_opus pf = ESP_OK \<and> pf_i2s pf = ESP_OK \<and>
      pf_ring pf \<noteq> None \<and> pf_arena pf \<noteq> None \<and> pf_lengths pf \<noteq> None \<and> pf_ring_lock pf \<and> pf_queue_lock pf \<and>
      m' = start_parts pf p m \<or>
    e \<noteq> ESP_OK \<and> scratch_only m m'"
proof (cases "am_inited m \<and> \<not> am_streaming m \<and> validate p = ESP_OK")
  case False
  have "scratch_only m m" by (simp add: scratch_only_def)
  with False assms(2) show ?thesis by (auto simp: audio_manager_start_stream_def split: if_splits)
next
  case True
  then have none: "none_held m" using assms(1) by (simp add: amgr_ok_def)
  note given = give_back [OF none, of pf]
  show ?thesis
  proof (cases "pf_ring pf \<noteq> None \<and> pf_arena pf \<noteq> None \<and> pf_lengths pf \<noteq> None \<and> pf_ring_lock pf \<and> pf_queue_lock pf")
    case False
    with True assms(2) given(1) show ?thesis
      by (auto simp: audio_manager_start_stream_def Let_def allocate_def)
  next
    case allocated: True
    let ?m2 = "set_up pf (allocate pf m)"
    let ?r = "rtp_sender_start pf (take 45 (ap_dest_ip p)) (ap_dest_port p) (stream_payload_type p)
      (ssrc_seed (am_stream_seq ?m2))"
    let ?o = "opus_task_start pf (opus_config pf m p)"
    let ?i = "i2s_capture_start pf (i2s_config m p)"
    have result: "(e, m') =
        (if fst ?r \<noteq> ESP_OK then (fst ?r, free_storage ?m2)
         else if fst ?o \<noteq> ESP_OK then (fst ?o, free_storage (?m2\<lparr>am_rtp := None\<rparr>))
         else if fst ?i \<noteq> ESP_OK then (fst ?i, free_storage (?m2\<lparr>am_opus := None, am_rtp := None\<rparr>))
         else (ESP_OK, start_parts pf p m))"
      using True allocated assms(2)
      by (auto simp: audio_manager_start_stream_def Let_def allocate_def stream_payload_type_def start_parts_def
          split_beta)
    show ?thesis
      using result given(2-) True allocated
      by (auto simp: rtp_sender_start_def opus_task_start_def i2s_capture_start_def Let_def split: if_splits)
  qed
qed

section \<open>The pipeline\<close>

text \<open>Iterations of the three tasks, in any order, with the datagrams sent and the packets queued.\<close>

datatype pipe_event = Captured "i32 list option" bool | Encoded bool bool | Sent bool int

fun pipe_step ::
  "(opus_ctx \<Rightarrow> int list \<Rightarrow> int + bytes) \<Rightarrow> amgr \<Rightarrow> pipe_event \<Rightarrow> amgr \<times> bytes option \<times> bytes option" where
  "pipe_step encode m (Captured got locked) = (capture_step got locked m, None, None)"
| "pipe_step encode m (Encoded rl ql) = (case opus_step encode rl ql m of (m', p) \<Rightarrow> (m', None, p))"
| "pipe_step encode m (Sent locked sent) = (case rtp_step locked sent m of (m', d) \<Rightarrow> (m', d, None))"

fun pipe_run ::
  "(opus_ctx \<Rightarrow> int list \<Rightarrow> int + bytes) \<Rightarrow> amgr \<Rightarrow> pipe_event list \<Rightarrow> amgr \<times> bytes list \<times> bytes list" where
  "pipe_run encode m [] = (m, [], [])"
| "pipe_run encode m (ev # evs) =
     (case pipe_step encode m ev of (m1, d, p) \<Rightarrow>
        (case pipe_run encode m1 evs of (m2, ds, ps) \<Rightarrow>
           (m2, (case d of None \<Rightarrow> [] | Some x \<Rightarrow> [x]) @ ds, (case p of None \<Rightarrow> [] | Some x \<Rightarrow> [x]) @ ps)))"

definition platform_ok :: "bool \<Rightarrow> platform \<Rightarrow> bool" where
  "platform_ok psram pf \<longleftrightarrow>
     (\<forall>a. pf_ring pf = Some a \<longrightarrow> length a = ring_samples psram) \<and>
     (\<forall>a. pf_arena pf = Some a \<longrightarrow> length a = queue_slots psram * queue_slot_sz psram) \<and>
     (\<forall>l. pf_lengths pf = Some l \<longrightarrow> length l = queue_slots psram)"

definition queue_ok :: "bool \<Rightarrow> encoded_queue \<Rightarrow> bool" where
  "queue_ok psram q \<longleftrightarrow> eq_ok (queue_slots psram) (queue_slot_sz psram) RTP_MAX_PAYLOAD q \<and>
     (\<forall>p\<in>set (eq_content q). 2 < length p)"

definition pipe_ok :: "amgr \<Rightarrow> bool" where
  "pipe_ok m \<longleftrightarrow> ring_ok (ring_samples (am_psram m)) (am_ring m) \<and> queue_ok (am_psram m) (am_queue m) \<and>
     (case am_rtp m of None \<Rightarrow> False | Some x \<Rightarrow> rs_payload_type (rx_rtp x) < 128)"

lemma geometry: "0 < queue_slots psram" "queue_slot_sz psram \<le> RTP_MAX_PAYLOAD" "0 < ring_samples psram"
  by (simp_all add: queue_slots_def queue_slot_sz_def ring_samples_def RTP_MAX_PAYLOAD_def)

lemma start_parts_pipe:
  assumes "platform_ok (am_psram m) pf" "pf_ring pf \<noteq> None" "pf_arena pf \<noteq> None" "pf_lengths pf \<noteq> None"
    "pf_rtp pf (take 45 (ap_dest_ip p)) (ap_dest_port p) = ESP_OK"
  shows "pipe_ok (start_parts pf p m) \<and> eq_content (am_queue (start_parts pf p m)) = [] \<and>
    (\<exists>x. am_rtp (start_parts pf p m) = Some x \<and> rx_dest_ip x = take 45 (ap_dest_ip p) \<and>
       rx_dest_port x = ap_dest_port p \<and>
       (stream_payload_type p < 128 \<longrightarrow> rs_payload_type (rx_rtp x) = stream_payload_type p))"
proof -
  obtain a b l where mem: "pf_ring pf = Some a" "length a = ring_samples (am_psram m)"
    "pf_arena pf = Some b" "length b = queue_slots (am_psram m) * queue_slot_sz (am_psram m)"
    "pf_lengths pf = Some l" "length l = queue_slots (am_psram m)"
    using assms(1-4) by (auto simp: platform_ok_def)
  have pt: "stream_payload_type p \<noteq> 0" by (simp add: stream_payload_type_def)
  obtain st where init: "rtp_init (Some \<lparr>rs_payload_type = 0, rs_sequence = 0, rs_timestamp = 0, rs_ssrc = 0\<rparr>)
      (stream_payload_type p) (ssrc_seed (am_stream_seq (set_up pf (allocate pf m)))) = Some st"
    by (simp add: rtp_init_def Let_def)
  note type = rtp_init_payload_type(1,2) [OF init]
  show ?thesis
    using mem pt init type assms(5) geometry [of "am_psram m"]
      ring_init_ok(1) [of "ring_samples (am_psram m)" a "am_ring m"]
      eq_init_ok(1) [of "queue_slots (am_psram m)" b "queue_slot_sz (am_psram m)" l RTP_MAX_PAYLOAD "am_queue m"]
    by (auto simp: start_parts_def pipe_ok_def queue_ok_def set_up_def allocate_def rtp_sender_start_def Let_def
        eq_init_ok(2))
qed

lemma capture_step_pipe:
  assumes "pipe_ok m"
  shows "pipe_ok (capture_step got locked m) \<and> am_queue (capture_step got locked m) = am_queue m \<and>
    am_rtp (capture_step got locked m) = am_rtp m"
  using assms pcm_ring_write_spec [of "ring_samples (am_psram m)" "am_ring m" "map word_of_int (capture slots)" for slots]
  by (auto simp: capture_step_def pipe_ok_def ring_put_def capture_def split: option.splits)

lemma take_frame_pipe:
  assumes "pipe_ok m" "take_frame_of locked m = (f, m')"
  shows "pipe_ok m' \<and> am_queue m' = am_queue m \<and> am_rtp m' = am_rtp m \<and> am_psram m' = am_psram m"
  using assms pcm_ring_read_spec [of "ring_samples (am_psram m)" "am_ring m" OPUS_FRAME_SAMPLES]
  by (auto simp: take_frame_of_def pipe_ok_def ring_get_def split: if_splits prod.splits)

lemma push_queue_ok:
  assumes "queue_ok psram q" "2 < length p"
  shows "queue_ok psram (snd (eq_push q (Some p) (length p)))"
    and "subseq (eq_content (snd (eq_push q (Some p) (length p)))) (eq_content q @ [p])"
proof -
  have q: "eq_ok (queue_slots psram) (queue_slot_sz psram) RTP_MAX_PAYLOAD q"
    using assms(1) by (simp add: queue_ok_def)
  show "subseq (eq_content (snd (eq_push q (Some p) (length p)))) (eq_content q @ [p])"
    unfolding eq_push_spec(3) [OF q] by (auto simp: keep_newest_def subseq_suffix simp del: drop_append)
  then have "set (eq_content (snd (eq_push q (Some p) (length p)))) \<subseteq> set (eq_content q @ [p])"
    by (blast dest: list_emb_set)
  with assms eq_push_spec(2) [OF q] show "queue_ok psram (snd (eq_push q (Some p) (length p)))"
    by (auto simp: queue_ok_def)
qed

lemma opus_step_pipe:
  assumes "pipe_ok m" "opus_step encode rl ql m = (m', pkt)"
  shows "pipe_ok m' \<and> am_rtp m' = am_rtp m \<and>
    (case pkt of None \<Rightarrow> am_queue m' = am_queue m
     | Some p \<Rightarrow> subseq (eq_content (am_queue m')) (eq_content (am_queue m) @ [p]))"
proof (cases "am_opus m")
  case None
  with assms show ?thesis by (simp add: opus_step_def)
next
  case (Some ox)
  obtain f m1 where tf: "take_frame_of rl m = (f, m1)" by force
  note m1 = take_frame_pipe [OF assms(1) tf]
  show ?thesis
  proof (cases f)
    case None
    with assms Some tf m1 show ?thesis by (simp add: opus_step_def)
  next
    case (Some frame)
    obtain pcm d where pf: "process_frame (ox_channels ox) (ox_agc ox) (ox_gain_q8 ox) (ox_dsp ox) frame = (pcm, d)"
      by force
    let ?m2 = "m1\<lparr>am_opus := Some (ox\<lparr>ox_dsp := d\<rparr>)\<rparr>"
    have ok: "pipe_ok ?m2" "queue_ok (am_psram m1) (am_queue m1)" using m1 by (auto simp: pipe_ok_def)
    have step: "opus_step encode rl ql m = (case encode (ox\<lparr>ox_dsp := d\<rparr>) pcm of
        Inl e \<Rightarrow> (?m2\<lparr>am_encoder_late := am_encoder_late ?m2 + 1\<rparr>, None)
      | Inr p \<Rightarrow> if length p \<le> 2 then (?m2, None)
          else if \<not> ql then (?m2\<lparr>am_encoder_late := am_encoder_late ?m2 + 1\<rparr>, None)
          else (?m2\<lparr>am_queue := snd (eq_push (am_queue ?m2) (Some p) (length p))\<rparr>, Some p))"
      using \<open>am_opus m = Some ox\<close> tf Some pf by (simp add: opus_step_def Let_def)
    show ?thesis
      using assms(2) step ok m1 push_queue_ok [OF ok(2)]
      by (auto simp: pipe_ok_def not_le split: sum.splits if_splits)
  qed
qed

lemma rtp_step_pipe:
  assumes "pipe_ok m" "am_rtp m = Some x" "rtp_step locked sent m = (m', d)"
  shows "pipe_ok m' \<and>
    (case d of None \<Rightarrow> am_queue m' = am_queue m \<and> am_rtp m' = am_rtp m
     | Some raw \<Rightarrow> \<exists>p ps x'. eq_content (am_queue m) = p # ps \<and> eq_content (am_queue m') = ps \<and> 2 < length p \<and>
         length p \<le> RTP_MAX_PAYLOAD \<and> raw = rtp_header (rx_rtp x) (rx_first_packet x) @ p \<and>
         am_rtp m' = Some x' \<and> rx_rtp x' = rtp_advance (rx_rtp x))"
proof -
  have q: "eq_ok (queue_slots (am_psram m)) (queue_slot_sz (am_psram m)) RTP_MAX_PAYLOAD (am_queue m)"
    using assms(1) by (simp add: pipe_ok_def queue_ok_def)
  show ?thesis
  proof (cases "locked \<and> 0 < eq_cnt (am_queue m)")
    case False
    have "fst (fst (eq_pop (am_queue m) False RTP_MAX_PAYLOAD)) \<noteq> 1 \<and>
        snd (eq_pop (am_queue m) False RTP_MAX_PAYLOAD) = am_queue m" if "locked"
      using that False by (intro eq_pop_empty) simp
    with False assms show ?thesis
      by (auto simp: rtp_step_def Let_def split: prod.splits if_splits)
  next
    case True
    obtain q' where pop: "eq_pop (am_queue m) False RTP_MAX_PAYLOAD = ((1, hd (eq_content (am_queue m))), q')"
      and q': "eq_ok (queue_slots (am_psram m)) (queue_slot_sz (am_psram m)) RTP_MAX_PAYLOAD q'"
        "eq_content q' = tl (eq_content (am_queue m))"
      using eq_pop_spec [OF q] True by (cases "eq_pop (am_queue m) False RTP_MAX_PAYLOAD") auto
    obtain p ps where c: "eq_content (am_queue m) = p # ps"
      using True length_eq_content [of "am_queue m"] by (cases "eq_content (am_queue m)") auto
    have p: "2 < length p" "\<forall>p\<in>set ps. 2 < length p"
      using assms(1) c by (simp_all add: pipe_ok_def queue_ok_def)
    have size: "length p \<le> RTP_MAX_PAYLOAD"
    proof -
      have "p \<in> set (eq_content (am_queue m))" using c by simp
      then obtain j where "p = eq_slot (am_queue m) j" by (auto simp: eq_content_def ring_view_def)
      then have "length p \<le> eq_slot_size (am_queue m)" by (simp add: eq_slot_def)
      with q show ?thesis by (simp add: eq_ok_def)
    qed
    note ser = rtp_serialize_ok [of p RTP_SEND_BUF "replicate RTP_SEND_BUF 0" "rx_rtp x" "rx_first_packet x"]
    show ?thesis
      using assms True pop q' c p size ser
      by (auto simp: rtp_step_def Let_def RTP_SEND_BUF_def pipe_ok_def queue_ok_def length_rtp_header
          nat_add_distrib rtp_advance_def split: if_splits)
  qed
qed

lemma received_shift:
  "map (\<lambda>(i, p). received_as st i p) (enumerate 0 (p # ps)) =
     received_as st 0 p # map (\<lambda>(i, p). received_as (rtp_advance st) i p) (enumerate 0 ps)"
proof -
  have "enumerate (Suc 0) ps = map (map_prod Suc id) (enumerate 0 ps)"
    by (rule nth_equalityI) (simp_all add: nth_enumerate_eq)
  then show ?thesis by (simp add: received_as_Suc case_prod_unfold o_def)
qed

lemma pipe_run_received:
  assumes "reads_plain_rtp pion" "pipe_ok m" "am_rtp m = Some x" "pipe_run encode m evs = (m', ds, pkts)"
  shows "pipe_ok m' \<and> (\<exists>ps. map (\<lambda>raw. ParseFor pion raw (rs_payload_type (rx_rtp x))) ds =
      map (\<lambda>(i, p). received_as (rx_rtp x) i p) (enumerate 0 ps) \<and>
    subseq ps (eq_content (am_queue m) @ pkts) \<and> (\<forall>p\<in>set ps. p \<noteq> []) \<and>
    subseq (ps @ eq_content (am_queue m')) (eq_content (am_queue m) @ pkts))"
  using assms(2-)
proof (induction evs arbitrary: m x ds pkts)
  case Nil
  then show ?case by (auto intro!: exI [of _ "[]"])
next
  case (Cons ev evs)
  obtain m1 d pkt where step: "pipe_step encode m ev = (m1, d, pkt)" by (metis prod_cases3)
  obtain ds' pkts' where rest: "pipe_run encode m1 evs = (m', ds', pkts')"
    and out: "ds = (case d of None \<Rightarrow> [] | Some x \<Rightarrow> [x]) @ ds'" "pkts = (case pkt of None \<Rightarrow> [] | Some x \<Rightarrow> [x]) @ pkts'"
    using Cons.prems(3) step by (auto split: prod.splits)
  show ?case
  proof (cases "d")
    case None
    have m1: "pipe_ok m1" "am_rtp m1 = Some x"
      and q: "subseq (eq_content (am_queue m1)) (eq_content (am_queue m) @ (case pkt of None \<Rightarrow> [] | Some x \<Rightarrow> [x]))"
      using Cons.prems(1, 2) step None capture_step_pipe [OF Cons.prems(1)]
        opus_step_pipe [OF Cons.prems(1)] rtp_step_pipe [OF Cons.prems(1, 2)]
      by (cases ev; fastforce split: prod.splits option.splits)+
    have "subseq (eq_content (am_queue m1) @ pkts') (eq_content (am_queue m) @ pkts)"
      unfolding out(2) append_assoc [symmetric] using q by (rule list_emb_append_mono) simp
    with Cons.IH [OF m1 rest] out(1) None show ?thesis
      by (auto intro: subseq_order.trans)
  next
    case (Some raw)
    obtain locked sent where ev: "ev = Sent locked sent" "rtp_step locked sent m = (m1, Some raw)" "pkt = None"
      using step Some by (cases ev) (auto split: prod.splits)
    obtain p qs x' where p: "eq_content (am_queue m) = p # qs" "eq_content (am_queue m1) = qs" "2 < length p"
        "raw = rtp_header (rx_rtp x) (rx_first_packet x) @ p" "am_rtp m1 = Some x'" "rx_rtp x' = rtp_advance (rx_rtp x)"
      and m1: "pipe_ok m1"
      using rtp_step_pipe [OF Cons.prems(1, 2) ev(2)] by auto
    have pt: "rs_payload_type (rtp_advance (rx_rtp x)) = rs_payload_type (rx_rtp x)" by (simp add: rtp_advance_def)
    have small: "rs_payload_type (rx_rtp x) < 128" using Cons.prems(1, 2) by (simp add: pipe_ok_def)
    from Cons.IH [OF m1 p(5) rest] obtain ps where ps: "pipe_ok m'"
      "map (\<lambda>raw. ParseFor pion raw (rs_payload_type (rx_rtp x))) ds' =
        map (\<lambda>(i, p). received_as (rtp_advance (rx_rtp x)) i p) (enumerate 0 ps)"
      "\<forall>p\<in>set ps. p \<noteq> []" "subseq ps (qs @ pkts')" "subseq (ps @ eq_content (am_queue m')) (qs @ pkts')"
      unfolding p(6) pt p(2) by auto
    have head: "ParseFor pion raw (rs_payload_type (rx_rtp x)) = received_as (rx_rtp x) 0 p"
      using pion_reads_device [OF assms(1) small] p(3, 4) by (auto simp: ParseFor_def received_as_def)
    have "p \<noteq> []" using p(3) by auto
    with ps out ev(3) Some p(1) head show ?thesis
      by (intro conjI exI [of _ "p # ps"] ps(1)) (simp_all add: received_shift del: enumerate_simps)
  qed
qed

section \<open>Properties\<close>


text \<open>C11. A started stream is one the server can read: whatever the microphone delivers and the encoder
  produces, in whatever order the capture, encoder and sender tasks run, whichever locks time out and
  sends fail, the datagrams handed to the socket are accepted by the server's parser set to the
  stream's payload type, with consecutive sequence numbers, timestamps 960 apart and one
  synchronisation source; and their payloads are packets of the encoder, in its order, each once,
  none of them empty.\<close>

theorem started_stream_is_readable:
  assumes "reads_plain_rtp pion" and "amgr_ok m" and "platform_ok (am_psram m) pf"
    and "audio_manager_start_stream pf p m = (ESP_OK, m1)" and "stream_payload_type p < 128"
    and "pipe_run encode m1 evs = (m2, ds, pkts)"
  shows "\<exists>(st :: rtp_state) ps. map (\<lambda>raw. ParseFor pion raw (stream_payload_type p)) ds =
      map (\<lambda>(i, p'). Inr \<lparr>Version = 2, PayloadType = stream_payload_type p,
        SequenceNumber = rs_sequence st + word_of_nat i, Timestamp = rs_timestamp st + 960 * word_of_nat i,
        SSRC = rs_ssrc st, Payload = p'\<rparr>) (enumerate 0 ps) \<and>
    subseq ps pkts \<and> (\<forall>p\<in>set ps. p \<noteq> [])"
proof -
  from start_stream_cases [OF assms(2, 4)] have parts: "m1 = start_parts pf p m" "pf_ring pf \<noteq> None"
      "pf_arena pf \<noteq> None" "pf_lengths pf \<noteq> None" "pf_rtp pf (take 45 (ap_dest_ip p)) (ap_dest_port p) = ESP_OK"
    by auto
  obtain x where x: "am_rtp m1 = Some x" "rs_payload_type (rx_rtp x) = stream_payload_type p"
    and ok: "pipe_ok m1" "eq_content (am_queue m1) = []"
    using start_parts_pipe [OF assms(3) parts(2-5)] parts(1) assms(5) by auto
  obtain ps where ps: "map (\<lambda>raw. ParseFor pion raw (stream_payload_type p)) ds =
      map (\<lambda>(i, p). received_as (rx_rtp x) i p) (enumerate 0 ps)" "subseq ps pkts" "\<forall>p\<in>set ps. p \<noteq> []"
    using pipe_run_received [OF assms(1) ok(1) x(1) assms(6)] ok(2) x(2) by auto
  have "map (\<lambda>(i, p). received_as (rx_rtp x) i p) (enumerate 0 ps) =
      map (\<lambda>(i, p'). Inr \<lparr>Version = 2, PayloadType = stream_payload_type p,
        SequenceNumber = rs_sequence (rx_rtp x) + word_of_nat i,
        Timestamp = rs_timestamp (rx_rtp x) + 960 * word_of_nat i, SSRC = rs_ssrc (rx_rtp x),
        Payload = p'\<rparr>) (enumerate 0 ps)"
    using ps(3) unfolding x(2) [symmetric] received_as_def
    by (intro map_cong refl) (auto dest!: in_set_enumerate_eq [THEN iffD1])
  from trans [OF ps(1) this] show ?thesis
    by (intro exI [of _ "rx_rtp x"] exI [of _ ps] conjI ps(2, 3))
qed

section \<open>Witnesses\<close>

text \<open>A board without PSRAM on which everything works, a stream to port 5004, and an encoder that
  puts out one packet.\<close>

definition demo_platform :: platform where
  "demo_platform = \<lparr>pf_ring = Some (replicate (ring_samples False) 0),
     pf_arena = Some (replicate (queue_slots False * queue_slot_sz False) 0),
     pf_lengths = Some (replicate (queue_slots False) 0), pf_ring_lock = True, pf_queue_lock = True,
     pf_rtp = (\<lambda>ip port. ESP_OK), pf_opus = ESP_OK, pf_i2s = ESP_OK, pf_s3 = False\<rparr>"

definition demo_params :: stream_params where
  "demo_params = \<lparr>ap_stream_id = ''s1'', ap_dest_ip = ''10.0.0.1'', ap_dest_port = 5004, ap_payload_type = 96,
     ap_sample_rate = 48000, ap_channels = 2, ap_frame_ms = 20, ap_bitrate = 128000, ap_vbr = True,
     ap_fec = False, ap_dtx = False\<rparr>"

definition demo_manager :: amgr where
  "demo_manager = audio_manager_init False
     \<lparr>ac_bclk_gpio = 1, ac_ws_gpio = 2, ac_din_gpio = 3, ac_default_bitrate = 0, ac_complexity = 1\<rparr>"

definition demo_encode :: "opus_ctx \<Rightarrow> int list \<Rightarrow> int + bytes" where
  "demo_encode ox pcm = Inr [1, 2, 3]"

definition demo_events :: "pipe_event list" where
  "demo_events = [Captured (Some (replicate OPUS_FRAME_SAMPLES 0)) True, Encoded True True, Sent True 15]"

lemma demo_platform_ok: "platform_ok False demo_platform"
  by (simp add: platform_ok_def demo_platform_def)

lemma demo_platform_opus: "pf_opus demo_platform = ESP_OK"
  by (simp add: demo_platform_def)

lemma demo_manager_fields [simp]:
  "amgr_ok demo_manager" "am_psram demo_manager = False" "\<not> am_streaming demo_manager" "am_inited demo_manager"
  by (simp_all add: demo_manager_def audio_manager_init_ok, simp_all add: audio_manager_init_def amgr_zero_def)

lemma demo_started:
  "audio_manager_start_stream demo_platform demo_params demo_manager =
    (ESP_OK, start_parts demo_platform demo_params demo_manager)"
proof -
  obtain e m' where run: "audio_manager_start_stream demo_platform demo_params demo_manager = (e, m')" by force
  moreover have "e = ESP_OK"
    using run by (simp add: audio_manager_start_stream_def demo_platform_def demo_params_def validate_def Let_def
        allocate_def I2S_CAP_SAMPLE_RATE_def I2S_CAP_CHANNELS_def rtp_sender_start_def opus_task_start_def
        i2s_capture_start_def split: prod.splits)
  ultimately show ?thesis using start_stream_cases [OF _ run] by simp
qed


lemma demo_pipe:
  "\<exists>m2 raw. pipe_run demo_encode (start_parts demo_platform demo_params demo_manager) demo_events =
     (m2, [raw], [[1, 2, 3]])"
proof -
  let ?m = "start_parts demo_platform demo_params demo_manager"
  let ?xs = "map word_of_int (capture (replicate OPUS_FRAME_SAMPLES 0)) :: i32 list"
  obtain x where x: "am_rtp ?m = Some x" and ok: "pipe_ok ?m" and empty: "eq_content (am_queue ?m) = []"
    using start_parts_pipe [of demo_manager demo_platform demo_params] demo_platform_ok
    by (auto simp: demo_platform_def)
  have ring: "ring_ok (ring_samples False) (am_ring ?m)" "ring_content (am_ring ?m) = []"
    by (simp_all add: start_parts_def set_up_def allocate_def Let_def ring_init_ok demo_platform_def ring_samples_def)
  let ?m1 = "capture_step (Some (replicate OPUS_FRAME_SAMPLES 0)) True ?m"
  have m1: "?m1 = ?m\<lparr>am_ring := ring_put (am_ring ?m) ?xs\<rparr>"
    by (simp add: capture_step_def ring_put_def capture_def OPUS_FRAME_SAMPLES_def)
  have put: "ring_ok (ring_samples False) (am_ring ?m1)" "ring_content (am_ring ?m1) = ?xs"
    using pcm_ring_write_spec [OF ring(1), of ?xs] ring(2) unfolding m1
    by (simp_all add: keep_newest_def capture_def OPUS_FRAME_SAMPLES_def ring_samples_def)
  have count: "pr_count (am_ring ?m1) = OPUS_FRAME_SAMPLES"
    using arg_cong [OF put(2), of length] by (simp add: ring_content_def capture_def)
  obtain ys r where read: "pcm_ring_read (am_ring ?m1) False OPUS_FRAME_SAMPLES = (ys, r)" by force
  have "length ys = OPUS_FRAME_SAMPLES"
    using pcm_ring_read_spec [OF put(1), of OPUS_FRAME_SAMPLES] put(2) read
    by (simp add: ring_get_def capture_def)
  then obtain m2 frame where tf: "take_frame_of True ?m1 = (Some frame, m2)"
    using count read by (simp add: take_frame_of_def pcm_ring_count_def)
  have ok1: "pipe_ok ?m1" "am_queue ?m1 = am_queue ?m" "am_rtp ?m1 = Some x"
    using capture_step_pipe [OF ok] x by auto
  note m2 = take_frame_pipe [OF ok1(1) tf]
  obtain ox where ox: "am_opus ?m1 = Some ox"
    unfolding m1 by (simp add: start_parts_def opus_task_start_def demo_platform_opus Let_def)
  obtain pcm d where pf: "process_frame (ox_channels ox) (ox_agc ox) (ox_gain_q8 ox) (ox_dsp ox) frame = (pcm, d)"
    by force
  let ?q = "snd (eq_push (am_queue m2) (Some [1, 2, 3]) (length [1, 2, 3 :: byte]))"
  let ?m3 = "m2\<lparr>am_opus := Some (ox\<lparr>ox_dsp := d\<rparr>), am_queue := ?q\<rparr>"
  have enc: "opus_step demo_encode True True ?m1 = (?m3, Some [1, 2, 3])"
    using ox tf pf by (simp add: opus_step_def demo_encode_def Let_def)
  have psram: "am_psram m2 = False"
    using m2 unfolding m1 by (simp add: start_parts_def set_up_def allocate_def Let_def)
  have q2: "eq_ok (queue_slots False) (queue_slot_sz False) RTP_MAX_PAYLOAD (am_queue m2)" "eq_content (am_queue m2) = []"
    using m2 ok1 empty psram by (auto simp: pipe_ok_def queue_ok_def)
  have content: "eq_content ?q = [[1, 2, 3]]"
    using eq_push_spec(3) [OF q2(1), of "[1, 2, 3]"] q2(2)
    by (simp add: keep_newest_def queue_slots_def queue_slot_sz_def)
  have ok3: "pipe_ok ?m3" "am_rtp ?m3 = Some x"
    using opus_step_pipe [OF ok1(1) enc] m2 ok1(3) by simp_all
  obtain m4 d where send: "rtp_step True 15 ?m3 = (m4, d)" by force
  have "d \<noteq> None"
  proof
    assume "d = None"
    have "eq_cnt ?q = 1" using arg_cong [OF content, of length] by simp
    with rtp_step_pipe [OF ok3 send] \<open>d = None\<close> send ok3(2) show False
      using eq_pop_spec(1, 5) [of "queue_slots False" "queue_slot_sz False" RTP_MAX_PAYLOAD ?q] ok3(1) psram content
        rtp_serialize_ok [of "[1, 2, 3]" RTP_SEND_BUF "replicate RTP_SEND_BUF 0" "rx_rtp x" "rx_first_packet x"]
      by (auto simp: rtp_step_def Let_def pipe_ok_def queue_ok_def RTP_SEND_BUF_def RTP_MAX_PAYLOAD_def
          split: prod.splits if_splits)
  qed
  then show ?thesis using enc send by (auto simp: demo_events_def)
qed

theorem started_stream_is_readable_witness:
  "\<exists>m2 raw (st :: rtp_state). pipe_run demo_encode (start_parts demo_platform demo_params demo_manager) demo_events =
     (m2, [raw], [[1, 2, 3]]) \<and>
   ParseFor plain_rtp raw 96 = Inr \<lparr>Version = 2, PayloadType = 96, SequenceNumber = rs_sequence st,
     Timestamp = rs_timestamp st, SSRC = rs_ssrc st, Payload = [1, 2, 3]\<rparr>"
proof -
  obtain m2 raw where run: "pipe_run demo_encode (start_parts demo_platform demo_params demo_manager) demo_events =
      (m2, [raw], [[1, 2, 3]])"
    using demo_pipe by blast
  have pt: "stream_payload_type demo_params = 96" by (simp add: stream_payload_type_def demo_params_def)
  have "platform_ok (am_psram demo_manager) demo_platform" using demo_platform_ok by simp
  from started_stream_is_readable [OF plain_rtp_reads demo_manager_fields(1) this demo_started _ run]
  obtain st :: rtp_state and ps where eq: "map (\<lambda>raw. ParseFor plain_rtp raw 96) [raw] =
      map (\<lambda>(i, p'). Inr \<lparr>Version = 2, PayloadType = 96,
        SequenceNumber = rs_sequence st + word_of_nat i, Timestamp = rs_timestamp st + 960 * word_of_nat i,
        SSRC = rs_ssrc st, Payload = p'\<rparr>) (enumerate 0 ps)" and sub: "subseq ps [[1, 2, 3]]"
    unfolding pt by (elim meta_impE exE conjE) simp_all
  have "length ps = 1" using arg_cong [OF eq, of length] by simp
  then obtain q where "ps = [q]" by (auto simp: length_Suc_conv)
  with sub have "ps = [[1, 2, 3]]" by (auto split: if_splits)
  with eq have "ParseFor plain_rtp raw 96 = Inr \<lparr>Version = 2, PayloadType = 96, SequenceNumber = rs_sequence st,
      Timestamp = rs_timestamp st, SSRC = rs_ssrc st, Payload = [1, 2, 3]\<rparr>"
    by simp
  with run show ?thesis by blast
qed

end
