(* ===== verification/Device_State.thy ===== *)
theory Device_State
  imports Main
begin

text \<open>
  \<open>client/components/state_machine/device_state.c\<close>: the firmware's state machine, a pure
  transition function, and what its runs tell about the events that led to a state.
\<close>

section \<open>The code\<close>

datatype sm_state =
    SM_BOOT | SM_PROVISIONING | SM_WIFI_CONNECTING | SM_WIFI_CONNECTED | SM_CONTROL_CONNECTING
  | SM_IDLE | SM_STREAM_STARTING | SM_STREAMING | SM_ERROR

datatype sm_event =
    EV_BOOT_DONE | EV_NEED_PROVISION | EV_PROVISIONED | EV_WIFI_CONNECTED | EV_CONTROL_CONNECT
  | EV_CONTROL_CONNECTED | EV_START_STREAM | EV_STREAM_STARTED | EV_STOP_STREAM
  | EV_WIFI_LOST | EV_CONTROL_LOST | EV_FATAL | EV_RECOVER

definition has_network :: "sm_state \<Rightarrow> bool" where
  "has_network s \<longleftrightarrow> s = SM_WIFI_CONNECTED \<or> s = SM_CONTROL_CONNECTING \<or> s = SM_IDLE \<or>
     s = SM_STREAM_STARTING \<or> s = SM_STREAMING"

definition has_control :: "sm_state \<Rightarrow> bool" where
  "has_control s \<longleftrightarrow> s = SM_CONTROL_CONNECTING \<or> s = SM_IDLE \<or> s = SM_STREAM_STARTING \<or> s = SM_STREAMING"

text \<open>The second \<open>switch\<close>: the transitions of each state.\<close>

fun sm_nominal :: "sm_state \<Rightarrow> sm_event \<Rightarrow> sm_state" where
  "sm_nominal SM_BOOT ev =
     (if ev = EV_NEED_PROVISION then SM_PROVISIONING
      else if ev = EV_BOOT_DONE then SM_WIFI_CONNECTING else SM_BOOT)"
| "sm_nominal SM_PROVISIONING ev = (if ev = EV_PROVISIONED then SM_WIFI_CONNECTING else SM_PROVISIONING)"
| "sm_nominal SM_WIFI_CONNECTING ev = (if ev = EV_WIFI_CONNECTED then SM_WIFI_CONNECTED else SM_WIFI_CONNECTING)"
| "sm_nominal SM_WIFI_CONNECTED ev = (if ev = EV_CONTROL_CONNECT then SM_CONTROL_CONNECTING else SM_WIFI_CONNECTED)"
| "sm_nominal SM_CONTROL_CONNECTING ev = (if ev = EV_CONTROL_CONNECTED then SM_IDLE else SM_CONTROL_CONNECTING)"
| "sm_nominal SM_IDLE ev = (if ev = EV_START_STREAM then SM_STREAM_STARTING else SM_IDLE)"
| "sm_nominal SM_STREAM_STARTING ev =
     (if ev = EV_STREAM_STARTED then SM_STREAMING
      else if ev = EV_STOP_STREAM then SM_IDLE else SM_STREAM_STARTING)"
| "sm_nominal SM_STREAMING ev = (if ev = EV_STOP_STREAM then SM_IDLE else SM_STREAMING)"
| "sm_nominal SM_ERROR ev = SM_ERROR"

text \<open>The first \<open>switch\<close>: the events that override.\<close>

fun sm_handle_event :: "sm_state \<Rightarrow> sm_event \<Rightarrow> sm_state" where
  "sm_handle_event s EV_FATAL = SM_ERROR"
| "sm_handle_event s EV_WIFI_LOST = (if has_network s then SM_WIFI_CONNECTING else s)"
| "sm_handle_event s EV_CONTROL_LOST = (if has_control s then SM_CONTROL_CONNECTING else s)"
| "sm_handle_event s EV_RECOVER = (if s = SM_ERROR then SM_BOOT else s)"
| "sm_handle_event s ev = sm_nominal s ev"

fun sm_state_name :: "sm_state \<Rightarrow> string" where
  "sm_state_name SM_BOOT = ''BOOT''"
| "sm_state_name SM_PROVISIONING = ''PROVISIONING''"
| "sm_state_name SM_WIFI_CONNECTING = ''WIFI_CONNECTING''"
| "sm_state_name SM_WIFI_CONNECTED = ''WIFI_CONNECTED''"
| "sm_state_name SM_CONTROL_CONNECTING = ''CONTROL_CONNECTING''"
| "sm_state_name SM_IDLE = ''IDLE''"
| "sm_state_name SM_STREAM_STARTING = ''STREAM_STARTING''"
| "sm_state_name SM_STREAMING = ''STREAMING''"
| "sm_state_name SM_ERROR = ''ERROR''"

definition sm_run :: "sm_event list \<Rightarrow> sm_state" where
  "sm_run es = foldl sm_handle_event SM_BOOT es"

lemma sm_run_snoc: "sm_run (es @ [e]) = sm_handle_event (sm_run es) e"
  by (simp add: sm_run_def)

section \<open>Properties\<close>

definition sm_loss :: "sm_event \<Rightarrow> bool" where
  "sm_loss e \<longleftrightarrow> e = EV_WIFI_LOST \<or> e = EV_CONTROL_LOST \<or> e = EV_FATAL"

text \<open>Some \<open>e\<close> happened when \<open>P\<close> held of the events before it, and after it only events
  that \<open>keep\<close> what it established.\<close>

definition since :: "sm_event \<Rightarrow> (sm_event list \<Rightarrow> bool) \<Rightarrow> (sm_event \<Rightarrow> bool) \<Rightarrow> sm_event list \<Rightarrow> bool" where
  "since e P keep es \<longleftrightarrow> (\<exists>a b. es = a @ e # b \<and> P a \<and> (\<forall>x\<in>set b. keep x))"

lemma since_now: "P es \<Longrightarrow> since e P keep (es @ [e])"
  unfolding since_def by (intro exI [of _ es] exI [of _ "[]"]) simp

lemma since_keep: "since e P keep es \<Longrightarrow> keep x \<Longrightarrow> since e P keep (es @ [x])"
  unfolding since_def by (elim exE conjE) (rule_tac x = a in exI, rule_tac x = "b @ [x]" in exI, auto)

lemma since_induct:
  assumes "since e P keep es" "\<And>a. P a \<Longrightarrow> Q (a @ [e])" "\<And>a x. Q a \<Longrightarrow> keep x \<Longrightarrow> Q (a @ [x])"
  shows "Q es"
proof -
  obtain a b where es: "es = (a @ [e]) @ b" and a: "P a" and b: "\<forall>x\<in>set b. keep x"
    using assms(1) unfolding since_def by auto
  have "(\<forall>x\<in>set b. keep x) \<Longrightarrow> Q ((a @ [e]) @ b)"
  proof (induction b rule: rev_induct)
    case Nil
    show ?case using assms(2) [OF a] by simp
  next
    case (snoc x b)
    then have "Q (((a @ [e]) @ b) @ [x])" by (intro assms(3)) simp_all
    then show ?case by simp
  qed
  with es b show ?thesis by simp
qed

definition in_session :: "sm_event list \<Rightarrow> bool" where
  "in_session = since EV_CONTROL_CONNECTED (\<lambda>a. sm_run a = SM_CONTROL_CONNECTING) (\<lambda>e. \<not> sm_loss e)"

definition was_started :: "sm_event list \<Rightarrow> bool" where
  "was_started = since EV_START_STREAM in_session (\<lambda>e. \<not> sm_loss e \<and> e \<noteq> EV_STOP_STREAM)"

definition is_streaming :: "sm_event list \<Rightarrow> bool" where
  "is_streaming = since EV_STREAM_STARTED was_started (\<lambda>e. \<not> sm_loss e \<and> e \<noteq> EV_STOP_STREAM)"

lemma started_session: "was_started es \<Longrightarrow> in_session es"
  unfolding was_started_def
  by (erule since_induct) (unfold in_session_def, simp_all add: since_keep sm_loss_def)

lemma streaming_started: "is_streaming es \<Longrightarrow> was_started es"
  unfolding is_streaming_def
  by (erule since_induct) (unfold was_started_def, simp_all add: since_keep sm_loss_def)

lemma state_history:
  "(sm_run es = SM_IDLE \<longrightarrow> in_session es) \<and> (sm_run es = SM_STREAM_STARTING \<longrightarrow> was_started es) \<and>
   (sm_run es = SM_STREAMING \<longrightarrow> is_streaming es)"
proof (induction es rule: rev_induct)
  case Nil
  then show ?case by (simp add: sm_run_def)
next
  case (snoc e es)
  note keep = since_keep [where keep = "\<lambda>e. \<not> sm_loss e" and x = e]
    since_keep [where keep = "\<lambda>e. \<not> sm_loss e \<and> e \<noteq> EV_STOP_STREAM" and x = e]
  consider (idle) "sm_handle_event (sm_run es) e = SM_IDLE"
    | (starting) "sm_handle_event (sm_run es) e = SM_STREAM_STARTING"
    | (streaming) "sm_handle_event (sm_run es) e = SM_STREAMING"
    | (other) "sm_handle_event (sm_run es) e \<notin> {SM_IDLE, SM_STREAM_STARTING, SM_STREAMING}"
    by auto
  then show ?case
  proof cases
    case idle
    have "in_session (es @ [e])"
    proof (cases "sm_run es = SM_CONTROL_CONNECTING \<and> e = EV_CONTROL_CONNECTED")
      case True
      then show ?thesis by (simp add: in_session_def since_now)
    next
      case False
      with idle have "\<not> sm_loss e" "sm_run es \<in> {SM_IDLE, SM_STREAM_STARTING, SM_STREAMING}"
        by (cases "sm_run es"; cases e; simp add: sm_loss_def has_network_def has_control_def split: if_splits)+
      with snoc.IH have "in_session es" by (auto dest: started_session streaming_started)
      then show ?thesis unfolding in_session_def by (rule keep) fact
    qed
    with idle show ?thesis by (simp add: sm_run_snoc)
  next
    case starting
    have "was_started (es @ [e])"
    proof (cases "sm_run es = SM_IDLE \<and> e = EV_START_STREAM")
      case True
      with snoc.IH show ?thesis by (simp add: was_started_def since_now)
    next
      case False
      with starting have "\<not> sm_loss e \<and> e \<noteq> EV_STOP_STREAM" "sm_run es = SM_STREAM_STARTING"
        by (cases "sm_run es"; cases e; simp add: sm_loss_def has_network_def has_control_def split: if_splits)+
      with snoc.IH show ?thesis unfolding was_started_def by (intro keep) simp_all
    qed
    with starting show ?thesis by (simp add: sm_run_snoc)
  next
    case streaming
    have "is_streaming (es @ [e])"
    proof (cases "sm_run es = SM_STREAM_STARTING \<and> e = EV_STREAM_STARTED")
      case True
      with snoc.IH show ?thesis by (simp add: is_streaming_def since_now)
    next
      case False
      with streaming have "\<not> sm_loss e \<and> e \<noteq> EV_STOP_STREAM" "sm_run es = SM_STREAMING"
        by (cases "sm_run es"; cases e; simp add: sm_loss_def has_network_def has_control_def split: if_splits)+
      with snoc.IH show ?thesis unfolding is_streaming_def by (intro keep) simp_all
    qed
    with streaming show ?thesis by (simp add: sm_run_snoc)
  next
    case other
    then show ?thesis by (simp add: sm_run_snoc)
  qed
qed

text \<open>The state machine shows \<open>STREAMING\<close> only for a reason: the events so far contain the
  establishment of a control session, in the state that waits for it, then a start command, then the
  report that the stream runs; and no loss of the network or of the session, no fatal error and,
  from the start command on, no stop came after them.\<close>

theorem streaming_has_a_cause:
  assumes "sm_run es = SM_STREAMING"
  shows "\<exists>a b c d. es = a @ EV_CONTROL_CONNECTED # b @ EV_START_STREAM # c @ EV_STREAM_STARTED # d \<and>
    sm_run a = SM_CONTROL_CONNECTING \<and>
    set (b @ c @ d) \<inter> {EV_WIFI_LOST, EV_CONTROL_LOST, EV_FATAL} = {} \<and> EV_STOP_STREAM \<notin> set (c @ d)"
proof -
  from assms state_history [of es] have "is_streaming es" by simp
  then obtain es2 d where es: "es = es2 @ EV_STREAM_STARTED # d" and d: "\<forall>x\<in>set d. \<not> sm_loss x \<and> x \<noteq> EV_STOP_STREAM"
    and "was_started es2"
    unfolding is_streaming_def since_def by blast
  then obtain es1 c where es2: "es2 = es1 @ EV_START_STREAM # c" and c: "\<forall>x\<in>set c. \<not> sm_loss x \<and> x \<noteq> EV_STOP_STREAM"
    and "in_session es1"
    unfolding was_started_def since_def by blast
  then obtain a b where es1: "es1 = a @ EV_CONTROL_CONNECTED # b" and b: "\<forall>x\<in>set b. \<not> sm_loss x"
    and a: "sm_run a = SM_CONTROL_CONNECTING"
    unfolding in_session_def since_def by blast
  show ?thesis
    by (rule exI [of _ a], rule exI [of _ b], rule exI [of _ c], rule exI [of _ d])
      (use es es2 es1 a b c d in \<open>auto simp: sm_loss_def\<close>)
qed

theorem streaming_has_a_cause_witness:
  "sm_run [EV_BOOT_DONE, EV_WIFI_CONNECTED, EV_CONTROL_CONNECT] = SM_CONTROL_CONNECTING \<and>
   (\<exists>a b c d. [EV_BOOT_DONE, EV_WIFI_CONNECTED, EV_CONTROL_CONNECT, EV_CONTROL_CONNECTED, EV_START_STREAM,
       EV_STREAM_STARTED] = a @ EV_CONTROL_CONNECTED # b @ EV_START_STREAM # c @ EV_STREAM_STARTED # d)"
proof -
  have "sm_run [EV_BOOT_DONE, EV_WIFI_CONNECTED, EV_CONTROL_CONNECT, EV_CONTROL_CONNECTED, EV_START_STREAM,
      EV_STREAM_STARTED] = SM_STREAMING"
    by code_simp
  from streaming_has_a_cause [OF this] show ?thesis by (auto simp: sm_run_def)
qed

text \<open>Only recovery leaves \<open>ERROR\<close>.\<close>

theorem error_needs_recovery: "sm_handle_event SM_ERROR e \<noteq> SM_ERROR \<longleftrightarrow> e = EV_RECOVER"
  by (cases e) (simp_all add: has_network_def has_control_def)

text \<open>
  The other direction fails. A short loss of Wi-Fi that the TCP connection of the control session
  outlives ends in \<open>WIFI_CONNECTED\<close>, and of the events that such a session still produces none
  leads out of it: the device streams on while its state machine says it is not even connected.
\<close>

theorem wifi_blip_strands_the_state:
  assumes "sm_run es \<in> {SM_IDLE, SM_STREAM_STARTING, SM_STREAMING}"
    and "set later \<subseteq> {EV_CONTROL_CONNECTED, EV_START_STREAM, EV_STREAM_STARTED, EV_STOP_STREAM}"
  shows "sm_run (es @ EV_WIFI_LOST # EV_WIFI_CONNECTED # later) = SM_WIFI_CONNECTED"
proof -
  have "sm_run (es @ [EV_WIFI_LOST, EV_WIFI_CONNECTED]) = SM_WIFI_CONNECTED"
    using assms(1) by (auto simp: sm_run_def has_network_def)
  moreover have "set later \<subseteq> {EV_CONTROL_CONNECTED, EV_START_STREAM, EV_STREAM_STARTED, EV_STOP_STREAM} \<Longrightarrow>
      foldl sm_handle_event SM_WIFI_CONNECTED later = SM_WIFI_CONNECTED"
    by (induction later) auto
  ultimately show ?thesis using assms(2) by (simp add: sm_run_def)
qed

end
