(* ===== verification/Device_Control.thy ===== *)
theory Device_Control
  imports Messages Device_Audio Device_State
begin

text \<open>
  \<open>client/components/control_task/control_task.c\<close> with \<open>health_monitor.c\<close> and the wiring of
  \<open>client/main/app_main.c\<close>: what the firmware does with the control messages, the messages it
  sends, and the life of its control connection. The JSON library is the record \<open>cjson\<close>: its
  parser, its member look-up, its printer, and the integer part of a number literal. JSON documents are
  the trees of \<open>Messages\<close>, so that the server's decoder can be applied to the firmware's messages and
  the firmware's handler to the server's.
\<close>

section \<open>The JSON library\<close>

record cjson =
  cj_parse :: "bytes \<Rightarrow> json option"
  cj_item :: "json \<Rightarrow> string \<Rightarrow> json option"
  cj_number :: "string \<Rightarrow> int"
  cj_print :: "json \<Rightarrow> bytes option"

text \<open>\<open>cJSON_GetObjectItemCaseSensitive\<close>, whose object may be \<open>NULL\<close>, and the tests of a value's
  kind.\<close>

definition cj_get :: "cjson \<Rightarrow> json option \<Rightarrow> string \<Rightarrow> json option" where
  "cj_get cj obj name = (case obj of None \<Rightarrow> None | Some j \<Rightarrow> cj_item cj j name)"

definition as_string :: "json option \<Rightarrow> string option" where
  "as_string j = (case j of Some (JStr s) \<Rightarrow> Some s | _ \<Rightarrow> None)"

definition as_number :: "cjson \<Rightarrow> json option \<Rightarrow> int option" where
  "as_number cj j = (case j of Some (JNum s) \<Rightarrow> Some (cj_number cj s) | _ \<Rightarrow> None)"

definition as_bool :: "json option \<Rightarrow> bool option" where
  "as_bool j = (case j of Some (JBool b) \<Rightarrow> Some b | _ \<Rightarrow> None)"

definition or_else :: "'a option \<Rightarrow> 'a \<Rightarrow> 'a" where
  "or_else v d = (case v of None \<Rightarrow> d | Some x \<Rightarrow> x)"

section \<open>Health\<close>

record audio_stats =
  au_streaming :: bool
  au_pcm_overflow :: u64
  au_pcm_written :: u64
  au_pcm_read :: u64
  au_pcm_high_water :: nat
  au_pcm_low_water :: nat
  au_pcm_count :: nat
  au_enc_drops :: u64
  au_enc_rejects :: u64
  au_enc_pushed :: u64
  au_enc_popped :: u64
  au_enc_high_water :: nat
  au_enc_count :: nat
  au_encoder_late :: u64
  au_capture_late :: u64
  au_rtp_packets_sent :: u64
  au_rtp_bytes_sent :: u64
  au_rtp_send_errors :: u64
  au_rtp_ssrc :: u32

definition no_stats :: audio_stats where
  "no_stats = \<lparr>au_streaming = False, au_pcm_overflow = 0, au_pcm_written = 0, au_pcm_read = 0,
     au_pcm_high_water = 0, au_pcm_low_water = 0, au_pcm_count = 0, au_enc_drops = 0, au_enc_rejects = 0, au_enc_pushed = 0,
     au_enc_popped = 0, au_enc_high_water = 0, au_enc_count = 0, au_encoder_late = 0, au_capture_late = 0,
     au_rtp_packets_sent = 0, au_rtp_bytes_sent = 0, au_rtp_send_errors = 0, au_rtp_ssrc = 0\<rparr>"

text \<open>The flags say whether the two locks were taken within their 20 ms.\<close>

definition audio_manager_get_stats :: "bool \<Rightarrow> bool \<Rightarrow> amgr \<Rightarrow> audio_stats" where
  "audio_manager_get_stats ring_locked queue_locked m =
     (let s0 = no_stats\<lparr>au_streaming := am_streaming m\<rparr> in
      if \<not> am_streaming m then s0
      else
        let r = am_ring m; q = am_queue m;
            s1 = (if \<not> am_ring_lock m \<or> ring_locked
                  then s0\<lparr>au_pcm_overflow := pr_overflow_count r, au_pcm_written := pr_total_written r,
                          au_pcm_read := pr_total_read r, au_pcm_high_water := pr_high_water r,
                          au_pcm_low_water := pr_low_water r, au_pcm_count := pr_count r\<rparr>
                  else s0\<lparr>au_pcm_low_water := SIZE_MAX\<rparr>);
            s2 = (if \<not> am_queue_lock m \<or> queue_locked
                  then s1\<lparr>au_enc_drops := eq_drop_count q, au_enc_rejects := eq_reject_count q,
                          au_enc_pushed := eq_total_pushed q, au_enc_popped := eq_total_popped q,
                          au_enc_high_water := eq_high_water q, au_enc_count := eq_cnt q\<rparr>
                  else s1);
            s3 = s2\<lparr>au_encoder_late := am_encoder_late m, au_capture_late := am_capture_late m\<rparr>
        in (case am_rtp m of None \<Rightarrow> s3
            | Some x \<Rightarrow> s3\<lparr>au_rtp_packets_sent := rx_packets_sent x, au_rtp_bytes_sent := rx_bytes_sent x,
                au_rtp_send_errors := rx_send_errors x, au_rtp_ssrc := rs_ssrc (rx_rtp x)\<rparr>))"

text \<open>The report: the system's figures are the timer's and the heap's.\<close>

record health_report =
  hr_uptime_ms :: u64
  hr_free_heap :: u32
  hr_min_free_heap :: u32
  hr_free_psram :: u32
  hr_wifi_rssi :: int
  hr_audio :: audio_stats

text \<open>\<open>snapshot\<close>; \<open>sys\<close> holds what the system calls return.\<close>

definition snapshot :: "bool \<Rightarrow> bool \<Rightarrow> health_report \<Rightarrow> amgr \<Rightarrow> health_report" where
  "snapshot ring_locked queue_locked sys m = sys\<lparr>hr_audio := audio_manager_get_stats ring_locked queue_locked m\<rparr>"

section \<open>The device\<close>

datatype nvs_value = NvsU32 u32 | NvsStr string | NvsI32 int

datatype task_phase = NotStarted | LoopHead | InSession | InGrace

record device =
  dv_id :: string
  dv_firmware :: string
  dv_sm :: sm_state
  dv_audio :: amgr
  dv_health :: health_report
  dv_nvs :: "string \<rightharpoonup> nvs_value"
  dv_phase :: task_phase
  dv_connected :: bool
  dv_dec :: cp_decoder

definition notify_sm :: "sm_event \<Rightarrow> device \<Rightarrow> device" where
  "notify_sm ev d = d\<lparr>dv_sm := sm_handle_event (dv_sm d) ev\<rparr>"

section \<open>Messages\<close>

definition opt_member :: "string \<Rightarrow> string option \<Rightarrow> (string \<times> json) list" where
  "opt_member name v = (case v of None \<Rightarrow> [] | Some s \<Rightarrow> [(name, JStr s)])"

definition hello_msg :: "bool \<Rightarrow> device \<Rightarrow> json" where
  "hello_msg psram d = JObj [(''type'', JStr ''hello''), (''protocol'', jint 1), (''device_id'', JStr (dv_id d)),
     (''firmware'', JStr (dv_firmware d)),
     (''capabilities'', JObj [(''sample_rates'', JArr [jint 48000]), (''channels'', jint 2),
        (''codecs'', JArr [JStr ''opus'']), (''psram'', JBool psram)])]"

definition pong_msg :: json where
  "pong_msg = JObj [(''type'', JStr ''pong'')]"

definition ping_msg :: json where
  "ping_msg = JObj [(''type'', JStr ''ping'')]"

definition error_reply :: "string option \<Rightarrow> string \<Rightarrow> string \<Rightarrow> json" where
  "error_reply rid code msg =
     JObj ((''type'', JStr ''error'') # opt_member ''request_id'' rid @ [(''code'', JStr code), (''message'', JStr msg)])"

definition stream_started_msg :: "string option \<Rightarrow> string \<Rightarrow> json" where
  "stream_started_msg rid sid =
     JObj ((''type'', JStr ''stream_started'') # opt_member ''request_id'' rid @ [(''stream_id'', JStr sid)])"

definition stats_block :: "health_report \<Rightarrow> json" where
  "stats_block h =
     (let a = hr_audio h in
      JObj [(''uptime_ms'', juint (hr_uptime_ms h)), (''free_heap'', juint (hr_free_heap h)),
        (''min_free_heap'', juint (hr_min_free_heap h)), (''free_psram'', juint (hr_free_psram h)),
        (''wifi_rssi'', jint (hr_wifi_rssi h)), (''pcm_overflow'', juint (au_pcm_overflow a)),
        (''pcm_written'', juint (au_pcm_written a)), (''pcm_read'', juint (au_pcm_read a)),
        (''pcm_high_water'', jint (int (au_pcm_high_water a))),
        (''pcm_low_water'', jint (int (if au_pcm_low_water a = SIZE_MAX then 0 else au_pcm_low_water a))),
        (''encoded_drops'', juint (au_enc_drops a)), (''encoded_rejects'', juint (au_enc_rejects a)),
        (''encoded_pushed'', juint (au_enc_pushed a)), (''encoded_popped'', juint (au_enc_popped a)),
        (''encoded_high_water'', jint (int (au_enc_high_water a))), (''encoder_late'', juint (au_encoder_late a)),
        (''capture_late'', juint (au_capture_late a)), (''rtp_packets_sent'', juint (au_rtp_packets_sent a)),
        (''rtp_bytes_sent'', juint (au_rtp_bytes_sent a)), (''rtp_send_errors'', juint (au_rtp_send_errors a)),
        (''rtp_ssrc'', juint (au_rtp_ssrc a))])"

definition status_reply :: "string option \<Rightarrow> device \<Rightarrow> json" where
  "status_reply rid d =
     JObj ((''type'', JStr ''status'') # opt_member ''request_id'' rid @
       [(''state'', JStr (if am_streaming (dv_audio d) then ''STREAMING'' else ''IDLE'')),
        (''stream_id'', JStr (am_stream_id (dv_audio d))), (''statistics'', stats_block (dv_health d))])"

definition stream_stopped_msg :: "string option \<Rightarrow> string \<Rightarrow> device \<Rightarrow> json" where
  "stream_stopped_msg rid sid d =
     JObj ((''type'', JStr ''stream_stopped'') # opt_member ''request_id'' rid @
       [(''stream_id'', JStr sid), (''statistics'', stats_block (dv_health d))])"

text \<open>What \<open>send_json\<close> writes: nothing when printing fails or the text exceeds a frame.\<close>

definition device_wire :: "cjson \<Rightarrow> json list \<Rightarrow> bytes" where
  "device_wire cj roots =
     concat (map (\<lambda>root. case cj_print cj root of None \<Rightarrow> [] | Some text \<Rightarrow> device_frame text) roots)"

section \<open>Commands\<close>

definition parse_start_stream :: "cjson \<Rightarrow> json \<Rightarrow> stream_params option" where
  "parse_start_stream cj root =
     (let it = cj_get cj (Some root);
          sid = as_string (it ''stream_id'');
          dst = it ''destination'';
          codec = it ''codec'';
          cnum = (\<lambda>name. as_number cj (cj_get cj codec name));
          cbool = (\<lambda>name. as_bool (cj_get cj codec name))
      in case (as_string (cj_get cj dst ''ip''), as_number cj (cj_get cj dst ''port'')) of
           (Some ip, Some port) \<Rightarrow>
             if as_string (cj_get cj codec ''name'') \<noteq> Some ''opus'' then None
             else Some \<lparr>ap_stream_id = take 63 (or_else sid ''''), ap_dest_ip = take 45 ip,
               ap_dest_port = word_of_int port,
               ap_payload_type = word_of_int (or_else (as_number cj (cj_get cj (it ''rtp'') ''payload_type'')) 111),
               ap_sample_rate = word_of_int (or_else (cnum ''sample_rate'') 48000),
               ap_channels = word_of_int (or_else (cnum ''channels'') 2),
               ap_frame_ms = word_of_int (or_else (cnum ''frame_ms'') 20),
               ap_bitrate = word_of_int (or_else (cnum ''bitrate'') 0),
               ap_vbr = or_else (cbool ''vbr'') True, ap_fec = or_else (cbool ''fec'') False,
               ap_dtx = or_else (cbool ''dtx'') False\<rparr>
         | _ \<Rightarrow> None)"

definition handle_start :: "cjson \<Rightarrow> platform \<Rightarrow> platform \<Rightarrow> json \<Rightarrow> string option \<Rightarrow> device \<Rightarrow> device \<times> json list" where
  "handle_start cj pf pf2 root rid d =
     (case parse_start_stream cj root of
        None \<Rightarrow> (d, [error_reply rid ''invalid_request'' ''malformed start_stream''])
      | Some p \<Rightarrow>
          let d1 = notify_sm EV_START_STREAM d in
          case audio_manager_start_stream pf p (dv_audio d1) of
            (e, a) \<Rightarrow>
              let d2 = d1\<lparr>dv_audio := a\<rparr> in
              if e = ESP_OK then
                (notify_sm EV_STREAM_STARTED d2, [stream_started_msg rid (ap_stream_id p)])
              else if e = ESP_ERR_INVALID_STATE then
                (case audio_manager_start_stream pf2 p (audio_manager_stop_stream a) of
                   (e2, a2) \<Rightarrow>
                     let d3 = d2\<lparr>dv_audio := a2\<rparr> in
                     if e2 = ESP_OK
                     then (notify_sm EV_STREAM_STARTED d3, [stream_started_msg rid (ap_stream_id p)])
                     else (notify_sm EV_STOP_STREAM d3, [error_reply rid ''internal'' ''stream restart failed'']))
              else (notify_sm EV_STOP_STREAM d2, [error_reply rid ''invalid_config'' ''start_stream rejected'']))"

definition handle_stop :: "string option \<Rightarrow> device \<Rightarrow> device \<times> json list" where
  "handle_stop rid d =
     (let sid = take 63 (am_stream_id (dv_audio d));
          d1 = notify_sm EV_STOP_STREAM (d\<lparr>dv_audio := audio_manager_stop_stream (dv_audio d)\<rparr>)
      in (d1, [stream_stopped_msg rid sid d1]))"

definition pin_out_of_range :: "int \<Rightarrow> bool" where
  "pin_out_of_range v \<longleftrightarrow> v \<noteq> - 1 \<and> (v < 0 \<or> 47 < v)"

definition store_pin :: "string \<Rightarrow> int \<Rightarrow> (string \<rightharpoonup> nvs_value) \<Rightarrow> (string \<rightharpoonup> nvs_value)" where
  "store_pin name v nvs = (if v \<noteq> - 1 then nvs(name \<mapsto> NvsI32 v) else nvs)"

definition handle_set_config :: "cjson \<Rightarrow> json \<Rightarrow> string option \<Rightarrow> device \<Rightarrow> device \<times> json list" where
  "handle_set_config cj root rid d =
     (let it = cj_get cj (Some root);
          d1 = (case as_number cj (it ''default_bitrate'') of
                  None \<Rightarrow> d
                | Some br \<Rightarrow> d\<lparr>dv_audio := snd (audio_manager_apply_config (word_of_int br) (dv_audio d)),
                    dv_nvs := (dv_nvs d)(''def_bitrate'' \<mapsto> NvsU32 (word_of_int br))\<rparr>);
          d2 = (case as_string (it ''server_host'') of
                  None \<Rightarrow> d1
                | Some host \<Rightarrow> d1\<lparr>dv_nvs := (dv_nvs d1)(''server_host'' \<mapsto> NvsStr host)\<rparr>);
          bclk = as_number cj (it ''i2s_bclk''); ws = as_number cj (it ''i2s_ws''); din = as_number cj (it ''i2s_din'')
      in if bclk = None \<and> ws = None \<and> din = None then (d2, [status_reply rid d2])
         else
           let b = or_else bclk (- 1); w = or_else ws (- 1); n = or_else din (- 1) in
           if pin_out_of_range b \<or> pin_out_of_range w \<or> pin_out_of_range n
           then (d2, [error_reply rid ''invalid_config'' ''i2s_bclk/i2s_ws/i2s_din must be in range 0..47'',
                      status_reply rid d2])
           else let d3 = d2\<lparr>dv_nvs := store_pin ''i2s_din'' n (store_pin ''i2s_ws'' w (store_pin ''i2s_bclk'' b (dv_nvs d2)))\<rparr>
                in (d3, [status_reply rid d3]))"

text \<open>\<open>strcmp\<close> with a literal: the bytes up to the first zero.\<close>

definition is_type :: "bytes \<Rightarrow> string \<Rightarrow> bool" where
  "is_type t name \<longleftrightarrow> takeWhile (\<lambda>b. b \<noteq> 0) t = str_bytes name"

definition handle_message :: "cjson \<Rightarrow> platform \<Rightarrow> platform \<Rightarrow> bytes \<Rightarrow> device \<Rightarrow> device \<times> json list" where
  "handle_message cj pf pf2 payload d =
     (case cp_message_type (Some payload) 32 of
        Inl e \<Rightarrow> (d, [])
      | Inr t \<Rightarrow>
          (case cj_parse cj payload of
             None \<Rightarrow> (d, [])
           | Some root \<Rightarrow>
               let rid = as_string (cj_get cj (Some root) ''request_id'') in
               if is_type t ''hello_ack'' then (notify_sm EV_CONTROL_CONNECTED (d\<lparr>dv_connected := True\<rparr>), [])
               else if is_type t ''ping'' then (d, [pong_msg])
               else if is_type t ''pong'' then (d, [])
               else if is_type t ''start_stream'' then handle_start cj pf pf2 root rid d
               else if is_type t ''stop_stream'' then handle_stop rid d
               else if is_type t ''get_status'' then (d, [status_reply rid d])
               else if is_type t ''set_config'' then handle_set_config cj root rid d
               else (d, [])))"

section \<open>Connection and device\<close>

text \<open>
  The frames of one read, in order; \<open>pfs\<close> is what the platform does at the starts they may ask
  for.
\<close>

fun handle_frames :: "cjson \<Rightarrow> (nat \<Rightarrow> platform) \<Rightarrow> bytes list \<Rightarrow> device \<Rightarrow> device \<times> json list" where
  "handle_frames cj pfs [] d = (d, [])"
| "handle_frames cj pfs (f # fs) d =
     (case handle_message cj (pfs 0) (pfs 1) f d of
        (d1, out) \<Rightarrow> (case handle_frames cj (\<lambda>n. pfs (n + 2)) fs d1 of (d2, out') \<Rightarrow> (d2, out @ out')))"

text \<open>
  \<open>control_task_fn\<close>, cut where it blocks: an attempt to connect, a session's reads, the end of a
  session, and the grace period after it.
\<close>

definition connect_attempt :: "bool \<Rightarrow> bool \<Rightarrow> device \<Rightarrow> device \<times> json list" where
  "connect_attempt opened psram d =
     (let d1 = notify_sm EV_CONTROL_CONNECT d in
      if \<not> opened then (notify_sm EV_CONTROL_LOST d1, [])
      else (d1\<lparr>dv_phase := InSession, dv_dec := cp_decoder_init (dv_dec d1)\<rparr>, [hello_msg psram d1]))"

definition end_session :: "device \<Rightarrow> device" where
  "end_session d =
     (let d1 = notify_sm EV_CONTROL_LOST (d\<lparr>dv_connected := False\<rparr>) in
      d1\<lparr>dv_phase := (if am_streaming (dv_audio d1) then InGrace else LoopHead)\<rparr>)"

definition end_grace :: "device \<Rightarrow> device" where
  "end_grace d =
     (let d1 = (if \<not> dv_connected d \<and> am_streaming (dv_audio d)
                then notify_sm EV_STOP_STREAM (d\<lparr>dv_audio := audio_manager_stop_stream (dv_audio d)\<rparr>) else d)
      in d1\<lparr>dv_phase := LoopHead\<rparr>)"

definition session_read :: "cjson \<Rightarrow> (nat \<Rightarrow> platform) \<Rightarrow> bytes \<Rightarrow> device \<Rightarrow> device \<times> json list" where
  "session_read cj pfs bs d =
     (case cp_decoder_push (Some (dv_dec d)) bs of
        Some ((rc, fs), Some dec) \<Rightarrow>
          (case handle_frames cj pfs fs (d\<lparr>dv_dec := dec\<rparr>) of
             (d1, out) \<Rightarrow> (if rc = CP_ERR_OVERSIZE then end_session d1 else d1, out))
      | _ \<Rightarrow> (d, []))"

text \<open>
  The events of the running device: the Wi-Fi callbacks of \<open>app_main.c\<close> (\<open>GotIp\<close> says whether
  \<open>control_task_start\<close> succeeded), the health timer, the pipeline's tasks, and the control task's.
\<close>

datatype device_event =
    GotIp bool | Disconnected | ProvisioningStarted | Provisioned
  | HealthTimer bool bool health_report
  | Pipeline "opus_ctx \<Rightarrow> int list \<Rightarrow> int + bytes" pipe_event
  | ConnectAttempt bool bool
  | Read "nat \<Rightarrow> platform" bytes
  | Keepalive
  | SessionEnd
  | GraceEnd

fun device_step :: "cjson \<Rightarrow> device \<Rightarrow> device_event \<Rightarrow> device \<times> json list" where
  "device_step cj d (GotIp started) =
     (let d1 = notify_sm EV_WIFI_CONNECTED d in
      (if dv_phase d1 = NotStarted \<and> started then d1\<lparr>dv_phase := LoopHead, dv_connected := False\<rparr> else d1, []))"
| "device_step cj d Disconnected = (notify_sm EV_WIFI_LOST d, [])"
| "device_step cj d ProvisioningStarted = (d\<lparr>dv_sm := SM_PROVISIONING\<rparr>, [])"
| "device_step cj d Provisioned = (notify_sm EV_PROVISIONED d, [])"
| "device_step cj d (HealthTimer rl ql sys) = (d\<lparr>dv_health := snapshot rl ql sys (dv_audio d)\<rparr>, [])"
| "device_step cj d (Pipeline enc ev) = 
     (if am_streaming (dv_audio d) then d\<lparr>dv_audio := fst (pipe_step enc (dv_audio d) ev)\<rparr> else d, [])"
| "device_step cj d (ConnectAttempt opened psram) =
     (if dv_phase d = LoopHead then connect_attempt opened psram d else (d, []))"
| "device_step cj d (Read pfs bs) = (if dv_phase d = InSession then session_read cj pfs bs d else (d, []))"
| "device_step cj d Keepalive = (d, if dv_phase d = InSession then [ping_msg] else [])"
| "device_step cj d SessionEnd = (if dv_phase d = InSession then end_session d else d, [])"
| "device_step cj d GraceEnd = (if dv_phase d = InGrace then end_grace d else d, [])"

definition no_report :: health_report where
  "no_report = \<lparr>hr_uptime_ms = 0, hr_free_heap = 0, hr_min_free_heap = 0, hr_free_psram = 0,
     hr_wifi_rssi = 0, hr_audio = no_stats\<rparr>"

text \<open>\<open>app_main\<close>, when the managers come up: the device as it begins to connect.\<close>

definition device_boot :: "bool \<Rightarrow> string \<Rightarrow> audio_config \<Rightarrow> (string \<rightharpoonup> nvs_value) \<Rightarrow> device" where
  "device_boot psram ident cfg nvs =
     notify_sm EV_BOOT_DONE \<lparr>dv_id = ident, dv_firmware = ''1.0.0'', dv_sm = SM_BOOT,
       dv_audio = audio_manager_init psram cfg, dv_health = no_report, dv_nvs = nvs, dv_phase = NotStarted,
       dv_connected = False,
       dv_dec = \<lparr>cd_buf = replicate (CP_LENGTH_PREFIX_SIZE + CP_MAX_PAYLOAD) 0, cd_used = 0, cd_failed = False\<rparr>\<rparr>"

section \<open>What the device shows\<close>

text \<open>
  Between two events: the pipeline's resources are consistent; there is a stream only during a
  session and its grace period; \<open>IDLE\<close> and \<open>STREAMING\<close> are shown only during an established session,
  and \<open>STREAMING\<close> only while there is a stream; a start is never left half done.
\<close>

definition device_ok :: "device \<Rightarrow> bool" where
  "device_ok d \<longleftrightarrow> amgr_ok (dv_audio d) \<and>
     (am_streaming (dv_audio d) \<longrightarrow> dv_phase d = InSession \<or> dv_phase d = InGrace) \<and>
     (dv_connected d \<longrightarrow> dv_phase d = InSession) \<and>
     (dv_sm d = SM_IDLE \<longrightarrow> dv_connected d) \<and>
     (dv_sm d = SM_STREAMING \<longrightarrow> dv_connected d \<and> am_streaming (dv_audio d)) \<and>
     dv_sm d \<noteq> SM_STREAM_STARTING"

lemma notify_frame [simp]:
  "dv_audio (notify_sm ev d) = dv_audio d" "dv_phase (notify_sm ev d) = dv_phase d"
  "dv_connected (notify_sm ev d) = dv_connected d" "dv_sm (notify_sm ev d) = sm_handle_event (dv_sm d) ev"
  "dv_nvs (notify_sm ev d) = dv_nvs d" "dv_dec (notify_sm ev d) = dv_dec d" "dv_health (notify_sm ev d) = dv_health d"
  by (simp_all add: notify_sm_def)

lemma amgr_after_start:
  assumes "amgr_ok m" "audio_manager_start_stream pf p m = (e, m')"
  shows "amgr_ok m'" "e = ESP_OK \<Longrightarrow> am_streaming m' \<and> \<not> am_streaming m"
    "e \<noteq> ESP_OK \<Longrightarrow> am_streaming m' = am_streaming m"
    "am_streaming m \<Longrightarrow> e = ESP_ERR_INVALID_STATE"
proof -
  have "am_streaming (start_parts pf p m)" by (simp add: start_parts_def Let_def)
  moreover have "amgr_ok m'" if "e = ESP_OK"
    using that start_stream_cases [OF assms]
    by (auto simp: amgr_ok_def start_parts_def all_held_def set_up_def allocate_def rtp_sender_start_def
        opus_task_start_def i2s_capture_start_def Let_def)
  ultimately show "amgr_ok m'" "e = ESP_OK \<Longrightarrow> am_streaming m' \<and> \<not> am_streaming m"
    "e \<noteq> ESP_OK \<Longrightarrow> am_streaming m' = am_streaming m"
    using start_stream_cases [OF assms] scratch_ok [OF _ assms(1)] by auto
  show "am_streaming m \<Longrightarrow> e = ESP_ERR_INVALID_STATE"
    using assms by (simp add: audio_manager_start_stream_def amgr_ok_def)
qed

lemma handle_start_ok:
  assumes "device_ok d" "dv_phase d = InSession"
  shows "device_ok (fst (handle_start cj pf pf2 root rid d)) \<and> dv_phase (fst (handle_start cj pf pf2 root rid d)) = InSession"
proof (cases "parse_start_stream cj root")
  case None
  with assms show ?thesis by (simp add: handle_start_def)
next
  case (Some p)
  obtain e a where run: "audio_manager_start_stream pf p (dv_audio d) = (e, a)" by force
  obtain e2 a2 where run2: "audio_manager_start_stream pf2 p (audio_manager_stop_stream a) = (e2, a2)" by force
  have ok: "amgr_ok (dv_audio d)" using assms by (simp add: device_ok_def)
  note start = amgr_after_start [OF ok run]
  note stop = stop_stream_ok [OF start(1)]
  note again = amgr_after_start [OF conjunct1 [OF stop] run2]
  let ?sm = "sm_handle_event (dv_sm d) EV_START_STREAM"
  have sm: "?sm = SM_STREAM_STARTING \<or> ?sm = SM_STREAMING \<Longrightarrow> dv_connected d"
    "?sm = SM_STREAMING \<Longrightarrow> am_streaming (dv_audio d)" "?sm \<noteq> SM_IDLE"
    using assms by (cases "dv_sm d"; simp add: device_ok_def)+
  have started: "sm_handle_event ?sm EV_STREAM_STARTED \<notin> {SM_IDLE, SM_STREAM_STARTING}"
    "sm_handle_event ?sm EV_STREAM_STARTED = SM_STREAMING \<Longrightarrow> dv_connected d"
    using sm by (cases ?sm; simp)+
  have stopped: "sm_handle_event ?sm EV_STOP_STREAM \<notin> {SM_STREAMING, SM_STREAM_STARTING}"
    "sm_handle_event ?sm EV_STOP_STREAM = SM_IDLE \<Longrightarrow> dv_connected d"
    using sm by (cases ?sm; simp)+
  show ?thesis
  proof (cases "e = ESP_OK")
    case True
    with Some run start started assms show ?thesis
      by (simp add: handle_start_def Let_def device_ok_def)
  next
    case failed: False
    show ?thesis
    proof (cases "e = ESP_ERR_INVALID_STATE")
      case True
      with failed Some run run2 again stop started stopped assms show ?thesis
        by (cases "e2 = ESP_OK") (simp_all add: handle_start_def Let_def device_ok_def)
    next
      case False
      with failed Some run start stopped assms show ?thesis
        by (simp add: handle_start_def Let_def device_ok_def)
    qed
  qed
qed

lemma handle_stop_ok:
  assumes "device_ok d" "dv_phase d = InSession"
  shows "device_ok (fst (handle_stop rid d)) \<and> dv_phase (fst (handle_stop rid d)) = InSession"
  using assms stop_stream_ok [of "dv_audio d"]
  by (cases "dv_sm d") (simp_all add: handle_stop_def Let_def device_ok_def)

lemma apply_config_frame:
  "amgr_ok m \<Longrightarrow> amgr_ok (snd (audio_manager_apply_config b m)) \<and>
    am_streaming (snd (audio_manager_apply_config b m)) = am_streaming m"
  by (auto simp: audio_manager_apply_config_def amgr_ok_def all_held_def none_held_def)

lemma handle_set_config_ok:
  assumes "device_ok d" "dv_phase d = InSession"
  shows "device_ok (fst (handle_set_config cj root rid d)) \<and> dv_phase (fst (handle_set_config cj root rid d)) = InSession"
  using assms apply_config_frame [of "dv_audio d"]
  by (simp add: handle_set_config_def Let_def device_ok_def split: option.splits)

lemma handle_message_ok:
  assumes "device_ok d" "dv_phase d = InSession" "handle_message cj pf pf2 payload d = (d', out)"
  shows "device_ok d' \<and> dv_phase d' = InSession"
proof -
  have ack: "device_ok (notify_sm EV_CONTROL_CONNECTED (d\<lparr>dv_connected := True\<rparr>))"
    using assms(1, 2) by (cases "dv_sm d") (simp_all add: device_ok_def)
  show ?thesis
    using assms ack handle_start_ok [OF assms(1, 2)] handle_stop_ok [OF assms(1, 2)]
      handle_set_config_ok [OF assms(1, 2)]
    by (auto simp: handle_message_def Let_def prod_eq_iff split: sum.splits option.splits if_splits)
qed

lemma handle_frames_ok:
  "device_ok d \<Longrightarrow> dv_phase d = InSession \<Longrightarrow>
    device_ok (fst (handle_frames cj pfs fs d)) \<and> dv_phase (fst (handle_frames cj pfs fs d)) = InSession"
proof (induction fs arbitrary: d pfs)
  case (Cons f fs)
  obtain d1 out where msg: "handle_message cj (pfs 0) (pfs 1) f d = (d1, out)" by force
  note ok = handle_message_ok [OF Cons.prems msg]
  with Cons.IH [of d1 "\<lambda>n. pfs (n + 2)"] msg show ?case by (auto split: prod.splits)
qed simp

lemma device_ok_dec: "device_ok (d\<lparr>dv_dec := dec\<rparr>) = device_ok d"
  by (simp add: device_ok_def)

lemma end_session_ok: "device_ok d \<Longrightarrow> device_ok (end_session d)"
  by (cases "dv_sm d") (simp_all add: end_session_def Let_def device_ok_def has_control_def)

lemma session_read_ok:
  assumes "device_ok d" "dv_phase d = InSession"
  shows "device_ok (fst (session_read cj pfs bs d))"
proof -
  have "device_ok (fst (handle_frames cj pfs fs (d\<lparr>dv_dec := dec\<rparr>)))" for fs dec
    using handle_frames_ok [of "d\<lparr>dv_dec := dec\<rparr>" cj pfs fs] assms by (simp add: device_ok_dec)
  with assms(1) show ?thesis
    by (auto simp: session_read_def end_session_ok split_beta split: option.splits prod.splits)
qed

lemma pipe_step_frame:
  assumes "amgr_ok m" "am_streaming m"
  shows "amgr_ok (fst (pipe_step enc m ev)) \<and> am_streaming (fst (pipe_step enc m ev))"
proof (cases ev)
  case (Captured got locked)
  with assms show ?thesis
    by (auto simp: capture_step_def amgr_ok_def all_held_def split: option.splits)
next
  case (Encoded rl ql)
  with assms show ?thesis
    by (auto simp: opus_step_def take_frame_of_def amgr_ok_def all_held_def Let_def
        split: option.splits prod.splits sum.splits if_splits)
next
  case (Sent locked sent)
  with assms show ?thesis
    by (auto simp: rtp_step_def amgr_ok_def all_held_def Let_def split: option.splits prod.splits if_splits)
qed

lemma device_step_ok:
  assumes ok: "device_ok d"
  shows "device_ok (fst (device_step cj d ev))"
proof (cases ev)
  case (GotIp started)
  with ok show ?thesis by (cases "dv_sm d") (auto simp: device_ok_def Let_def)
next
  case Disconnected
  with ok show ?thesis by (cases "dv_sm d") (auto simp: device_ok_def has_network_def)
next
  case ProvisioningStarted
  with ok show ?thesis by (simp add: device_ok_def)
next
  case Provisioned
  with ok show ?thesis by (cases "dv_sm d") (auto simp: device_ok_def)
next
  case (HealthTimer h)
  with ok show ?thesis by (simp add: device_ok_def)
next
  case (Pipeline enc pe)
  with ok pipe_step_frame [of "dv_audio d" enc pe] show ?thesis by (auto simp: device_ok_def)
next
  case (ConnectAttempt opened psram)
  with ok show ?thesis
    by (cases "dv_sm d") (auto simp: connect_attempt_def device_ok_def Let_def has_control_def)
next
  case (Read pfs bs)
  with ok session_read_ok [of d cj pfs bs] show ?thesis by simp
next
  case Keepalive
  with ok show ?thesis by simp
next
  case SessionEnd
  with ok show ?thesis by (simp add: end_session_ok)
next
  case GraceEnd
  with ok stop_stream_ok [of "dv_audio d"] show ?thesis
    by (cases "dv_sm d") (auto simp: end_grace_def device_ok_def Let_def)
qed

interpretation device_events: event_machine "\<lambda>d ev. fst (device_step cj d ev)" device_ok for cj
  by unfold_locales (rule device_step_ok)

lemma device_boot_ok: "device_ok (device_boot psram ident cfg nvs)"
  using audio_manager_init_ok [of psram cfg]
  by (simp add: device_boot_def device_ok_def audio_manager_init_def amgr_zero_def)

definition device_run :: "cjson \<Rightarrow> device \<Rightarrow> device_event list \<Rightarrow> device" where
  "device_run cj d evs = foldl (\<lambda>d ev. fst (device_step cj d ev)) d evs"

section \<open>What the state shows\<close>



text \<open>A connection lost while streaming: once the grace period is over, the stream is stopped whether the
  server is back or not, and only then is the next connection tried.\<close>

theorem grace_spares_no_stream:
  assumes "d = device_run cj (device_boot psram ident cfg nvs) evs" "dv_phase d = InGrace"
  shows "am_streaming (dv_audio (fst (device_step cj d (ConnectAttempt opened p)))) = am_streaming (dv_audio d)"
    and "fst (device_step cj d (ConnectAttempt opened p)) = d"
    and "\<not> am_streaming (dv_audio (fst (device_step cj d GraceEnd)))"
proof -
  have "device_ok d"
    using device_events.run_inv [OF device_boot_ok] assms(1) by (simp add: device_run_def)
  then show "\<not> am_streaming (dv_audio (fst (device_step cj d GraceEnd)))"
    using assms(2) by (auto simp: device_ok_def end_grace_def Let_def amgr_ok_def audio_manager_stop_stream_def)
qed (use assms(2) in simp_all)

end
