(* ===== verification/Device_Link.thy ===== *)
theory Device_Link
  imports Device_Control
begin

text \<open>
  The firmware against the server: \<open>src/client/components/control/control_task.c\<close> and
  \<open>src/server/internal/control\<close> joined by the frames between them. The two JSON libraries are
  parameters, related by what they document (\<open>json_link\<close>). The server's commands are handled by the
  firmware's model and its answers decoded by the server's.
\<close>

section \<open>The two ends of the link\<close>

text \<open>Trees of printable ASCII strings and integers, which both JSON libraries carry unchanged.\<close>

definition plain_string :: "string \<Rightarrow> bool" where
  "plain_string s \<longleftrightarrow> list_all (\<lambda>c. 32 \<le> (of_char c :: nat) \<and> (of_char c :: nat) < 127) s"

fun plain_json :: "json \<Rightarrow> bool" where
  "plain_json JNull \<longleftrightarrow> True"
| "plain_json (JBool b) \<longleftrightarrow> True"
| "plain_json (JNum s) \<longleftrightarrow> (case Atoi s of None \<Rightarrow> False | Some i \<Rightarrow> Itoa i = s \<and> \<bar>i\<bar> < 2 ^ 53)"
| "plain_json (JStr s) \<longleftrightarrow> plain_string s"
| "plain_json (JArr js) \<longleftrightarrow> list_all plain_json js"
| "plain_json (JObj ms) \<longleftrightarrow> list_all (\<lambda>m. plain_string (fst m) \<and> plain_json (snd m)) ms"

text \<open>
  What the libraries document. cJSON finds the first member of a name, reads an integer literal below
  \<open>2\<^sup>5\<^sup>3\<close> exactly, parses what \<open>encoding/json\<close> printed and prints what \<open>encoding/json\<close> parses;
  \<open>encoding/json\<close> prints a struct's fields in their order, and a message's first one is its type.
\<close>

definition json_link :: "cjson \<Rightarrow> (json \<Rightarrow> goerr + bytes) \<Rightarrow> (bytes \<Rightarrow> json option) \<Rightarrow> bool" where
  "json_link cj marshal parse \<longleftrightarrow>
     (\<forall>ms k. cj_item cj (JObj ms) k = map_of ms k) \<and>
     (\<forall>i. \<bar>i\<bar> < 2 ^ 53 \<longrightarrow> cj_number cj (Itoa i) = i) \<and>
     (\<forall>j bs. plain_json j \<and> marshal j = Inr bs \<longrightarrow> cj_parse cj bs = Some j) \<and>
     (\<forall>j text. plain_json j \<and> cj_print cj j = Some text \<longrightarrow> parse text = Some j) \<and>
     (\<forall>m bs. marshal (message_json m) = Inr bs \<longrightarrow>
        (\<exists>rest. bs = 123 # type_key @ [58, 34] @ str_bytes (Kind m) @ 34 # rest))"

text \<open>The type scanner finds the type of every message of the server.\<close>

lemma str_bytes_eq_iff: "str_bytes a = str_bytes b \<longleftrightarrow> a = b"
proof
  assume "str_bytes a = str_bytes b"
  moreover have "byte_of_char c = byte_of_char d \<Longrightarrow> c = d" for c d
    by (simp add: byte_of_char_def of_nat_inverse word_unat_eq_iff unsigned_of_nat take_bit_nat_eq_self
        of_char_eq_iff)
  ultimately show "a = b" unfolding str_bytes_def by (metis (no_types) inj_onI map_inj_on)
qed simp

lemma kind_bytes: "34 \<notin> set (str_bytes (Kind m))" "length (Kind m) < 32"
  "takeWhile (\<lambda>b. b \<noteq> 0) (str_bytes (Kind m)) = str_bytes (Kind m)"
  by (cases m; simp add: str_bytes_def byte_of_char_def)+

lemma is_type_kind: "is_type (str_bytes (Kind m)) name \<longleftrightarrow> Kind m = name"
  by (simp add: is_type_def kind_bytes str_bytes_eq_iff)

lemma server_message_handled:
  assumes "json_link cj marshal parse" "marshal (message_json m) = Inr payload" "plain_json (message_json m)"
  shows "cp_message_type (Some payload) 32 = Inr (str_bytes (Kind m))" "cj_parse cj payload = Some (message_json m)"
proof -
  obtain rest where "payload = 123 # type_key @ [58, 34] @ str_bytes (Kind m) @ 34 # rest"
    using assms unfolding json_link_def by blast
  then show "cp_message_type (Some payload) 32 = Inr (str_bytes (Kind m))"
    using kind_bytes(1, 2) [of m] by (intro cp_message_type_first [where rest = rest]) simp_all
  show "cj_parse cj payload = Some (message_json m)"
    using assms unfolding json_link_def by blast
qed

lemma server_message_request:
  assumes "json_link cj marshal parse"
  shows "as_string (cj_get cj (Some (message_json (StartStream r))) ''request_id'') = Some (ss_RequestID r)"
    "as_string (cj_get cj (Some (message_json (StopStream rid sid))) ''request_id'') = Some rid"
  using assms
  by (simp_all add: json_link_def cj_get_def message_json_def member_def field_name.simps as_string_def)

text \<open>A start command the firmware can carry out.\<close>

definition supported :: "start_stream \<Rightarrow> bool" where
  "supported r \<longleftrightarrow> cd_Name (ss_Codec r) = ''opus'' \<and> cd_SampleRate (ss_Codec r) = 48000 \<and>
     cd_Channels (ss_Codec r) = 2 \<and> cd_FrameMS (ss_Codec r) = 20 \<and>
     0 \<le> cd_Bitrate (ss_Codec r) \<and> cd_Bitrate (ss_Codec r) < 2 ^ 31 \<and> \<bar>cd_Complexity (ss_Codec r)\<bar> < 2 ^ 31 \<and>
     ds_IP (ss_Destination r) \<noteq> '''' \<and> length (ds_IP (ss_Destination r)) \<le> 45 \<and> ds_Port (ss_Destination r) \<noteq> 0 \<and>
     ss_PayloadType r \<noteq> 0 \<and> ss_PayloadType r < 128 \<and> length (ss_StreamID r) \<le> 63 \<and>
     plain_string (ss_RequestID r) \<and> plain_string (ss_StreamID r) \<and> plain_string (ds_IP (ss_Destination r))"

definition requested :: "start_stream \<Rightarrow> stream_params" where
  "requested r = \<lparr>ap_stream_id = ss_StreamID r, ap_dest_ip = ds_IP (ss_Destination r),
     ap_dest_port = ds_Port (ss_Destination r), ap_payload_type = ss_PayloadType r, ap_sample_rate = 48000,
     ap_channels = 2, ap_frame_ms = 20, ap_bitrate = word_of_int (cd_Bitrate (ss_Codec r)),
     ap_vbr = cd_VBR (ss_Codec r), ap_fec = cd_FEC (ss_Codec r), ap_dtx = cd_DTX (ss_Codec r)\<rparr>"

lemma plain_field: "plain_string (field_name f)"
  by (cases f; simp add: plain_string_def field_name.simps)

lemma plain_number: "\<bar>i\<bar> < 2 ^ 53 \<Longrightarrow> plain_json (JNum (Itoa i))"
proof -
  assume "\<bar>i\<bar> < 2 ^ 53"
  then have "in_int64 i" by (auto simp: in_int64_def abs_less_iff)
  with \<open>\<bar>i\<bar> < 2 ^ 53\<close> show ?thesis by (simp only: plain_json.simps Atoi_Itoa option.case simp_thms)
qed

lemma plain_kind: "plain_string (Kind m)"
  by (cases m; simp add: plain_string_def)

lemma plain_start:
  assumes "supported r"
  shows "plain_json (message_json (StartStream r))"
proof -
  have names: "plain_string ''start_stream''" "plain_string ''opus''" by (simp_all add: plain_string_def)
  have "uint (ds_Port (ss_Destination r)) < 2 ^ 16" "uint (ss_PayloadType r) < 2 ^ 8"
    using uint_bounded [of "ds_Port (ss_Destination r)"] uint_bounded [of "ss_PayloadType r"] by simp_all
  then have "plain_json (juint (ds_Port (ss_Destination r)))" "plain_json (juint (ss_PayloadType r))"
    unfolding juint_def by (auto intro!: plain_number simp del: plain_json.simps)
  moreover have "plain_json (jint 48000)" "plain_json (jint 2)" "plain_json (jint 20)"
    "plain_json (jint (cd_Bitrate (ss_Codec r)))" "plain_json (jint (cd_Complexity (ss_Codec r)))"
    using assms unfolding jint_def supported_def by (auto intro!: plain_number simp del: plain_json.simps)
  ultimately show ?thesis
    using assms names
    by (simp add: message_json_def member_def plain_field destination_json_def codec_json_def rtp_json_def
        supported_def juint_def jint_def)
qed

lemma parse_server_start:
  assumes "json_link cj marshal parse" "supported r"
  shows "parse_start_stream cj (message_json (StartStream r)) = Some (requested r)"
proof -
  have item: "cj_item cj (JObj ms) k = map_of ms k" for ms k
    using assms(1) by (simp add: json_link_def)
  have num: "\<bar>i\<bar> < 2 ^ 53 \<Longrightarrow> cj_number cj (Itoa i) = i" for i
    using assms(1) by (simp add: json_link_def)
  have "uint (ds_Port (ss_Destination r)) < 2 ^ 16" "uint (ss_PayloadType r) < 2 ^ 8"
    using uint_bounded [of "ds_Port (ss_Destination r)"] uint_bounded [of "ss_PayloadType r"] by simp_all
  then have words: "cj_number cj (Itoa (uint (ds_Port (ss_Destination r)))) = uint (ds_Port (ss_Destination r))"
    "cj_number cj (Itoa (uint (ss_PayloadType r))) = uint (ss_PayloadType r)"
    by (auto intro!: num)
  have ints: "cj_number cj (Itoa 48000) = 48000" "cj_number cj (Itoa 2) = 2" "cj_number cj (Itoa 20) = 20"
    "cj_number cj (Itoa (cd_Bitrate (ss_Codec r))) = cd_Bitrate (ss_Codec r)"
    using assms(2) by (auto intro!: num simp: supported_def)
  show ?thesis
    using assms(2) words ints
    by (simp add: parse_start_stream_def Let_def cj_get_def item message_json_def member_def field_name.simps
        destination_json_def codec_json_def rtp_json_def as_string_def as_number_def as_bool_def or_else_def
        juint_def jint_def supported_def requested_def)
qed

text \<open>A platform on which nothing fails.\<close>

definition works :: "platform \<Rightarrow> bool" where
  "works pf \<longleftrightarrow> pf_ring pf \<noteq> None \<and> pf_arena pf \<noteq> None \<and> pf_lengths pf \<noteq> None \<and> pf_ring_lock pf \<and>
     pf_queue_lock pf \<and> pf_rtp pf = (\<lambda>ip port. ESP_OK) \<and> pf_opus pf = ESP_OK \<and> pf_i2s pf = ESP_OK"

lemma requested_valid: "supported r \<Longrightarrow> validate (requested r) = ESP_OK"
  by (simp add: validate_def requested_def supported_def I2S_CAP_SAMPLE_RATE_def I2S_CAP_CHANNELS_def)

lemma start_works:
  assumes "amgr_ok m" "am_inited m" "\<not> am_streaming m" "validate p = ESP_OK" "works pf"
  shows "audio_manager_start_stream pf p m = (ESP_OK, start_parts pf p m)"
proof -
  obtain e m' where run: "audio_manager_start_stream pf p m = (e, m')" by force
  moreover have "e = ESP_OK"
    using run assms by (simp add: audio_manager_start_stream_def Let_def allocate_def works_def
        rtp_sender_start_def opus_task_start_def i2s_capture_start_def split: prod.splits)
  ultimately show ?thesis using start_stream_cases [OF assms(1) run] by simp
qed

text \<open>What the firmware prints, frames and sends, the server's reader and decoder get.\<close>

lemma replies_arrive:
  assumes "json_link cj marshal parse"
    and "\<forall>j\<in>set out. plain_json j \<and> (\<exists>bs. cj_print cj j = Some bs \<and> length bs \<le> MaxPayloadBytes)"
    and "concat up = device_wire cj out"
  shows "map (DecodePayload parse) (fst (fst (fr_push_all \<lparr>fr_buf = []\<rparr> up))) = map decode_json out"
proof -
  let ?txt = "\<lambda>j. the (cj_print cj j)"
  have printed: "cj_print cj j = Some (?txt j) \<and> length (?txt j) \<le> MaxPayloadBytes \<and> parse (?txt j) = Some j"
    if "j \<in> set out" for j
    using that assms(1, 2) unfolding json_link_def by force
  have "device_wire cj out = concat (map encode_frame (map ?txt out))"
    unfolding device_wire_def using printed
    by (intro arg_cong [where f = concat]) (fastforce simp: device_frame_eq split: option.splits)
  moreover have "\<forall>p\<in>set (map ?txt out). length p \<le> MaxPayloadBytes" using printed by auto
  ultimately have "fst (fr_push_all \<lparr>fr_buf = []\<rparr> up) = (map ?txt out, None)"
    using frames_of_encode [of "map ?txt out"] assms(3) by (simp add: server_reads_stream oversize_def)
  with printed show ?thesis by (simp add: DecodePayload_def)
qed

section \<open>Starting a stream\<close>

lemma handle_start_works:
  assumes "parse_start_stream cj root = Some p" "amgr_ok (dv_audio d)" "am_inited (dv_audio d)"
    "\<not> am_streaming (dv_audio d)" "dv_sm d = SM_IDLE" "validate p = ESP_OK" "works pf"
  shows "handle_start cj pf pf2 root rid d =
    (d\<lparr>dv_sm := SM_STREAMING, dv_audio := start_parts pf p (dv_audio d)\<rparr>, [stream_started_msg rid (ap_stream_id p)])"
  using assms start_works [of "dv_audio d" p pf]
  by (simp add: handle_start_def Let_def notify_sm_def)

text \<open>C6. One start, from the server's command to the server's event. The payload the server encodes for
  \<open>start_stream\<close> is scanned, parsed and validated by an idle, connected firmware, which (when nothing on its
  platform fails) brings up a pipeline of the requested stream identifier, towards the requested address,
  port and payload type, and moves to \<open>STREAMING\<close>; its answer, in whatever pieces the network delivers it,
  is read by the server's framing and decoded by its \<open>Decode\<close> as \<open>StreamStarted\<close> of the same request and
  stream, and nothing else.
\<close>

theorem start_stream_end_to_end:
  assumes "json_link cj marshal parse" "Encode marshal (StartStream r) = Inr payload" "supported r"
    and "device_ok d" "dv_sm d = SM_IDLE" "am_inited (dv_audio d)" "\<not> am_streaming (dv_audio d)"
    and "works pf" "platform_ok (am_psram (dv_audio d)) pf"
    and "handle_message cj pf pf2 payload d = (d', out)"
    and "cj_print cj (stream_started_msg (Some (ss_RequestID r)) (ss_StreamID r)) = Some reply"
      "length reply \<le> MaxPayloadBytes" "concat up = device_wire cj out"
  shows "dv_sm d' = SM_STREAMING \<and> device_ok d' \<and> am_streaming (dv_audio d') \<and>
    am_stream_id (dv_audio d') = ss_StreamID r \<and>
    (\<exists>x. am_rtp (dv_audio d') = Some x \<and> rx_dest_ip x = ds_IP (ss_Destination r) \<and>
       rx_dest_port x = ds_Port (ss_Destination r) \<and> rs_payload_type (rx_rtp x) = ss_PayloadType r) \<and>
    map (DecodePayload parse) (fst (fst (fr_push_all \<lparr>fr_buf = []\<rparr> up))) =
      [Inr (StreamStarted (ss_RequestID r) (ss_StreamID r))]"
proof -
  let ?m = "StartStream r" and ?a = "dv_audio d" and ?p = "requested r"
  let ?started = "stream_started_msg (Some (ss_RequestID r)) (ss_StreamID r)"
  have encoded: "marshal (message_json ?m) = Inr payload" using assms(2) by (simp add: Encode_def)
  note kind = is_type_kind [of ?m, unfolded Kind.simps]
  note msg = server_message_handled [OF assms(1) encoded plain_start [OF assms(3)]]
  have audio: "amgr_ok ?a" using assms(4) by (simp add: device_ok_def)
  have run: "d' = d\<lparr>dv_sm := SM_STREAMING, dv_audio := start_parts pf ?p ?a\<rparr>" "out = [?started]"
    using assms(10) handle_start_works [OF parse_server_start [OF assms(1,3)] audio assms(6,7,5)
        requested_valid [OF assms(3)] assms(8), of pf2 "Some (ss_RequestID r)"]
    by (simp_all add: handle_message_def msg Let_def kind server_message_request [OF assms(1)] requested_def)
  have fields: "take 45 (ap_dest_ip ?p) = ds_IP (ss_Destination r)" "ap_dest_port ?p = ds_Port (ss_Destination r)"
    "stream_payload_type ?p = ss_PayloadType r" "ss_PayloadType r < 128" "take 63 (ap_stream_id ?p) = ss_StreamID r"
    using assms(3) by (simp_all add: requested_def supported_def stream_payload_type_def)
  have pipe: "\<exists>x. am_rtp (start_parts pf ?p ?a) = Some x \<and> rx_dest_ip x = ds_IP (ss_Destination r) \<and>
       rx_dest_port x = ds_Port (ss_Destination r) \<and> rs_payload_type (rx_rtp x) = ss_PayloadType r"
    using start_parts_pipe [OF assms(9), of ?p] assms(8) fields by (auto simp: works_def)
  have plain: "plain_json ?started"
    using assms(3) by (simp add: stream_started_msg_def opt_member_def supported_def) (simp add: plain_string_def)
  have server: "?started = message_json (StreamStarted (ss_RequestID r) (ss_StreamID r))"
    by (simp add: stream_started_msg_def opt_member_def message_json_def member_def field_name.simps)
  have "map (DecodePayload parse) (fst (fst (fr_push_all \<lparr>fr_buf = []\<rparr> up))) = map decode_json out"
    by (rule replies_arrive [OF assms(1) _ assms(13)]) (use plain assms(11,12) run(2) in auto)
  also have "\<dots> = [Inr (StreamStarted (ss_RequestID r) (ss_StreamID r))]"
    by (simp add: run(2) server decode_json_round)
  finally have answer: "map (DecodePayload parse) (fst (fst (fr_push_all \<lparr>fr_buf = []\<rparr> up))) =
    [Inr (StreamStarted (ss_RequestID r) (ss_StreamID r))]" .
  have "dv_phase d = InSession" using assms(4,5) by (simp add: device_ok_def)
  then have "device_ok d'" using handle_message_ok [OF assms(4) _ assms(10)] by blast
  moreover have "am_streaming (start_parts pf ?p ?a)" "am_stream_id (start_parts pf ?p ?a) = ss_StreamID r"
    by (simp_all add: start_parts_def Let_def fields)
  ultimately show ?thesis using run(1) pipe answer by simp
qed

text \<open>Two libraries that carry one command \<open>m\<close> and one answer \<open>a\<close>, printed as \<open>t\<close>.\<close>

definition link_request :: start_stream where
  "link_request = \<lparr>ss_RequestID = ''q1'', ss_StreamID = ''s1'',
     ss_Destination = \<lparr>ds_IP = ''10.0.0.2'', ds_Port = 5004\<rparr>,
     ss_Codec = \<lparr>cd_Name = ''opus'', cd_SampleRate = 48000, cd_Channels = 2, cd_FrameMS = 20, cd_Bitrate = 128000,
       cd_VBR = True, cd_FEC = False, cd_DTX = False, cd_Complexity = 5\<rparr>, ss_PayloadType = 111\<rparr>"

definition link_text :: "string \<Rightarrow> bytes" where
  "link_text kind = 123 # type_key @ [58, 34] @ str_bytes kind @ [34, 125]"

definition link_marshal :: "message \<Rightarrow> json \<Rightarrow> goerr + bytes" where
  "link_marshal m j = (if j = message_json m then Inr (link_text (Kind m)) else Inl json_error)"

definition link_parse :: "json \<Rightarrow> bytes \<Rightarrow> bytes \<Rightarrow> json option" where
  "link_parse a t bs = (if bs = t then Some a else None)"

definition link_cjson :: "message \<Rightarrow> json \<Rightarrow> bytes \<Rightarrow> cjson" where
  "link_cjson m a t = \<lparr>cj_parse = (\<lambda>bs. if bs = link_text (Kind m) then Some (message_json m) else None),
     cj_item = (\<lambda>j k. case j of JObj ms \<Rightarrow> map_of ms k | _ \<Rightarrow> None),
     cj_number = (\<lambda>s. case Atoi s of None \<Rightarrow> 0 | Some i \<Rightarrow> i),
     cj_print = (\<lambda>j. if j = a then Some t else None)\<rparr>"

definition link_device :: device where
  "link_device = (device_boot False ''d1''
     \<lparr>ac_bclk_gpio = 1, ac_ws_gpio = 2, ac_din_gpio = 3, ac_default_bitrate = 0, ac_complexity = 1\<rparr> Map.empty)
       \<lparr>dv_sm := SM_IDLE, dv_connected := True, dv_phase := InSession\<rparr>"

lemma link_json: "json_link (link_cjson m a t) (link_marshal m) (link_parse a t)"
  unfolding json_link_def
proof (intro conjI allI impI)
  fix i :: int
  assume "\<bar>i\<bar> < 2 ^ 53"
  then have "in_int64 i" by (auto simp: in_int64_def abs_less_iff)
  then show "cj_number (link_cjson m a t) (Itoa i) = i" by (simp add: link_cjson_def Atoi_Itoa)
next
  fix m' bs
  assume enc: "link_marshal m (message_json m') = Inr bs"
  then have "message_json m' = message_json m" by (simp only: link_marshal_def sum.simps split: if_splits)
  then have "Kind m' = Kind m" by (simp add: message_json_def member_def)
  with enc show "\<exists>rest. bs = 123 # type_key @ [58, 34] @ str_bytes (Kind m') @ 34 # rest"
    by (auto simp: link_marshal_def link_text_def simp del: Kind.simps split: if_splits)
qed (auto simp: link_cjson_def link_marshal_def link_parse_def split: if_splits)

lemma link_device_fields: "device_ok link_device" "dv_audio link_device = demo_manager" "dv_sm link_device = SM_IDLE"
proof -
  have audio: "dv_audio link_device = demo_manager"
    by (simp add: link_device_def device_boot_def notify_sm_def demo_manager_def)
  then show "device_ok link_device" by (simp add: device_ok_def) (simp add: link_device_def)
  show "dv_audio link_device = demo_manager" by (rule audio)
qed (simp add: link_device_def)

lemma link_platform: "works demo_platform" "platform_ok False demo_platform"
  using demo_platform_ok by (simp_all add: works_def demo_platform_def)

lemma link_request_ids: "ss_RequestID link_request = ''q1''" "ss_StreamID link_request = ''s1''"
  by (simp_all add: link_request_def)

lemma link_wire: "concat [take n w, drop n w] = w"
  by simp

abbreviation "link_started \<equiv> stream_started_msg (Some ''q1'') ''s1''"

abbreviation "link_start \<equiv> link_cjson (StartStream link_request) link_started (link_text ''stream_started'')"

lemma start_stream_end_to_end_witness:
  "\<exists>d' out. handle_message link_start demo_platform demo_platform (link_text ''start_stream'') link_device = (d', out) \<and>
     dv_sm d' = SM_STREAMING \<and> am_stream_id (dv_audio d') = ''s1'' \<and>
     map (DecodePayload (link_parse link_started (link_text ''stream_started''))) (fst (fst (fr_push_all
       \<lparr>fr_buf = []\<rparr> [take 3 (device_wire link_start out), drop 3 (device_wire link_start out)]))) =
       [Inr (StreamStarted ''q1'' ''s1'')]"
proof -
  obtain d' out where run:
    "handle_message link_start demo_platform demo_platform (link_text ''start_stream'') link_device = (d', out)"
    by force
  have command: "Encode (link_marshal (StartStream link_request)) (StartStream link_request) =
      Inr (link_text ''start_stream'')"
    by (simp add: Encode_def link_marshal_def)
  have request: "supported link_request"
    by (simp add: supported_def link_request_def) (simp add: plain_string_def)
  have answer: "cj_print link_start (stream_started_msg (Some (ss_RequestID link_request)) (ss_StreamID link_request)) =
      Some (link_text ''stream_started'')" "length (link_text ''stream_started'') \<le> MaxPayloadBytes"
    by (simp add: link_cjson_def link_request_def)
      (simp add: link_text_def type_key_def str_bytes_def MaxPayloadBytes_def)
  have audio: "am_inited (dv_audio link_device)" "\<not> am_streaming (dv_audio link_device)"
    "platform_ok (am_psram (dv_audio link_device)) demo_platform"
    using link_platform(2) by (simp_all add: link_device_fields(2))
  note result = start_stream_end_to_end [OF link_json command request link_device_fields(1,3) audio(1,2)
      link_platform(1) audio(3) run answer link_wire [of 3 "device_wire link_start out"],
      unfolded link_request_ids]
  show ?thesis
    using run result by (intro exI conjI) blast+
qed

section \<open>What the server understands\<close>

lemma statistics_unknown: "member_values (field_name f) ((''statistics'', v) # ms) = member_values (field_name f) ms"
proof -
  have "list_all (\<lambda>f. \<not> same_name ''statistics'' (field_name f)) all_fields" by code_simp
  then show ?thesis using in_all_fields [of f] by (auto simp: member_values_def list_all_iff)
qed

lemma opt_member_member: "opt_member (field_name f) v = (case v of None \<Rightarrow> [] | Some s \<Rightarrow> member f (JStr s))"
  by (simp add: opt_member_def member_def split: option.split)

lemma device_messages_members:
  "hello_msg p d = JObj (member FType (JStr ''hello'') @ member FProtocol (jint 1) @ member FDeviceID (JStr (dv_id d)) @
     member FFirmware (JStr (dv_firmware d)) @ member FCapabilities (JObj (member FSampleRates (JArr [jint 48000]) @
       member FChannels (jint 2) @ member FCodecs (JArr [JStr ''opus'']) @ member FPsram (JBool p))))"
  "pong_msg = JObj (member FType (JStr ''pong''))" "ping_msg = JObj (member FType (JStr ''ping''))"
  "error_reply rid code msg = JObj (member FType (JStr ''error'') @ opt_member (field_name FRequestID) rid @
     member FCode (JStr code) @ member FMessage (JStr msg))"
  "stream_started_msg rid sid = JObj (member FType (JStr ''stream_started'') @
     opt_member (field_name FRequestID) rid @ member FStreamID (JStr sid))"
  "stream_stopped_msg rid sid d = JObj (member FType (JStr ''stream_stopped'') @
     opt_member (field_name FRequestID) rid @ member FStreamID (JStr sid) @ [(''statistics'', stats_block (dv_health d))])"
  "status_reply rid d = JObj (member FType (JStr ''status'') @ opt_member (field_name FRequestID) rid @
     member FState (JStr (if am_streaming (dv_audio d) then ''STREAMING'' else ''IDLE'')) @
     member FStreamID (JStr (am_stream_id (dv_audio d))) @ [(''statistics'', stats_block (dv_health d))])"
  by (simp_all add: hello_msg_def pong_msg_def ping_msg_def error_reply_def stream_started_msg_def
      stream_stopped_msg_def status_reply_def member_def field_name.simps)

lemma values_opt_member [simp]:
  "member_values (field_name f) (opt_member (field_name g) v) =
     (if f = g then (case v of None \<Rightarrow> [] | Some s \<Rightarrow> [JStr s]) else [])"
  by (cases v) (simp_all add: opt_member_member values_member, simp add: member_values_def)

lemma into_opt_string [simp]:
  "into_values into_string a (case v of None \<Rightarrow> [] | Some s \<Rightarrow> [JStr s]) = Some (or_else v a)"
  by (simp add: or_else_def split: option.split)

lemmas read_message = decode_json_def into_struct_def decode_as_def member_simps statistics_unknown
  member_values_def [of _ "[]"]

lemma device_stopped_decoded:
  "decode_json (stream_stopped_msg rid sid d) = Inr (StreamStopped (or_else rid '''') sid None)"
  unfolding device_messages_members by (simp add: read_message decode_stream_stopped_def)


section \<open>Stopping a stream\<close>

text \<open>C36. One stop, from the server's command to the server's event. A streaming firmware that gets the payload
  the server encodes for \<open>stop_stream\<close> tears its whole pipeline down and is \<open>IDLE\<close> again, whichever stream
  the command names; the server decodes one answer, \<open>StreamStopped\<close> with the command's request identifier and
  the identifier of the stream that ran, without the statistics the firmware put into it.
\<close>

theorem stop_stream_end_to_end:
  assumes "json_link cj marshal parse" "Encode marshal (StopStream rid sid) = Inr payload"
    and "plain_string rid" "plain_string sid" "device_ok d" "dv_sm d = SM_STREAMING"
    and "handle_message cj pf pf2 payload d = (d', out)"
    and "plain_json (stream_stopped_msg (Some rid) (take 63 (am_stream_id (dv_audio d))) d)"
    and "cj_print cj (stream_stopped_msg (Some rid) (take 63 (am_stream_id (dv_audio d))) d) = Some reply"
      "length reply \<le> MaxPayloadBytes" "concat up = device_wire cj out"
  shows "dv_sm d' = SM_IDLE \<and> device_ok d' \<and> none_held (dv_audio d') \<and> am_stream_id (dv_audio d') = '''' \<and>
    map (DecodePayload parse) (fst (fst (fr_push_all \<lparr>fr_buf = []\<rparr> up))) =
      [Inr (StreamStopped rid (take 63 (am_stream_id (dv_audio d))) None)]"
proof -
  let ?m = "StopStream rid sid" and ?sid = "take 63 (am_stream_id (dv_audio d))"
  have encoded: "marshal (message_json ?m) = Inr payload" using assms(2) by (simp add: Encode_def)
  have plain: "plain_json (message_json ?m)"
    using assms(3,4) plain_kind [of ?m] by (simp add: message_json_def member_def plain_field)
  note kind = is_type_kind [of ?m, unfolded Kind.simps]
  note msg = server_message_handled [OF assms(1) encoded plain]
  have run: "(d', out) = handle_stop (Some rid) d"
    using assms(7) by (simp add: handle_message_def msg Let_def kind server_message_request [OF assms(1)])
  then have d': "d' = d\<lparr>dv_sm := SM_IDLE, dv_audio := audio_manager_stop_stream (dv_audio d)\<rparr>"
    and out: "out = [stream_stopped_msg (Some rid) ?sid d]"
    using assms(6) by (simp_all add: handle_stop_def Let_def notify_sm_def stream_stopped_msg_def)
  have session: "dv_phase d = InSession" "dv_connected d" "am_streaming (dv_audio d)"
    using assms(5,6) by (simp_all add: device_ok_def)
  then have ok: "device_ok d'" using handle_message_ok [OF assms(5) _ assms(7)] by blast
  have stopped: "\<not> am_streaming (dv_audio d')"
    using d' by (simp add: audio_manager_stop_stream_def Let_def)
  have "map (DecodePayload parse) (fst (fst (fr_push_all \<lparr>fr_buf = []\<rparr> up))) = map decode_json out"
    by (rule replies_arrive [OF assms(1) _ assms(11)]) (use assms(8-10) out in auto)
  also have "\<dots> = [Inr (StreamStopped rid ?sid None)]"
    by (simp add: out device_stopped_decoded or_else_def)
  finally show ?thesis using ok stopped d' by (simp add: device_ok_def amgr_ok_def)
qed

text \<open>The device of the example, streaming.\<close>

definition link_streaming :: device where
  "link_streaming = link_device\<lparr>dv_sm := SM_STREAMING, dv_audio := start_parts demo_platform demo_params demo_manager\<rparr>"

lemma link_streaming_fields: "device_ok link_streaming" "dv_sm link_streaming = SM_STREAMING"
  "am_stream_id (dv_audio link_streaming) = ''s1''" "dv_health link_streaming = no_report"
proof -
  have "amgr_ok (start_parts demo_platform demo_params demo_manager)"
    using amgr_after_start(1) [OF _ demo_started] by simp
  then show "device_ok link_streaming"
    by (simp add: device_ok_def link_streaming_def link_device_def start_parts_def Let_def)
qed (simp_all add: link_streaming_def link_device_def start_parts_def Let_def demo_params_def device_boot_def notify_sm_def)

abbreviation "link_stopped \<equiv> stream_stopped_msg (Some ''q2'') ''s1'' link_streaming"

abbreviation "link_stop \<equiv> link_cjson (StopStream ''q2'' ''s1'') link_stopped (link_text ''stream_stopped'')"

lemma stats_names_plain: "list_all plain_string [''type'', ''request_id'', ''stream_id'', ''statistics'', ''uptime_ms'',
    ''free_heap'', ''min_free_heap'', ''free_psram'', ''wifi_rssi'', ''pcm_overflow'', ''pcm_written'', ''pcm_read'',
    ''pcm_high_water'', ''pcm_low_water'', ''encoded_drops'', ''encoded_rejects'', ''encoded_pushed'',
    ''encoded_popped'', ''encoded_high_water'', ''encoder_late'', ''capture_late'', ''rtp_packets_sent'',
    ''rtp_bytes_sent'', ''rtp_send_errors'', ''rtp_ssrc'', ''stream_stopped'', ''q2'', ''s1'']"
  unfolding plain_string_def by code_simp

lemma link_stopped_plain: "plain_json link_stopped"
proof -
  have nums: "plain_json (jint 0)" "plain_json (juint (0 :: u32))" "plain_json (juint (0 :: u64))"
    unfolding jint_def juint_def by (simp_all add: plain_number del: plain_json.simps)
  show ?thesis
    using nums stats_names_plain
    by (simp add: stream_stopped_msg_def opt_member_def stats_block_def Let_def link_streaming_fields no_report_def
        no_stats_def del: plain_json.simps(3))
qed

lemma stop_stream_end_to_end_witness:
  "\<exists>d' out. handle_message link_stop demo_platform demo_platform (link_text ''stop_stream'') link_streaming = (d', out) \<and>
     dv_sm d' = SM_IDLE \<and> none_held (dv_audio d') \<and>
     map (DecodePayload (link_parse link_stopped (link_text ''stream_stopped''))) (fst (fst (fr_push_all
       \<lparr>fr_buf = []\<rparr> [take 3 (device_wire link_stop out), drop 3 (device_wire link_stop out)]))) =
       [Inr (StreamStopped ''q2'' ''s1'' None)]"
proof -
  obtain d' out where run:
    "handle_message link_stop demo_platform demo_platform (link_text ''stop_stream'') link_streaming = (d', out)"
    by force
  have command: "Encode (link_marshal (StopStream ''q2'' ''s1'')) (StopStream ''q2'' ''s1'') =
      Inr (link_text ''stop_stream'')"
    by (simp add: Encode_def link_marshal_def)
  have names: "plain_string ''q2''" "plain_string ''s1''" by (simp_all add: plain_string_def)
  have sid: "take 63 (am_stream_id (dv_audio link_streaming)) = ''s1''" by (simp add: link_streaming_fields)
  have answer: "cj_print link_stop link_stopped = Some (link_text ''stream_stopped'')"
    "length (link_text ''stream_stopped'') \<le> MaxPayloadBytes"
    by (simp add: link_cjson_def) (simp add: link_text_def type_key_def str_bytes_def MaxPayloadBytes_def)
  note result = stop_stream_end_to_end [OF link_json command names link_streaming_fields(1,2) run,
      unfolded sid, OF link_stopped_plain answer link_wire [of 3 "device_wire link_stop out"]]
  show ?thesis
    using run result by (intro exI conjI) blast+
qed

end
